(* ===== verification/Prelude.thy ===== *)
theory Prelude
  imports Main
begin

text \<open>
  Shared vocabulary of the development.

  \<^item> Errors are values. Every exception class of \<open>apps/common/exceptions.py\<close> is a
    constructor of \<open>err_kind\<close>; the other exceptions the services can meet (Django's
    \<open>ValidationError\<close>, an \<open>IntegrityError\<close>, a Python run-time error) are constructors of
    \<open>err\<close>. A fallible operation returns \<open>err + 'a\<close>. The human-readable \<open>detail\<close> text of
    an exception is not modelled; its \<open>code\<close> is.
  \<^item> A database table is an association list from row ids to rows in insertion order, so
    that queries with an \<open>order_by\<close> can be evaluated. The locale \<open>row_store\<close> states the
    laws the services rely on, and is interpreted on the list implementation below.
\<close>

section \<open>Errors and results\<close>

datatype err_kind =
    DomainValidationError
  | DomainConflictError
  | ConcurrencyConflictError
  | InvalidWorkflowDefinitionError
  | ExternalDependencyError
  | InvalidStateTransitionError
  | PayloadTooLargeError

datatype err =
    Domain err_kind string
  | DjangoValidation string
  | IntegrityErr string
  | NotFound string
  | PyError string

text \<open>The HTTP status each domain error is answered with.\<close>

fun http_status :: "err_kind \<Rightarrow> nat" where
  "http_status DomainValidationError = 400"
| "http_status DomainConflictError = 409"
| "http_status ConcurrencyConflictError = 409"
| "http_status InvalidWorkflowDefinitionError = 400"
| "http_status ExternalDependencyError = 503"
| "http_status InvalidStateTransitionError = 409"
| "http_status PayloadTooLargeError = 413"

type_synonym 'a result = "err + 'a"

text \<open>
  Sequencing: \<open>res_bind r f\<close> runs \<open>f\<close> on the value of \<open>r\<close> and passes an error on, as an
  exception that is not caught would.
\<close>

definition res_bind :: "'e + 'a \<Rightarrow> ('a \<Rightarrow> 'e + 'b) \<Rightarrow> 'e + 'b" where
  "res_bind r f = (case r of Inl e \<Rightarrow> Inl e | Inr a \<Rightarrow> f a)"

named_theorems res_simps \<open>how results are sequenced\<close>

lemma res_bind_Inl [simp]: "res_bind (Inl e) f = Inl e"
  by (simp add: res_bind_def)

lemma res_bind_Inr [simp]: "res_bind (Inr a) f = f a"
  by (simp add: res_bind_def)

lemma res_bind_eq_Inr [res_simps]:
  "res_bind r f = Inr b \<longleftrightarrow> (\<exists>a. r = Inr a \<and> f a = Inr b)"
  by (cases r) simp_all

lemma res_bind_eq_Inl [res_simps]:
  "res_bind r f = Inl e \<longleftrightarrow> r = Inl e \<or> (\<exists>a. r = Inr a \<and> f a = Inl e)"
  by (cases r) simp_all

text \<open>Running a fallible action over the elements of a list, stopping at the first error.\<close>

fun res_fold :: "('s \<Rightarrow> 'a \<Rightarrow> 'e + 's) \<Rightarrow> 's \<Rightarrow> 'a list \<Rightarrow> 'e + 's" where
  "res_fold f s [] = Inr s"
| "res_fold f s (x # xs) = res_bind (f s x) (\<lambda>s'. res_fold f s' xs)"

lemma res_fold_induct:
  assumes "res_fold f s xs = Inr s'"
    and "P s"
    and "\<And>x t t'. x \<in> set xs \<Longrightarrow> P t \<Longrightarrow> f t x = Inr t' \<Longrightarrow> P t'"
  shows "P s'"
  using assms
proof (induction xs arbitrary: s)
  case (Cons x xs)
  from Cons.prems(1) obtain t where t: "f s x = Inr t" "res_fold f t xs = Inr s'"
    by (auto simp: res_simps)
  have "P t" by (rule Cons.prems(3) [OF _ Cons.prems(2) t(1)]) simp
  then show ?case
    by (rule Cons.IH [OF t(2)]) (use Cons.prems(3) in auto)
qed simp

lemma res_fold_append:
  "res_fold f s (xs @ ys) = res_bind (res_fold f s xs) (\<lambda>t. res_fold f t ys)"
proof (induction xs arbitrary: s)
  case (Cons x xs)
  then show ?case by (cases "f s x") simp_all
qed simp

text \<open>The first element of a query, as \<open>QuerySet.first()\<close> returns it.\<close>

fun first_of :: "'a list \<Rightarrow> 'a option" where
  "first_of [] = None"
| "first_of (x # _) = Some x"

lemma first_of_SomeD: "first_of xs = Some x \<Longrightarrow> x \<in> set xs"
  by (cases xs) auto

lemma first_of_None [simp]: "first_of xs = None \<longleftrightarrow> xs = []"
  by (cases xs) auto

section \<open>Tables\<close>

type_synonym 'r table = "(nat \<times> 'r) list"

definition tget :: "'r table \<Rightarrow> nat \<Rightarrow> 'r option" where
  "tget t k = map_of t k"

definition tkeys :: "'r table \<Rightarrow> nat set" where
  "tkeys t = fst ` set t"

definition tins :: "nat \<Rightarrow> 'r \<Rightarrow> 'r table \<Rightarrow> 'r table" where
  "tins k r t = t @ [(k, r)]"

text \<open>\<open>tupd k f t\<close> saves the row \<open>k\<close> with \<open>f\<close> applied to it.\<close>

definition tupd :: "nat \<Rightarrow> ('r \<Rightarrow> 'r) \<Rightarrow> 'r table \<Rightarrow> 'r table" where
  "tupd k f t = map (\<lambda>(i, r). (i, if i = k then f r else r)) t"

text \<open>\<open>tupd_where P f t\<close> is \<open>QuerySet.filter(P).update(f)\<close>.\<close>

definition tupd_where :: "(nat \<Rightarrow> 'r \<Rightarrow> bool) \<Rightarrow> ('r \<Rightarrow> 'r) \<Rightarrow> 'r table \<Rightarrow> 'r table" where
  "tupd_where P f t = map (\<lambda>(i, r). (i, if P i r then f r else r)) t"

definition tsel :: "(nat \<Rightarrow> 'r \<Rightarrow> bool) \<Rightarrow> 'r table \<Rightarrow> 'r table" where
  "tsel P t = filter (\<lambda>(i, r). P i r) t"

definition twf :: "'r table \<Rightarrow> bool" where
  "twf t \<longleftrightarrow> distinct (map fst t)"

named_theorems table_simps \<open>lookups in changed tables\<close>

lemma tget_Nil [table_simps]: "tget [] k = None"
  by (simp add: tget_def)

lemma tget_Cons: "tget ((i, r) # t) k = (if i = k then Some r else tget t k)"
  by (simp add: tget_def)

lemma tget_tupd [table_simps]:
  "tget (tupd k f t) i = (if i = k then map_option f (tget t i) else tget t i)"
  by (induction t) (auto simp: tget_def tupd_def)

lemma tget_tins [table_simps]:
  "tget (tins k r t) i = (case tget t i of Some r' \<Rightarrow> Some r' | None \<Rightarrow> if i = k then Some r else None)"
  by (auto simp: tget_def tins_def map_add_def split: option.splits)

lemma tget_tupd_where [table_simps]:
  "tget (tupd_where P f t) i = map_option (\<lambda>r. if P i r then f r else r) (tget t i)"
  by (induction t) (auto simp: tget_def tupd_where_def)

lemma tkeys_tupd [table_simps]: "tkeys (tupd k f t) = tkeys t"
  by (force simp: tkeys_def tupd_def image_iff)

lemma tkeys_tupd_where [table_simps]: "tkeys (tupd_where P f t) = tkeys t"
  by (force simp: tkeys_def tupd_where_def image_iff)

lemma tkeys_tins [table_simps]: "tkeys (tins k r t) = insert k (tkeys t)"
  by (auto simp: tkeys_def tins_def)

lemma tget_None_iff: "tget t k = None \<longleftrightarrow> k \<notin> tkeys t"
  by (simp add: tget_def tkeys_def map_of_eq_None_iff)

lemma tget_SomeD: "tget t k = Some r \<Longrightarrow> (k, r) \<in> set t"
  by (simp add: tget_def map_of_SomeD)

lemma tget_Some_key: "tget t k = Some r \<Longrightarrow> k \<in> tkeys t"
  by (force simp: tkeys_def dest: tget_SomeD)

lemma tget_unique: "twf t \<Longrightarrow> (k, r) \<in> set t \<Longrightarrow> tget t k = Some r"
  by (simp add: tget_def twf_def)

lemma twf_tupd [table_simps]: "twf (tupd k f t) = twf t"
  by (simp add: twf_def tupd_def comp_def case_prod_beta)

lemma twf_tupd_where [table_simps]: "twf (tupd_where P f t) = twf t"
  by (simp add: twf_def tupd_where_def comp_def case_prod_beta)

lemma twf_tins: "twf t \<Longrightarrow> k \<notin> tkeys t \<Longrightarrow> twf (tins k r t)"
  by (auto simp: twf_def tins_def tkeys_def)

lemma tsel_mem [simp]: "(k, r) \<in> set (tsel P t) \<longleftrightarrow> (k, r) \<in> set t \<and> P k r"
  by (auto simp: tsel_def)

lemma tupd_where_none: "(\<And>k r. (k, r) \<in> set t \<Longrightarrow> \<not> P k r) \<Longrightarrow> tupd_where P f t = t"
  by (induction t) (auto simp: tupd_where_def)

lemma set_tupd: "(i, r) \<in> set (tupd k f t) \<longleftrightarrow>
    (\<exists>r0. (i, r0) \<in> set t \<and> r = (if i = k then f r0 else r0))"
  by (auto simp: tupd_def image_iff) force+

lemma set_tupd_where: "(i, r) \<in> set (tupd_where P f t) \<longleftrightarrow>
    (\<exists>r0. (i, r0) \<in> set t \<and> r = (if P i r0 then f r0 else r0))"
  by (auto simp: tupd_where_def image_iff) force+

text \<open>\<open>table_within P t t'\<close>: every row of \<open>t\<close> is still there, changed as \<open>P\<close> allows.\<close>

definition table_within :: "('r \<Rightarrow> 'r \<Rightarrow> bool) \<Rightarrow> 'r table \<Rightarrow> 'r table \<Rightarrow> bool" where
  "table_within P t t' \<longleftrightarrow>
     (\<forall>k r. tget t k = Some r \<longrightarrow> (\<exists>r'. tget t' k = Some r' \<and> P r r'))"

lemma table_within_refl: "(\<And>r. P r r) \<Longrightarrow> table_within P t t"
  by (simp add: table_within_def)

lemma table_within_trans:
  assumes "table_within P t t1" and "table_within P t1 t2"
    and "\<And>a b c. P a b \<Longrightarrow> P b c \<Longrightarrow> P a c"
  shows "table_within P t t2"
  using assms unfolding table_within_def by metis

lemma table_within_tupd:
  "(\<And>r. P r r) \<Longrightarrow> (\<And>r. tget t k = Some r \<Longrightarrow> P r (f r)) \<Longrightarrow> table_within P t (tupd k f t)"
  by (auto simp: table_within_def table_simps)

lemma table_within_tupd_where:
  "(\<And>r. P r r) \<Longrightarrow> (\<And>i r. Q i r \<Longrightarrow> P r (f r)) \<Longrightarrow> table_within P t (tupd_where Q f t)"
  by (auto simp: table_within_def table_simps)

lemma table_within_tins: "(\<And>r. P r r) \<Longrightarrow> table_within P t (tins k r t)"
  by (auto simp: table_within_def table_simps)

section \<open>The interface the services use\<close>

text \<open>
  A row store promises: a saved row is read back, other rows are untouched, keys only grow.
  The sweeps of the services (recovering stuck executions, expiring approvals, marking
  runners offline) visit a list of ids chosen beforehand; \<open>sweep_frame\<close> and
  \<open>sweep_row\<close> say what such a pass does to one row.
\<close>

locale row_store =
  fixes get :: "'t \<Rightarrow> nat \<Rightarrow> 'r option"
    and upd :: "nat \<Rightarrow> ('r \<Rightarrow> 'r) \<Rightarrow> 't \<Rightarrow> 't"
    and ins :: "nat \<Rightarrow> 'r \<Rightarrow> 't \<Rightarrow> 't"
  assumes get_upd: "get (upd k f t) i = (if i = k then map_option f (get t i) else get t i)"
    and get_ins: "get t k = None \<Longrightarrow> get (ins k r t) i = (if i = k then Some r else get t i)"
begin

definition sweep :: "(nat \<Rightarrow> 'r \<Rightarrow> bool) \<Rightarrow> ('r \<Rightarrow> 'r) \<Rightarrow> nat list \<Rightarrow> 't \<Rightarrow> 't" where
  "sweep P f ks t = fold (\<lambda>k t. case get t k of
       None \<Rightarrow> t | Some r \<Rightarrow> if P k r then upd k f t else t) ks t"

lemma sweep_frame: "i \<notin> set ks \<Longrightarrow> get (sweep P f ks t) i = get t i"
  unfolding sweep_def
  by (induction ks arbitrary: t) (auto simp: get_upd split: option.splits)

lemma sweep_row:
  assumes "\<And>r. P i r \<Longrightarrow> \<not> P i (f r)"
  shows "get (sweep P f ks t) i =
    (if i \<in> set ks then map_option (\<lambda>r. if P i r then f r else r) (get t i) else get t i)"
  using assms unfolding sweep_def
  by (induction ks arbitrary: t) (auto simp: get_upd option.map_comp comp_def split: option.splits)

lemma upd_twice: "get (upd k g (upd k f t)) i = get (upd k (g \<circ> f) t) i"
  by (simp add: get_upd option.map_comp)

lemma get_fresh_other: "get t k = None \<Longrightarrow> get t i = Some r \<Longrightarrow> get (ins k r' t) i = Some r"
  by (auto simp: get_ins)

end

interpretation tbl: row_store tget tupd tins
  by unfold_locales (auto simp: table_simps split: option.splits)

section \<open>Lifecycles\<close>

text \<open>
  Change records, executions, steps and approval requests have a status that only moves
  along a table of allowed transitions. A lifecycle gives the table, the final statuses and
  a rank that every transition raises; then no status is entered twice, a final status is
  never left, and the number of moves is bounded.
\<close>

locale lifecycle =
  fixes allowed :: "'s \<Rightarrow> 's list"
    and rank :: "'s \<Rightarrow> nat"
    and final :: "'s \<Rightarrow> bool"
  assumes allowed_rank: "t \<in> set (allowed s) \<Longrightarrow> rank s < rank t"
    and final_allowed: "final s \<longleftrightarrow> allowed s = []"
begin

definition moves :: "'s \<Rightarrow> 's \<Rightarrow> bool" where
  "moves s t \<longleftrightarrow> s = t \<or> t \<in> set (allowed s)"

inductive history :: "'s list \<Rightarrow> bool" where
  start: "history [s]"
| move: "history (s # ss) \<Longrightarrow> t \<in> set (allowed s) \<Longrightarrow> history (t # s # ss)"

lemma moves_rank: "moves\<^sup>*\<^sup>* s t \<Longrightarrow> rank s \<le> rank t"
proof (induction rule: rtranclp_induct)
  case (step t u)
  then show ?case by (auto simp: moves_def dest: allowed_rank)
qed simp

lemma final_stays: "moves\<^sup>*\<^sup>* s t \<Longrightarrow> final s \<Longrightarrow> t = s"
  by (induction rule: rtranclp_induct) (auto simp: moves_def final_allowed)

lemma moves_antisym:
  assumes "moves\<^sup>*\<^sup>* s t" and "moves\<^sup>*\<^sup>* t s"
  shows "s = t"
  using assms(1)
proof (cases rule: converse_rtranclpE)
  case (step u)
  then have "rank u \<le> rank t" and "rank t \<le> rank s"
    using assms(2) moves_rank by auto
  with step(1) have "s = u" by (auto simp: moves_def dest: allowed_rank)
  show ?thesis
  proof (rule ccontr)
    assume "s \<noteq> t"
    with assms(1) obtain v where "moves\<^sup>*\<^sup>* s v" "moves v t" "v \<noteq> t"
      by (induction rule: rtranclp_induct) auto
    then have "rank s \<le> rank v" "rank v < rank t"
      by (auto simp: moves_def dest: allowed_rank moves_rank)
    with \<open>rank t \<le> rank s\<close> show False by simp
  qed
qed simp

lemma history_rank: "history ss \<Longrightarrow> t \<in> set ss \<Longrightarrow> rank t \<le> rank (hd ss)"
proof (induction arbitrary: t rule: history.induct)
  case (move s ss u)
  then show ?case by (auto dest!: allowed_rank simp: less_imp_le) (meson less_imp_le order.trans)+
qed simp

lemma history_distinct: "history ss \<Longrightarrow> distinct ss"
proof (induction rule: history.induct)
  case (move s ss t)
  then have "rank s < rank t" by (simp add: allowed_rank)
  moreover have "rank u \<le> rank s" if "u \<in> set (s # ss)" for u
    using history_rank [OF move.hyps(1) that] by simp
  ultimately show ?case using move.IH by fastforce
qed simp

end

end
