(* ===== verification/Py_Values.thy ===== *)
theory Py_Values
  imports Prelude "HOL-Library.Char_ord" "HOL-Library.List_Lexorder"
begin

text \<open>
  The Python values the services compute with: strings (a character is a code point below
  256), JSON values as the \<open>json\<close> module and a \<open>JSONField\<close> hold them, and time stamps
  (microseconds since 1970-01-01 UTC). Only the built-in operations the sources use are
  defined, with the results Python gives on these values. A float is kept by its \<open>repr\<close>.
\<close>

section \<open>Strings\<close>

definition code_point :: "char \<Rightarrow> nat" where
  "code_point c = of_char c"

text \<open>\<open>str.lower\<close> on code points below 256.\<close>

definition lower_char :: "char \<Rightarrow> char" where
  "lower_char c =
    (let n = code_point c
     in if 65 \<le> n \<and> n \<le> 90 \<or> 192 \<le> n \<and> n \<le> 222 \<and> n \<noteq> 215 then char_of (n + 32) else c)"

definition lower :: "string \<Rightarrow> string" where
  "lower s = map lower_char s"

definition is_space :: "char \<Rightarrow> bool" where
  "is_space c =
    (let n = code_point c
     in 9 \<le> n \<and> n \<le> 13 \<or> 28 \<le> n \<and> n \<le> 32 \<or> n = 133 \<or> n = 160)"

definition lstrip :: "string \<Rightarrow> string" where
  "lstrip s = dropWhile is_space s"

definition strip :: "string \<Rightarrow> string" where
  "strip s = rev (lstrip (rev (lstrip s)))"

text \<open>\<open>s.split(sep)\<close> for a one-character separator.\<close>

fun split_on :: "char \<Rightarrow> string \<Rightarrow> string list" where
  "split_on sep [] = [[]]"
| "split_on sep (c # cs) =
    (if c = sep then [] # split_on sep cs
     else (case split_on sep cs of [] \<Rightarrow> [[c]] | p # ps \<Rightarrow> (c # p) # ps))"

fun starts_with :: "string \<Rightarrow> string \<Rightarrow> bool" where
  "starts_with [] _ = True"
| "starts_with (p # ps) [] = False"
| "starts_with (p # ps) (c # cs) = (p = c \<and> starts_with ps cs)"

text \<open>\<open>pat in s\<close> for strings.\<close>

fun contains_str :: "string \<Rightarrow> string \<Rightarrow> bool" where
  "contains_str pat [] = (pat = [])"
| "contains_str pat (c # cs) = (starts_with pat (c # cs) \<or> contains_str pat cs)"

fun join_with :: "string \<Rightarrow> string list \<Rightarrow> string" where
  "join_with sep [] = []"
| "join_with sep [x] = x"
| "join_with sep (x # y # xs) = x @ sep @ join_with sep (y # xs)"

definition digit_char :: "nat \<Rightarrow> char" where
  "digit_char n = char_of (48 + n)"

fun nat_str :: "nat \<Rightarrow> string" where
  "nat_str n = (if n < 10 then [digit_char n] else nat_str (n div 10) @ [digit_char (n mod 10)])"

declare nat_str.simps [simp del]

definition int_str :: "int \<Rightarrow> string" where
  "int_str i = (if i < 0 then CHR ''-'' # nat_str (nat (- i)) else nat_str (nat i))"

text \<open>
  \<open>int(s)\<close> on a string: surrounding white space and one sign are accepted, and single
  underscores between digits.
\<close>

definition is_digit :: "char \<Rightarrow> bool" where
  "is_digit c = (48 \<le> code_point c \<and> code_point c \<le> 57)"

fun digits_value :: "nat \<Rightarrow> bool \<Rightarrow> string \<Rightarrow> nat option" where
  "digits_value acc prev [] = (if prev then Some acc else None)"
| "digits_value acc prev (c # cs) =
    (if is_digit c then digits_value (10 * acc + (code_point c - 48)) True cs
     else if c = CHR ''_'' \<and> prev then digits_value acc False cs
     else None)"

definition py_int :: "string \<Rightarrow> int option" where
  "py_int s =
    (case strip s of
       [] \<Rightarrow> None
     | c # cs \<Rightarrow>
        (if c = CHR ''-'' then map_option (\<lambda>n. - int n) (digits_value 0 False cs)
         else if c = CHR ''+'' then map_option int (digits_value 0 False cs)
         else map_option int (digits_value 0 False (c # cs))))"

section \<open>JSON values\<close>

datatype json =
    JNull
  | JBool bool
  | JInt int
  | JFloat string
  | JStr string
  | JArr "json list"
  | JObj "(string \<times> json) list"

type_synonym jdict = "(string \<times> json) list"

text \<open>\<open>d.get(k, dflt)\<close> on a dictionary, and on any value (an \<open>AttributeError\<close> if it is
  not a dictionary).\<close>

definition fget :: "jdict \<Rightarrow> string \<Rightarrow> json \<Rightarrow> json" where
  "fget d k dflt = (case map_of d k of None \<Rightarrow> dflt | Some v \<Rightarrow> v)"

fun py_get :: "json \<Rightarrow> string \<Rightarrow> json \<Rightarrow> json result" where
  "py_get (JObj d) k dflt = Inr (fget d k dflt)"
| "py_get _ k dflt = Inl (PyError ''AttributeError'')"

fun truthy :: "json \<Rightarrow> bool" where
  "truthy JNull = False"
| "truthy (JBool b) = b"
| "truthy (JInt i) = (i \<noteq> 0)"
| "truthy (JFloat s) = (s \<noteq> ''0.0'' \<and> s \<noteq> ''-0.0'')"
| "truthy (JStr s) = (s \<noteq> [])"
| "truthy (JArr xs) = (xs \<noteq> [])"
| "truthy (JObj d) = (d \<noteq> [])"

text \<open>The operator \<open>a or b\<close>.\<close>

definition py_or :: "json \<Rightarrow> json \<Rightarrow> json" where
  "py_or a b = (if truthy a then a else b)"

fun is_obj :: "json \<Rightarrow> bool" where
  "is_obj (JObj _) = True"
| "is_obj _ = False"

fun is_str :: "json \<Rightarrow> bool" where
  "is_str (JStr _) = True"
| "is_str _ = False"

fun fields_of :: "json \<Rightarrow> jdict" where
  "fields_of (JObj d) = d"
| "fields_of _ = []"

fun items_of :: "json \<Rightarrow> json list" where
  "items_of (JArr xs) = xs"
| "items_of _ = []"

fun str_of :: "json \<Rightarrow> string" where
  "str_of (JStr s) = s"
| "str_of _ = []"

text \<open>
  Iterating a value with \<open>for\<close>: a list gives its items, a dictionary its keys, a string its
  characters; anything else is a \<open>TypeError\<close>.
\<close>

fun py_iter :: "json \<Rightarrow> json list result" where
  "py_iter (JArr xs) = Inr xs"
| "py_iter (JObj d) = Inr (map (JStr \<circ> fst) d)"
| "py_iter (JStr s) = Inr (map (\<lambda>c. JStr [c]) s)"
| "py_iter _ = Inl (PyError ''TypeError'')"

text \<open>
  Keys of a set: a list or dictionary is unhashable, and \<open>True == 1\<close>.
\<close>

fun py_hashable :: "json \<Rightarrow> bool" where
  "py_hashable (JArr _) = False"
| "py_hashable (JObj _) = False"
| "py_hashable _ = True"

fun py_norm :: "json \<Rightarrow> json" where
  "py_norm (JBool b) = JInt (if b then 1 else 0)"
| "py_norm v = v"

definition opt_json :: "('a \<Rightarrow> json) \<Rightarrow> 'a option \<Rightarrow> json" where
  "opt_json f x = (case x of None \<Rightarrow> JNull | Some a \<Rightarrow> f a)"

text \<open>Dictionary update \<open>{**a, **b}\<close> and item assignment.\<close>

definition dict_set :: "jdict \<Rightarrow> string \<Rightarrow> json \<Rightarrow> jdict" where
  "dict_set d k v =
    (if map_of d k = None then d @ [(k, v)]
     else map (\<lambda>(i, w). (i, if i = k then v else w)) d)"

definition dict_merge :: "jdict \<Rightarrow> jdict \<Rightarrow> jdict" where
  "dict_merge a b = fold (\<lambda>(k, v) d. dict_set d k v) b a"

lemma map_of_dict_set: "map_of (dict_set d k v) = (map_of d)(k \<mapsto> v)"
proof -
  have upd: "map_of (map (\<lambda>(i, w). (i, if i = k then v else w)) d) i =
      (if i = k then map_option (\<lambda>_. v) (map_of d i) else map_of d i)" for i
    by (induction d) auto
  show ?thesis
    by (rule ext) (auto simp: dict_set_def upd map_add_def split: option.splits)
qed

text \<open>
  Equality of values (\<open>==\<close>): dictionaries are compared as mappings, \<open>True == 1\<close>, and a
  float whose \<open>repr\<close> ends in \<open>.0\<close> equals the integer. (A float printed with an exponent is
  only equal to the same float.)
\<close>

definition float_int :: "string \<Rightarrow> int option" where
  "float_int s =
    (case split_on (CHR ''.'') s of
       [a, f] \<Rightarrow> if f = ''0'' then py_int a else None
     | _ \<Rightarrow> None)"

fun number_of :: "json \<Rightarrow> int option" where
  "number_of (JBool b) = Some (if b then 1 else 0)"
| "number_of (JInt i) = Some i"
| "number_of (JFloat s) = float_int s"
| "number_of _ = None"

fun py_eq :: "json \<Rightarrow> json \<Rightarrow> bool"
  and py_eq_items :: "json list \<Rightarrow> json list \<Rightarrow> bool"
  and py_eq_fields :: "jdict \<Rightarrow> jdict \<Rightarrow> bool"
where
  "py_eq (JObj a) w = (case w of JObj b \<Rightarrow> length a = length b \<and> py_eq_fields a b | _ \<Rightarrow> False)"
| "py_eq (JArr a) w = (case w of JArr b \<Rightarrow> py_eq_items a b | _ \<Rightarrow> False)"
| "py_eq (JStr s) w = (w = JStr s)"
| "py_eq JNull w = (w = JNull)"
| "py_eq (JBool x) w = (number_of w = Some (if x then 1 else 0))"
| "py_eq (JInt i) w = (number_of w = Some i)"
| "py_eq (JFloat s) w =
    (case float_int s of None \<Rightarrow> w = JFloat s | Some i \<Rightarrow> number_of w = Some i)"
| "py_eq_items [] b = (b = [])"
| "py_eq_items (x # xs) b =
    (case b of [] \<Rightarrow> False | y # ys \<Rightarrow> py_eq x y \<and> py_eq_items xs ys)"
| "py_eq_fields [] b = True"
| "py_eq_fields ((k, v) # a) b =
    ((case map_of b k of None \<Rightarrow> False | Some w \<Rightarrow> py_eq v w) \<and> py_eq_fields a b)"

section \<open>Printing JSON\<close>

definition hex_digit :: "nat \<Rightarrow> char" where
  "hex_digit n = (if n < 10 then char_of (48 + n) else char_of (87 + n))"

definition json_escape_char :: "bool \<Rightarrow> char \<Rightarrow> string" where
  "json_escape_char ascii c =
    (let n = code_point c
     in if c = CHR 0x22 then [CHR 0x5C, CHR 0x22]
        else if c = CHR 0x5C then [CHR 0x5C, CHR 0x5C]
        else if n = 8 then [CHR 0x5C, CHR ''b'']
        else if n = 9 then [CHR 0x5C, CHR ''t'']
        else if n = 10 then [CHR 0x5C, CHR ''n'']
        else if n = 12 then [CHR 0x5C, CHR ''f'']
        else if n = 13 then [CHR 0x5C, CHR ''r'']
        else if n < 32 \<or> (ascii \<and> 127 \<le> n)
          then CHR 0x5C # ''u00'' @ [hex_digit (n div 16), hex_digit (n mod 16)]
        else [c])"

definition json_quote :: "bool \<Rightarrow> string \<Rightarrow> string" where
  "json_quote ascii s = CHR 0x22 # concat (map (json_escape_char ascii) s) @ [CHR 0x22]"

text \<open>
  The options of \<open>json.dumps\<close> the sources use: the separators, \<open>sort_keys\<close> and
  \<open>ensure_ascii\<close>.
\<close>

record dump_opts =
  item_sep :: string
  key_sep :: string
  sort_keys :: bool
  ensure_ascii :: bool

definition default_opts :: dump_opts where
  "default_opts = \<lparr>item_sep = '', '', key_sep = '': '', sort_keys = False, ensure_ascii = True\<rparr>"

definition compact_opts :: "bool \<Rightarrow> dump_opts" where
  "compact_opts ascii = \<lparr>item_sep = '','', key_sep = '':'', sort_keys = True, ensure_ascii = ascii\<rparr>"

fun dumps :: "dump_opts \<Rightarrow> json \<Rightarrow> string"
  and dumps_items :: "dump_opts \<Rightarrow> json list \<Rightarrow> string list"
  and dumps_fields :: "dump_opts \<Rightarrow> jdict \<Rightarrow> (string \<times> string) list"
where
  "dumps o' JNull = ''null''"
| "dumps o' (JBool b) = (if b then ''true'' else ''false'')"
| "dumps o' (JInt i) = int_str i"
| "dumps o' (JFloat s) = s"
| "dumps o' (JStr s) = json_quote (ensure_ascii o') s"
| "dumps o' (JArr xs) = ''['' @ join_with (item_sep o') (dumps_items o' xs) @ '']''"
| "dumps o' (JObj d) =
    (let fs = dumps_fields o' d;
         fs' = (if sort_keys o' then sort_key fst fs else fs)
     in ''{'' @ join_with (item_sep o')
          (map (\<lambda>(k, v). json_quote (ensure_ascii o') k @ key_sep o' @ v) fs') @ ''}'')"
| "dumps_items o' [] = []"
| "dumps_items o' (x # xs) = dumps o' x # dumps_items o' xs"
| "dumps_fields o' [] = []"
| "dumps_fields o' ((k, v) # d) = (k, dumps o' v) # dumps_fields o' d"

text \<open>
  \<open>str(v)\<close>, and \<open>repr(v)\<close> as it appears inside a list or dictionary: a string is quoted
  with \<open>'\<close>, or with a double quote if it holds a \<open>'\<close> and no double quote.
\<close>

definition repr_char :: "char \<Rightarrow> char \<Rightarrow> string" where
  "repr_char q c =
    (let n = code_point c
     in if c = q \<or> c = CHR 0x5C then [CHR 0x5C, c]
        else if n = 9 then [CHR 0x5C, CHR ''t'']
        else if n = 10 then [CHR 0x5C, CHR ''n'']
        else if n = 13 then [CHR 0x5C, CHR ''r'']
        else if n < 32 \<or> 127 \<le> n \<and> n \<le> 160 \<or> n = 173
          then CHR 0x5C # CHR ''x'' # [hex_digit (n div 16), hex_digit (n mod 16)]
        else [c])"

definition repr_str :: "string \<Rightarrow> string" where
  "repr_str s =
    (let q = (if CHR 0x27 \<in> set s \<and> CHR 0x22 \<notin> set s then CHR 0x22 else CHR 0x27)
     in q # concat (map (repr_char q) s) @ [q])"

fun py_repr :: "json \<Rightarrow> string"
  and py_repr_items :: "json list \<Rightarrow> string list"
  and py_repr_fields :: "jdict \<Rightarrow> string list"
where
  "py_repr JNull = ''None''"
| "py_repr (JBool b) = (if b then ''True'' else ''False'')"
| "py_repr (JInt i) = int_str i"
| "py_repr (JFloat s) = s"
| "py_repr (JStr s) = repr_str s"
| "py_repr (JArr xs) = ''['' @ join_with '', '' (py_repr_items xs) @ '']''"
| "py_repr (JObj d) = ''{'' @ join_with '', '' (py_repr_fields d) @ ''}''"
| "py_repr_items [] = []"
| "py_repr_items (x # xs) = py_repr x # py_repr_items xs"
| "py_repr_fields [] = []"
| "py_repr_fields ((k, v) # d) = (repr_str k @ '': '' @ py_repr v) # py_repr_fields d"

definition py_str :: "json \<Rightarrow> string" where
  "py_str v = (case v of JStr s \<Rightarrow> s | _ \<Rightarrow> py_repr v)"

text \<open>\<open>s.encode("utf-8")\<close>: a code point from 128 to 255 takes two bytes.\<close>

definition utf8_char :: "char \<Rightarrow> char list" where
  "utf8_char c =
    (let n = code_point c
     in if n < 128 then [c] else [char_of (192 + n div 64), char_of (128 + n mod 64)])"

definition utf8 :: "string \<Rightarrow> char list" where
  "utf8 s = concat (map utf8_char s)"

section \<open>Time\<close>

type_synonym timestamp = int

definition secs :: "int \<Rightarrow> timestamp" where
  "secs n = n * 1000000"

definition day_number :: "timestamp \<Rightarrow> int" where
  "day_number t = t div 86400000000"

definition second_of_day :: "timestamp \<Rightarrow> int" where
  "second_of_day t = (t div 1000000) mod 86400"

text \<open>Year, month and day of a day number (the proleptic Gregorian calendar).\<close>

definition civil_date :: "int \<Rightarrow> int \<times> int \<times> int" where
  "civil_date days =
    (let z = days + 719468;
         era = z div 146097;
         doe = z mod 146097;
         yoe = (doe - doe div 1460 + doe div 36524 - doe div 146096) div 365;
         doy = doe - (365 * yoe + yoe div 4 - yoe div 100);
         mp = (5 * doy + 2) div 153;
         d = doy - (153 * mp + 2) div 5 + 1;
         m = (if mp < 10 then mp + 3 else mp - 9);
         y = yoe + era * 400 + (if m \<le> 2 then 1 else 0)
     in (y, m, d))"

definition pad_to :: "nat \<Rightarrow> int \<Rightarrow> string" where
  "pad_to w i = (let s = nat_str (nat i) in replicate (w - length s) (CHR ''0'') @ s)"

text \<open>\<open>dt.strftime("%H:%M")\<close> and \<open>dt.strftime("%a").lower()\<close>.\<close>

definition hhmm :: "timestamp \<Rightarrow> string" where
  "hhmm t = (let s = second_of_day t
     in pad_to 2 (s div 3600) @ '':'' @ pad_to 2 (s mod 3600 div 60))"

definition day_names :: "string list" where
  "day_names = [''mon'', ''tue'', ''wed'', ''thu'', ''fri'', ''sat'', ''sun'']"

definition day_name :: "timestamp \<Rightarrow> string" where
  "day_name t = day_names ! nat ((day_number t + 3) mod 7)"

text \<open>\<open>dt.isoformat()\<close> of an aware UTC datetime.\<close>

definition isoformat :: "timestamp \<Rightarrow> string" where
  "isoformat t =
    (let (y, m, d) = civil_date (day_number t); s = second_of_day t; us = t mod 1000000
     in pad_to 4 y @ ''-'' @ pad_to 2 m @ ''-'' @ pad_to 2 d @ ''T'' @
        pad_to 2 (s div 3600) @ '':'' @ pad_to 2 (s mod 3600 div 60) @ '':'' @ pad_to 2 (s mod 60) @
        (if us = 0 then [] else ''.'' @ pad_to 6 us) @ ''+00:00'')"

definition iso_json :: "timestamp option \<Rightarrow> json" where
  "iso_json t = opt_json (JStr \<circ> isoformat) t"

section \<open>Facts about these operations\<close>

lemma split_on_not_Nil [simp]: "split_on sep s \<noteq> []"
  by (induction s) (auto split: list.splits)

lemma join_split_on: "join_with [sep] (split_on sep s) = s"
proof (induction s)
  case (Cons c cs)
  obtain p ps where pps: "split_on sep cs = p # ps"
    by (cases "split_on sep cs") auto
  with Cons.IH show ?case
    by (cases ps) auto
qed simp

lemma split_on_no_sep: "p \<in> set (split_on sep s) \<Longrightarrow> sep \<notin> set p"
  by (induction s arbitrary: p) (auto split: if_splits list.splits)

lemma starts_with_iff: "starts_with p s \<longleftrightarrow> (\<exists>r. s = p @ r)"
  by (induction p s rule: starts_with.induct) auto

lemma contains_str_iff: "contains_str p s \<longleftrightarrow> (\<exists>a b. s = a @ p @ b)"
proof (induction s)
  case (Cons c cs)
  have "(\<exists>a b. c # cs = a @ p @ b) \<longleftrightarrow> (\<exists>b. c # cs = p @ b) \<or> (\<exists>a b. cs = a @ p @ b)"
    by (metis append_Cons append_Nil neq_Nil_conv list.inject)
  with Cons.IH show ?case by (simp add: starts_with_iff)
qed simp

lemma digit_char_inj: "m < 10 \<Longrightarrow> n < 10 \<Longrightarrow> digit_char m = digit_char n \<Longrightarrow> m = n"
proof -
  assume mn: "m < 10" "n < 10" and eq: "digit_char m = digit_char n"
  from eq have "(of_char (digit_char m) :: nat) = of_char (digit_char n)" by simp
  with mn show "m = n" by (simp add: digit_char_def)
qed

lemma nat_str_ne [simp]: "nat_str n \<noteq> []" "[] \<noteq> nat_str n"
  by (subst nat_str.simps, simp)+

lemma nat_str_inj: "nat_str m = nat_str n \<Longrightarrow> m = n"
proof (induction m arbitrary: n rule: nat_str.induct)
  case (1 m)
  show ?case
  proof (cases "m < 10")
    case True
    with "1.prems" show ?thesis
      by (auto simp: nat_str.simps [of m] nat_str.simps [of n] digit_char_inj split: if_splits)
  next
    case False
    with "1.prems" have big: "\<not> n < 10"
      by (auto simp: nat_str.simps [of m] nat_str.simps [of n] split: if_splits)
    with False "1.prems" have eqs: "nat_str (m div 10) = nat_str (n div 10)"
      "digit_char (m mod 10) = digit_char (n mod 10)"
      by (auto simp: nat_str.simps [of m] nat_str.simps [of n])
    from eqs(2) have "m mod 10 = n mod 10" by (rule digit_char_inj [rotated 2]) simp_all
    moreover from "1.IH" [OF False eqs(1)] have "m div 10 = n div 10" .
    ultimately show ?thesis by (metis div_mult_mod_eq)
  qed
qed

lemma nat_str_eq [simp]: "nat_str m = nat_str n \<longleftrightarrow> m = n"
  using nat_str_inj by blast

lemma fget_mem: "fget d k dflt = v \<Longrightarrow> v = dflt \<or> (k, v) \<in> set d"
  by (auto simp: fget_def dest: map_of_SomeD split: option.splits)

text \<open>The length of a printed time of the first day, for the witnesses.\<close>

lemma length_nat_str: "n < 10 ^ Suc k \<Longrightarrow> length (nat_str n) \<le> Suc k"
proof (induction k arbitrary: n)
  case 0
  then show ?case by (simp add: nat_str.simps [of n])
next
  case (Suc k)
  then have "n div 10 < 10 ^ Suc k" by (simp add: div_less_iff_less_mult mult.commute)
  from Suc.IH [OF this] show ?case by (subst nat_str.simps) simp
qed

lemma length_nat_str_le: "length (nat_str n) \<le> Suc n"
proof (induction n rule: nat_str.induct)
  case (1 n)
  show ?case
  proof (cases "n < 10")
    case False
    then have "Suc (n div 10) < n" by linarith
    with 1 [OF False] show ?thesis by (subst nat_str.simps) (simp add: False)
  qed (simp add: nat_str.simps [of n])
qed

lemma length_pad_to:
  assumes "i < 10 ^ Suc k" and "Suc k = w"
  shows "length (pad_to w i) = w"
proof -
  have "nat i < 10 ^ Suc k"
    using assms(1) by (cases "0 \<le> i") (simp_all add: nat_less_iff del: power_Suc)
  from length_nat_str [OF this] assms(2) show ?thesis by (simp add: pad_to_def Let_def)
qed

lemma length_isoformat:
  assumes "0 \<le> t" and "t < 86400000000"
  shows "length (isoformat t) \<le> 32"
proof -
  have day: "civil_date (day_number t) = (1970, 1, 1)"
  proof -
    have "day_number t = 0"
      unfolding day_number_def using assms by (rule div_pos_pos_trivial)
    moreover have "civil_date 0 = (1970, 1, 1)" by code_simp
    ultimately show ?thesis by simp
  qed
  have s: "second_of_day t < 86400" "0 \<le> second_of_day t" by (simp_all add: second_of_day_def)
  have "t mod 1000000 < 10 ^ Suc 5" by simp
  note us = length_pad_to [OF this, of 6, simplified]
  have two: "length (pad_to 2 i) = 2" if "i < 100" for i
    using length_pad_to [of i 1 2] that by simp
  have four: "length (pad_to 4 1970) = 4"
    using length_pad_to [of 1970 3 4] by simp
  have "second_of_day t div 3600 < 100" "second_of_day t mod 3600 div 60 < 100" "second_of_day t mod 60 < 100"
    using zdiv_mono1 [of "second_of_day t" 86400 3600] s
      zdiv_mono1 [of "second_of_day t mod 3600" 3600 60] pos_mod_bound [of 3600 "second_of_day t"]
      pos_mod_bound [of 60 "second_of_day t"]
    by linarith+
  note parts = two [OF this(1)] two [OF this(2)] two [OF this(3)] two [of 1, simplified] four us
  show ?thesis
    by (cases "t mod 1000000 = 0")
      (simp_all only: isoformat_def day Let_def prod.case length_append parts if_True if_False
        list.size, simp_all)
qed

end
