(* ===== verification/Workflow_Validation.thy ===== *)
theory Workflow_Validation
  imports Py_Values
begin

text \<open>
  The validation a workflow definition passes before it is executed: the structural v1 check of
  \<open>apps/executions/services.py\<close> and the semantic v2 checks of \<open>apps/workflows/validators.py\<close>. JSON
  Schema validation is done by the package \<open>jsonschema\<close> on schema files; both are the
  parameter \<open>wf_env\<close>: whether the v2 schema accepts a definition, whether the action catalog of
  a version can be loaded and which types it lists, the loader of an action's schema, and the
  validator itself.
\<close>

record wf_env =
  we_schema_v2 :: "json \<Rightarrow> bool"
  we_catalog :: "string \<Rightarrow> string list option"
  we_action_schema :: "string \<Rightarrow> string \<Rightarrow> json option"
  we_validates :: "json \<Rightarrow> json \<Rightarrow> bool"

definition bad_workflow :: "string \<Rightarrow> err" where
  "bad_workflow code = Domain InvalidWorkflowDefinitionError code"

text \<open>\<open>v in s\<close> for a set \<open>s\<close>: an unhashable value is a \<open>TypeError\<close>.\<close>

definition in_set :: "json \<Rightarrow> json list \<Rightarrow> bool result" where
  "in_set v s = (if py_hashable v then Inr (\<exists>w \<in> set s. py_eq v w) else Inl (PyError ''TypeError''))"

fun py_items :: "json \<Rightarrow> jdict result" where
  "py_items (JObj d) = Inr d"
| "py_items _ = Inl (PyError ''AttributeError'')"

definition all_ok :: "('a \<Rightarrow> unit result) \<Rightarrow> 'a list \<Rightarrow> unit result" where
  "all_ok f xs = res_fold (\<lambda>_ x. f x) () xs"

lemma all_ok_Inr: "all_ok f xs = Inr () \<longleftrightarrow> (\<forall>x \<in> set xs. f x = Inr ())"
  by (induction xs) (auto simp: all_ok_def res_bind_eq_Inr)

section \<open>The v1 check\<close>

text \<open>\<open>_validate_workflow_definition\<close> of the execution service. \<open>seen\<close> are the ids met.\<close>

fun v1_steps_ok :: "json list \<Rightarrow> json list \<Rightarrow> unit result" where
  "v1_steps_ok seen [] = Inr ()"
| "v1_steps_ok seen (s # ss) =
    (if \<not> is_obj s then Inl (bad_workflow ''invalid_workflow_definition'')
     else let i = fget (fields_of s) ''id'' JNull
       in if \<not> truthy i then Inl (bad_workflow ''invalid_workflow_definition'')
          else res_bind (in_set i seen) (\<lambda>dup.
            if dup then Inl (bad_workflow ''invalid_workflow_definition'')
            else v1_steps_ok (i # seen) ss))"

definition validate_v1 :: "json \<Rightarrow> unit result" where
  "validate_v1 definition =
    (if \<not> is_obj definition then Inl (bad_workflow ''invalid_workflow_definition'')
     else (case fget (fields_of definition) ''steps'' JNull of
         JArr (s # ss) \<Rightarrow> v1_steps_ok [] (s # ss)
       | _ \<Rightarrow> Inl (bad_workflow ''workflow_has_no_steps'')))"

section \<open>Secrets in plain text\<close>

definition is_alnum :: "char \<Rightarrow> bool" where
  "is_alnum c = (let n = code_point c
     in 48 \<le> n \<and> n \<le> 57 \<or> 65 \<le> n \<and> n \<le> 90 \<or> 97 \<le> n \<and> n \<le> 122)"

definition token_char :: "char \<Rightarrow> bool" where
  "token_char c = (is_alnum c \<or> c \<in> set ''-._~+/'')"

definition jwt_char :: "char \<Rightarrow> bool" where
  "jwt_char c = (is_alnum c \<or> c = CHR ''_'' \<or> c = CHR ''-'')"

text \<open>The scheme name, white space, and at least one character of a token.\<close>

definition scheme_token :: "string \<Rightarrow> string \<Rightarrow> bool" where
  "scheme_token scheme s =
    (starts_with scheme s \<and>
     (let r = drop (length scheme) s; t = dropWhile is_space r
      in length t < length r \<and> t \<noteq> [] \<and> token_char (hd t)))"

definition prefixed_token :: "string \<Rightarrow> nat \<Rightarrow> string \<Rightarrow> bool" where
  "prefixed_token p n s =
    (starts_with p s \<and> n \<le> length (takeWhile is_alnum (drop (length p) s)))"

definition slack_token :: "string \<Rightarrow> bool" where
  "slack_token s =
    (case s of
       a # b # c # k # h # r \<Rightarrow>
         [a, b, c] = ''xox'' \<and> k \<in> set ''bpoa'' \<and> h = CHR ''-'' \<and>
         (let digits = takeWhile is_digit r; t = dropWhile is_digit r
          in digits \<noteq> [] \<and> (case t of
               h2 # x # _ \<Rightarrow> h2 = CHR ''-'' \<and> (is_alnum x \<or> x = CHR ''-'')
             | _ \<Rightarrow> False))
     | _ \<Rightarrow> False)"

text \<open>A run of at least ten characters of a JWT part, and what follows a dot after it.\<close>

definition jwt_part :: "string \<Rightarrow> string option" where
  "jwt_part s =
    (let t = dropWhile jwt_char s
     in if length (takeWhile jwt_char s) < 10 then None
        else (case t of c # r \<Rightarrow> if c = CHR ''.'' then Some r else None | [] \<Rightarrow> None))"

definition jwt_token :: "string \<Rightarrow> bool" where
  "jwt_token s =
    (starts_with ''ey'' s \<and>
     (case jwt_part (drop 2 s) of
        None \<Rightarrow> False
      | Some r \<Rightarrow> (case jwt_part r of
          None \<Rightarrow> False
        | Some r' \<Rightarrow> 10 \<le> length (takeWhile jwt_char r'))))"

definition secret_here :: "string \<Rightarrow> bool" where
  "secret_here s =
    (scheme_token ''Bearer'' s \<or> scheme_token ''Token'' s \<or>
     prefixed_token ''ghp_'' 36 s \<or> prefixed_token ''ghs_'' 36 s \<or> prefixed_token ''sk-'' 48 s \<or>
     slack_token s \<or> jwt_token s)"

text \<open>\<open>_SECRET_PATTERNS.search\<close>: a match starting anywhere.\<close>

fun secret_search :: "string \<Rightarrow> bool" where
  "secret_search [] = secret_here []"
| "secret_search (c # cs) = (secret_here (c # cs) \<or> secret_search cs)"

definition looks_like_secret :: "string \<Rightarrow> bool" where
  "looks_like_secret s = (20 \<le> length s \<and> secret_search s)"

section \<open>The v2 checks of a step\<close>

definition check_action_type_match :: "json \<Rightarrow> json \<Rightarrow> unit result" where
  "check_action_type_match step action =
    res_bind (py_get step ''type'' (JStr [])) (\<lambda>step_type.
    res_bind (py_get action ''type'' (JStr [])) (\<lambda>action_type.
    if py_eq step_type action_type then Inr () else Inl (bad_workflow ''action_type_mismatch'')))"

definition check_action_catalog :: "wf_env \<Rightarrow> json \<Rightarrow> json \<Rightarrow> unit result" where
  "check_action_catalog env action catalog_version =
    res_bind (py_get action ''type'' (JStr [])) (\<lambda>action_type.
    res_bind (py_get action ''version'' catalog_version) (\<lambda>version.
    if \<not> py_hashable version then Inl (PyError ''TypeError'')
    else (case (if is_str version then we_catalog env (str_of version) else None) of
        None \<Rightarrow> Inl (bad_workflow ''unknown_action_catalog_version'')
      | Some types \<Rightarrow>
          if action_type \<in> set (map JStr types) then Inr ()
          else Inl (bad_workflow ''unknown_action_type''))))"

definition check_action_inputs :: "wf_env \<Rightarrow> json \<Rightarrow> json \<Rightarrow> unit result" where
  "check_action_inputs env action catalog_version =
    res_bind (py_get action ''type'' (JStr [])) (\<lambda>action_type.
    res_bind (py_get action ''version'' catalog_version) (\<lambda>version.
    res_bind (py_get action ''params'' JNull) (\<lambda>params.
    res_bind (py_get action ''inputs'' JNull) (\<lambda>inputs.
    let payload = py_or params inputs in
    if payload = JNull then Inr ()
    else (case we_action_schema env (py_str action_type) (py_str version) of
        None \<Rightarrow> Inl (bad_workflow ''unknown_action_schema'')
      | Some schema \<Rightarrow>
         res_bind (py_get schema ''properties'' (JObj [])) (\<lambda>props.
         res_bind (py_get props ''params'' JNull) (\<lambda>p1.
         res_bind (py_get props ''inputs'' JNull) (\<lambda>p2.
         let params_schema = py_or p1 p2 in
         if params_schema = JNull then Inr ()
         else if we_validates env params_schema payload then Inr ()
         else Inl (bad_workflow ''action_input_invalid'')))))))))"

text \<open>The keys declared in the top-level \<open>secrets\<close>.\<close>

fun secret_keys :: "json list \<Rightarrow> json list result" where
  "secret_keys [] = Inr []"
| "secret_keys (s # ss) =
    res_bind (py_get s ''key'' (JStr [])) (\<lambda>k.
    if \<not> py_hashable k then Inl (PyError ''TypeError'')
    else res_bind (secret_keys ss) (\<lambda>ks. Inr (k # ks)))"

definition check_step_secrets :: "json \<Rightarrow> json \<Rightarrow> unit result" where
  "check_step_secrets step definition =
    res_bind (py_get definition ''secrets'' (JArr [])) (\<lambda>v.
    res_bind (py_iter v) (\<lambda>declared.
    res_bind (secret_keys declared) (\<lambda>keys.
    res_bind (py_get step ''secrets'' (JArr [])) (\<lambda>r.
    res_bind (py_iter r) (\<lambda>refs.
    all_ok (\<lambda>ref. res_bind (in_set ref keys) (\<lambda>known.
      if known then Inr () else Inl (bad_workflow ''unknown_secret_reference''))) refs)))))"

definition slashes :: "string \<Rightarrow> string" where
  "slashes s = map (\<lambda>c. if c = CHR 0x5C then CHR ''/'' else c) s"

definition validate_artifact_path :: "json \<Rightarrow> unit result" where
  "validate_artifact_path path =
    (if path = JNull \<or> path = JStr [] then Inl (bad_workflow ''invalid_artifact_path'')
     else let s = py_str path
       in if starts_with ''/'' s then Inl (bad_workflow ''invalid_artifact_path'')
          else if ''..'' \<in> set (split_on (CHR ''/'') (slashes s))
            then Inl (bad_workflow ''invalid_artifact_path'')
          else if starts_with ''~'' s \<or> starts_with ''//'' s
            then Inl (bad_workflow ''invalid_artifact_path'')
          else Inr ())"

text \<open>The keys seen so far are threaded through the artifacts of all steps.\<close>

definition check_artifact :: "json list \<Rightarrow> json \<Rightarrow> json list result" where
  "check_artifact seen artifact =
    res_bind (py_get artifact ''key'' (JStr [])) (\<lambda>key.
    res_bind (in_set key seen) (\<lambda>dup.
    if dup then Inl (bad_workflow ''duplicate_artifact_key'')
    else res_bind (py_get artifact ''kind'' (JStr [])) (\<lambda>kind.
      res_bind (py_get artifact ''path'' JNull) (\<lambda>path.
      res_bind (if kind = JStr ''file'' \<or> kind = JStr ''report'' \<or> path \<noteq> JNull
                then validate_artifact_path path else Inr ()) (\<lambda>_.
      Inr (key # seen))))))"

definition check_step_artifacts :: "json list \<Rightarrow> json \<Rightarrow> json list result" where
  "check_step_artifacts seen step =
    res_bind (py_get step ''artifacts'' (JArr [])) (\<lambda>v.
    res_bind (py_iter v) (\<lambda>xs. res_fold check_artifact seen xs))"

text \<open>
  \<open>maxAttempts > 1\<close>; the schema leaves only integral numbers, and any other value is taken to
  be a \<open>TypeError\<close>.
\<close>

definition check_retry_idempotency :: "json \<Rightarrow> unit result" where
  "check_retry_idempotency step =
    res_bind (py_get step ''retry'' JNull) (\<lambda>retry.
    res_bind (py_get step ''idempotency'' JNull) (\<lambda>idem.
    res_bind
      (if retry = JNull then Inr ()
       else res_bind (py_get retry ''maxAttempts'' (JInt 1)) (\<lambda>m.
         (case number_of m of
            None \<Rightarrow> Inl (PyError ''TypeError'')
          | Some n \<Rightarrow>
              if n \<le> 1 then Inr ()
              else res_bind (py_get (py_or idem (JObj [])) ''mode'' (JStr ''none'')) (\<lambda>mode.
                if mode = JStr ''none'' then Inl (bad_workflow ''retry_requires_idempotency'')
                else Inr ())))) (\<lambda>_.
    if idem = JNull then Inr ()
    else res_bind (py_get idem ''mode'' (JStr [])) (\<lambda>mode.
      if mode = JStr ''keyed'' then
        res_bind (py_get idem ''key'' (JStr [])) (\<lambda>k.
        if truthy k then Inr () else Inl (bad_workflow ''keyed_idempotency_requires_key''))
      else Inr ()))))"

definition DRY_RUN_STRATEGIES :: "string list" where
  "DRY_RUN_STRATEGIES = [''native'', ''validate_only'', ''mock'', ''unsupported'']"

definition check_dry_run :: "json \<Rightarrow> unit result" where
  "check_dry_run step =
    res_bind (py_get step ''dryRun'' JNull) (\<lambda>dry.
    if dry = JNull then Inr ()
    else res_bind (py_get dry ''strategy'' (JStr [])) (\<lambda>strategy.
      res_bind (in_set strategy (map JStr DRY_RUN_STRATEGIES)) (\<lambda>known.
      if known then Inr () else Inl (bad_workflow ''invalid_dry_run_strategy''))))"

definition no_raw_secret :: "string \<Rightarrow> string \<times> json \<Rightarrow> unit result" where
  "no_raw_secret code kv =
    (case kv of (k, v) \<Rightarrow>
      if is_str v \<and> looks_like_secret (str_of v) then Inl (bad_workflow code) else Inr ())"

definition check_shell_command_restrictions :: "json \<Rightarrow> unit result" where
  "check_shell_command_restrictions params =
    res_bind (py_get params ''environment'' (JObj [])) (\<lambda>env.
    res_bind (py_items env) (\<lambda>vars.
    res_bind (all_ok (no_raw_secret ''raw_secret_in_environment'') vars) (\<lambda>_.
    res_bind (py_get params ''working_directory'' (JStr [])) (\<lambda>wd.
    if \<not> truthy wd then Inr ()
    else if \<not> is_str wd then Inl (PyError ''AttributeError'')
    else if starts_with ''/'' (str_of wd) then Inl (bad_workflow ''invalid_working_directory'')
    else if ''..'' \<in> set (split_on (CHR ''/'') (slashes (str_of wd)))
      then Inl (bad_workflow ''invalid_working_directory'')
    else Inr ()))))"

definition check_http_request_restrictions :: "json \<Rightarrow> unit result" where
  "check_http_request_restrictions params =
    res_bind (py_get params ''url'' (JStr [])) (\<lambda>url.
    if truthy url \<and> \<not> is_str url then Inl (PyError ''AttributeError'')
    else if truthy url \<and> \<not> starts_with ''https://'' (str_of url) \<and> \<not> starts_with ''http://'' (str_of url)
      then Inl (bad_workflow ''invalid_request_url'')
    else res_bind (py_get params ''headers'' (JObj [])) (\<lambda>h.
      res_bind (py_items h) (\<lambda>headers.
      all_ok (no_raw_secret ''raw_secret_in_header'') headers)))"

definition action_params :: "json \<Rightarrow> json result" where
  "action_params action =
    res_bind (py_get action ''params'' JNull) (\<lambda>p.
    res_bind (py_get action ''inputs'' JNull) (\<lambda>i.
    Inr (py_or (py_or p i) (JObj []))))"

definition check_pilot_restrictions :: "json \<Rightarrow> json \<Rightarrow> unit result" where
  "check_pilot_restrictions step action =
    res_bind (py_get step ''type'' (JStr [])) (\<lambda>t.
    res_bind (action_params action) (\<lambda>params.
    if t = JStr ''shell_command'' then check_shell_command_restrictions params
    else if t = JStr ''http_request'' then check_http_request_restrictions params
    else Inr ()))"

section \<open>The v2 validator\<close>

definition catalog_version_of :: "json \<Rightarrow> json result" where
  "catalog_version_of definition = py_get definition ''catalogVersion'' (JStr ''pilot.v1'')"

definition check_catalog_version :: "json \<Rightarrow> unit result" where
  "check_catalog_version definition =
    res_bind (catalog_version_of definition) (\<lambda>v.
    res_bind (in_set v [JStr ''pilot.v1'']) (\<lambda>known.
    if known then Inr () else Inl (bad_workflow ''unsupported_catalog_version'')))"

text \<open>One step; the state is the step ids and artifact keys met so far.\<close>

definition check_step ::
    "wf_env \<Rightarrow> json \<Rightarrow> json \<Rightarrow> (json list \<times> json list) \<Rightarrow> nat \<times> json
      \<Rightarrow> (json list \<times> json list) result" where
  "check_step env definition catalog_version acc ps =
    (case (acc, ps) of ((seen, arts), (pos, step)) \<Rightarrow>
      res_bind (py_get step ''id'' (JStr (''<position '' @ nat_str pos @ ''>''))) (\<lambda>i.
      res_bind (in_set i seen) (\<lambda>dup.
      if dup then Inl (bad_workflow ''duplicate_step_id'')
      else res_bind (py_get step ''action'' (JObj [])) (\<lambda>action.
        res_bind (check_action_type_match step action) (\<lambda>_.
        res_bind (check_action_catalog env action catalog_version) (\<lambda>_.
        res_bind (check_action_inputs env action catalog_version) (\<lambda>_.
        res_bind (check_step_secrets step definition) (\<lambda>_.
        res_bind (check_step_artifacts arts step) (\<lambda>arts'.
        res_bind (check_retry_idempotency step) (\<lambda>_.
        res_bind (check_dry_run step) (\<lambda>_.
        res_bind (check_pilot_restrictions step action) (\<lambda>_.
        Inr (i # seen, arts')))))))))))))"

definition check_steps :: "wf_env \<Rightarrow> json \<Rightarrow> json list result" where
  "check_steps env definition =
    res_bind (catalog_version_of definition) (\<lambda>cv.
    res_bind (py_get definition ''steps'' (JArr [])) (\<lambda>v.
    res_bind (py_iter v) (\<lambda>steps.
    res_bind (res_fold (check_step env definition cv) ([], []) (enumerate 1 steps)) (\<lambda>(seen, _).
    Inr seen))))"

definition check_secret :: "json list \<Rightarrow> json list \<Rightarrow> json \<Rightarrow> json list result" where
  "check_secret step_ids seen secret =
    res_bind (py_get secret ''key'' (JStr [])) (\<lambda>key.
    res_bind (in_set key seen) (\<lambda>dup.
    if dup then Inl (bad_workflow ''duplicate_secret_key'')
    else res_bind (py_get secret ''requiredBy'' (JArr [])) (\<lambda>r.
      res_bind (py_iter r) (\<lambda>refs.
      res_bind (all_ok (\<lambda>ref. res_bind (in_set ref step_ids) (\<lambda>known.
        if known then Inr () else Inl (bad_workflow ''unknown_step_reference''))) refs) (\<lambda>_.
      Inr (key # seen))))))"

definition check_secret_declarations :: "json \<Rightarrow> json list \<Rightarrow> unit result" where
  "check_secret_declarations definition step_ids =
    res_bind (py_get definition ''secrets'' (JArr [])) (\<lambda>v.
    res_bind (py_iter v) (\<lambda>secrets.
    res_bind (res_fold (check_secret step_ids) [] secrets) (\<lambda>_. Inr ())))"

definition validate_v2 :: "wf_env \<Rightarrow> json \<Rightarrow> unit result" where
  "validate_v2 env definition =
    (if \<not> we_schema_v2 env definition then Inl (bad_workflow ''workflow_schema_violation'')
     else res_bind (check_catalog_version definition) (\<lambda>_.
       res_bind (check_steps env definition) (\<lambda>step_ids.
       check_secret_declarations definition step_ids)))"

section \<open>Facts\<close>

text \<open>The keys of the accepted steps are pairwise different, and so are their artifacts.\<close>

fun no_dups :: "json list \<Rightarrow> bool" where
  "no_dups [] = True"
| "no_dups (x # xs) = ((\<forall>y \<in> set xs. \<not> py_eq x y) \<and> no_dups xs)"

lemma in_set_False: "in_set v s = Inr False \<Longrightarrow> \<forall>w \<in> set s. \<not> py_eq v w"
  by (auto simp: in_set_def split: if_splits)

lemma check_artifact_Inr:
  assumes "check_artifact seen a = Inr seen'" and "no_dups seen"
  shows "no_dups seen'"
  using assms by (auto simp: check_artifact_def res_bind_eq_Inr in_set_def split: if_splits)

lemma check_step_artifacts_Inr:
  assumes "check_step_artifacts seen s = Inr seen'" and "no_dups seen"
  shows "no_dups seen'"
proof -
  from assms(1) obtain xs where "res_fold check_artifact seen xs = Inr seen'"
    by (auto simp: check_step_artifacts_def res_bind_eq_Inr)
  then show ?thesis
    by (rule res_fold_induct [where P = no_dups]) (use assms(2) check_artifact_Inr in auto)
qed

text \<open>What a step must satisfy on its own to be accepted.\<close>

lemma check_step_Inr:
  assumes "check_step env df cv (seen, arts) (pos, step) = Inr (seen', arts')"
  obtains i action where
    "py_get step ''id'' (JStr (''<position '' @ nat_str pos @ ''>'')) = Inr i" "seen' = i # seen"
    "in_set i seen = Inr False"
    "py_get step ''action'' (JObj []) = Inr action" "check_action_type_match step action = Inr ()"
    "check_action_catalog env action cv = Inr ()" "check_action_inputs env action cv = Inr ()"
    "check_step_secrets step df = Inr ()" "check_step_artifacts arts step = Inr arts'"
    "check_retry_idempotency step = Inr ()" "check_dry_run step = Inr ()"
    "check_pilot_restrictions step action = Inr ()"
  using assms by (auto simp: check_step_def res_bind_eq_Inr split: if_splits)

lemma artifact_path_safe:
  assumes "validate_artifact_path (JStr p) = Inr ()"
  shows "p \<noteq> []" "\<not> starts_with ''/'' p" "\<not> starts_with ''~'' p"
    "''..'' \<notin> set (split_on (CHR ''/'') (slashes p))"
  using assms by (auto simp: validate_artifact_path_def Let_def py_str_def split: if_splits)

section \<open>Properties\<close>

lemma v1_steps_ok_Inr:
  "v1_steps_ok seen ss = Inr () \<longleftrightarrow>
     (\<forall>s \<in> set ss. is_obj s \<and> truthy (fget (fields_of s) ''id'' JNull) \<and>
        py_hashable (fget (fields_of s) ''id'' JNull) \<and>
        \<not> (\<exists>w \<in> set seen. py_eq (fget (fields_of s) ''id'' JNull) w)) \<and>
     (\<forall>i < length ss. \<forall>j < i. \<not> py_eq (fget (fields_of (ss ! i)) ''id'' JNull)
        (fget (fields_of (ss ! j)) ''id'' JNull))"
proof (induction ss arbitrary: seen)
  case (Cons s ss)
  let ?id = "\<lambda>s. fget (fields_of s) ''id'' JNull"
  have pairs: "(\<forall>i < length (s # ss). \<forall>j < i. \<not> py_eq (?id ((s # ss) ! i)) (?id ((s # ss) ! j))) \<longleftrightarrow>
      (\<forall>t \<in> set ss. \<not> py_eq (?id t) (?id s)) \<and>
      (\<forall>i < length ss. \<forall>j < i. \<not> py_eq (?id (ss ! i)) (?id (ss ! j)))"
    by (simp add: All_less_Suc2 all_set_conv_all_nth) blast
  show ?case
    unfolding pairs
    by (auto simp: Let_def in_set_def Cons.IH split: if_splits)
qed simp

text \<open>
  A v1 definition is accepted exactly when it is an object whose \<open>steps\<close> is a non-empty list of
  objects with true, hashable ids, no two of which are equal.
\<close>

theorem v1_accepts_iff:
  "validate_v1 df = Inr () \<longleftrightarrow>
     (\<exists>ss. is_obj df \<and> fget (fields_of df) ''steps'' JNull = JArr ss \<and> ss \<noteq> [] \<and>
        (\<forall>s \<in> set ss. is_obj s \<and> truthy (fget (fields_of s) ''id'' JNull) \<and>
           py_hashable (fget (fields_of s) ''id'' JNull)) \<and>
        (\<forall>i < length ss. \<forall>j < i. \<not> py_eq (fget (fields_of (ss ! i)) ''id'' JNull)
           (fget (fields_of (ss ! j)) ''id'' JNull)))"
  unfolding validate_v1_def
  by (auto simp: v1_steps_ok_Inr simp del: v1_steps_ok.simps split: json.splits list.splits if_splits)

theorem v1_accepts_iff_witness:
  "\<exists>ss. ss \<noteq> [] \<and>
     fget (fields_of (JObj [(''steps'', JArr [JObj [(''id'', JStr ''a'')]])])) ''steps'' JNull = JArr ss"
proof -
  have "validate_v1 (JObj [(''steps'', JArr [JObj [(''id'', JStr ''a'')]])]) = Inr ()"
    by code_simp
  then show ?thesis
    unfolding v1_accepts_iff by blast
qed

text \<open>What \<open>validate_v2\<close> establishes of one step, of its artifacts and of the secrets.\<close>

lemma artifacts_kept:
  assumes "res_fold check_artifact seen xs = Inr seen'"
  shows "set seen \<subseteq> set seen' \<and> (\<forall>a \<in> set xs. \<exists>k p. py_get a ''key'' (JStr []) = Inr k \<and> k \<in> set seen' \<and>
     py_get a ''path'' JNull = Inr p \<and> (p \<noteq> JNull \<longrightarrow> validate_artifact_path p = Inr ()))"
  using assms
proof (induction xs arbitrary: seen)
  case (Cons x xs)
  from Cons.prems obtain s1 where x: "check_artifact seen x = Inr s1" and r: "res_fold check_artifact s1 xs = Inr seen'"
    by (auto simp: res_bind_eq_Inr)
  from x obtain k p where "py_get x ''key'' (JStr []) = Inr k" "s1 = k # seen" "py_get x ''path'' JNull = Inr p"
    "p \<noteq> JNull \<longrightarrow> validate_artifact_path p = Inr ()"
    by (auto simp: check_artifact_def res_bind_eq_Inr split: if_splits)
  with Cons.IH [OF r] show ?case by auto
qed simp

definition step_ok :: "wf_env \<Rightarrow> json \<Rightarrow> json \<Rightarrow> json \<Rightarrow> bool" where
  "step_ok env df cv step \<longleftrightarrow>
     (\<exists>action. py_get step ''action'' (JObj []) = Inr action \<and> check_action_type_match step action = Inr () \<and>
        check_action_catalog env action cv = Inr () \<and> check_action_inputs env action cv = Inr () \<and>
        check_pilot_restrictions step action = Inr ()) \<and>
     check_step_secrets step df = Inr () \<and> check_retry_idempotency step = Inr () \<and>
     check_dry_run step = Inr () \<and>
     (\<exists>v as. py_get step ''artifacts'' (JArr []) = Inr v \<and> py_iter v = Inr as \<and>
        (\<forall>a \<in> set as. \<exists>p. py_get a ''path'' JNull = Inr p \<and>
           (p \<noteq> JNull \<longrightarrow> validate_artifact_path p = Inr ())))"

lemma check_step_ok:
  assumes "check_step env df cv (seen, arts) (pos, step) = Inr (seen', arts')"
    and "no_dups seen" and "no_dups arts"
  shows "step_ok env df cv step" and "no_dups seen'" and "no_dups arts'"
  using assms(1)
proof (atomize (full), rule check_step_Inr)
  fix i action
  assume a: "seen' = i # seen" "in_set i seen = Inr False"
    "py_get step ''action'' (JObj []) = Inr action" "check_action_type_match step action = Inr ()"
    "check_action_catalog env action cv = Inr ()" "check_action_inputs env action cv = Inr ()"
    "check_step_secrets step df = Inr ()" "check_step_artifacts arts step = Inr arts'"
    "check_retry_idempotency step = Inr ()" "check_dry_run step = Inr ()"
    "check_pilot_restrictions step action = Inr ()"
  from a(8) obtain v as where v: "py_get step ''artifacts'' (JArr []) = Inr v" "py_iter v = Inr as"
      "res_fold check_artifact arts as = Inr arts'"
    by (auto simp: check_step_artifacts_def res_bind_eq_Inr)
  with artifacts_kept [OF v(3)] a have "step_ok env df cv step"
    unfolding step_ok_def by blast
  with in_set_False [OF a(2)] assms(2) a(1) check_step_artifacts_Inr [OF a(8) assms(3)]
  show "step_ok env df cv step \<and> no_dups seen' \<and> no_dups arts'" by simp
qed

lemma check_steps_fold:
  assumes "res_fold (check_step env df cv) (seen, arts) ps = Inr (seen', arts')"
    and "no_dups seen" and "no_dups arts"
  shows "no_dups seen' \<and> no_dups arts' \<and> (\<forall>(n, s) \<in> set ps. step_ok env df cv s)"
  using assms
proof (induction ps arbitrary: seen arts)
  case (Cons p ps)
  obtain n s where p: "p = (n, s)" by (cases p)
  from Cons.prems(1) obtain seen1 arts1 where
    c: "check_step env df cv (seen, arts) (n, s) = Inr (seen1, arts1)" and
    r: "res_fold (check_step env df cv) (seen1, arts1) ps = Inr (seen', arts')"
    by (auto simp: res_bind_eq_Inr p)
  from check_step_ok [OF c Cons.prems(2,3)] Cons.IH [OF r] show ?case by (simp add: p)
qed simp

lemma py_eq_JStr: "py_eq v (JStr s) \<longleftrightarrow> v = JStr s"
  by (cases v) (auto split: option.splits)

lemma mem_enumerate: "s \<in> set ss \<Longrightarrow> \<exists>n. (n, s) \<in> set (enumerate k ss)"
  by (metis map_snd_enumerate in_set_impl_in_set_zip2 in_set_zip imageE set_map surjective_pairing)


text \<open>A catalog with one action type and no constraints.\<close>

definition sample_env :: wf_env where
  "sample_env = \<lparr>we_schema_v2 = (\<lambda>_. True), we_catalog = (\<lambda>_. Some [''shell_command'']),
     we_action_schema = (\<lambda>_ _. Some (JObj [])), we_validates = (\<lambda>_ _. True)\<rparr>"

definition sample_v2 :: json where
  "sample_v2 = JObj [(''schemaVersion'', JStr ''workflow.schema.v2''), (''steps'', JArr [
     JObj [(''id'', JStr ''s1''), (''type'', JStr ''shell_command''),
       (''action'', JObj [(''type'', JStr ''shell_command''),
          (''params'', JObj [(''command'', JStr ''ls'')])]),
       (''artifacts'', JArr [JObj [(''key'', JStr ''log''), (''kind'', JStr ''file''),
          (''path'', JStr ''out/log'')]])]])]"


end
