(* ===== verification/Store.thy ===== *)
theory Store
  imports Py_Values "HOL-Library.AList"
begin

text \<open>
  The persistent state: one record type per Django model, with the fields the modelled
  services read or write, and the record \<open>db\<close> of all tables. Row ids stand for the UUID
  primary keys and claim tokens; \<open>next_id\<close> is the supply of fresh ones (\<open>uuid.uuid4\<close>), and
  \<open>id_str\<close> is their text. Statuses are datatypes with the constructors of the models'
  \<open>TextChoices\<close>, and the functions ending in \<open>_str\<close> give the stored text. Column length limits are not
  modelled.
\<close>

definition id_str :: "nat \<Rightarrow> string" where
  "id_str n = nat_str n"

lemma id_str_eq [simp]: "id_str m = id_str n \<longleftrightarrow> m = n"
  by (simp add: id_str_def)

lemma id_str_ne [simp]: "id_str m \<noteq> []"
  by (simp add: id_str_def)

section \<open>Executions\<close>

datatype exec_status = ExQueued | ExClaimed | ExRunning | ExSucceeded | ExFailed | ExCancelled

fun exec_status_str :: "exec_status \<Rightarrow> string" where
  "exec_status_str ExQueued = ''queued''"
| "exec_status_str ExClaimed = ''claimed''"
| "exec_status_str ExRunning = ''running''"
| "exec_status_str ExSucceeded = ''succeeded''"
| "exec_status_str ExFailed = ''failed''"
| "exec_status_str ExCancelled = ''cancelled''"

datatype exec_mode = Live | DryRun

fun exec_mode_str :: "exec_mode \<Rightarrow> string" where
  "exec_mode_str Live = ''live''"
| "exec_mode_str DryRun = ''dry_run''"

record execution =
  ex_org :: nat
  ex_workflow :: nat
  ex_workflow_version :: nat
  ex_snapshot :: json
  ex_snapshot_hash :: string
  ex_mode :: exec_mode
  ex_status :: exec_status
  ex_started_at :: "timestamp option"
  ex_finished_at :: "timestamp option"
  ex_runner :: string
  ex_claim_token :: "nat option"
  ex_claimed_at :: "timestamp option"
  ex_heartbeat_at :: "timestamp option"
  ex_pool_key :: string
  ex_cancel_at :: "timestamp option"
  ex_cancel_by :: string
  ex_created_at :: timestamp

datatype step_status =
    StPending | StWaiting | StRunning | StSucceeded | StFailed | StSkipped | StCancelled

fun step_status_str :: "step_status \<Rightarrow> string" where
  "step_status_str StPending = ''pending''"
| "step_status_str StWaiting = ''waiting_for_approval''"
| "step_status_str StRunning = ''running''"
| "step_status_str StSucceeded = ''succeeded''"
| "step_status_str StFailed = ''failed''"
| "step_status_str StSkipped = ''skipped''"
| "step_status_str StCancelled = ''cancelled''"

record exec_step =
  st_exec :: nat
  st_position :: nat
  st_key :: string
  st_name :: string
  st_type :: string
  st_risk :: string
  st_command :: string
  st_requires_approval :: bool
  st_snapshot :: json
  st_status :: step_status
  st_started_at :: "timestamp option"
  st_finished_at :: "timestamp option"
  st_exit_code :: "int option"
  st_error :: string
  st_failure_kind :: string
  st_timed_out :: bool
  st_cancelled :: bool
  st_sandbox_provider :: string
  st_sandbox_run_id :: string
  st_command_sha :: string
  st_result_metadata :: json

datatype lease_status = LeaseActive | LeaseReleased | LeaseExpired

record exec_lease =
  ls_exec :: nat
  ls_org :: nat
  ls_runner :: nat
  ls_pool :: nat
  ls_status :: lease_status
  ls_claimed_at :: timestamp
  ls_released_at :: "timestamp option"
  ls_reason :: string

section \<open>Workflows\<close>

datatype workflow_status = WfDraft | WfPublished | WfSuperseded | WfArchived

fun workflow_status_str :: "workflow_status \<Rightarrow> string" where
  "workflow_status_str WfDraft = ''draft''"
| "workflow_status_str WfPublished = ''published''"
| "workflow_status_str WfSuperseded = ''superseded''"
| "workflow_status_str WfArchived = ''archived''"

datatype wf_validation = WvValid | WvInvalid | WvPending | WvNotApplicable

fun wf_validation_str :: "wf_validation \<Rightarrow> string" where
  "wf_validation_str WvValid = ''valid''"
| "wf_validation_str WvInvalid = ''invalid''"
| "wf_validation_str WvPending = ''pending''"
| "wf_validation_str WvNotApplicable = ''not_applicable''"

datatype parse_source = ParseManual | ParseAi

fun parse_source_str :: "parse_source \<Rightarrow> string" where
  "parse_source_str ParseManual = ''manual''"
| "parse_source_str ParseAi = ''ai_parse''"

record workflow =
  wf_org :: nat
  wf_runbook :: nat
  wf_name :: string
  wf_version :: nat
  wf_status :: workflow_status
  wf_schema_version :: string
  wf_definition :: json
  wf_definition_hash :: string
  wf_catalog_version :: string
  wf_validation :: wf_validation
  wf_validation_report :: json
  wf_requires_review :: bool
  wf_parse_source :: parse_source

datatype runbook_status = RbDraft | RbReady | RbArchived

record runbook =
  rb_org :: nat
  rb_title :: string
  rb_slug :: string
  rb_content :: string
  rb_status :: runbook_status

section \<open>Approvals\<close>

datatype approval_status = ArPending | ArApproved | ArRejected | ArTimedOut

fun approval_status_str :: "approval_status \<Rightarrow> string" where
  "approval_status_str ArPending = ''pending''"
| "approval_status_str ArApproved = ''approved''"
| "approval_status_str ArRejected = ''rejected''"
| "approval_status_str ArTimedOut = ''timed_out''"

datatype subject_type = SubjStep | SubjChange | SubjException

fun subject_type_str :: "subject_type \<Rightarrow> string" where
  "subject_type_str SubjStep = ''execution_step''"
| "subject_type_str SubjChange = ''change_record''"
| "subject_type_str SubjException = ''change_exception''"

record approval_request =
  ar_org :: nat
  ar_subject_type :: subject_type
  ar_subject_id :: "nat option"
  ar_exec :: "nat option"
  ar_step :: "nat option"
  ar_status :: approval_status
  ar_runner :: string
  ar_requested_at :: timestamp
  ar_timeout :: "int option"
  ar_expires_at :: "timestamp option"
  ar_resolved_at :: "timestamp option"

text \<open>The choices of a decision.\<close>

datatype decision = Approved | Rejected | TimedOut

fun decision_str :: "decision \<Rightarrow> string" where
  "decision_str Approved = ''approved''"
| "decision_str Rejected = ''rejected''"
| "decision_str TimedOut = ''timed_out''"

fun decision_status :: "decision \<Rightarrow> approval_status" where
  "decision_status Approved = ArApproved"
| "decision_status Rejected = ArRejected"
| "decision_status TimedOut = ArTimedOut"

datatype source_type = Human | System

record approval_decision =
  ad_request :: nat
  ad_decision :: decision
  ad_source :: source_type
  ad_user :: "string option"
  ad_label :: string
  ad_label_source :: string
  ad_notes :: string
  ad_decided_at :: timestamp

section \<open>Policies\<close>

record policy =
  po_org :: nat
  po_name :: string
  po_description :: string
  po_is_active :: bool
  po_created_by :: string
  po_updated_by :: string
  po_created_at :: timestamp

record policy_rule =
  pr_policy :: nat
  pr_name :: string
  pr_description :: string
  pr_is_active :: bool
  pr_priority :: int
  pr_condition_type :: string
  pr_condition_params :: json
  pr_outcome :: string
  pr_reason :: string

datatype decision_source = PolicyRuleSource | WorkflowDefault

fun decision_source_str :: "decision_source \<Rightarrow> string" where
  "decision_source_str PolicyRuleSource = ''policy_rule''"
| "decision_source_str WorkflowDefault = ''workflow_default''"

record policy_evaluation =
  pe_org :: nat
  pe_exec :: nat
  pe_step :: nat
  pe_policy :: "nat option"
  pe_rule :: "nat option"
  pe_matched :: bool
  pe_outcome :: string
  pe_effective :: string
  pe_source :: decision_source
  pe_condition_type :: string
  pe_condition_params :: json
  pe_context :: json
  pe_reason :: string
  pe_error_code :: string
  pe_error_message :: string
  pe_evaluated_at :: timestamp
  pe_created_at :: timestamp

section \<open>Runners\<close>

datatype pool_status = PoolActive | PoolDraining | PoolDisabled

record runner_pool =
  pl_org :: nat
  pl_key :: string
  pl_status :: pool_status
  pl_max_concurrent :: nat
  pl_default_non_change :: bool
  pl_capabilities :: json
  pl_drain_requested_at :: "timestamp option"
  pl_disabled_at :: "timestamp option"

datatype runner_status =
    RnRegistered | RnActive | RnDraining | RnOffline | RnDisabled | RnRevoked

fun runner_status_str :: "runner_status \<Rightarrow> string" where
  "runner_status_str RnRegistered = ''registered''"
| "runner_status_str RnActive = ''active''"
| "runner_status_str RnDraining = ''draining''"
| "runner_status_str RnOffline = ''offline''"
| "runner_status_str RnDisabled = ''disabled''"
| "runner_status_str RnRevoked = ''revoked''"

record runner =
  rn_org :: nat
  rn_pool :: nat
  rn_display_name :: string
  rn_status :: runner_status
  rn_version :: string
  rn_hostname :: string
  rn_fingerprint :: string
  rn_token_hash :: string
  rn_registered_at :: "timestamp option"
  rn_last_seen_at :: "timestamp option"
  rn_heartbeat_at :: "timestamp option"
  rn_drain_requested_at :: "timestamp option"
  rn_disabled_at :: "timestamp option"
  rn_revoked_at :: "timestamp option"
  rn_metadata :: json

record reg_token =
  rt_org :: nat
  rt_pool :: nat
  rt_token_hash :: string
  rt_label_policy :: "string list"
  rt_capability_policy :: "string list"
  rt_expires_at :: timestamp
  rt_max_registrations :: nat
  rt_used_count :: nat
  rt_revoked_at :: "timestamp option"

record route =
  ro_org :: nat
  ro_environment :: string
  ro_target_type :: string
  ro_pattern :: string
  ro_pool :: nat
  ro_required_capabilities :: json
  ro_priority :: nat
  ro_is_active :: bool

section \<open>Changes\<close>

datatype verification_mode = VmAutomated | VmManual | VmMixed

fun verification_mode_str :: "verification_mode \<Rightarrow> string" where
  "verification_mode_str VmAutomated = ''automated''"
| "verification_mode_str VmManual = ''manual''"
| "verification_mode_str VmMixed = ''mixed''"

record op_profile =
  op_org :: nat
  op_key :: string
  op_name :: string
  op_is_active :: bool
  op_risk_level :: string
  op_requires_approval :: bool
  op_verification_required :: bool
  op_verification_mode :: verification_mode
  op_approval_ttl :: "int option"
  op_dispatch_ttl :: int
  op_allowed_target_types :: json
  op_inputs_schema :: json
  op_target_schema :: json
  op_allowed_workflows :: "nat list"
  op_required_capabilities :: json
  op_allow_emergency :: bool
  op_plan_template :: json
  op_max_breakglass :: "int option"
  op_retro_sla :: "int option"
  op_description :: string
  op_independent_reviewer :: bool
  op_created_by :: "string option"
  op_updated_by :: "string option"

datatype change_status =
    ChDraft | ChPendingApproval | ChApproved | ChScheduled | ChDispatchable | ChRunning
  | ChVerificationPending | ChVerificationFailed | ChVerified | ChClosed | ChRejected
  | ChCanceled | ChExpired

fun change_status_str :: "change_status \<Rightarrow> string" where
  "change_status_str ChDraft = ''draft''"
| "change_status_str ChPendingApproval = ''pending_approval''"
| "change_status_str ChApproved = ''approved''"
| "change_status_str ChScheduled = ''scheduled''"
| "change_status_str ChDispatchable = ''dispatchable''"
| "change_status_str ChRunning = ''running''"
| "change_status_str ChVerificationPending = ''verification_pending''"
| "change_status_str ChVerificationFailed = ''verification_failed''"
| "change_status_str ChVerified = ''verified''"
| "change_status_str ChClosed = ''closed''"
| "change_status_str ChRejected = ''rejected''"
| "change_status_str ChCanceled = ''canceled''"
| "change_status_str ChExpired = ''expired''"

text \<open>
  The time stamp columns a status change sets (\<open>approved_at\<close>, \<open>running_at\<close>, ...) are the
  association list \<open>ch_stamps\<close>, from the names of the columns that are set to their values.
\<close>

record change =
  ch_org :: nat
  ch_profile :: nat
  ch_workflow :: nat
  ch_requested_by :: "string option"
  ch_submitted_by :: "string option"
  ch_title :: string
  ch_summary :: string
  ch_justification :: string
  ch_status :: change_status
  ch_inputs :: json
  ch_inputs_sha :: string
  ch_snapshot :: json
  ch_snapshot_sha :: string
  ch_profile_key_snap :: string
  ch_workflow_version_snap :: "nat option"
  ch_workflow_def_sha :: string
  ch_approval_request :: "nat option"
  ch_policy_evaluation :: "nat option"
  ch_policy_snapshot :: json
  ch_scheduled_for :: "timestamp option"
  ch_submitted_at :: "timestamp option"
  ch_stamps :: "(string \<times> timestamp) list"
  ch_terminal_reason :: string
  ch_is_emergency :: bool
  ch_emergency_reason :: string
  ch_emergency_by :: "string option"
  ch_emergency_at :: "timestamp option"
  ch_retro_required :: bool
  ch_retro_due :: "timestamp option"
  ch_retro_blocking :: string

record change_target =
  tg_change :: nat
  tg_org :: nat
  tg_position :: nat
  tg_type :: string
  tg_identifier :: string
  tg_normalized :: string
  tg_display_name :: string
  tg_environment :: string
  tg_metadata :: json

record binding =
  bd_change :: nat
  bd_exec :: nat
  bd_org :: nat
  bd_profile_key :: string
  bd_inputs_sha :: string
  bd_nonce :: string
  bd_token_hash :: string
  bd_expires_at :: timestamp
  bd_reserved_at :: timestamp
  bd_bound_at :: "timestamp option"
  bd_bound_by :: string
  bd_accepted_at :: "timestamp option"
  bd_started_at :: "timestamp option"
  bd_finished_at :: "timestamp option"
  bd_payload :: json

datatype window_status = WnScheduled | WnOpen | WnExpired | WnOverrun | WnClosed

fun window_status_str :: "window_status \<Rightarrow> string" where
  "window_status_str WnScheduled = ''scheduled''"
| "window_status_str WnOpen = ''open''"
| "window_status_str WnExpired = ''expired''"
| "window_status_str WnOverrun = ''overrun''"
| "window_status_str WnClosed = ''closed''"

record change_window =
  wn_org :: nat
  wn_change :: nat
  wn_starts_at :: timestamp
  wn_ends_at :: timestamp
  wn_status :: window_status
  wn_overrun_at :: "timestamp option"
  wn_closed_at :: "timestamp option"
  wn_timezone :: string
  wn_reason :: string
  wn_updated_by :: "string option"

datatype lock_status = LockActive | LockReleased | LockExpired

record target_lock =
  lk_org :: nat
  lk_change :: nat
  lk_exec :: nat
  lk_target :: nat
  lk_type :: string
  lk_identifier :: string
  lk_normalized :: string
  lk_status :: lock_status
  lk_acquired_at :: timestamp
  lk_released_at :: "timestamp option"
  lk_reason :: string

datatype plan_status = VpGenerated | VpActive | VpSatisfied | VpFailed | VpCanceled

fun plan_status_str :: "plan_status \<Rightarrow> string" where
  "plan_status_str VpGenerated = ''generated''"
| "plan_status_str VpActive = ''active''"
| "plan_status_str VpSatisfied = ''satisfied''"
| "plan_status_str VpFailed = ''failed''"
| "plan_status_str VpCanceled = ''canceled''"

record verification_plan =
  vp_org :: nat
  vp_change :: nat
  vp_profile :: nat
  vp_mode :: verification_mode
  vp_status :: plan_status
  vp_snapshot :: json
  vp_snapshot_sha :: string
  vp_required_count :: int
  vp_optional_count :: int
  vp_satisfied_required :: int
  vp_failed_required :: int
  vp_generated_at :: timestamp
  vp_activated_at :: "timestamp option"
  vp_satisfied_at :: "timestamp option"
  vp_failed_at :: "timestamp option"

datatype check_status = VcPending | VcPassed | VcFailed | VcNotApplicable

record verification_check =
  vc_plan :: nat
  vc_change :: nat
  vc_position :: nat
  vc_key :: string
  vc_name :: string
  vc_description :: string
  vc_type :: string
  vc_required :: bool
  vc_status :: check_status
  vc_verification_key :: string
  vc_source_step_key :: string
  vc_artifact_kind :: string
  vc_artifact_pattern :: string
  vc_checksum :: string
  vc_api_assertion :: json
  vc_external_config :: json
  vc_attestation_config :: json
  vc_last_result :: "nat option"
  vc_satisfied_at :: "timestamp option"
  vc_failed_at :: "timestamp option"

datatype result_source = SrcRunner | SrcUser | SrcSystem

fun result_source_str :: "result_source \<Rightarrow> string" where
  "result_source_str SrcRunner = ''runner''"
| "result_source_str SrcUser = ''user''"
| "result_source_str SrcSystem = ''system''"

datatype result_outcome = OutPassed | OutFailed

fun result_outcome_str :: "result_outcome \<Rightarrow> string" where
  "result_outcome_str OutPassed = ''passed''"
| "result_outcome_str OutFailed = ''failed''"

record verification_result =
  vr_org :: nat
  vr_change :: nat
  vr_plan :: nat
  vr_check :: nat
  vr_source :: result_source
  vr_outcome :: result_outcome
  vr_accepted :: bool
  vr_submitted_by :: "string option"
  vr_runner :: string
  vr_verification_key :: string
  vr_artifact :: "nat option"
  vr_checksum :: string
  vr_external_reference :: string
  vr_api_snapshot :: jdict
  vr_attestation :: string
  vr_observed :: jdict
  vr_errors :: "json list"
  vr_submitted_at :: timestamp
  vr_validated_at :: timestamp

datatype exception_status = XcPendingApproval | XcApproved | XcRejected | XcResolved | XcExpired

fun exception_status_str :: "exception_status \<Rightarrow> string" where
  "exception_status_str XcPendingApproval = ''pending_approval''"
| "exception_status_str XcApproved = ''approved''"
| "exception_status_str XcRejected = ''rejected''"
| "exception_status_str XcResolved = ''resolved''"
| "exception_status_str XcExpired = ''expired''"

record change_exception =
  xc_org :: nat
  xc_change :: nat
  xc_type :: string
  xc_status :: exception_status
  xc_reason :: string
  xc_scope :: json
  xc_requested_by :: "string option"
  xc_requested_at :: timestamp
  xc_approval :: "nat option"
  xc_approved_by :: "string option"
  xc_approved_at :: "timestamp option"
  xc_rejected_at :: "timestamp option"
  xc_expires_at :: timestamp
  xc_resolved_at :: "timestamp option"
  xc_note :: string
  xc_check :: "nat option"

datatype breakglass_status = BgActive | BgEnded | BgExpired | BgRevoked

datatype review_status = RvPending | RvSubmitted | RvAccepted | RvOverdue | RvBlocked

fun review_status_str :: "review_status \<Rightarrow> string" where
  "review_status_str RvPending = ''pending''"
| "review_status_str RvSubmitted = ''submitted''"
| "review_status_str RvAccepted = ''accepted''"
| "review_status_str RvOverdue = ''overdue''"
| "review_status_str RvBlocked = ''blocked''"

record breakglass =
  bg_org :: nat
  bg_change :: nat
  bg_status :: breakglass_status
  bg_scope :: json
  bg_started_at :: timestamp
  bg_expires_at :: timestamp
  bg_ended_at :: "timestamp option"
  bg_ended_by :: "string option"
  bg_end_reason :: string
  bg_review_due_at :: timestamp
  bg_review_status :: review_status
  bg_scope_sha :: string
  bg_reason :: string
  bg_activated_by :: "string option"
  bg_heartbeat_at :: "timestamp option"

datatype retro_status = RrPending | RrSubmitted | RrSuperseded

text \<open>The empty disposition is \<open>None\<close>.\<close>

datatype disposition = DispAccepted | DispRemediation | DispControlFailure

fun disposition_str :: "disposition \<Rightarrow> string" where
  "disposition_str DispAccepted = ''accepted''"
| "disposition_str DispRemediation = ''needs_remediation''"
| "disposition_str DispControlFailure = ''control_failure''"

record retro_review =
  rr_org :: nat
  rr_change :: nat
  rr_session :: "nat option"
  rr_exception :: "nat option"
  rr_status :: retro_status
  rr_disposition :: "disposition option"
  rr_reviewed_by :: "string option"
  rr_reviewed_at :: "timestamp option"
  rr_due_at :: timestamp
  rr_summary :: string
  rr_remediation_required :: bool
  rr_remediation_ref :: string
  rr_failure_category :: json
  rr_evidence :: json

section \<open>Artifacts and users\<close>

record artifact =
  af_org :: nat
  af_exec :: nat
  af_step :: "nat option"
  af_kind :: string
  af_name :: string
  af_original_name :: string
  af_mime_type :: string
  af_size :: nat
  af_checksum :: string
  af_storage_key :: string
  af_uploaded_by :: string
  af_available :: bool
  af_uploaded_at :: timestamp
  af_metadata :: json

text \<open>A user as the services receive it.\<close>

record user =
  us_id :: string
  us_active :: bool
  us_email :: string

section \<open>Freeze rules, dispatch checks, closures, memberships\<close>

datatype freeze_behavior = FreezeBlock | FreezeAllowWithException

fun freeze_behavior_str :: "freeze_behavior \<Rightarrow> string" where
  "freeze_behavior_str FreezeBlock = ''block''"
| "freeze_behavior_str FreezeAllowWithException = ''allow_with_exception''"

datatype freeze_scope = ScopeAllProduction | ScopeTargetType | ScopeTargetIdentifier

fun freeze_scope_str :: "freeze_scope \<Rightarrow> string" where
  "freeze_scope_str ScopeAllProduction = ''all_production''"
| "freeze_scope_str ScopeTargetType = ''target_type''"
| "freeze_scope_str ScopeTargetIdentifier = ''target_identifier''"

record freeze_rule =
  fz_org :: nat
  fz_name :: string
  fz_is_active :: bool
  fz_behavior :: freeze_behavior
  fz_starts_at :: timestamp
  fz_ends_at :: timestamp
  fz_scope :: freeze_scope
  fz_target_type :: string
  fz_target_identifier :: string
  fz_normalized :: string
  fz_requires_ref :: bool
  fz_description :: string
  fz_created_by :: "string option"
  fz_updated_by :: "string option"

record eligibility_check =
  ec_org :: nat
  ec_change :: nat
  ec_requested_by :: "string option"
  ec_passed :: bool
  ec_checked_at :: timestamp
  ec_expires_at :: timestamp
  ec_flags :: "(string \<times> bool option) list"
  ec_pool_key :: string
  ec_pool_id :: string
  ec_pool_reason :: string
  ec_checks :: json
  ec_conflicts :: json
  ec_input_sha :: string
  ec_window_sha :: string

record change_closure =
  cc_org :: nat
  cc_change :: nat
  cc_outcome :: string
  cc_closed_by :: "string option"
  cc_reviewer :: "string option"
  cc_summary :: string
  cc_plan :: nat
  cc_verification_summary :: json
  cc_execution_summary :: json
  cc_closed_at :: timestamp

text \<open>The role of a user in an organization (\<open>Membership\<close>); users are named by their ids as text.\<close>

datatype role = RoleViewer | RoleOperator | RoleAdmin | RoleOwner

record membership =
  mb_org :: nat
  mb_user :: string
  mb_role :: role

section \<open>Audit events and messages\<close>

datatype actor_type = ActorUser | ActorRunner | ActorSystem | ActorApiClient | ActorUnknown

record audit_actor =
  actor_type :: actor_type
  actor_id :: string
  actor_label :: string

record audit_event =
  ae_org :: nat
  ae_actor :: audit_actor
  ae_type :: string
  ae_object_type :: string
  ae_object_id :: nat
  ae_metadata :: jdict
  ae_occurred_at :: timestamp

text \<open>
  Messages handed to the event bus and to the integrations after commit: \<open>Stream id type data\<close>
  is an \<open>execution_event_bus\<close> event (its time stamps are left out of \<open>data\<close>) and
  \<open>Notify type object\<close> an integration notification.
\<close>

datatype message = Stream nat string jdict | Notify string nat

section \<open>The settings and the database\<close>

record settings =
  cfg_stale_heartbeat_seconds :: int
  cfg_online_seconds :: int
  cfg_offline_seconds :: int
  cfg_org_max_concurrent :: nat
  cfg_dispatch_secret :: string

record db =
  cfg :: settings
  next_id :: nat
  audit_log :: "audit_event list"
  outbox :: "message list"
  executions :: "execution table"
  exec_steps :: "exec_step table"
  leases :: "exec_lease table"
  runbooks :: "runbook table"
  workflows :: "workflow table"
  approval_reqs :: "approval_request table"
  approval_decs :: "approval_decision table"
  policies :: "policy table"
  policy_rules :: "policy_rule table"
  policy_evals :: "policy_evaluation table"
  runner_pools :: "runner_pool table"
  runners :: "runner table"
  reg_tokens :: "reg_token table"
  routes :: "route table"
  op_profiles :: "op_profile table"
  changes :: "change table"
  change_targets :: "change_target table"
  bindings :: "binding table"
  windows :: "change_window table"
  target_locks :: "target_lock table"
  ver_plans :: "verification_plan table"
  ver_checks :: "verification_check table"
  ver_results :: "verification_result table"
  artifacts :: "artifact table"
  change_exceptions :: "change_exception table"
  breakglasses :: "breakglass table"
  retro_reviews :: "retro_review table"
  freeze_rules :: "freeze_rule table"
  elig_checks :: "eligibility_check table"
  closures :: "change_closure table"
  memberships :: "membership table"

definition default_settings :: settings where
  "default_settings = \<lparr>cfg_stale_heartbeat_seconds = 60, cfg_online_seconds = 30,
     cfg_offline_seconds = 120, cfg_org_max_concurrent = 5, cfg_dispatch_secret = []\<rparr>"

definition empty_db :: db where
  "empty_db = \<lparr>cfg = default_settings, next_id = 1, audit_log = [], outbox = [],
     executions = [], exec_steps = [], leases = [], runbooks = [], workflows = [], approval_reqs = [],
     approval_decs = [], policies = [], policy_rules = [], policy_evals = [],
     runner_pools = [], runners = [], reg_tokens = [], routes = [], op_profiles = [],
     changes = [], change_targets = [], bindings = [], windows = [], target_locks = [],
     ver_plans = [], ver_checks = [], ver_results = [], artifacts = [], change_exceptions = [], breakglasses = [],
     retro_reviews = [], freeze_rules = [], elig_checks = [], closures = [], memberships = []\<rparr>"

section \<open>Small accessors\<close>

text \<open>\<open>str(execution.claim_token)\<close>, to be compared with the token a runner sends.\<close>

definition token_text :: "nat option \<Rightarrow> string" where
  "token_text t = (case t of None \<Rightarrow> ''None'' | Some n \<Rightarrow> id_str n)"

text \<open>
  The part of the state the lifecycle of a change does not write: executions, approvals,
  policies and runners.
\<close>

definition control_part where
  "control_part d = (cfg d, runbooks d, artifacts d, approval_reqs d, approval_decs d, policies d, policy_rules d,
     policy_evals d, runner_pools d, runners d, reg_tokens d, routes d, workflows d, leases d, executions d, exec_steps d)"

definition fresh :: "db \<Rightarrow> nat \<times> db" where
  "fresh d = (next_id d, d\<lparr>next_id := Suc (next_id d)\<rparr>)"

definition send :: "message \<Rightarrow> db \<Rightarrow> db" where
  "send m d = d\<lparr>outbox := outbox d @ [m]\<rparr>"

definition upd_exec :: "nat \<Rightarrow> (execution \<Rightarrow> execution) \<Rightarrow> db \<Rightarrow> db" where
  "upd_exec k f d = d\<lparr>executions := tupd k f (executions d)\<rparr>"

definition upd_step :: "nat \<Rightarrow> (exec_step \<Rightarrow> exec_step) \<Rightarrow> db \<Rightarrow> db" where
  "upd_step k f d = d\<lparr>exec_steps := tupd k f (exec_steps d)\<rparr>"

text \<open>
  An operation that is not wrapped in \<open>transaction.atomic()\<close> keeps what it wrote before an
  exception: it returns the database together with its result. \<open>then_do\<close> goes on after
  success, \<open>atomic\<close> rolls back on failure, and \<open>commit_result\<close> is an atomic operation run at the
  outermost level.
\<close>

type_synonym 'a outcome = "db \<times> 'a result"

definition then_do :: "'a outcome \<Rightarrow> (db \<Rightarrow> 'a \<Rightarrow> 'b outcome) \<Rightarrow> 'b outcome" where
  "then_do p f = (case p of (d, Inl e) \<Rightarrow> (d, Inl e) | (d, Inr a) \<Rightarrow> f d a)"

definition atomic :: "'a outcome \<Rightarrow> (db \<times> 'a) result" where
  "atomic p = (case p of (d, Inl e) \<Rightarrow> Inl e | (d, Inr a) \<Rightarrow> Inr (d, a))"

definition commit_result :: "db \<Rightarrow> db result \<Rightarrow> unit outcome" where
  "commit_result d r = (case r of Inl e \<Rightarrow> (d, Inl e) | Inr d' \<Rightarrow> (d', Inr ()))"

lemma then_do_Inl [simp]: "then_do (d, Inl e) f = (d, Inl e)"
  by (simp add: then_do_def)

lemma then_do_Inr [simp]: "then_do (d, Inr a) f = f d a"
  by (simp add: then_do_def)

lemma then_do_eq: "then_do p f = (d', r) \<longleftrightarrow>
    (\<exists>d1 e. p = (d1, Inl e) \<and> d' = d1 \<and> r = Inl e) \<or> (\<exists>d1 a. p = (d1, Inr a) \<and> f d1 a = (d', r))"
  by (cases p; cases "snd p") auto

lemma atomic_Inr [res_simps]: "atomic p = Inr (d, a) \<longleftrightarrow> p = (d, Inr a)"
  by (cases p; cases "snd p") (auto simp: atomic_def)

lemma commit_result_Inl [simp]: "commit_result d (Inl e) = (d, Inl e)"
  by (simp add: commit_result_def)

lemma commit_result_Inr [simp]: "commit_result d (Inr d') = (d', Inr ())"
  by (simp add: commit_result_def)

text \<open>A loop over the rows of a query, each step with its own effects.\<close>

fun each :: "(db \<Rightarrow> 'a \<Rightarrow> unit outcome) \<Rightarrow> db \<Rightarrow> 'a list \<Rightarrow> unit outcome" where
  "each f d [] = (d, Inr ())"
| "each f d (x # xs) = then_do (f d x) (\<lambda>d _. each f d xs)"

lemma each_induct:
  assumes "each f d xs = (d', r)" and "P d"
    and "\<And>x t t' r. x \<in> set xs \<Longrightarrow> P t \<Longrightarrow> f t x = (t', r) \<Longrightarrow> P t'"
  shows "P d'"
  using assms
proof (induction xs arbitrary: d)
  case (Cons x xs)
  from Cons.prems(1) consider
      e where "f d x = (d', Inl e)"
    | d1 where "f d x = (d1, Inr ())" "each f d1 xs = (d', r)"
    by (auto simp: then_do_eq)
  then show ?case
  proof cases
    case 1
    from Cons.prems(3) [OF _ Cons.prems(2) 1] show ?thesis by simp
  next
    case 2
    from Cons.prems(3) [OF _ Cons.prems(2) 2(1)] have "P d1" by simp
    then show ?thesis by (rule Cons.IH [OF 2(2)]) (use Cons.prems(3) in auto)
  qed
qed simp

lemma each_keeps:
  assumes "each f d xs = (d', r)" and "\<And>x t t' r. f t x = (t', r) \<Longrightarrow> v t' = v t"
  shows "v d' = v d"
  using assms(1)
  by (rule each_induct [where P = "\<lambda>t. v t = v d"]) (auto dest: assms(2))

text \<open>
  What an operation may do to the database is stated as a preorder on databases. Loops and
  sequences of operations that each stay within it stay within it.
\<close>

locale effect_order =
  fixes R :: "db \<Rightarrow> db \<Rightarrow> bool"
  assumes refl: "R d d"
    and trans: "R d d1 \<Longrightarrow> R d1 d2 \<Longrightarrow> R d d2"
begin

lemma fold_within:
  assumes "res_fold f d xs = Inr d'" and "\<And>x t t'. f t x = Inr t' \<Longrightarrow> R t t'"
  shows "R d d'"
  using assms(1)
  by (rule res_fold_induct [where P = "\<lambda>t. R d t"]) (blast intro: refl trans dest: assms(2))+

lemma each_within:
  assumes "each f d xs = (d', r)" and "\<And>x t t' r. f t x = (t', r) \<Longrightarrow> R t t'"
  shows "R d d'"
  using assms(1)
  by (rule each_induct [where P = "\<lambda>t. R d t"]) (blast intro: refl trans dest: assms(2))+

lemma then_do_within:
  assumes "then_do p f = (d', r)" and "\<And>t q. p = (t, q) \<Longrightarrow> R d t"
    and "\<And>t a t' q. f t a = (t', q) \<Longrightarrow> R t t'"
  shows "R d d'"
  using assms(1) by (auto simp: then_do_eq intro: assms(2) trans [OF assms(2) assms(3)])

lemma bind_within:
  assumes "res_bind p f = Inr x" and "\<And>t. p = Inr t \<Longrightarrow> R d (g t)"
    and "\<And>t. p = Inr t \<Longrightarrow> f t = Inr x \<Longrightarrow> R (g t) d'"
  shows "R d d'"
  using assms(1) by (auto simp: res_simps intro: trans [OF assms(2) assms(3)])

end

definition upd_change :: "nat \<Rightarrow> (change \<Rightarrow> change) \<Rightarrow> db \<Rightarrow> db" where
  "upd_change k f d = d\<lparr>changes := tupd k f (changes d)\<rparr>"

text \<open>The steps of an execution, ordered by position (\<open>execution.steps.order_by("position")\<close>).\<close>

definition steps_of :: "db \<Rightarrow> nat \<Rightarrow> exec_step table" where
  "steps_of d e = sort_key (\<lambda>(k, s). st_position s) (tsel (\<lambda>_ s. st_exec s = e) (exec_steps d))"

text \<open>The binding of an execution (a one-to-one relation).\<close>

definition binding_of_exec :: "db \<Rightarrow> nat \<Rightarrow> (nat \<times> binding) option" where
  "binding_of_exec d e = first_of (tsel (\<lambda>_ b. bd_exec b = e) (bindings d))"

definition binding_of_change :: "db \<Rightarrow> nat \<Rightarrow> (nat \<times> binding) option" where
  "binding_of_change d c = first_of (tsel (\<lambda>_ b. bd_change b = c) (bindings d))"

abbreviation exec_active :: "exec_status \<Rightarrow> bool" where
  "exec_active s \<equiv> s = ExClaimed \<or> s = ExRunning"

abbreviation exec_terminal :: "exec_status \<Rightarrow> bool" where
  "exec_terminal s \<equiv> s = ExSucceeded \<or> s = ExFailed \<or> s = ExCancelled"

named_theorems store_defs \<open>definitions of the small updates of the database\<close>

lemmas [store_defs] = fresh_def send_def upd_exec_def upd_step_def upd_change_def

end
