(* ===== verification/Audit_Log.thy ===== *)
theory Audit_Log
  imports Store
begin

text \<open>
  \<open>apps/audit/services.py\<close>: the audit service. \<open>audit_emit\<close> is \<open>AuditService.emit\<close> with its
  validation, the scrubbing of metadata and the size limit. It appends one event to
  \<open>audit_log\<close>; \<open>audit_save\<close> and \<open>audit_delete\<close> are the refusals of \<open>apps/audit/models.py\<close>.
  The organization and object ids are row ids, which are always UUIDs, so \<open>_validate_uuid\<close>
  never refuses them.
\<close>

section \<open>The key lists\<close>

definition FORBIDDEN_METADATA_KEYS :: "string list" where
  "FORBIDDEN_METADATA_KEYS = [
    ''api_key'', ''api_token'', ''apikey'', ''apitoken'', ''auth'', ''auth_header'',
    ''authorization'', ''authorization_header'', ''bearer'', ''bearer_token'',
    ''change_dispatch_token'', ''claim_token'', ''command'', ''command_output'', ''cookie'',
    ''dispatch_token'', ''dispatch_token_hash'', ''dispatch_token_nonce'', ''headers'',
    ''http_headers'', ''iam_policy_document'', ''kube_config'', ''password'', ''private_key'',
    ''raw_command'', ''raw_command_output'', ''raw_output'', ''raw_manifest'', ''raw_response'',
    ''raw_response_body'', ''raw_external_payload'', ''raw_external_response'',
    ''raw_external_snapshot'', ''external_snapshot'', ''external_snapshots'', ''request_body'',
    ''request_snapshot'', ''requested_inputs'', ''secret'', ''session'', ''session_token'',
    ''token'', ''token_hash'', ''registration_token'', ''registration_token_hash'',
    ''runner_token'', ''runner_token_hash'', ''runner_bearer_token'',
    ''runner_registration_token'', ''runner_registration_token_hash'', ''access_token'',
    ''refresh_token'', ''id_token'', ''client_secret'', ''credentials'', ''credential'',
    ''target_credential'', ''target_credentials'', ''target_secret'', ''target_secrets'',
    ''secrets'', ''auth_material'', ''authentication'', ''auth_headers'',
    ''proxy_authorization'', ''bundle_bytes'', ''download_url'', ''ticket_url'', ''ticket_urls'',
    ''external_ticket_url'', ''external_ticket_urls'', ''manifest'', ''manifest_json'',
    ''private_url'', ''private_urls'', ''presigned_url'', ''presigned_urls'', ''storage_key'',
    ''activation_ip'', ''api_assertion_response'', ''attestation_note'', ''attestation_notes'',
    ''attestation_text'', ''external_access_token'', ''manual_attestation_text'',
    ''override_payload'', ''privilege'', ''raw_scope'', ''grant_scope_raw'', ''raw_grant_scope'',
    ''scope_raw'', ''scope_payload'', ''grant_scope_payload'', ''request_payload'',
    ''response_body'', ''scope_json'', ''verification_secret'', ''webhook_url'',
    ''workflow_snapshot'', ''x_api_key'', ''cloud_account'', ''kubeconfig'',
    ''kube_config_file'', ''checksums'', ''zip_bytes'', ''export_bytes'', ''redacted_value'',
    ''original_value'', ''redaction_payload'', ''receipt_payload'', ''legal_hold_reason_raw'',
    ''external_reference_raw'', ''external_url'', ''external_urls'', ''artifact_bytes'',
    ''auditor_grant_scope'', ''auditor_scope'', ''grant_scope'', ''reference_url'',
    ''reference_urls'', ''scope'', ''source_url'', ''source_urls'', ''url'', ''urls'']"

definition REJECTED_METADATA_KEYS :: "string list" where
  "REJECTED_METADATA_KEYS = [
    ''breakglass_token'', ''change_dispatch_token'', ''dispatch_token'', ''dispatch_token_hash'',
    ''registration_token'', ''runner_bearer_token'', ''runner_registration_token'',
    ''token_hash'', ''requested_inputs'', ''request_snapshot'']"

definition MAX_METADATA_BYTES :: nat where
  "MAX_METADATA_BYTES = 16 * 1024"

definition OBJECT_TYPES :: "string list" where
  "OBJECT_TYPES = [
    ''organization'', ''runbook'', ''workflow'', ''execution'', ''execution_step'',
    ''approval_request'', ''approval_decision'', ''policy'', ''policy_rule'',
    ''policy_evaluation'', ''artifact'', ''integration_connection'', ''operation_profile'',
    ''change_record'', ''change_target'', ''change_execution_binding'', ''change_window'',
    ''freeze_rule'', ''target_lock'', ''dispatch_eligibility_check'', ''verification_plan'',
    ''verification_check'', ''verification_result'', ''change_closure'', ''change_exception'',
    ''breakglass_session'', ''retro_review'', ''evidence_bundle'', ''evidence_bundle_item'',
    ''evidence_redaction_policy'', ''evidence_export'', ''evidence_retention_policy'',
    ''legal_hold'', ''external_change_reference'', ''service_catalog_entry'',
    ''control_mapping_profile'', ''change_control_coverage'', ''auditor_access_grant'',
    ''runner_pool'', ''runner'', ''runner_registration_token'', ''target_connectivity_route'',
    ''execution_lease'']"

section \<open>Actors\<close>

definition actor_from_runner :: "string \<Rightarrow> audit_actor" where
  "actor_from_runner rid = \<lparr>actor_type = ActorRunner, actor_id = rid, actor_label = rid\<rparr>"

definition system_actor :: "string \<Rightarrow> audit_actor" where
  "system_actor label = \<lparr>actor_type = ActorSystem, actor_id = [], actor_label = label\<rparr>"

text \<open>
  \<open>actor_from_request\<close>: an authenticated user is given by the primary key and the user name.
\<close>

definition actor_from_request :: "(string \<times> string) option \<Rightarrow> audit_actor" where
  "actor_from_request user = (case user of
     Some (pk, username) \<Rightarrow>
       \<lparr>actor_type = ActorUser, actor_id = pk,
        actor_label = (if username \<noteq> [] then username else pk)\<rparr>
   | None \<Rightarrow>
       \<lparr>actor_type = ActorUnknown, actor_id = [],
        actor_label = ''Unauthenticated public API''\<rparr>)"

section \<open>Scrubbing\<close>

fun scrub_value :: "json \<Rightarrow> json result"
  and scrub_metadata :: "jdict \<Rightarrow> jdict result"
  and scrub_items :: "json list \<Rightarrow> json list result"
where
  "scrub_value (JObj d) = res_bind (scrub_metadata d) (\<lambda>d'. Inr (JObj d'))"
| "scrub_value (JArr xs) = res_bind (scrub_items xs) (\<lambda>xs'. Inr (JArr xs'))"
| "scrub_value JNull = Inr JNull"
| "scrub_value (JBool b) = Inr (JBool b)"
| "scrub_value (JInt i) = Inr (JInt i)"
| "scrub_value (JFloat s) = Inr (JFloat s)"
| "scrub_value (JStr s) = Inr (JStr s)"
| "scrub_metadata [] = Inr []"
| "scrub_metadata ((k, v) # d) =
    (if lower k \<in> set REJECTED_METADATA_KEYS then Inl (DjangoValidation ''forbidden_key'')
     else if lower k \<in> set FORBIDDEN_METADATA_KEYS then scrub_metadata d
     else res_bind (scrub_value v) (\<lambda>v'.
          res_bind (scrub_metadata d) (\<lambda>d'. Inr ((k, v') # d'))))"
| "scrub_items [] = Inr []"
| "scrub_items (x # xs) =
    res_bind (scrub_value x) (\<lambda>x'. res_bind (scrub_items xs) (\<lambda>xs'. Inr (x' # xs')))"

definition metadata_size :: "jdict \<Rightarrow> nat" where
  "metadata_size d = length (utf8 (dumps default_opts (JObj d)))"

definition validate_metadata_size :: "jdict \<Rightarrow> unit result" where
  "validate_metadata_size d =
    (if metadata_size d > MAX_METADATA_BYTES then Inl (DjangoValidation ''metadata_too_large'')
     else Inr ())"

definition validate_event_type :: "string \<Rightarrow> unit result" where
  "validate_event_type t =
    (if strip t = [] then Inl (DjangoValidation ''event_type'')
     else if length t > 128 then Inl (DjangoValidation ''event_type'')
     else Inr ())"

section \<open>Emitting\<close>

definition audit_emit ::
    "timestamp \<Rightarrow> nat \<Rightarrow> audit_actor \<Rightarrow> string \<Rightarrow> string \<Rightarrow> nat \<Rightarrow> jdict \<Rightarrow> db \<Rightarrow> db result" where
  "audit_emit now org actor event_type object_type object_id metadata d =
    (if object_type \<notin> set OBJECT_TYPES then Inl (DjangoValidation ''object_type'')
     else res_bind (validate_event_type event_type) (\<lambda>_.
          res_bind (scrub_metadata metadata) (\<lambda>safe.
          res_bind (validate_metadata_size safe) (\<lambda>_.
          Inr (d\<lparr>audit_log := audit_log d @
            [\<lparr>ae_org = org, ae_actor = actor, ae_type = event_type,
              ae_object_type = object_type, ae_object_id = object_id,
              ae_metadata = safe, ae_occurred_at = now\<rparr>]\<rparr>)))))"

text \<open>Saving an event that exists, and deleting one, are refused.\<close>

definition audit_save :: "nat \<Rightarrow> audit_event \<Rightarrow> db \<Rightarrow> db result" where
  "audit_save i ev d =
    (if i < length (audit_log d) then Inl (DjangoValidation ''append_only'')
     else Inr (d\<lparr>audit_log := audit_log d @ [ev]\<rparr>))"

definition audit_delete :: "nat \<Rightarrow> db \<Rightarrow> db result" where
  "audit_delete i d = Inl (DjangoValidation ''append_only'')"

section \<open>What scrubbing keeps and removes\<close>

text \<open>\<open>clean_*\<close>: no key that must not be stored, at any depth.\<close>

definition sensitive :: "string \<Rightarrow> bool" where
  "sensitive k \<longleftrightarrow> lower k \<in> set REJECTED_METADATA_KEYS \<or> lower k \<in> set FORBIDDEN_METADATA_KEYS"

fun clean_value :: "json \<Rightarrow> bool"
  and clean_metadata :: "jdict \<Rightarrow> bool"
  and clean_items :: "json list \<Rightarrow> bool"
where
  "clean_value (JObj d) = clean_metadata d"
| "clean_value (JArr xs) = clean_items xs"
| "clean_value JNull = True"
| "clean_value (JBool b) = True"
| "clean_value (JInt i) = True"
| "clean_value (JFloat s) = True"
| "clean_value (JStr s) = True"
| "clean_metadata [] = True"
| "clean_metadata ((k, v) # d) = (\<not> sensitive k \<and> clean_value v \<and> clean_metadata d)"
| "clean_items [] = True"
| "clean_items (x # xs) = (clean_value x \<and> clean_items xs)"

lemma scrub_clean:
  shows "scrub_value v = Inr v' \<Longrightarrow> clean_value v'"
    and "scrub_metadata d = Inr d' \<Longrightarrow> clean_metadata d'"
    and "scrub_items xs = Inr xs' \<Longrightarrow> clean_items xs'"
proof (induction v and d and xs arbitrary: v' and d' and xs'
    rule: scrub_value_scrub_metadata_scrub_items.induct)
  case (9 k v d)
  then show ?case
    by (auto simp: res_simps sensitive_def split: if_splits)
qed (auto simp: res_simps)

lemma scrub_of_clean:
  shows "clean_value v \<Longrightarrow> scrub_value v = Inr v"
    and "clean_metadata d \<Longrightarrow> scrub_metadata d = Inr d"
    and "clean_items xs \<Longrightarrow> scrub_items xs = Inr xs"
  by (induction v and d and xs rule: scrub_value_scrub_metadata_scrub_items.induct)
    (auto simp: sensitive_def)

lemma scrub_keeps:
  "scrub_metadata d = Inr d' \<Longrightarrow> map_of d k = Some v \<Longrightarrow> \<not> sensitive k \<Longrightarrow>
     \<exists>v'. map_of d' k = Some v' \<and> scrub_value v = Inr v'"
proof (induction d arbitrary: d')
  case (Cons p d)
  obtain i w where p: "p = (i, w)" by (cases p)
  with Cons show ?case
    by (auto simp: sensitive_def res_simps split: if_splits)
qed simp

lemma scrub_adds_nothing:
  "scrub_metadata d = Inr d' \<Longrightarrow> fst ` set d' \<subseteq> fst ` set d"
proof (induction d arbitrary: d')
  case (Cons p d)
  obtain i w where p: "p = (i, w)" by (cases p)
  with Cons show ?case by (auto simp: res_simps image_iff split: if_splits) fastforce+
qed simp

section \<open>What emitting does\<close>

lemma audit_emit_appends:
  assumes "audit_emit now org a et ot oid md d = Inr d'"
  obtains ev where "d' = d\<lparr>audit_log := audit_log d @ [ev]\<rparr>"
    and "ae_type ev = et" and "ae_object_id ev = oid" and "ae_object_type ev = ot"
    and "ae_org ev = org" and "ae_actor ev = a" and "ae_occurred_at ev = now"
    and "scrub_metadata md = Inr (ae_metadata ev)"
    and "metadata_size (ae_metadata ev) \<le> MAX_METADATA_BYTES"
proof -
  from assms obtain safe where safe: "scrub_metadata md = Inr safe"
      "validate_metadata_size safe = Inr ()"
      "d' = d\<lparr>audit_log := audit_log d @
         [\<lparr>ae_org = org, ae_actor = a, ae_type = et, ae_object_type = ot,
           ae_object_id = oid, ae_metadata = safe, ae_occurred_at = now\<rparr>]\<rparr>"
    by (auto simp: audit_emit_def res_simps split: if_splits)
  from safe(2) have "metadata_size safe \<le> MAX_METADATA_BYTES"
    by (simp add: validate_metadata_size_def split: if_splits)
  with safe(1) show ?thesis by (intro that [OF safe(3)]) simp_all
qed

text \<open>
  A call of the audit service leaves every table alone. The collection \<open>audit_frame\<close> is what
  the other components use of it.
\<close>

named_theorems audit_frame \<open>an emitted event changes only the log\<close>

lemma audit_emit_Inr [audit_frame]:
  assumes "audit_emit now org a et ot oid md d = Inr d'"
  shows "\<exists>ev. d' = d\<lparr>audit_log := audit_log d @ [ev]\<rparr> \<and> ae_type ev = et \<and> ae_object_id ev = oid"
  using assms by (rule audit_emit_appends) auto

text \<open>\<open>log_grows d d'\<close>: the log of \<open>d\<close> is still there, followed by clean events.\<close>

definition log_grows :: "db \<Rightarrow> db \<Rightarrow> bool" where
  "log_grows d d' \<longleftrightarrow>
    (\<exists>evs. audit_log d' = audit_log d @ evs \<and> list_all (clean_metadata \<circ> ae_metadata) evs)"

lemma log_grows_same: "audit_log d' = audit_log d \<Longrightarrow> log_grows d d'"
  by (simp add: log_grows_def)

lemma log_grows_trans: "log_grows d d1 \<Longrightarrow> log_grows d1 d2 \<Longrightarrow> log_grows d d2"
  unfolding log_grows_def by (metis append.assoc list_all_append)

lemma audit_emit_log:
  assumes "audit_emit now org a et ot oid md d = Inr d'"
  shows "log_grows d d'"
  using assms
proof (rule audit_emit_appends)
  fix ev
  assume "d' = d\<lparr>audit_log := audit_log d @ [ev]\<rparr>" and "scrub_metadata md = Inr (ae_metadata ev)"
  then show ?thesis using scrub_clean(2) [of md] by (simp add: log_grows_def)
qed

section \<open>When scrubbing refuses\<close>

text \<open>
  \<open>rejected_*\<close>: a key whose presence is an error occurs at some depth, not below a key that is
  dropped with all it holds.
\<close>

fun rejected_value :: "json \<Rightarrow> bool"
  and rejected_metadata :: "jdict \<Rightarrow> bool"
  and rejected_items :: "json list \<Rightarrow> bool"
where
  "rejected_value (JObj d) = rejected_metadata d"
| "rejected_value (JArr xs) = rejected_items xs"
| "rejected_value JNull = False"
| "rejected_value (JBool b) = False"
| "rejected_value (JInt i) = False"
| "rejected_value (JFloat s) = False"
| "rejected_value (JStr s) = False"
| "rejected_metadata [] = False"
| "rejected_metadata ((k, v) # d) =
    (lower k \<in> set REJECTED_METADATA_KEYS \<or>
     lower k \<notin> set FORBIDDEN_METADATA_KEYS \<and> rejected_value v \<or> rejected_metadata d)"
| "rejected_items [] = False"
| "rejected_items (x # xs) = (rejected_value x \<or> rejected_items xs)"

lemma scrub_refuses_iff:
  shows "(\<exists>e. scrub_value v = Inl e) \<longleftrightarrow> rejected_value v"
    and "(\<exists>e. scrub_metadata d = Inl e) \<longleftrightarrow> rejected_metadata d"
    and "(\<exists>e. scrub_items xs = Inl e) \<longleftrightarrow> rejected_items xs"
proof (induction v and d and xs rule: scrub_value_scrub_metadata_scrub_items.induct)
  case (9 k v d)
  then show ?case
    by (cases "lower k \<in> set FORBIDDEN_METADATA_KEYS"; cases "scrub_value v"; cases "scrub_metadata d")
      (auto simp: res_simps)
next
  case (11 x xs)
  then show ?case by (cases "scrub_value x"; cases "scrub_items xs") (auto simp: res_simps)
qed (auto simp: res_simps)

lemma not_Inl_iff_Inr: "(\<nexists>e. r = Inl e) \<longleftrightarrow> (\<exists>x. r = Inr x)"
  by (cases r) auto

section \<open>Properties\<close>

text \<open>
  C26: a successful emit appends exactly one event and changes nothing else; the stored metadata
  holds no sensitive key at any depth, is at most 16 KB of JSON, adds no key, and keeps every
  key that is not sensitive, with its value scrubbed.
\<close>

theorem emit_appends_scrubbed_event:
  assumes "audit_emit now org a et ot oid md d = Inr d'"
  shows "\<exists>ev. d' = d\<lparr>audit_log := audit_log d @ [ev]\<rparr> \<and>
     ae_org ev = org \<and> ae_actor ev = a \<and> ae_type ev = et \<and> ae_object_type ev = ot \<and>
     ae_object_id ev = oid \<and> ae_occurred_at ev = now \<and>
     clean_metadata (ae_metadata ev) \<and> metadata_size (ae_metadata ev) \<le> 16384 \<and>
     fst ` set (ae_metadata ev) \<subseteq> fst ` set md \<and>
     (\<forall>k v. map_of md k = Some v \<longrightarrow> \<not> sensitive k \<longrightarrow>
        (\<exists>v'. map_of (ae_metadata ev) k = Some v' \<and> scrub_value v = Inr v'))"
  using assms
proof (rule audit_emit_appends)
  fix ev
  assume ev: "d' = d\<lparr>audit_log := audit_log d @ [ev]\<rparr>" "ae_type ev = et" "ae_object_id ev = oid"
    "ae_object_type ev = ot" "ae_org ev = org" "ae_actor ev = a" "ae_occurred_at ev = now"
    and s: "scrub_metadata md = Inr (ae_metadata ev)"
      "metadata_size (ae_metadata ev) \<le> MAX_METADATA_BYTES"
  show ?thesis
    by (rule exI [of _ ev])
      (use ev s scrub_clean(2) [OF s(1)] scrub_adds_nothing [OF s(1)] scrub_keeps [OF s(1)] in
        \<open>simp add: MAX_METADATA_BYTES_def\<close>)
qed

definition sample_metadata :: jdict where
  "sample_metadata = [(''reason'', JStr ''ok''), (''Token'', JStr ''x''),
     (''inner'', JArr [JObj [(''password'', JInt 1), (''n'', JInt 2)]])]"

theorem emit_appends_scrubbed_event_witness:
  "\<exists>ev. audit_emit 7 1 (system_actor ''s'') ''a.b'' ''workflow'' 3 sample_metadata empty_db =
     Inr (empty_db\<lparr>audit_log := [ev]\<rparr>) \<and> clean_metadata (ae_metadata ev)"
proof -
  let ?ev = "\<lparr>ae_org = 1, ae_actor = system_actor ''s'', ae_type = ''a.b'',
     ae_object_type = ''workflow'', ae_object_id = 3,
     ae_metadata = [(''reason'', JStr ''ok''), (''inner'', JArr [JObj [(''n'', JInt 2)]])],
     ae_occurred_at = 7\<rparr>"
  have e: "audit_emit 7 1 (system_actor ''s'') ''a.b'' ''workflow'' 3 sample_metadata empty_db =
     Inr (empty_db\<lparr>audit_log := [?ev]\<rparr>)"
    by code_simp
  from emit_appends_scrubbed_event [OF e] show ?thesis
    using e by (auto simp: empty_db_def)
qed

text \<open>
  An emit fails exactly when the object type is unknown, the event type is blank or longer
  than 128 characters, a key that must never be sent occurs in the metadata outside a dropped
  value, or the scrubbed metadata is larger than 16 KB.
\<close>

theorem emit_refusals:
  "(\<exists>e. audit_emit now org a et ot oid md d = Inl e) \<longleftrightarrow>
     ot \<notin> set OBJECT_TYPES \<or> strip et = [] \<or> 128 < length et \<or> rejected_metadata md \<or>
     (\<exists>safe. scrub_metadata md = Inr safe \<and> 16384 < metadata_size safe)"
proof (cases "scrub_metadata md")
  case (Inl e)
  then show ?thesis
    using scrub_refuses_iff(2) [of md]
    by (auto simp: audit_emit_def res_simps validate_event_type_def split: if_splits)
next
  case (Inr safe)
  with scrub_refuses_iff(2) [of md] have "\<not> rejected_metadata md" by auto
  with Inr show ?thesis
    by (auto simp: audit_emit_def res_simps validate_event_type_def validate_metadata_size_def
        MAX_METADATA_BYTES_def split: if_splits)
qed

theorem emit_refusals_witness:
  "(\<exists>e. audit_emit 7 1 (system_actor ''s'') ''a.b'' ''nonsense'' 3 sample_metadata empty_db = Inl e) \<and>
   (\<nexists>e. audit_emit 7 1 (system_actor ''s'') ''a.b'' ''workflow'' 3 [] empty_db = Inl e)"
proof -
  have "''nonsense'' \<notin> set OBJECT_TYPES" "''workflow'' \<in> set OBJECT_TYPES" "strip ''a.b'' \<noteq> []"
    "\<not> (\<exists>safe. scrub_metadata [] = Inr safe \<and> 16384 < metadata_size safe)"
    by (simp_all add: OBJECT_TYPES_def strip_def lstrip_def is_space_def code_point_def
        metadata_size_def default_opts_def utf8_def utf8_char_def Let_def)
  then show ?thesis
    by (simp add: emit_refusals)
qed

text \<open>
  Scrubbing is idempotent: metadata that has been scrubbed is stored again as it is.
\<close>

theorem scrub_idempotent:
  assumes "scrub_metadata d = Inr d'"
  shows "scrub_metadata d' = Inr d'"
  using assms by (intro scrub_of_clean(2) scrub_clean(2))

theorem scrub_idempotent_witness:
  "scrub_metadata [(''reason'', JStr ''ok''), (''inner'', JArr [JObj [(''n'', JInt 2)]])] =
     Inr [(''reason'', JStr ''ok''), (''inner'', JArr [JObj [(''n'', JInt 2)]])]"
  by (rule scrub_idempotent [of sample_metadata]) code_simp

section \<open>A bound on the size of metadata\<close>

text \<open>
  \<open>weight\<close> bounds the length of the printed value without printing it, so that concrete events
  are seen to be within the limit by adding lengths.
\<close>

fun weight :: "json \<Rightarrow> nat"
  and weight_items :: "json list \<Rightarrow> nat"
  and weight_fields :: "jdict \<Rightarrow> nat"
where
  "weight JNull = 4"
| "weight (JBool b) = 5"
| "weight (JInt i) = nat \<bar>i\<bar> + 2"
| "weight (JFloat s) = length s"
| "weight (JStr s) = 6 * length s + 2"
| "weight (JArr xs) = 2 + weight_items xs"
| "weight (JObj d) = 2 + weight_fields d"
| "weight_items [] = 0"
| "weight_items (x # xs) = weight x + 2 + weight_items xs"
| "weight_fields [] = 0"
| "weight_fields ((k, v) # d) = 6 * length k + 6 + weight v + weight_fields d"

lemma length_json_quote: "length (json_quote a s) \<le> 6 * length s + 2"
proof -
  have "length (json_escape_char a c) \<le> 6" for c
    by (simp add: json_escape_char_def Let_def)
  then have "length (concat (map (json_escape_char a) s)) \<le> 6 * length s"
    by (induction s) (auto simp: add_mono)
  then show ?thesis by (simp add: json_quote_def)
qed

lemma length_join: "length (join_with sep xs) \<le> (\<Sum>x\<leftarrow>xs. length x + length sep)"
  by (induction sep xs rule: join_with.induct) auto

lemma dumps_weight:
  shows "length (dumps default_opts v) \<le> weight v"
    and "(\<Sum>x\<leftarrow>dumps_items default_opts xs. length x + 2) \<le> weight_items xs"
    and "(\<Sum>kv\<leftarrow>dumps_fields default_opts d. 6 * length (fst kv) + 6 + length (snd kv)) \<le> weight_fields d"
proof (induction v and xs and d rule: weight_weight_items_weight_fields.induct)
  case (5 s)
  then show ?case using length_json_quote [of True s] by (simp add: default_opts_def)
next
  case (6 xs)
  then show ?case
    using length_join [of "'', ''" "dumps_items default_opts xs"] by (simp add: default_opts_def)
next
  case (7 d)
  let ?fs = "dumps_fields default_opts d"
  let ?p = "\<lambda>(k, v). json_quote True k @ '': '' @ v"
  have "(\<Sum>x\<leftarrow>map ?p ?fs. length x + 2) \<le> (\<Sum>kv\<leftarrow>?fs. 6 * length (fst kv) + 6 + length (snd kv))"
  proof (induction ?fs)
    case (Cons a x)
    show ?case
      unfolding map_map comp_def
      by (rule sum_list_mono) (auto simp: case_prod_beta intro: order_trans [OF length_json_quote])
  qed simp
  then have "length (join_with '', '' (map ?p ?fs)) \<le> weight_fields d"
    using length_join [of "'', ''" "map ?p ?fs"] 7 by simp
  then show ?case
    by (simp add: default_opts_def Let_def)
next
  case (3 i)
  then show ?case
    using length_nat_str_le [of "nat i"] length_nat_str_le [of "nat (- i)"]
    by (auto simp: default_opts_def int_str_def)
qed (auto simp: default_opts_def)

lemma metadata_weight:
  assumes "2 * weight_fields d + 4 \<le> MAX_METADATA_BYTES"
  shows "metadata_size d \<le> MAX_METADATA_BYTES"
proof -
  have "length (utf8 s) \<le> 2 * length s" for s
    by (induction s) (auto simp: utf8_def utf8_char_def Let_def)
  from this [of "dumps default_opts (JObj d)"] dumps_weight(1) [of "JObj d"] assms
  show ?thesis by (simp add: metadata_size_def)
qed

lemma audit_emit_succeeds:
  assumes "ot \<in> set OBJECT_TYPES" and "strip et \<noteq> [] \<and> length et \<le> 128"
    and "clean_metadata md" and "2 * weight_fields md + 4 \<le> MAX_METADATA_BYTES"
  shows "\<exists>ev. audit_emit now org a et ot oid md d = Inr (d\<lparr>audit_log := audit_log d @ [ev]\<rparr>)"
  using assms scrub_of_clean(2) [OF assms(3)] metadata_weight [OF assms(4)]
  by (auto simp: audit_emit_def validate_event_type_def validate_metadata_size_def)

text \<open>Some keys that are not sensitive, and the simplification set for concrete events.\<close>

lemma plain_keys:
  "\<not> sensitive ''change_record_id''" "\<not> sensitive ''execution_id''" "\<not> sensitive ''runner_id''"
  "\<not> sensitive ''previous_status''" "\<not> sensitive ''new_status''" "\<not> sensitive ''terminal_reason''"
  "\<not> sensitive ''execution_status''" "\<not> sensitive ''verification_required''" "\<not> sensitive ''reason''"
  "\<not> sensitive ''started_at''" "\<not> sensitive ''finished_at''" "\<not> sensitive ''workflow_id''"
  "\<not> sensitive ''workflow_version''" "\<not> sensitive ''initial_status''" "\<not> sensitive ''execution_mode''"
  "\<not> sensitive ''schema_version''" "\<not> sensitive ''catalog_version''" "\<not> sensitive ''dry_run_mode''"
  "\<not> sensitive ''approval_request_id''" "\<not> sensitive ''step_id''" "\<not> sensitive ''expires_at''"
  "\<not> sensitive ''recovery_source''" "\<not> sensitive ''step_key''" "\<not> sensitive ''position''"
  "\<not> sensitive ''error_message''" "\<not> sensitive ''decision''" "\<not> sensitive ''subject_type''"
  "\<not> sensitive ''subject_id''" "\<not> sensitive ''status''" "\<not> sensitive ''approval_decision_id''"
  "\<not> sensitive ''result''" "\<not> sensitive ''target_type''" "\<not> sensitive ''target_identifier''"
  "\<not> sensitive ''operation_profile_key''" "\<not> sensitive ''requested_inputs_sha256''"
  "\<not> sensitive ''scheduled_for''" "\<not> sensitive ''exception_type''"
  "\<not> sensitive ''change_exception_id''" "\<not> sensitive ''breakglass_session_id''"
  "\<not> sensitive ''runner_pool_id''" "\<not> sensitive ''disposition''" "\<not> sensitive ''outcome''"
  "\<not> sensitive ''approved_by''" "\<not> sensitive ''requested_by''" "\<not> sensitive ''resolution_note''"
  "\<not> sensitive ''review_due_at''" "\<not> sensitive ''closure_id''" "\<not> sensitive ''notes''"
  by (simp_all add: sensitive_def lower_def lower_char_def code_point_def REJECTED_METADATA_KEYS_def
      FORBIDDEN_METADATA_KEYS_def)

lemma length_id_str: "length (id_str n) \<le> Suc n"
  by (simp add: id_str_def length_nat_str_le)

lemmas sample_event_simps = plain_keys OBJECT_TYPES_def MAX_METADATA_BYTES_def strip_def lstrip_def
  is_space_def code_point_def Let_def dict_merge_def dict_set_def opt_json_def iso_json_def

end
