(* ===== verification/Change_Lifecycle.thy ===== *)
theory Change_Lifecycle
  imports Audit_Log
begin

text \<open>
  \<open>apps/changes/transitions.py\<close> and the part of \<open>apps/changes/models.py\<close> a status change goes
  through: the transition table, \<open>transition_change\<close>, and \<open>ChangeRecord.save\<close> with its
  immutability check and \<open>clean\<close>. The audit service reads the clock itself; here it gets the
  \<open>now\<close> of the caller.
\<close>

section \<open>The transition table\<close>

fun ALLOWED_STATUS_TRANSITIONS :: "change_status \<Rightarrow> change_status list" where
  "ALLOWED_STATUS_TRANSITIONS ChDraft = [ChPendingApproval, ChApproved, ChCanceled]"
| "ALLOWED_STATUS_TRANSITIONS ChPendingApproval = [ChApproved, ChRejected, ChExpired, ChCanceled]"
| "ALLOWED_STATUS_TRANSITIONS ChApproved = [ChScheduled, ChDispatchable, ChCanceled]"
| "ALLOWED_STATUS_TRANSITIONS ChScheduled = [ChDispatchable, ChExpired, ChCanceled]"
| "ALLOWED_STATUS_TRANSITIONS ChDispatchable = [ChRunning, ChExpired]"
| "ALLOWED_STATUS_TRANSITIONS ChRunning = [ChVerificationPending, ChClosed]"
| "ALLOWED_STATUS_TRANSITIONS ChVerificationPending = [ChVerified, ChVerificationFailed]"
| "ALLOWED_STATUS_TRANSITIONS ChVerificationFailed = [ChClosed]"
| "ALLOWED_STATUS_TRANSITIONS ChVerified = [ChClosed]"
| "ALLOWED_STATUS_TRANSITIONS ChClosed = []"
| "ALLOWED_STATUS_TRANSITIONS ChRejected = []"
| "ALLOWED_STATUS_TRANSITIONS ChCanceled = []"
| "ALLOWED_STATUS_TRANSITIONS ChExpired = []"

fun status_timestamp_field :: "change_status \<Rightarrow> string option" where
  "status_timestamp_field ChApproved = Some ''approved_at''"
| "status_timestamp_field ChDispatchable = Some ''dispatchable_at''"
| "status_timestamp_field ChRunning = Some ''running_at''"
| "status_timestamp_field ChVerificationPending = Some ''verification_pending_at''"
| "status_timestamp_field ChVerificationFailed = Some ''verification_failed_at''"
| "status_timestamp_field ChVerified = Some ''verified_at''"
| "status_timestamp_field ChClosed = Some ''closed_at''"
| "status_timestamp_field ChRejected = Some ''rejected_at''"
| "status_timestamp_field ChCanceled = Some ''canceled_at''"
| "status_timestamp_field ChExpired = Some ''expired_at''"
| "status_timestamp_field _ = None"

definition change_terminal :: "change_status \<Rightarrow> bool" where
  "change_terminal s \<longleftrightarrow> s \<in> {ChClosed, ChRejected, ChCanceled, ChExpired}"

fun change_rank :: "change_status \<Rightarrow> nat" where
  "change_rank ChDraft = 0"
| "change_rank ChPendingApproval = 1"
| "change_rank ChApproved = 2"
| "change_rank ChScheduled = 3"
| "change_rank ChDispatchable = 4"
| "change_rank ChRunning = 5"
| "change_rank ChVerificationPending = 6"
| "change_rank ChVerificationFailed = 7"
| "change_rank ChVerified = 7"
| "change_rank _ = 8"

interpretation change_lc: lifecycle ALLOWED_STATUS_TRANSITIONS change_rank change_terminal
proof
  fix s t :: change_status
  show "t \<in> set (ALLOWED_STATUS_TRANSITIONS s) \<Longrightarrow> change_rank s < change_rank t"
    by (cases s) auto
  show "change_terminal s \<longleftrightarrow> ALLOWED_STATUS_TRANSITIONS s = []"
    by (cases s) (simp_all add: change_terminal_def)
qed

section \<open>Saving a change record\<close>

text \<open>\<open>IMMUTABLE_AFTER_SUBMIT\<close>: the fields compared between the stored row and the saved one.\<close>

definition immutable_fields_equal :: "change \<Rightarrow> change \<Rightarrow> bool" where
  "immutable_fields_equal p c =
    (ch_profile p = ch_profile c \<and> ch_workflow p = ch_workflow c \<and> ch_title p = ch_title c \<and>
     ch_summary p = ch_summary c \<and> ch_justification p = ch_justification c \<and>
     py_eq (ch_inputs p) (ch_inputs c) \<and> ch_scheduled_for p = ch_scheduled_for c \<and>
     ch_inputs_sha p = ch_inputs_sha c \<and> py_eq (ch_snapshot p) (ch_snapshot c) \<and>
     ch_snapshot_sha p = ch_snapshot_sha c \<and>
     ch_profile_key_snap p = ch_profile_key_snap c \<and>
     ch_workflow_version_snap p = ch_workflow_version_snap c \<and>
     ch_is_emergency p = ch_is_emergency c \<and> ch_emergency_reason p = ch_emergency_reason c \<and>
     ch_emergency_by p = ch_emergency_by c \<and> ch_emergency_at p = ch_emergency_at c)"

definition change_clean :: "db \<Rightarrow> change \<Rightarrow> unit result" where
  "change_clean d c =
    (case tget (op_profiles d) (ch_profile c) of
       None \<Rightarrow> Inl (NotFound ''operation_profile'')
     | Some p \<Rightarrow>
        if op_org p \<noteq> ch_org c then Inl (DjangoValidation ''operation_profile'')
        else (case tget (workflows d) (ch_workflow c) of
            None \<Rightarrow> Inl (NotFound ''workflow'')
          | Some w \<Rightarrow> if wf_org w \<noteq> ch_org c then Inl (DjangoValidation ''workflow'') else Inr ()))"

text \<open>\<open>ChangeRecord.save\<close> of the row \<open>k\<close> with the new contents \<open>c\<close>.\<close>

definition change_save :: "nat \<Rightarrow> change \<Rightarrow> db \<Rightarrow> db result" where
  "change_save k c d =
    (if (case tget (changes d) k of
           None \<Rightarrow> False
         | Some p \<Rightarrow> ch_status p \<noteq> ChDraft \<and> \<not> immutable_fields_equal p c)
     then Inl (DjangoValidation ''change_request_immutable'')
     else res_bind (change_clean d c) (\<lambda>_.
       Inr (if tget (changes d) k = None
            then d\<lparr>changes := tins k c (changes d)\<rparr>
            else upd_change k (\<lambda>_. c) d)))"

section \<open>transition_change\<close>

text \<open>The part of \<open>transition_change\<close> that checks the table and sets the fields.\<close>

definition transition_fields ::
    "timestamp \<Rightarrow> change_status \<Rightarrow> string \<Rightarrow> change \<Rightarrow> change result" where
  "transition_fields now new_status reason c =
    (if new_status \<notin> set (ALLOWED_STATUS_TRANSITIONS (ch_status c))
     then Inl (Domain InvalidStateTransitionError ''invalid_state_transition'')
     else Inr (c\<lparr>ch_status := new_status,
        ch_stamps := (case status_timestamp_field new_status of
            None \<Rightarrow> ch_stamps c
          | Some f \<Rightarrow> AList.update f now (ch_stamps c)),
        ch_terminal_reason := (if reason \<noteq> [] then reason else ch_terminal_reason c)\<rparr>))"

definition transition_metadata :: "change_status \<Rightarrow> change_status \<Rightarrow> string \<Rightarrow> jdict \<Rightarrow> jdict" where
  "transition_metadata previous new_status reason extra =
    dict_merge
      ([(''previous_status'', JStr (change_status_str previous)),
        (''new_status'', JStr (change_status_str new_status))] @
       (if reason \<noteq> [] then [(''terminal_reason'', JStr reason)] else []))
      extra"

text \<open>
  \<open>transition_change\<close> on the row \<open>k\<close>. The result is the new database and the previous status.
  An absent \<open>actor\<close> is the system actor.
\<close>

definition transition_change ::
    "timestamp \<Rightarrow> nat \<Rightarrow> change_status \<Rightarrow> audit_actor option \<Rightarrow> string \<Rightarrow> jdict \<Rightarrow> db
      \<Rightarrow> (db \<times> change_status) result" where
  "transition_change now k new_status actor reason extra d =
    (case tget (changes d) k of
       None \<Rightarrow> Inl (NotFound ''change'')
     | Some c \<Rightarrow>
        res_bind (transition_fields now new_status reason c) (\<lambda>c'.
        res_bind (change_save k c' d) (\<lambda>d.
        res_bind (audit_emit now (ch_org c)
            (case actor of None \<Rightarrow> system_actor ''Change service'' | Some a \<Rightarrow> a)
            ''change.status_changed'' ''change_record'' k
            (transition_metadata (ch_status c) new_status reason extra) d) (\<lambda>d.
        Inr (d, ch_status c)))))"

text \<open>
  With \<open>save=False\<close> the caller saves the returned record later; the event is emitted at once.
\<close>

definition transition_unsaved ::
    "timestamp \<Rightarrow> nat \<Rightarrow> change \<Rightarrow> change_status \<Rightarrow> audit_actor option \<Rightarrow> string \<Rightarrow> jdict \<Rightarrow> db
      \<Rightarrow> (db \<times> change) result" where
  "transition_unsaved now k c new_status actor reason extra d =
    res_bind (transition_fields now new_status reason c) (\<lambda>c'.
    res_bind (audit_emit now (ch_org c)
        (case actor of None \<Rightarrow> system_actor ''Change service'' | Some a \<Rightarrow> a)
        ''change.status_changed'' ''change_record'' k
        (transition_metadata (ch_status c) new_status reason extra) d) (\<lambda>d.
    Inr (d, c')))"

section \<open>Facts\<close>

lemma transition_fields_Inr:
  "transition_fields now s reason c = Inr c' \<Longrightarrow>
     s \<in> set (ALLOWED_STATUS_TRANSITIONS (ch_status c)) \<and> ch_status c' = s \<and>
     immutable_fields_equal c c' = immutable_fields_equal c c \<and>
     ch_org c' = ch_org c \<and> ch_profile c' = ch_profile c \<and> ch_workflow c' = ch_workflow c"
  by (auto simp: transition_fields_def immutable_fields_equal_def split: if_splits)

lemma change_save_Inr:
  assumes "change_save k c d = Inr d'" and "tget (changes d) k = Some p"
  shows "d' = upd_change k (\<lambda>_. c) d"
    and "ch_status p \<noteq> ChDraft \<Longrightarrow> immutable_fields_equal p c"
  using assms by (auto simp: change_save_def res_simps split: if_splits)

text \<open>What a successful transition leaves: one row changed, one event appended.\<close>

lemma transition_change_Inr:
  assumes "transition_change now k s actor reason extra d = Inr (d', old)"
  obtains c c' ev where
    "tget (changes d) k = Some c" "old = ch_status c"
    "s \<in> set (ALLOWED_STATUS_TRANSITIONS (ch_status c))"
    "transition_fields now s reason c = Inr c'"
    "d' = d\<lparr>changes := tupd k (\<lambda>_. c') (changes d), audit_log := audit_log d @ [ev]\<rparr>"
    "ae_type ev = ''change.status_changed''" "ae_object_id ev = k"
proof -
  from assms obtain c where c: "tget (changes d) k = Some c"
    by (auto simp: transition_change_def split: option.splits)
  with assms obtain c' d1 a where
    f: "transition_fields now s reason c = Inr c'" and sv: "change_save k c' d = Inr d1"
    and em: "audit_emit now (ch_org c) a ''change.status_changed'' ''change_record'' k
       (transition_metadata (ch_status c) s reason extra) d1 = Inr d'" and old: "old = ch_status c"
    by (auto simp: transition_change_def res_simps)
  from em obtain ev where ev: "d' = d1\<lparr>audit_log := audit_log d1 @ [ev]\<rparr>"
      "ae_type ev = ''change.status_changed''" "ae_object_id ev = k"
    by (metis audit_emit_Inr)
  from change_save_Inr(1) [OF sv c] have "d1 = upd_change k (\<lambda>_. c') d" .
  with ev have "d' = d\<lparr>changes := tupd k (\<lambda>_. c') (changes d), audit_log := audit_log d @ [ev]\<rparr>"
    by (simp add: store_defs)
  with c old f ev(2,3) transition_fields_Inr [OF f] show ?thesis by (intro that) auto
qed

section \<open>What the change services may do\<close>

text \<open>The request content that is frozen at submission.\<close>

definition frozen_request where
  "frozen_request c = (ch_profile c, ch_workflow c, ch_title c, ch_summary c, ch_justification c,
     ch_inputs c, ch_scheduled_for c, ch_inputs_sha c, ch_snapshot c, ch_snapshot_sha c,
     ch_profile_key_snap c, ch_workflow_version_snap c, ch_is_emergency c, ch_emergency_reason c,
     ch_emergency_by c, ch_emergency_at c)"

text \<open>
  What may become of a change record, and of an approval request. Besides the moves of the table,
  rescheduling the window of an approved change voids its approval
  (\<open>_invalidate_change_approval\<close> bypasses \<open>transition_change\<close>).
\<close>

definition change_step :: "change_status \<Rightarrow> change_status \<Rightarrow> bool" where
  "change_step s t \<longleftrightarrow> change_lc.moves s t \<or> s \<in> {ChApproved, ChScheduled} \<and> t = ChPendingApproval"

definition change_row_ok :: "change \<Rightarrow> change \<Rightarrow> bool" where
  "change_row_ok c c' \<longleftrightarrow> ch_org c' = ch_org c \<and>
     change_step\<^sup>*\<^sup>* (ch_status c) (ch_status c') \<and>
     (ch_status c \<noteq> ChDraft \<longrightarrow> frozen_request c' = frozen_request c)"

definition request_row_ok :: "approval_request \<Rightarrow> approval_request \<Rightarrow> bool" where
  "request_row_ok a a' \<longleftrightarrow> ar_org a' = ar_org a \<and> ar_subject_type a' = ar_subject_type a \<and>
     ar_subject_id a' = ar_subject_id a \<and> ar_exec a' = ar_exec a \<and> ar_step a' = ar_step a \<and>
     ar_expires_at a' = ar_expires_at a \<and> (ar_status a \<noteq> ArPending \<longrightarrow> a' = a)"

text \<open>At most one active lock on a target (the partial unique constraint \<open>target_lock_active_unique\<close>).\<close>

definition lock_key :: "target_lock \<Rightarrow> nat \<times> string \<times> string" where
  "lock_key l = (lk_org l, lk_type l, lk_normalized l)"

definition active_keys :: "target_lock table \<Rightarrow> (nat \<times> string \<times> string) list" where
  "active_keys t = map (lock_key \<circ> snd) (filter (\<lambda>il. lk_status (snd il) = LockActive) t)"

definition locks_exclusive :: "db \<Rightarrow> bool" where
  "locks_exclusive d \<longleftrightarrow> distinct (active_keys (target_locks d))"

text \<open>
  \<open>world_grows d d'\<close>: the log only grew, by clean events; locks stayed exclusive; no change record
  disappeared, every status moved along the table, and the request of a change that had left
  draft is the same; dispatch checks, closures, verification results, decisions and policy evaluations are never altered
  and decided approval requests stay as they are.
\<close>

definition world_grows :: "db \<Rightarrow> db \<Rightarrow> bool" where
  "world_grows d d' \<longleftrightarrow> log_grows d d' \<and> (locks_exclusive d \<longrightarrow> locks_exclusive d') \<and>
     table_within change_row_ok (changes d) (changes d') \<and>
     table_within (=) (elig_checks d) (elig_checks d') \<and> table_within (=) (closures d) (closures d') \<and>
     table_within (=) (ver_results d) (ver_results d') \<and>
     table_within (=) (policy_evals d) (policy_evals d') \<and>
     table_within (=) (approval_decs d) (approval_decs d') \<and>
     table_within request_row_ok (approval_reqs d) (approval_reqs d')"

text \<open>The same for the services of the lifecycle, which leave the control tables alone.\<close>

definition change_progress :: "db \<Rightarrow> db \<Rightarrow> bool" where
  "change_progress d d' \<longleftrightarrow> control_part d' = control_part d \<and> world_grows d d'"

lemma change_steps_draft: "change_step\<^sup>*\<^sup>* s t \<Longrightarrow> t = ChDraft \<Longrightarrow> s = ChDraft"
proof (induction rule: rtranclp_induct)
  case (step t u)
  then show ?case by (cases t) (auto simp: change_step_def change_lc.moves_def)
qed simp

lemma change_steps_final: "change_step\<^sup>*\<^sup>* s t \<Longrightarrow> change_terminal s \<Longrightarrow> t = s"
proof (induction rule: rtranclp_induct)
  case (step t u)
  then show ?case
    by (auto simp: change_step_def change_lc.moves_def change_lc.final_allowed change_terminal_def)
qed simp

lemma change_row_ok_refl [simp]: "change_row_ok c c"
  by (simp add: change_row_ok_def)

lemma change_row_ok_trans:
  assumes "change_row_ok a b" and "change_row_ok b c"
  shows "change_row_ok a c"
proof -
  from assms(1) have "ch_status a \<noteq> ChDraft \<longrightarrow> ch_status b \<noteq> ChDraft"
    using change_steps_draft unfolding change_row_ok_def by metis
  then show ?thesis
    using assms unfolding change_row_ok_def by (metis rtranclp_trans)
qed

lemma request_row_ok_refl [simp]: "request_row_ok a a"
  by (simp add: request_row_ok_def)

lemma request_row_ok_trans: "request_row_ok a b \<Longrightarrow> request_row_ok b c \<Longrightarrow> request_row_ok a c"
  unfolding request_row_ok_def by metis

interpretation world: effect_order world_grows
proof
  show "world_grows d d" for d
    by (simp add: world_grows_def log_grows_same table_within_refl)
  show "world_grows d d2" if "world_grows d d1" "world_grows d1 d2" for d d1 d2
    using that unfolding world_grows_def
    by (blast intro: log_grows_trans table_within_trans change_row_ok_trans request_row_ok_trans)
qed

interpretation progress: effect_order change_progress
  by unfold_locales (auto simp: change_progress_def intro: world.refl world.trans)

named_theorems progress_rules \<open>operations within change_progress\<close>

text \<open>The tables besides \<open>control_part\<close> and the changes that \<open>world_grows\<close> speaks of.\<close>

definition still_part where
  "still_part d = (audit_log d, target_locks d, elig_checks d, closures d, ver_results d)"

definition approval_part where
  "approval_part d = (policy_evals d, approval_decs d, approval_reqs d)"

lemma world_same:
  "still_part d' = still_part d \<Longrightarrow> approval_part d' = approval_part d \<Longrightarrow> changes d' = changes d \<Longrightarrow>
     world_grows d d'"
  using world.refl [of d]
  by (simp add: world_grows_def still_part_def approval_part_def locks_exclusive_def log_grows_def)

lemma progress_same:
  "control_part d' = control_part d \<Longrightarrow> changes d' = changes d \<Longrightarrow> still_part d' = still_part d \<Longrightarrow>
     change_progress d d'"
  unfolding change_progress_def
  by (auto intro: world_same simp: control_part_def approval_part_def)

lemma audit_emit_world:
  assumes "audit_emit now org a et ot oid md d = Inr d'"
  shows "world_grows d d'"
proof -
  from audit_emit_Inr [OF assms] obtain ev where "d' = d\<lparr>audit_log := audit_log d @ [ev]\<rparr>" by blast
  with audit_emit_log [OF assms] show ?thesis
    by (simp add: world_grows_def locks_exclusive_def table_within_refl)
qed

lemma audit_emit_progress [progress_rules]:
  "audit_emit now org a et ot oid md d = Inr d' \<Longrightarrow> change_progress d d'"
  unfolding change_progress_def
  by (frule audit_emit_Inr) (auto intro: audit_emit_world simp: control_part_def)

text \<open>A change within \<open>change_progress\<close>.\<close>

lemma progress_row:
  assumes "change_progress d d'" and "tget (changes d) k = Some c"
  shows "\<exists>c'. tget (changes d') k = Some c' \<and> ch_org c' = ch_org c \<and>
     change_step\<^sup>*\<^sup>* (ch_status c) (ch_status c') \<and>
     (ch_status c \<noteq> ChDraft \<longrightarrow> frozen_request c' = frozen_request c)"
  using assms by (auto simp: change_progress_def world_grows_def table_within_def change_row_ok_def)

lemma progress_control: "change_progress d d' \<Longrightarrow> control_part d' = control_part d"
  by (simp add: change_progress_def)

text \<open>Saving a row that is an allowed successor of the stored one, and a status change.\<close>

lemma upd_change_progress:
  assumes "\<And>c. tget (changes d) k = Some c \<Longrightarrow> change_row_ok c (f c)"
  shows "change_progress d (d\<lparr>changes := tupd k f (changes d)\<rparr>)"
  using assms unfolding change_progress_def world_grows_def
  by (auto simp: control_part_def log_grows_same locks_exclusive_def
      intro!: table_within_refl table_within_tupd)

lemma change_save_progress:
  assumes "change_save k c' d = Inr d'" and "tget (changes d) k = Some c" and "change_row_ok c c'"
  shows "change_progress d d'"
  using change_save_Inr(1) [OF assms(1,2)] upd_change_progress [of d k "\<lambda>_. c'"] assms(2,3)
  by (simp add: upd_change_def)

lemma transition_fields_ok:
  assumes "transition_fields now s reason c = Inr c'"
  shows "change_row_ok c c'"
proof -
  from transition_fields_Inr [OF assms] have "change_step (ch_status c) (ch_status c')"
    by (simp add: change_step_def change_lc.moves_def)
  then show ?thesis
    using assms by (auto simp: change_row_ok_def transition_fields_def frozen_request_def split: if_splits)
qed

lemma transition_change_progress [progress_rules]:
  assumes "transition_change now k s actor reason extra d = Inr (d', old)"
  shows "change_progress d d'"
proof -
  from assms obtain c c' d1 a et md where "tget (changes d) k = Some c"
      "transition_fields now s reason c = Inr c'" "change_save k c' d = Inr d1"
    and e: "audit_emit now (ch_org c) a et ''change_record'' k md d1 = Inr d'"
    by (auto simp: transition_change_def res_simps split: option.splits)
  then have "change_progress d d1" by (blast intro: change_save_progress transition_fields_ok)
  then show ?thesis using audit_emit_progress [OF e] by (rule progress.trans)
qed

section \<open>Properties\<close>

text \<open>
  C20: a status change that succeeds was allowed by the transition table; it sets the status and
  the time stamp of that status, leaves the frozen request and every other row of every table
  alone, and appends exactly one event that names the old and the new status.
\<close>

theorem transition_change_effect:
  assumes "transition_change now k s actor reason extra d = Inr (d', old)"
  shows "\<exists>c c' ev. tget (changes d) k = Some c \<and> old = ch_status c \<and>
     s \<in> set (ALLOWED_STATUS_TRANSITIONS old) \<and>
     ch_status c' = s \<and> frozen_request c' = frozen_request c \<and> ch_org c' = ch_org c \<and>
     (\<forall>f. status_timestamp_field s = Some f \<longrightarrow> map_of (ch_stamps c') f = Some now) \<and>
     d' = d\<lparr>changes := tupd k (\<lambda>_. c') (changes d), audit_log := audit_log d @ [ev]\<rparr> \<and>
     ae_type ev = ''change.status_changed'' \<and> ae_object_id ev = k"
  using assms
proof (rule transition_change_Inr)
  fix c c' ev
  assume a: "tget (changes d) k = Some c" "old = ch_status c"
    "s \<in> set (ALLOWED_STATUS_TRANSITIONS (ch_status c))"
    "d' = d\<lparr>changes := tupd k (\<lambda>_. c') (changes d), audit_log := audit_log d @ [ev]\<rparr>"
    "ae_type ev = ''change.status_changed''" "ae_object_id ev = k"
    and f: "transition_fields now s reason c = Inr c'"
  from f have "ch_status c' = s" "frozen_request c' = frozen_request c" "ch_org c' = ch_org c"
    "\<forall>f. status_timestamp_field s = Some f \<longrightarrow> map_of (ch_stamps c') f = Some now"
    by (auto simp: transition_fields_def frozen_request_def update_conv' split: if_splits)
  with a show ?thesis by auto
qed

text \<open>A running change, its profile and its workflow.\<close>

definition sample_profile :: op_profile where
  "sample_profile = \<lparr>op_org = 1, op_key = ''restart'', op_name = ''Restart'', op_is_active = True,
     op_risk_level = ''high'', op_requires_approval = True, op_verification_required = False,
     op_verification_mode = VmManual, op_approval_ttl = None, op_dispatch_ttl = 900,
     op_allowed_target_types = JArr [], op_inputs_schema = JObj [], op_target_schema = JObj [],
     op_allowed_workflows = [20], op_required_capabilities = JArr [], op_allow_emergency = False,
     op_plan_template = JObj [], op_max_breakglass = None, op_retro_sla = None,
     op_description = [], op_independent_reviewer = True, op_created_by = None, op_updated_by = None\<rparr>"

definition sample_workflow :: workflow where
  "sample_workflow = \<lparr>wf_org = 1, wf_runbook = 19, wf_name = ''w'', wf_version = 3, wf_status = WfPublished,
     wf_schema_version = ''workflow.schema.v1'',
     wf_definition = JObj [(''steps'', JArr [JObj [(''id'', JStr ''a''), (''name'', JStr ''A'')],
       JObj [(''id'', JStr ''b''), (''name'', JStr ''B''), (''command'', JStr ''ls'')]])],
     wf_definition_hash = [], wf_catalog_version = [], wf_validation = WvNotApplicable,
     wf_validation_report = JObj [], wf_requires_review = False, wf_parse_source = ParseManual\<rparr>"

definition sample_change :: "change_status \<Rightarrow> change" where
  "sample_change s = \<lparr>ch_org = 1, ch_profile = 10, ch_workflow = 20, ch_requested_by = Some ''ann'',
     ch_submitted_by = Some ''ann'', ch_title = ''T'', ch_summary = [], ch_justification = ''j'',
     ch_status = s, ch_inputs = JObj [], ch_inputs_sha = [], ch_snapshot = JObj [],
     ch_snapshot_sha = [], ch_profile_key_snap = ''restart'', ch_workflow_version_snap = Some 3,
     ch_workflow_def_sha = [], ch_approval_request = None, ch_policy_evaluation = None,
     ch_policy_snapshot = JNull, ch_scheduled_for = None, ch_submitted_at = Some 5,
     ch_stamps = [], ch_terminal_reason = [], ch_is_emergency = False, ch_emergency_reason = [],
     ch_emergency_by = None, ch_emergency_at = None, ch_retro_required = False,
     ch_retro_due = None, ch_retro_blocking = []\<rparr>"

definition sample_db :: "change_status \<Rightarrow> db" where
  "sample_db s = empty_db\<lparr>next_id := 100, op_profiles := [(10, sample_profile)],
     workflows := [(20, sample_workflow)], changes := [(30, sample_change s)]\<rparr>"

theorem transition_change_effect_witness:
  "\<exists>d' ev. transition_change 9 30 ChClosed None ''done'' [] (sample_db ChRunning) = Inr (d', ChRunning) \<and>
     audit_log d' = [ev] \<and> ae_type ev = ''change.status_changed'' \<and> ae_object_id ev = 30"
proof -
  have ok: "\<not> isl (transition_change 9 30 ChClosed None ''done'' [] (sample_db ChRunning))"
    by code_simp
  then obtain d' old where
    t: "transition_change 9 30 ChClosed None ''done'' [] (sample_db ChRunning) = Inr (d', old)"
    by (cases "transition_change 9 30 ChClosed None ''done'' [] (sample_db ChRunning)") auto
  from transition_change_effect [OF t] t show ?thesis
    by (auto simp: sample_db_def sample_change_def empty_db_def tget_def)
qed

end
