(* ===== verification/Crypto.thy ===== *)
theory Crypto
  imports Py_Values "HOL-Library.Word"
begin

text \<open>
  The two functions of \<open>hashlib\<close> and \<open>hmac\<close> the services use, as FIPS 180-4 and RFC 2104
  define them: SHA-256 on 32-bit words and HMAC-SHA-256, with their hexadecimal digests.
  A byte is a \<open>char\<close>.
\<close>

unbundle bit_operations_syntax

section \<open>SHA-256\<close>

text \<open>
  The round constants (the first 32 bits of the fractional parts of the cube roots of the first
  64 primes) and the initial hash value (those of the square roots of the first eight), in decimal.
\<close>

definition sha_k :: "32 word list" where
  "sha_k = [
    1116352408, 1899447441, 3049323471, 3921009573, 961987163, 1508970993, 2453635748, 2870763221,
    3624381080, 310598401, 607225278, 1426881987, 1925078388, 2162078206, 2614888103, 3248222580,
    3835390401, 4022224774, 264347078, 604807628, 770255983, 1249150122, 1555081692, 1996064986,
    2554220882, 2821834349, 2952996808, 3210313671, 3336571891, 3584528711, 113926993, 338241895,
    666307205, 773529912, 1294757372, 1396182291, 1695183700, 1986661051, 2177026350, 2456956037,
    2730485921, 2820302411, 3259730800, 3345764771, 3516065817, 3600352804, 4094571909, 275423344,
    430227734, 506948616, 659060556, 883997877, 958139571, 1322822218, 1537002063, 1747873779,
    1955562222, 2024104815, 2227730452, 2361852424, 2428436474, 2756734187, 3204031479, 3329325298]"

type_synonym sha_state = "32 word list"

definition sha_init :: sha_state where
  "sha_init = [1779033703, 3144134277, 1013904242, 2773480762, 1359893119, 2600822924,
     528734635, 1541459225]"

definition rotr :: "nat \<Rightarrow> 32 word \<Rightarrow> 32 word" where
  "rotr n w = word_rotr n w"

text \<open>The message schedule: sixteen words of the block, then forty-eight computed ones.\<close>

definition sched_word :: "32 word list \<Rightarrow> 32 word" where
  "sched_word w =
    (let n = length w;
         a = w ! (n - 15); b = w ! (n - 2);
         s0 = rotr 7 a XOR rotr 18 a XOR drop_bit 3 a;
         s1 = rotr 17 b XOR rotr 19 b XOR drop_bit 10 b
     in w ! (n - 16) + s0 + w ! (n - 7) + s1)"

definition schedule :: "32 word list \<Rightarrow> 32 word list" where
  "schedule block = ((\<lambda>w. w @ [sched_word w]) ^^ 48) block"

fun sha_round :: "32 word \<times> 32 word \<Rightarrow> sha_state \<Rightarrow> sha_state" where
  "sha_round (k, w) [a, b, c, d, e, f, g, h] =
    (let s1 = rotr 6 e XOR rotr 11 e XOR rotr 25 e;
         ch = (e AND f) XOR (NOT e AND g);
         t1 = h + s1 + ch + k + w;
         s0 = rotr 2 a XOR rotr 13 a XOR rotr 22 a;
         maj = (a AND b) XOR (a AND c) XOR (b AND c)
     in [t1 + (s0 + maj), a, b, c, d + t1, e, f, g])"
| "sha_round _ st = st"

definition sha_block :: "sha_state \<Rightarrow> 32 word list \<Rightarrow> sha_state" where
  "sha_block st block = map2 (+) st (fold sha_round (zip sha_k (schedule block)) st)"

text \<open>Padding: a 1 bit, zeros, and the length in bits as a 64-bit big-endian number.\<close>

fun nat_bytes_be :: "nat \<Rightarrow> nat \<Rightarrow> nat list" where
  "nat_bytes_be 0 n = []"
| "nat_bytes_be (Suc w) n = nat_bytes_be w (n div 256) @ [n mod 256]"

definition sha_pad :: "nat list \<Rightarrow> nat list" where
  "sha_pad bs =
    (let n = length bs in bs @ [128] @ replicate ((119 - n mod 64) mod 64) 0 @ nat_bytes_be 8 (8 * n))"

fun words_be :: "nat list \<Rightarrow> 32 word list" where
  "words_be (a # b # c # d # bs) =
    of_nat (((a * 256 + b) * 256 + c) * 256 + d) # words_be bs"
| "words_be _ = []"

function blocks_of :: "32 word list \<Rightarrow> 32 word list list" where
  "blocks_of ws = (if ws = [] then [] else take 16 ws # blocks_of (drop 16 ws))"
  by auto
termination
  by (relation "measure length") auto

definition sha256_bytes :: "nat list \<Rightarrow> nat list" where
  "sha256_bytes bs =
    concat (map (\<lambda>w. nat_bytes_be 4 (unat w))
      (foldl sha_block sha_init (blocks_of (words_be (sha_pad bs)))))"

definition hex_bytes :: "nat list \<Rightarrow> string" where
  "hex_bytes bs = concat (map (\<lambda>b. [hex_digit (b div 16), hex_digit (b mod 16)]) bs)"

text \<open>\<open>hashlib.sha256(s).hexdigest()\<close>.\<close>

definition sha256_hex :: "char list \<Rightarrow> string" where
  "sha256_hex s = hex_bytes (sha256_bytes (map code_point s))"

section \<open>HMAC\<close>

definition hmac_block_key :: "nat list \<Rightarrow> nat list" where
  "hmac_block_key k =
    (let k' = (if 64 < length k then sha256_bytes k else k) in k' @ replicate (64 - length k') 0)"

definition hmac_pad :: "nat \<Rightarrow> nat list \<Rightarrow> nat list" where
  "hmac_pad p k = map (\<lambda>b. nat (int b XOR int p)) k"

text \<open>\<open>hmac.new(key, msg, hashlib.sha256).hexdigest()\<close>.\<close>

definition hmac_sha256_hex :: "char list \<Rightarrow> char list \<Rightarrow> string" where
  "hmac_sha256_hex key msg =
    (let k = hmac_block_key (map code_point key);
         inner = sha256_bytes (hmac_pad 54 k @ map code_point msg)
     in hex_bytes (sha256_bytes (hmac_pad 92 k @ inner)))"

section \<open>Lengths\<close>

lemma length_nat_bytes_be [simp]: "length (nat_bytes_be w n) = w"
  by (induction w arbitrary: n) auto

lemma sha_pad_block: "length (sha_pad bs) mod 64 = 0"
proof -
  have eq: "length (sha_pad bs) = length bs + 9 + (119 - length bs mod 64) mod 64"
    by (simp add: sha_pad_def Let_def)
  obtain q m where qm: "length bs = 64 * q + m" "m < 64"
    by (metis mod_less_divisor mult_div_mod_eq zero_less_numeral)
  then have m: "length bs mod 64 = m" by simp
  show ?thesis
  proof (cases "m \<le> 55")
    case True
    then have "(119 - m) mod 64 = 55 - m" by (simp add: mod_if)
    with True have "length (sha_pad bs) = 64 * q + 64" unfolding eq m qm(1) by simp
    then show ?thesis by simp
  next
    case False
    with qm(2) have "(119 - m) mod 64 = 119 - m" by simp
    with False qm(2) have "length (sha_pad bs) = 64 * q + 2 * 64" unfolding eq m qm(1) by simp
    then show ?thesis by simp
  qed
qed

lemma length_sha_round [simp]: "length (sha_round kw st) = length st"
  by (cases "(kw, st)" rule: sha_round.cases) (auto simp: Let_def)

lemma length_sha_block: "length (sha_block st block) = length st"
proof -
  have "length (fold sha_round kws st) = length st" for kws and st :: sha_state
    by (induction kws arbitrary: st) auto
  then show ?thesis by (simp add: sha_block_def)
qed

lemma length_sha256_bytes: "length (sha256_bytes bs) = 32"
proof -
  have "length (foldl sha_block st bks) = length st" for st bks
    by (induction bks arbitrary: st) (auto simp: length_sha_block)
  then show ?thesis
    by (simp add: sha256_bytes_def length_concat comp_def sum_list_triv sha_init_def)
qed

lemma length_hex_bytes: "length (hex_bytes bs) = 2 * length bs"
  by (induction bs) (auto simp: hex_bytes_def)

lemma length_sha256_hex [simp]: "length (sha256_hex s) = 64"
  by (simp add: sha256_hex_def length_hex_bytes length_sha256_bytes)

lemma length_hmac_hex [simp]: "length (hmac_sha256_hex k m) = 64"
  by (simp add: hmac_sha256_hex_def length_hex_bytes length_sha256_bytes Let_def)

end
