(* ===== verification/Change_Integrity.thy ===== *)
theory Change_Integrity
  imports Change_Lifecycle Crypto
begin

text \<open>
  The frozen request of a change record (\<open>apps/changes/services.py\<close>): canonical JSON and its
  hash, the request snapshot, the check that a submitted change still is what was approved,
  the dispatch token of an execution binding, and the immutability guards of the change,
  target and binding models. \<open>hmac.compare_digest\<close> is equality: the strings compared are
  hexadecimal digests.
\<close>

section \<open>Canonical hashing\<close>

definition canonical_json_bytes :: "json \<Rightarrow> char list" where
  "canonical_json_bytes v = utf8 (dumps (compact_opts False) v)"

definition sha256_canonical_json :: "json \<Rightarrow> string" where
  "sha256_canonical_json v = sha256_hex (canonical_json_bytes v)"

section \<open>The request snapshot\<close>

definition target_snapshot :: "change_target \<Rightarrow> json" where
  "target_snapshot t = JObj [
     (''position'', JInt (int (tg_position t))),
     (''target_type'', JStr (tg_type t)),
     (''target_identifier'', JStr (tg_identifier t)),
     (''normalized_identifier'', JStr (tg_normalized t)),
     (''display_name'', JStr (tg_display_name t)),
     (''environment'', JStr (tg_environment t)),
     (''metadata'', py_or (tg_metadata t) (JObj []))]"

definition profile_snapshot :: "(nat \<times> op_profile) option \<Rightarrow> json" where
  "profile_snapshot p = (case p of
     None \<Rightarrow> JObj []
   | Some (i, p) \<Rightarrow> JObj [
      (''id'', JStr (id_str i)), (''key'', JStr (op_key p)), (''name'', JStr (op_name p)),
      (''risk_level'', JStr (op_risk_level p)),
      (''requires_approval'', JBool (op_requires_approval p)),
      (''verification_required'', JBool (op_verification_required p))])"

definition workflow_snapshot :: "(nat \<times> workflow) option \<Rightarrow> json" where
  "workflow_snapshot w = (case w of
     None \<Rightarrow> JObj []
   | Some (i, w) \<Rightarrow> JObj [
      (''id'', JStr (id_str i)), (''name'', JStr (wf_name w)),
      (''version'', JInt (int (wf_version w))),
      (''status'', JStr (workflow_status_str (wf_status w))),
      (''definition_sha256'', JStr (sha256_canonical_json (py_or (wf_definition w) (JObj []))))])"

text \<open>\<open>requested_inputs.keys()\<close> raises on a value that is not a dictionary.\<close>

definition build_request_snapshot ::
    "nat \<Rightarrow> change \<Rightarrow> change_target list \<Rightarrow> timestamp \<Rightarrow> (nat \<times> op_profile) option
      \<Rightarrow> (nat \<times> workflow) option \<Rightarrow> jdict result" where
  "build_request_snapshot k c targets submitted_at profile wflow =
    (let inputs = py_or (ch_inputs c) (JObj [])
     in if \<not> is_obj inputs then Inl (PyError ''AttributeError'')
        else Inr [
       (''change_record_id'', JStr (id_str k)),
       (''title'', JStr (ch_title c)),
       (''summary'', JStr (ch_summary c)),
       (''justification'', JStr (ch_justification c)),
       (''operation_profile_id'', JStr (id_str (ch_profile c))),
       (''operation_profile_key'',
          if ch_profile_key_snap c \<noteq> [] then JStr (ch_profile_key_snap c)
          else opt_json (\<lambda>(i, p). JStr (op_key p)) profile),
       (''operation_profile_snapshot'', profile_snapshot profile),
       (''workflow_id'', JStr (id_str (ch_workflow c))),
       (''workflow_version'',
          (case ch_workflow_version_snap c of
             Some (Suc v) \<Rightarrow> JInt (int (Suc v))
           | _ \<Rightarrow> opt_json (\<lambda>(i, w). JInt (int (wf_version w))) wflow)),
       (''workflow_snapshot'', workflow_snapshot wflow),
       (''requested_inputs_sha256'', JStr (sha256_canonical_json inputs)),
       (''requested_input_keys'', JArr (map JStr (sort (map fst (fields_of inputs))))),
       (''requested_inputs_representation'', JStr ''sha256_and_keys_only''),
       (''scheduled_for'', iso_json (ch_scheduled_for c)),
       (''targets'', JArr (map target_snapshot (sort_key tg_position targets))),
       (''submitted_at'', JStr (isoformat submitted_at))])"

text \<open>The targets of a change, ordered by position.\<close>

definition targets_of :: "db \<Rightarrow> nat \<Rightarrow> change_target table" where
  "targets_of d k =
    sort_key (\<lambda>(i, t). tg_position t) (tsel (\<lambda>_ t. tg_change t = k) (change_targets d))"

definition build_live_submitted_request_snapshot :: "db \<Rightarrow> nat \<Rightarrow> change \<Rightarrow> jdict result" where
  "build_live_submitted_request_snapshot d k c =
    (case ch_submitted_at c of
       None \<Rightarrow> Inl (Domain InvalidStateTransitionError ''change_request_integrity_missing'')
     | Some sub \<Rightarrow>
       (case (tget (op_profiles d) (ch_profile c), tget (workflows d) (ch_workflow c)) of
          (Some p, Some w) \<Rightarrow>
            res_bind (build_request_snapshot k c (map snd (targets_of d k)) sub
                (Some (ch_profile c, p)) (Some (ch_workflow c, w))) (\<lambda>snap.
            Inr (dict_set
                  (dict_set snap ''operation_profile_key'' (JStr (ch_profile_key_snap c)))
                  ''workflow_version''
                  (opt_json (\<lambda>v. JInt (int v)) (ch_workflow_version_snap c))))
        | _ \<Rightarrow> Inl (NotFound ''change'')))"

definition integrity_missing :: err where
  "integrity_missing = Domain InvalidStateTransitionError ''change_request_integrity_missing''"

definition integrity_mismatch :: err where
  "integrity_mismatch = Domain InvalidStateTransitionError ''change_request_integrity_mismatch''"

definition validate_request_integrity :: "db \<Rightarrow> nat \<Rightarrow> unit result" where
  "validate_request_integrity d k =
    (case tget (changes d) k of
       None \<Rightarrow> Inl (NotFound ''change'')
     | Some c \<Rightarrow>
        if ch_status c = ChDraft then Inr ()
        else if ch_submitted_at c = None \<or> ch_inputs_sha c = [] \<or> ch_snapshot_sha c = []
          then Inl integrity_missing
        else if sha256_canonical_json (py_or (ch_inputs c) (JObj [])) \<noteq> ch_inputs_sha c
          then Inl integrity_mismatch
        else if sha256_canonical_json (ch_snapshot c) \<noteq> ch_snapshot_sha c
          then Inl integrity_mismatch
        else res_bind (build_live_submitted_request_snapshot d k c) (\<lambda>live.
          if \<not> py_eq (JObj live) (ch_snapshot c) \<or>
             sha256_canonical_json (JObj live) \<noteq> ch_snapshot_sha c
          then Inl integrity_mismatch
          else Inr ()))"

section \<open>The dispatch token\<close>

definition hash_dispatch_token :: "string \<Rightarrow> string" where
  "hash_dispatch_token token = sha256_hex (utf8 token)"

definition INSECURE_SECRET_PLACEHOLDERS :: "string list" where
  "INSECURE_SECRET_PLACEHOLDERS =
    [''change-dispatch-insecure-change-me'', ''insecure-change-me'', ''insecure'', ''changeme'',
     ''change-me'']"

definition generate_dispatch_token :: "settings \<Rightarrow> binding \<Rightarrow> string result" where
  "generate_dispatch_token s b =
    (let secret = cfg_dispatch_secret s
     in if secret = [] \<or> lower secret \<in> set INSECURE_SECRET_PLACEHOLDERS
        then Inl (Domain DomainValidationError ''dispatch_token_secret_missing'')
        else Inr (hmac_sha256_hex (utf8 secret)
          (utf8 (id_str (bd_change b) @ '':'' @ id_str (bd_exec b) @ '':'' @ bd_nonce b @ '':'' @
             bd_inputs_sha b))))"

definition verify_dispatch_token :: "settings \<Rightarrow> binding \<Rightarrow> string \<Rightarrow> bool result" where
  "verify_dispatch_token s b token =
    (if token = [] then Inr False
     else res_bind (generate_dispatch_token s b) (\<lambda>expected.
       Inr (bd_token_hash b = hash_dispatch_token expected \<and>
            bd_token_hash b = hash_dispatch_token token)))"

section \<open>Immutability guards\<close>

definition assert_change_request_mutable :: "change \<Rightarrow> unit result" where
  "assert_change_request_mutable c =
    (if ch_status c \<noteq> ChDraft
     then Inl (Domain InvalidStateTransitionError ''change_request_immutable'') else Inr ())"

text \<open>\<open>ChangeTarget.save\<close> and \<open>delete\<close>.\<close>

definition target_save :: "nat \<Rightarrow> change_target \<Rightarrow> db \<Rightarrow> db result" where
  "target_save i t d =
    (case tget (changes d) (tg_change t) of
       None \<Rightarrow> Inl (NotFound ''change'')
     | Some c \<Rightarrow>
        if ch_org c \<noteq> tg_org t then Inl (DjangoValidation ''organization'')
        else if ch_status c \<noteq> ChDraft then Inl (DjangoValidation ''change_request_immutable'')
        else if \<exists>(j, u) \<in> set (change_targets d). j \<noteq> i \<and> tg_change u = tg_change t \<and>
             (tg_type u = tg_type t \<and> tg_normalized u = tg_normalized t \<or>
              tg_position u = tg_position t)
          then Inl (IntegrityErr ''change_target'')
        else if tg_environment t \<noteq> ''production'' then Inl (IntegrityErr ''change_target'')
        else Inr (d\<lparr>change_targets :=
          (if tget (change_targets d) i = None then tins i t (change_targets d)
           else tupd i (\<lambda>_. t) (change_targets d))\<rparr>))"

definition target_delete :: "nat \<Rightarrow> db \<Rightarrow> db result" where
  "target_delete i d =
    (case tget (change_targets d) i of
       None \<Rightarrow> Inl (NotFound ''change_target'')
     | Some t \<Rightarrow>
       (case tget (changes d) (tg_change t) of
          None \<Rightarrow> Inl (NotFound ''change'')
        | Some c \<Rightarrow>
           if ch_status c \<noteq> ChDraft then Inl (DjangoValidation ''change_request_immutable'')
           else Inr (d\<lparr>change_targets := tsel (\<lambda>j _. j \<noteq> i) (change_targets d)\<rparr>)))"

text \<open>\<open>ChangeExecutionBinding.clean\<close> and \<open>save\<close>.\<close>

definition binding_clean :: "db \<Rightarrow> binding \<Rightarrow> unit result" where
  "binding_clean d b =
    (case (tget (changes d) (bd_change b), tget (executions d) (bd_exec b)) of
       (Some c, Some e) \<Rightarrow>
         if ch_org c \<noteq> bd_org b \<or> ex_org e \<noteq> bd_org b \<or> ch_org c \<noteq> ex_org e
         then Inl (DjangoValidation ''organization'') else Inr ()
     | _ \<Rightarrow> Inl (NotFound ''binding''))"

definition binding_save :: "nat \<Rightarrow> binding \<Rightarrow> db \<Rightarrow> db result" where
  "binding_save i b d =
    (case tget (bindings d) i of
       Some p \<Rightarrow>
         if bd_change p \<noteq> bd_change b \<or> bd_exec p \<noteq> bd_exec b \<or> bd_org p \<noteq> bd_org b \<or>
            bd_profile_key p \<noteq> bd_profile_key b \<or> bd_inputs_sha p \<noteq> bd_inputs_sha b
         then Inl (DjangoValidation ''immutable'')
         else if bd_bound_at p \<noteq> None \<and> bd_bound_by p \<noteq> bd_bound_by b
         then Inl (DjangoValidation ''rebound'')
         else res_bind (binding_clean d b) (\<lambda>_.
           Inr (d\<lparr>bindings := tupd i (\<lambda>_. b) (bindings d)\<rparr>))
     | None \<Rightarrow>
         res_bind (binding_clean d b) (\<lambda>_.
           if binding_of_change d (bd_change b) \<noteq> None \<or> binding_of_exec d (bd_exec b) \<noteq> None
           then Inl (IntegrityErr ''binding'')
           else Inr (d\<lparr>bindings := tins i b (bindings d)\<rparr>)))"

section \<open>Facts\<close>

lemma py_eq_fieldsD:
  "py_eq_fields a b \<Longrightarrow> (k, v) \<in> set a \<Longrightarrow> \<exists>w. map_of b k = Some w \<and> py_eq v w"
  by (induction a) (auto split: option.splits)

lemma py_eq_str [simp]: "py_eq (JStr s) w \<longleftrightarrow> w = JStr s"
  by simp

lemma live_snapshot_fields:
  assumes "build_live_submitted_request_snapshot d k c = Inr live"
  shows "(''title'', JStr (ch_title c)) \<in> set live"
    and "(''targets'', JArr (map target_snapshot (sort_key tg_position (map snd (targets_of d k)))))
           \<in> set live"
    and "(''workflow_id'', JStr (id_str (ch_workflow c))) \<in> set live"
  using assms
  by (auto simp: build_live_submitted_request_snapshot_def build_request_snapshot_def res_simps
      dict_set_def Let_def split: option.splits if_splits)

lemma validate_request_integrity_Inr:
  assumes "validate_request_integrity d k = Inr ()" and "tget (changes d) k = Some c"
    and "ch_status c \<noteq> ChDraft"
  obtains live where "build_live_submitted_request_snapshot d k c = Inr live"
    and "py_eq (JObj live) (ch_snapshot c)"
    and "sha256_canonical_json (JObj live) = ch_snapshot_sha c"
    and "sha256_canonical_json (ch_snapshot c) = ch_snapshot_sha c"
    and "sha256_canonical_json (py_or (ch_inputs c) (JObj [])) = ch_inputs_sha c"
  using assms by (auto simp: validate_request_integrity_def res_simps split: if_splits)

text \<open>The check reads four tables only.\<close>

lemma validate_request_integrity_cong:
  assumes "changes d' = changes d" and "op_profiles d' = op_profiles d"
    and "workflows d' = workflows d" and "change_targets d' = change_targets d"
  shows "validate_request_integrity d' k = validate_request_integrity d k"
proof -
  have t: "targets_of d' k = targets_of d k" for k
    by (simp add: targets_of_def assms)
  have b: "build_live_submitted_request_snapshot d' k c = build_live_submitted_request_snapshot d k c" for c
    unfolding build_live_submitted_request_snapshot_def t assms ..
  show ?thesis
    unfolding validate_request_integrity_def b assms ..
qed

section \<open>Targets\<close>

text \<open>
  The constraints of the table of targets: two targets of one change differ in position and in
  type and normalized identifier, and every target is in production.
\<close>

definition targets_ok :: "change_target table \<Rightarrow> bool" where
  "targets_ok t \<longleftrightarrow> twf t \<and>
     (\<forall>(i, u) \<in> set t. tg_environment u = ''production'' \<and>
        (\<forall>(j, v) \<in> set t. i \<noteq> j \<and> tg_change u = tg_change v \<longrightarrow>
           tg_position u \<noteq> tg_position v \<and>
           (tg_type u, tg_normalized u) \<noteq> (tg_type v, tg_normalized v)))"

lemma targets_ok_subset:
  assumes "targets_ok t" and "set t' \<subseteq> set t" and "twf t'"
  shows "targets_ok t'"
  using assms unfolding targets_ok_def by blast

lemma targets_ok_put:
  assumes ok: "targets_ok t" and env: "tg_environment u = ''production''"
    and new: "\<And>j v. (j, v) \<in> set t \<Longrightarrow> j \<noteq> i \<Longrightarrow> tg_change v = tg_change u \<Longrightarrow>
       tg_position v \<noteq> tg_position u \<and> (tg_type v, tg_normalized v) \<noteq> (tg_type u, tg_normalized u)"
    and t': "twf t'" "\<And>j v. (j, v) \<in> set t' \<Longrightarrow> (j, v) = (i, u) \<or> j \<noteq> i \<and> (j, v) \<in> set t"
  shows "targets_ok t'"
proof -
  have A: "tg_environment v = ''production''" if "(j, v) \<in> set t'" for j v
    using t'(2) [OF that] env ok unfolding targets_ok_def by auto
  have B: "tg_position v \<noteq> tg_position w \<and> (tg_type v, tg_normalized v) \<noteq> (tg_type w, tg_normalized w)"
    if jv: "(j, v) \<in> set t'" and lw: "(l, w) \<in> set t'" and ne: "j \<noteq> l" "tg_change v = tg_change w"
    for j v l w
  proof -
    from t'(2) [OF jv] t'(2) [OF lw] ne(1)
    consider (a) "(j, v) = (i, u)" "l \<noteq> i" "(l, w) \<in> set t" | (b) "(l, w) = (i, u)" "j \<noteq> i" "(j, v) \<in> set t"
      | (c) "(j, v) \<in> set t" "(l, w) \<in> set t"
      by blast
    then show ?thesis
    proof cases
      case a
      with new [of l w] ne show ?thesis by auto
    next
      case b
      with new [of j v] ne show ?thesis by auto
    next
      case c
      with ok ne show ?thesis unfolding targets_ok_def by fast
    qed
  qed
  show ?thesis
    unfolding targets_ok_def using t'(1) A B by blast
qed

lemma sha256_canonical_ne [simp]: "sha256_canonical_json v \<noteq> []"
  using length_sha256_hex [of "canonical_json_bytes v"]
  by (metis list.size(3) sha256_canonical_json_def zero_neq_numeral)

section \<open>Properties\<close>

text \<open>
  C19: a change that passes the integrity check after submission is exactly what was submitted. If
  the same stored snapshot passes the check in another database, then title, workflow and the
  list of targets are equal there as Python values; a tampered one is refused.
\<close>

theorem integrity_binds_request:
  assumes "validate_request_integrity d k = Inr ()" and "validate_request_integrity d' k = Inr ()"
    and "tget (changes d) k = Some c" and "tget (changes d') k = Some c'"
    and "ch_status c \<noteq> ChDraft" and "ch_status c' \<noteq> ChDraft"
    and "ch_snapshot c' = ch_snapshot c"
  shows "ch_title c' = ch_title c \<and> ch_workflow c' = ch_workflow c \<and>
     (\<exists>ts. py_eq (JArr (map target_snapshot (sort_key tg_position (map snd (targets_of d k))))) ts \<and>
           py_eq (JArr (map target_snapshot (sort_key tg_position (map snd (targets_of d' k))))) ts) \<and>
     sha256_canonical_json (py_or (ch_inputs c) (JObj [])) = ch_inputs_sha c"
proof -
  from assms(1,3,5) obtain l where l: "build_live_submitted_request_snapshot d k c = Inr l"
      "py_eq (JObj l) (ch_snapshot c)"
      "sha256_canonical_json (py_or (ch_inputs c) (JObj [])) = ch_inputs_sha c"
    by (rule validate_request_integrity_Inr)
  from assms(2,4,6) obtain l' where l': "build_live_submitted_request_snapshot d' k c' = Inr l'"
      "py_eq (JObj l') (ch_snapshot c')"
    by (rule validate_request_integrity_Inr)
  from l(2) obtain s where s: "ch_snapshot c = JObj s" "py_eq_fields l s"
    by (auto split: json.splits)
  from l'(2) s assms(7) have s': "py_eq_fields l' s" by simp
  note f = live_snapshot_fields [OF l(1)] and f' = live_snapshot_fields [OF l'(1)]
  from py_eq_fieldsD [OF s(2) f(1)] py_eq_fieldsD [OF s' f'(1)]
  have "ch_title c' = ch_title c" by auto
  moreover from py_eq_fieldsD [OF s(2) f(3)] py_eq_fieldsD [OF s' f'(3)]
  have "ch_workflow c' = ch_workflow c" by auto
  moreover from py_eq_fieldsD [OF s(2) f(2)] py_eq_fieldsD [OF s' f'(2)]
  have "\<exists>ts. py_eq (JArr (map target_snapshot (sort_key tg_position (map snd (targets_of d k))))) ts \<and>
           py_eq (JArr (map target_snapshot (sort_key tg_position (map snd (targets_of d' k))))) ts"
    by (metis option.inject)
  ultimately show ?thesis using l(3) by blast
qed

text \<open>A submitted change: the hashes and the snapshot are those of its live request.\<close>

definition submitted_change :: "change_status \<Rightarrow> change" where
  "submitted_change s =
    (let c = (sample_change s)\<lparr>ch_inputs_sha := sha256_canonical_json (JObj [])\<rparr>;
         live = (case build_live_submitted_request_snapshot (sample_db s) 30 c of
             Inl _ \<Rightarrow> [] | Inr l \<Rightarrow> l)
     in c\<lparr>ch_snapshot := JObj live, ch_snapshot_sha := sha256_canonical_json (JObj live)\<rparr>)"

definition submitted_db :: "change_status \<Rightarrow> db" where
  "submitted_db s = (sample_db s)\<lparr>changes := [(30, submitted_change s)]\<rparr>"

lemma submitted_change_fields [simp]:
  "ch_status (submitted_change s) = s" "ch_org (submitted_change s) = 1"
  "ch_profile (submitted_change s) = 10" "ch_workflow (submitted_change s) = 20"
  "ch_title (submitted_change s) = ''T''" "ch_policy_evaluation (submitted_change s) = None"
  by (simp_all add: submitted_change_def sample_change_def Let_def)

lemma submitted_db_intact: "validate_request_integrity (submitted_db s) 30 = Inr ()"
  by (simp add: submitted_db_def submitted_change_def sample_db_def sample_change_def
      sample_profile_def sample_workflow_def empty_db_def validate_request_integrity_def tget_def
      build_live_submitted_request_snapshot_def build_request_snapshot_def targets_of_def tsel_def
      profile_snapshot_def workflow_snapshot_def py_or_def dict_set_def opt_json_def iso_json_def Let_def)

theorem integrity_binds_request_witness:
  "\<exists>c. tget (changes (submitted_db ChRunning)) 30 = Some c \<and> ch_title c = ''T'' \<and>
     sha256_canonical_json (py_or (ch_inputs c) (JObj [])) = ch_inputs_sha c"
proof -
  have c: "tget (changes (submitted_db ChRunning)) 30 = Some (submitted_change ChRunning)"
    by (simp add: submitted_db_def tget_def)
  have s: "ch_status (submitted_change ChRunning) \<noteq> ChDraft" by simp
  from integrity_binds_request [OF submitted_db_intact submitted_db_intact c c s s refl] c
  show ?thesis by auto
qed

lemma dispatch_token_accepted:
  assumes "generate_dispatch_token s b = Inr tok"
  shows "verify_dispatch_token s (b\<lparr>bd_token_hash := hash_dispatch_token tok\<rparr>) tok' = Inr True \<longleftrightarrow>
       tok' \<noteq> [] \<and> hash_dispatch_token tok' = hash_dispatch_token tok"
    and "tok \<noteq> []"
proof -
  have "generate_dispatch_token s (b\<lparr>bd_token_hash := h\<rparr>) = Inr tok" for h
    using assms by (simp add: generate_dispatch_token_def Let_def split: if_splits)
  then show "verify_dispatch_token s (b\<lparr>bd_token_hash := hash_dispatch_token tok\<rparr>) tok' = Inr True \<longleftrightarrow>
       tok' \<noteq> [] \<and> hash_dispatch_token tok' = hash_dispatch_token tok"
    by (auto simp: verify_dispatch_token_def)
  have "length tok = 64"
    using assms by (auto simp: generate_dispatch_token_def Let_def split: if_splits)
  then show "tok \<noteq> []" by auto
qed

text \<open>
  C28: the dispatch token of a binding is accepted when the binding stores its hash, and another
  token is accepted only if it has the same SHA-256 hash.
\<close>

theorem dispatch_token_roundtrip:
  assumes "generate_dispatch_token s b = Inr tok"
  shows "verify_dispatch_token s (b\<lparr>bd_token_hash := hash_dispatch_token tok\<rparr>) tok = Inr True \<and>
     (verify_dispatch_token s (b\<lparr>bd_token_hash := hash_dispatch_token tok\<rparr>) tok' = Inr True \<longrightarrow>
       tok' \<noteq> [] \<and> hash_dispatch_token tok' = hash_dispatch_token tok)"
  using dispatch_token_accepted [OF assms] by simp

definition sample_binding :: binding where
  "sample_binding = \<lparr>bd_change = 30, bd_exec = 40, bd_org = 1, bd_profile_key = ''restart'',
     bd_inputs_sha = ''h'', bd_nonce = ''n'', bd_token_hash = [], bd_expires_at = 900,
     bd_reserved_at = 1, bd_bound_at = None, bd_bound_by = [], bd_accepted_at = None,
     bd_started_at = None, bd_finished_at = None, bd_payload = JObj []\<rparr>"

theorem dispatch_token_roundtrip_witness:
  "\<exists>tok. generate_dispatch_token (default_settings\<lparr>cfg_dispatch_secret := ''k3y''\<rparr>) sample_binding = Inr tok \<and>
     verify_dispatch_token (default_settings\<lparr>cfg_dispatch_secret := ''k3y''\<rparr>)
       (sample_binding\<lparr>bd_token_hash := hash_dispatch_token tok\<rparr>) tok = Inr True"
proof -
  have "lower ''k3y'' \<notin> set INSECURE_SECRET_PLACEHOLDERS" by code_simp
  then obtain tok where
    "generate_dispatch_token (default_settings\<lparr>cfg_dispatch_secret := ''k3y''\<rparr>) sample_binding = Inr tok"
    by (auto simp: generate_dispatch_token_def Let_def)
  with dispatch_token_roundtrip [OF this] show ?thesis by blast
qed

text \<open>
  Adding, changing and deleting targets keep the constraints on targets, and succeed only while
  the change is a draft: the targets of a submitted change cannot be altered.
\<close>

theorem target_writes_only_in_draft:
  assumes "targets_ok (change_targets d)"
    and "target_save i t d = Inr d' \<or> target_delete i d = Inr d'"
  shows "targets_ok (change_targets d') \<and> changes d' = changes d \<and>
     (\<forall>k c. tget (changes d) k = Some c \<and> ch_status c \<noteq> ChDraft \<longrightarrow>
        (\<forall>j u. tg_change u = k \<longrightarrow> ((j, u) \<in> set (change_targets d') \<longrightarrow>
           (j, u) \<in> set (change_targets d))))"
  using assms(2)
proof
  assume "target_delete i d = Inr d'"
  then have t: "change_targets d' = tsel (\<lambda>j _. j \<noteq> i) (change_targets d)" "changes d' = changes d"
    by (auto simp: target_delete_def split: option.splits if_splits)
  have "twf (tsel (\<lambda>j _. j \<noteq> i) (change_targets d))"
    using assms(1) by (auto simp: targets_ok_def twf_def tsel_def distinct_map intro: inj_on_subset)
  moreover have "set (change_targets d') \<subseteq> set (change_targets d)" by (auto simp: t(1))
  ultimately show ?thesis
    using targets_ok_subset [OF assms(1), of "change_targets d'"] t by auto
next
  assume s: "target_save i t d = Inr d'"
  then obtain c where c: "tget (changes d) (tg_change t) = Some c" "ch_status c = ChDraft"
      "tg_environment t = ''production''"
    and new: "\<not> (\<exists>(j, u) \<in> set (change_targets d). j \<noteq> i \<and> tg_change u = tg_change t \<and>
             (tg_type u = tg_type t \<and> tg_normalized u = tg_normalized t \<or>
              tg_position u = tg_position t))"
    and d': "change_targets d' = (if tget (change_targets d) i = None then tins i t (change_targets d)
           else tupd i (\<lambda>_. t) (change_targets d))" "changes d' = changes d"
    by (auto simp: target_save_def split: option.splits if_splits)
  have mem: "(j, v) = (i, t) \<or> j \<noteq> i \<and> (j, v) \<in> set (change_targets d)"
    if "(j, v) \<in> set (change_targets d')" for j v
    using that unfolding d'(1)
    by (auto simp: set_tupd tins_def tget_None_iff tkeys_def image_iff split: if_splits)
  have "twf (change_targets d')"
    using assms(1) unfolding d'(1)
    by (auto simp: targets_ok_def table_simps tget_None_iff intro: twf_tins)
  then have "targets_ok (change_targets d')"
    using targets_ok_put [OF assms(1) c(3), where i = i and t' = "change_targets d'"] new mem by blast
  with c d'(2) show ?thesis by (auto dest!: mem)
qed

definition sample_target :: "nat \<Rightarrow> string \<Rightarrow> change_target" where
  "sample_target pos name = \<lparr>tg_change = 30, tg_org = 1, tg_position = pos, tg_type = ''host'',
     tg_identifier = name, tg_normalized = name, tg_display_name = name,
     tg_environment = ''production'', tg_metadata = JObj []\<rparr>"

theorem target_writes_only_in_draft_witness:
  "\<exists>d'. target_save 31 (sample_target 2 ''db2'')
       ((sample_db ChDraft)\<lparr>change_targets := [(32, sample_target 1 ''db1'')]\<rparr>) = Inr d' \<and>
     targets_ok (change_targets d') \<and> length (change_targets d') = 2"
proof -
  let ?d = "(sample_db ChDraft)\<lparr>change_targets := [(32, sample_target 1 ''db1'')]\<rparr>"
  have ok: "targets_ok (change_targets ?d)"
    by (simp add: targets_ok_def twf_def sample_target_def)
  have s: "target_save 31 (sample_target 2 ''db2'') ?d = Inr (?d\<lparr>change_targets :=
      [(32, sample_target 1 ''db1''), (31, sample_target 2 ''db2'')]\<rparr>)"
    by (simp add: target_save_def sample_db_def sample_change_def sample_target_def tget_def tins_def
        empty_db_def)
  from target_writes_only_in_draft [OF ok disjI1 [OF s]] s show ?thesis by simp
qed

end
