(* ===== verification/Runner_Routing.thy ===== *)
theory Runner_Routing
  imports Workflow_Validation Change_Integrity
begin

text \<open>
  \<open>apps/runners/route_matching.py\<close>: which runner pool a change is dispatched to. Every target is
  matched to the best connectivity route; all routes must lead to one active pool that has the
  required capabilities and an online runner. A capability that cannot be hashed raises, which the
  dispatch preflight reports as an error of this check.
\<close>

section \<open>The program\<close>

text \<open>\<open>[c for c in required if c not in set(capabilities or [])]\<close>, and whether it is empty.\<close>

definition covers :: "json \<Rightarrow> json \<Rightarrow> bool result" where
  "covers capabilities required =
    res_bind (py_iter (py_or capabilities (JArr []))) (\<lambda>caps.
    if \<not> list_all py_hashable caps then Inl (PyError ''TypeError'')
    else res_bind (py_iter required) (\<lambda>rs.
      res_fold (\<lambda>ok r. res_bind (in_set r caps) (\<lambda>b. Inr (ok \<and> b))) True rs))"

text \<open>The routes of a target, best first: by priority, then by id.\<close>

definition route_matches :: "nat \<Rightarrow> change_target \<Rightarrow> route \<Rightarrow> bool" where
  "route_matches org t r \<longleftrightarrow> ro_org r = org \<and> ro_environment r = tg_environment t \<and> ro_is_active r \<and>
     ro_target_type r \<in> {tg_type t, ''*''} \<and> ro_pattern r \<in> {tg_normalized t, ''*''}"

definition route_for :: "db \<Rightarrow> nat \<Rightarrow> change_target \<Rightarrow> (nat \<times> route) option" where
  "route_for d org t =
    first_of (sort_key (\<lambda>(i, r). ro_priority r)
      (sort_key fst (tsel (\<lambda>_ r. route_matches org t r) (routes d))))"

text \<open>The pools of the targets, in order; a reason is returned when a target has none.\<close>

fun match_targets :: "db \<Rightarrow> nat \<Rightarrow> change_target list \<Rightarrow> (string + (nat \<times> runner_pool) list) result" where
  "match_targets d org [] = Inr (Inr [])"
| "match_targets d org (t # ts) =
    (case route_for d org t of
       None \<Rightarrow> Inr (Inl ''route_miss'')
     | Some (_, r) \<Rightarrow>
      (case tget (runner_pools d) (ro_pool r) of
         None \<Rightarrow> Inl (NotFound ''runner_pool'')
       | Some p \<Rightarrow>
         res_bind (if truthy (ro_required_capabilities r)
                   then covers (pl_capabilities p) (ro_required_capabilities r) else Inr True) (\<lambda>ok.
         if \<not> ok then Inr (Inl ''missing_required_capability'')
         else res_bind (match_targets d org ts) (\<lambda>rest.
           Inr (case rest of Inl why \<Rightarrow> Inl why | Inr ps \<Rightarrow> Inr ((ro_pool r, p) # ps))))))"

definition has_online_runner :: "timestamp \<Rightarrow> nat \<Rightarrow> db \<Rightarrow> bool" where
  "has_online_runner now p d \<longleftrightarrow>
    tsel (\<lambda>_ r. rn_pool r = p \<and> rn_status r = RnActive \<and>
       (case rn_heartbeat_at r of None \<Rightarrow> False
        | Some t \<Rightarrow> now - secs (cfg_online_seconds (cfg d)) \<le> t)) (runners d) \<noteq> []"

text \<open>The checks of the pool all targets lead to.\<close>

definition check_pool ::
    "timestamp \<Rightarrow> op_profile \<Rightarrow> nat \<times> runner_pool \<Rightarrow> db \<Rightarrow> ((nat \<times> runner_pool) option \<times> string) result" where
  "check_pool now prof ip d =
    (case ip of (i, p) \<Rightarrow>
      if pl_status p = PoolDraining then Inr (None, ''pool_draining'')
      else if pl_status p = PoolDisabled then Inr (None, ''pool_disabled'')
      else res_bind (py_iter (py_or (op_required_capabilities prof) (JArr []))) (\<lambda>required.
        res_bind (if required \<noteq> [] then covers (pl_capabilities p) (JArr required)
                  else Inr True) (\<lambda>ok.
        if \<not> ok then Inr (None, ''missing_required_capability'')
        else if \<not> has_online_runner now i d then Inr (None, ''no_online_runner'')
        else Inr (Some (i, p), ''ok''))))"

definition find_pool_for_change ::
    "timestamp \<Rightarrow> nat \<Rightarrow> change \<Rightarrow> db \<Rightarrow> ((nat \<times> runner_pool) option \<times> string) result" where
  "find_pool_for_change now k c d =
    (case map snd (targets_of d k) of
       [] \<Rightarrow> Inr (None, ''no_targets'')
     | ts \<Rightarrow>
       if tsel (\<lambda>_ r. ro_org r = ch_org c \<and> ro_is_active r) (routes d) = []
         then Inr (None, ''no_routes_configured'')
       else res_bind (match_targets d (ch_org c) ts) (\<lambda>m.
         case m of
           Inl why \<Rightarrow> Inr (None, why)
         | Inr [] \<Rightarrow> Inl (PyError ''IndexError'')
         | Inr (ip # ps) \<Rightarrow>
            if list_ex (\<lambda>jp. fst jp \<noteq> fst ip) ps then Inr (None, ''multi_pool_unsupported'')
            else (case tget (op_profiles d) (ch_profile c) of
                None \<Rightarrow> Inl (NotFound ''operation_profile'')
              | Some prof \<Rightarrow> check_pool now prof ip d)))"

section \<open>Facts\<close>

lemma sort_first_min:
  assumes "first_of (sort_key f xs) = Some x"
  shows "x \<in> set xs \<and> (\<forall>y \<in> set xs. f x \<le> f y)"
proof -
  from assms obtain ys where s: "sort_key f xs = x # ys"
    by (cases "sort_key f xs") auto
  then have m: "set (x # ys) = set xs" by (metis set_sort)
  have "sorted (map f (x # ys))" using sorted_sort_key [of f xs] unfolding s .
  then show ?thesis using m by (auto simp flip: m)
qed

text \<open>The route of a target matches it, and no matching route has a better priority.\<close>

lemma route_for_best:
  assumes "route_for d org t = Some (i, r)"
  shows "(i, r) \<in> set (routes d)" and "route_matches org t r"
    and "(j, r') \<in> set (routes d) \<Longrightarrow> route_matches org t r' \<Longrightarrow> ro_priority r \<le> ro_priority r'"
proof -
  note m = sort_first_min [OF assms [unfolded route_for_def]]
  then show "(i, r) \<in> set (routes d)" "route_matches org t r"
    by (auto simp: tsel_def)
  show "ro_priority r \<le> ro_priority r'" if "(j, r') \<in> set (routes d)" "route_matches org t r'"
    using m that by (auto simp: tsel_def)
qed

lemma match_targets_pools:
  assumes "match_targets d org ts = Inr (Inr ps)"
  shows "length ps = length ts \<and> (\<forall>n < length ts. \<exists>i r. route_for d org (ts ! n) = Some (i, r) \<and>
     fst (ps ! n) = ro_pool r \<and> tget (runner_pools d) (fst (ps ! n)) = Some (snd (ps ! n)))"
  using assms
proof (induction d org ts arbitrary: ps rule: match_targets.induct)
  case (2 d org t ts)
  from "2.prems" obtain i r p m where r: "route_for d org t = Some (i, r)"
      "tget (runner_pools d) (ro_pool r) = Some p" and m: "match_targets d org ts = Inr m"
      "(case m of Inl why \<Rightarrow> Inl why | Inr ps \<Rightarrow> Inr ((ro_pool r, p) # ps)) = Inr ps"
    and ok: "(if truthy (ro_required_capabilities r)
       then covers (pl_capabilities p) (ro_required_capabilities r) else Inr True) = Inr True"
    by (auto simp: res_simps split: option.splits if_splits)
  from m obtain rest where rest: "match_targets d org ts = Inr (Inr rest)"
    and ps: "ps = (ro_pool r, p) # rest"
    by (cases m) auto
  from "2.IH" [OF r(1) refl r(2) _ rest, of True] rest ps r show ?case
    by (auto simp: nth_Cons split: nat.splits)
qed simp

section \<open>Properties\<close>

text \<open>
  C15: a pool chosen for a change is active, has an online runner, and is the pool of the best route
  of every target of the change.
\<close>

theorem chosen_pool_serves_all:
  assumes "find_pool_for_change now k c d = Inr (Some (i, p), why)"
  shows "why = ''ok'' \<and> tget (runner_pools d) i = Some p \<and> pl_status p = PoolActive \<and>
     (\<exists>j r t. (j, r) \<in> set (runners d) \<and> rn_pool r = i \<and> rn_status r = RnActive \<and>
        rn_heartbeat_at r = Some t \<and> now - 1000000 * cfg_online_seconds (cfg d) \<le> t) \<and>
     (\<forall>t \<in> snd ` set (targets_of d k). \<exists>n r. (n, r) \<in> set (routes d) \<and>
        route_matches (ch_org c) t r \<and> ro_pool r = i \<and>
        (\<forall>n' r'. (n', r') \<in> set (routes d) \<longrightarrow> route_matches (ch_org c) t r' \<longrightarrow>
           ro_priority r \<le> ro_priority r'))"
proof -
  let ?ts = "map snd (targets_of d k)"
  from assms obtain m where m0: "match_targets d (ch_org c) ?ts = Inr m"
    and m1: "(case m of Inl why \<Rightarrow> Inr (None, why)
         | Inr [] \<Rightarrow> Inl (PyError ''IndexError'')
         | Inr (ip # ps) \<Rightarrow>
            if list_ex (\<lambda>jp. fst jp \<noteq> fst ip) ps then Inr (None, ''multi_pool_unsupported'')
            else (case tget (op_profiles d) (ch_profile c) of
                None \<Rightarrow> Inl (NotFound ''operation_profile'')
              | Some prof \<Rightarrow> check_pool now prof ip d)) = Inr (Some (i, p), why)"
    unfolding find_pool_for_change_def
    by (auto simp: res_bind_eq_Inr simp del: match_targets.simps split: list.splits if_splits)
  then obtain ps' where ps': "m = Inr ps'" by (cases m) auto
  with m1 obtain q ps prof where qps: "ps' = q # ps"
    and same: "\<not> list_ex (\<lambda>jp. fst jp \<noteq> fst q) ps"
    and cp: "check_pool now prof q d = Inr (Some (i, p), why)"
    by (cases ps') (auto split: if_splits option.splits)
  from m0 ps' qps have m: "match_targets d (ch_org c) ?ts = Inr (Inr (q # ps))" by simp
  from cp have q: "q = (i, p)" and st: "pl_status p = PoolActive" and why: "why = ''ok''"
    and on: "has_online_runner now i d"
    by (auto simp: check_pool_def res_simps split: prod.splits if_splits)
      (metis pool_status.exhaust)+
  note mt = match_targets_pools [OF m]
  have pool: "\<exists>n r. route_for d (ch_org c) t = Some (n, r) \<and> ro_pool r = i"
    if "t \<in> snd ` set (targets_of d k)" for t
  proof -
    from that have "t \<in> set ?ts" by simp
    then obtain n where n: "n < length ?ts" "?ts ! n = t"
      unfolding in_set_conv_nth by blast
    moreover have "fst ((q # ps) ! n) = i"
      using n(1) conjunct1 [OF mt] same by (cases n) (simp_all add: q list_ex_iff)
    ultimately show ?thesis using conjunct2 [OF mt] by (metis (no_types))
  qed
  from mt have p: "tget (runner_pools d) i = Some p"
    by (cases "map snd (targets_of d k)") (auto simp: q nth_Cons split: nat.splits)
  from on obtain j r where "(j, r) \<in> set (tsel (\<lambda>_ r. rn_pool r = i \<and> rn_status r = RnActive \<and>
       (case rn_heartbeat_at r of None \<Rightarrow> False
        | Some t \<Rightarrow> now - secs (cfg_online_seconds (cfg d)) \<le> t)) (runners d))"
    unfolding has_online_runner_def neq_Nil_conv by fastforce
  then have online: "\<exists>j r t. (j, r) \<in> set (runners d) \<and> rn_pool r = i \<and> rn_status r = RnActive \<and>
        rn_heartbeat_at r = Some t \<and> now - 1000000 * cfg_online_seconds (cfg d) \<le> t"
    by (auto simp: secs_def mult.commute split: option.splits)
  have best: "\<exists>n r. (n, r) \<in> set (routes d) \<and> route_matches (ch_org c) t r \<and> ro_pool r = i \<and>
        (\<forall>n' r'. (n', r') \<in> set (routes d) \<longrightarrow> route_matches (ch_org c) t r' \<longrightarrow>
           ro_priority r \<le> ro_priority r')" if "t \<in> snd ` set (targets_of d k)" for t
  proof -
    from pool [OF that] obtain n r where r: "route_for d (ch_org c) t = Some (n, r)" "ro_pool r = i"
      by blast
    show ?thesis
      using route_for_best [OF r(1)] r(2) by (intro exI [of _ n] exI [of _ r]) blast
  qed
  from why p st online best show ?thesis by blast
qed

text \<open>One target, two matching routes of different priority, and an online runner.\<close>

definition sample_pool :: "string \<Rightarrow> runner_pool" where
  "sample_pool key = \<lparr>pl_org = 1, pl_key = key, pl_status = PoolActive, pl_max_concurrent = 2,
     pl_default_non_change = True, pl_capabilities = JArr [JStr ''ssh''], pl_drain_requested_at = None,
     pl_disabled_at = None\<rparr>"

definition sample_route :: "string \<Rightarrow> nat \<Rightarrow> nat \<Rightarrow> route" where
  "sample_route pattern pool prio = \<lparr>ro_org = 1, ro_environment = ''production'',
     ro_target_type = ''*'', ro_pattern = pattern, ro_pool = pool,
     ro_required_capabilities = JArr [JStr ''ssh''], ro_priority = prio, ro_is_active = True\<rparr>"

definition sample_runner :: "nat \<Rightarrow> runner" where
  "sample_runner pool = \<lparr>rn_org = 1, rn_pool = pool, rn_display_name = ''r'', rn_status = RnActive,
     rn_version = [], rn_hostname = [], rn_fingerprint = [], rn_token_hash = [],
     rn_registered_at = Some 1, rn_last_seen_at = Some 1, rn_heartbeat_at = Some 5,
     rn_drain_requested_at = None, rn_disabled_at = None, rn_revoked_at = None,
     rn_metadata = JObj []\<rparr>"

definition routed_db :: db where
  "routed_db = (sample_db ChApproved)\<lparr>change_targets := [(35, sample_target 1 ''web-1'')],
     runner_pools := [(60, sample_pool ''a''), (61, sample_pool ''b'')],
     routes := [(70, sample_route ''*'' 60 20), (71, sample_route ''web-1'' 61 10)],
     runners := [(80, sample_runner 61)]\<rparr>"

theorem chosen_pool_serves_all_witness:
  "find_pool_for_change 9 30 (sample_change ChApproved) routed_db = Inr (Some (61, sample_pool ''b''), ''ok'') \<and>
     pl_status (sample_pool ''b'') = PoolActive"
proof -
  have r: "find_pool_for_change 9 30 (sample_change ChApproved) routed_db =
      Inr (Some (61, sample_pool ''b''), ''ok'')" by code_simp
  from chosen_pool_serves_all [OF r] r show ?thesis by blast
qed

end
