(* ===== verification/Verification_Plan.thy ===== *)
theory Verification_Plan
  imports Change_Lifecycle Change_Integrity
begin

text \<open>
  Verification plans (\<open>apps/changes/services.py\<close>): the validation of a profile's template, the
  creation of a plan and its checks, and the recomputation of a plan's status from its checks,
  which moves the change record to \<open>verified\<close> or \<open>verification_failed\<close>.
\<close>

section \<open>Sensitive keys\<close>

definition TARGET_METADATA_FORBIDDEN_KEYS :: "string list" where
  "TARGET_METADATA_FORBIDDEN_KEYS = [
    ''api_key'', ''api_token'', ''apikey'', ''apitoken'', ''auth'', ''auth_header'',
    ''authorization'', ''bearer'', ''bearer_token'', ''change_dispatch_token'', ''claim_token'',
    ''cookie'', ''dispatch_token'', ''dispatch_token_hash'', ''headers'', ''password'',
    ''private_key'', ''raw_command_output'', ''raw_request_body'', ''request_body'',
    ''requested_inputs'', ''secret'', ''session'', ''session_token'', ''token'',
    ''webhook_url'', ''x_api_key'']"

text \<open>\<open>_reject_sensitive_keys\<close>: the boolean says whether a forbidden key occurs at any depth.\<close>

fun has_sensitive_key :: "json \<Rightarrow> bool"
  and fields_sensitive :: "jdict \<Rightarrow> bool"
  and items_sensitive :: "json list \<Rightarrow> bool"
where
  "has_sensitive_key (JObj d) = fields_sensitive d"
| "has_sensitive_key (JArr xs) = items_sensitive xs"
| "has_sensitive_key JNull = False"
| "has_sensitive_key (JBool b) = False"
| "has_sensitive_key (JInt i) = False"
| "has_sensitive_key (JFloat s) = False"
| "has_sensitive_key (JStr s) = False"
| "fields_sensitive [] = False"
| "fields_sensitive ((k, v) # d) =
    (lower k \<in> set TARGET_METADATA_FORBIDDEN_KEYS \<or> has_sensitive_key v \<or> fields_sensitive d)"
| "items_sensitive [] = False"
| "items_sensitive (x # xs) = (has_sensitive_key x \<or> items_sensitive xs)"

definition reject_sensitive_keys :: "json \<Rightarrow> string \<Rightarrow> unit result" where
  "reject_sensitive_keys v code =
    (if has_sensitive_key v then Inl (Domain DomainValidationError code) else Inr ())"

section \<open>The template of a profile\<close>

definition VERIFICATION_CHECK_TYPES :: "string list" where
  "VERIFICATION_CHECK_TYPES =
    [''runner_step'', ''artifact_presence'', ''manual_attestation'', ''api_assertion'',
     ''external_reference'']"

definition AUTOMATED_CHECK_TYPES :: "string list" where
  "AUTOMATED_CHECK_TYPES = [''runner_step'', ''artifact_presence'', ''api_assertion'']"

definition MANUAL_CHECK_TYPES :: "string list" where
  "MANUAL_CHECK_TYPES = [''manual_attestation'', ''external_reference'']"

text \<open>A normalized check of the template.\<close>

record check_item =
  ci_key :: string
  ci_name :: string
  ci_description :: string
  ci_type :: string
  ci_required :: bool
  ci_verification_key :: string
  ci_source_step_key :: string
  ci_artifact_kind :: string
  ci_artifact_pattern :: string
  ci_checksum :: string
  ci_api_assertion :: json
  ci_external_config :: json
  ci_attestation_config :: json

definition template_invalid :: err where
  "template_invalid = Domain DomainValidationError ''verification_plan_template_invalid''"

definition config_check :: "json \<Rightarrow> unit result" where
  "config_check v =
    (let v = (if v = JNull then JObj [] else v)
     in if \<not> is_obj v then Inl template_invalid
        else reject_sensitive_keys v ''verification_plan_template_forbidden_key'')"

definition text_field :: "jdict \<Rightarrow> string \<Rightarrow> string" where
  "text_field raw k = strip (py_str (fget raw k (JStr [])))"

text \<open>
  The normalized item of a raw check, and the conditions on it. All of them are refused with
  the same error, so the order of the tests does not matter.
\<close>

definition check_item_of :: "jdict \<Rightarrow> check_item" where
  "check_item_of raw = \<lparr>
     ci_key = text_field raw ''key'',
     ci_name = text_field raw ''name'',
     ci_description = text_field raw ''description'',
     ci_type = strip (py_str (py_or (py_or (fget raw ''type'' JNull)
        (fget raw ''check_type'' JNull)) (JStr []))),
     ci_required = (fget raw ''required'' (JBool True) = JBool True),
     ci_verification_key = text_field raw ''verification_key'',
     ci_source_step_key = text_field raw ''source_step_key'',
     ci_artifact_kind = text_field raw ''artifact_kind'',
     ci_artifact_pattern = text_field raw ''artifact_name_pattern'',
     ci_checksum = text_field raw ''expected_checksum_sha256'',
     ci_api_assertion = py_or (fget raw ''api_assertion'' (JObj [])) (JObj []),
     ci_external_config = py_or (fget raw ''external_reference_config'' (JObj [])) (JObj []),
     ci_attestation_config = py_or (fget raw ''manual_attestation_config'' (JObj [])) (JObj [])\<rparr>"

definition check_item_ok :: "check_item \<Rightarrow> bool" where
  "check_item_ok i =
    (ci_key i \<noteq> [] \<and> length (ci_key i) \<le> 128 \<and> ci_name i \<noteq> [] \<and>
     ci_type i \<in> set VERIFICATION_CHECK_TYPES \<and>
     (ci_checksum i = [] \<or> length (ci_checksum i) = 64) \<and>
     (ci_type i = ''runner_step'' \<longrightarrow> ci_verification_key i \<noteq> [] \<or> ci_source_step_key i \<noteq> []) \<and>
     (ci_type i = ''artifact_presence'' \<longrightarrow>
        ci_verification_key i \<noteq> [] \<or> ci_artifact_kind i \<noteq> [] \<or> ci_artifact_pattern i \<noteq> []))"

definition is_bool :: "json \<Rightarrow> bool" where
  "is_bool v = (v = JBool True \<or> v = JBool False)"

definition normalize_check_template :: "jdict \<Rightarrow> check_item result" where
  "normalize_check_template raw =
    (if \<not> check_item_ok (check_item_of raw) \<or> \<not> is_bool (fget raw ''required'' (JBool True))
     then Inl template_invalid
     else res_bind (config_check (fget raw ''api_assertion'' (JObj []))) (\<lambda>_.
          res_bind (config_check (fget raw ''external_reference_config'' (JObj []))) (\<lambda>_.
          res_bind (config_check (fget raw ''manual_attestation_config'' (JObj []))) (\<lambda>_.
          Inr (check_item_of raw)))))"

definition compute_plan_mode :: "check_item list \<Rightarrow> verification_mode" where
  "compute_plan_mode items =
    (let required_types = map ci_type (filter ci_required items)
     in if required_types \<noteq> [] \<and> set required_types \<subseteq> set AUTOMATED_CHECK_TYPES then VmAutomated
        else if required_types \<noteq> [] \<and> set required_types \<subseteq> set MANUAL_CHECK_TYPES then VmManual
        else VmMixed)"

text \<open>The loop over the raw checks; \<open>acc\<close> holds the normalized ones, newest last.\<close>

fun normalize_checks :: "check_item list \<Rightarrow> json list \<Rightarrow> check_item list result" where
  "normalize_checks acc [] = Inr acc"
| "normalize_checks acc (raw # rest) =
    (if \<not> is_obj raw then Inl template_invalid
     else res_bind (normalize_check_template (fields_of raw)) (\<lambda>item.
       if ci_key item \<in> set (map ci_key acc) then Inl template_invalid
       else normalize_checks (acc @ [item]) rest))"

definition validate_plan_template :: "op_profile \<Rightarrow> json \<Rightarrow> check_item list result" where
  "validate_plan_template p template =
    (if \<not> is_obj template then Inl template_invalid
     else res_bind (reject_sensitive_keys template ''verification_plan_template_forbidden_key'')
       (\<lambda>_. case fget (fields_of template) ''checks'' JNull of
          JArr raw_checks \<Rightarrow>
            if op_verification_required p \<and> raw_checks = [] then Inl template_invalid
            else res_bind (normalize_checks [] raw_checks) (\<lambda>items.
              if op_verification_required p \<and> \<not> list_ex ci_required items
                then Inl template_invalid
              else if op_verification_mode p = VmAutomated \<and>
                compute_plan_mode items \<noteq> VmAutomated then Inl template_invalid
              else if op_verification_mode p = VmManual \<and>
                compute_plan_mode items = VmAutomated then Inl template_invalid
              else Inr items)
        | _ \<Rightarrow> Inl template_invalid))"

section \<open>Creating a plan\<close>

definition check_item_json :: "check_item \<Rightarrow> json" where
  "check_item_json i = JObj [
     (''key'', JStr (ci_key i)), (''name'', JStr (ci_name i)),
     (''description'', JStr (ci_description i)), (''type'', JStr (ci_type i)),
     (''required'', JBool (ci_required i)),
     (''verification_key'', JStr (ci_verification_key i)),
     (''source_step_key'', JStr (ci_source_step_key i)),
     (''artifact_kind'', JStr (ci_artifact_kind i)),
     (''artifact_name_pattern'', JStr (ci_artifact_pattern i)),
     (''expected_checksum_sha256'', JStr (ci_checksum i)),
     (''api_assertion'', ci_api_assertion i),
     (''external_reference_config'', ci_external_config i),
     (''manual_attestation_config'', ci_attestation_config i)]"

definition plan_of_change :: "db \<Rightarrow> nat \<Rightarrow> (nat \<times> verification_plan) option" where
  "plan_of_change d k = first_of (tsel (\<lambda>_ p. vp_change p = k) (ver_plans d))"

definition checks_of :: "db \<Rightarrow> nat \<Rightarrow> verification_check table" where
  "checks_of d i =
    sort_key (\<lambda>(_, c). vc_position c) (tsel (\<lambda>_ c. vc_plan c = i) (ver_checks d))"

definition emit_plan_audit ::
    "timestamp \<Rightarrow> nat \<Rightarrow> string \<Rightarrow> audit_actor \<Rightarrow> jdict \<Rightarrow> db \<Rightarrow> db result" where
  "emit_plan_audit now i event_type actor extra d =
    (case tget (ver_plans d) i of
       None \<Rightarrow> Inl (NotFound ''verification_plan'')
     | Some p \<Rightarrow>
      (case tget (op_profiles d) (vp_profile p) of
         None \<Rightarrow> Inl (NotFound ''operation_profile'')
       | Some q \<Rightarrow>
         audit_emit now (vp_org p) actor event_type ''change_record'' (vp_change p)
           (dict_merge [
              (''verification_plan_id'', JStr (id_str i)),
              (''operation_profile_key'', JStr (op_key q)),
              (''mode'', JStr (verification_mode_str (vp_mode p))),
              (''generated_from_profile_sha256'', JStr (vp_snapshot_sha p)),
              (''required_check_count'', JInt (vp_required_count p)),
              (''optional_check_count'', JInt (vp_optional_count p)),
              (''checks'', JArr (map (\<lambda>(_, c). JObj [
                 (''key'', JStr (vc_key c)), (''type'', JStr (vc_type c)),
                 (''required'', JBool (vc_required c))]) (checks_of d i)))] extra) d))"

definition new_check :: "nat \<Rightarrow> nat \<Rightarrow> nat \<Rightarrow> check_item \<Rightarrow> verification_check" where
  "new_check plan k position i = \<lparr>vc_plan = plan, vc_change = k, vc_position = position,
     vc_key = ci_key i, vc_name = ci_name i, vc_description = ci_description i,
     vc_type = ci_type i, vc_required = ci_required i, vc_status = VcPending,
     vc_verification_key = ci_verification_key i, vc_source_step_key = ci_source_step_key i,
     vc_artifact_kind = ci_artifact_kind i, vc_artifact_pattern = ci_artifact_pattern i,
     vc_checksum = ci_checksum i, vc_api_assertion = ci_api_assertion i,
     vc_external_config = ci_external_config i,
     vc_attestation_config = ci_attestation_config i, vc_last_result = None,
     vc_satisfied_at = None, vc_failed_at = None\<rparr>"

text \<open>\<open>bulk_create\<close> of the checks, numbered from one.\<close>

fun create_checks :: "nat \<Rightarrow> nat \<Rightarrow> nat \<Rightarrow> check_item list \<Rightarrow> db \<Rightarrow> db" where
  "create_checks plan k position [] d = d"
| "create_checks plan k position (i # is) d =
    (let (n, d) = fresh d
     in create_checks plan k (Suc position) is
          (d\<lparr>ver_checks := tins n (new_check plan k position i) (ver_checks d)\<rparr>))"

definition generate_plan ::
    "timestamp \<Rightarrow> nat \<Rightarrow> change \<Rightarrow> op_profile \<Rightarrow> audit_actor \<Rightarrow> db \<Rightarrow> (db \<times> nat) result" where
  "generate_plan now k c p actor d =
    res_bind (validate_plan_template p (py_or (op_plan_template p) (JObj []))) (\<lambda>items.
      let required_count = length (filter ci_required items);
          snapshot = JObj [
            (''operation_profile_id'', JStr (id_str (ch_profile c))),
            (''operation_profile_key'', JStr (op_key p)),
            (''verification_required'', JBool (op_verification_required p)),
            (''verification_mode'', JStr (verification_mode_str (op_verification_mode p))),
            (''checks'', JArr (map check_item_json items))];
          (i, d) = fresh d
      in if op_org p \<noteq> ch_org c then Inl (DjangoValidation ''verification_plan'')
         else (let d = d\<lparr>ver_plans := tins i
                 \<lparr>vp_org = ch_org c, vp_change = k, vp_profile = ch_profile c,
                  vp_mode = compute_plan_mode items, vp_status = VpGenerated,
                  vp_snapshot = snapshot, vp_snapshot_sha = sha256_canonical_json snapshot,
                  vp_required_count = int required_count,
                  vp_optional_count = int (length items) - int required_count,
                  vp_satisfied_required = 0, vp_failed_required = 0, vp_generated_at = now,
                  vp_activated_at = None, vp_satisfied_at = None, vp_failed_at = None\<rparr>
                 (ver_plans d)\<rparr>;
                d = create_checks i k 1 items d
              in res_bind (emit_plan_audit now i ''change.verification_plan_generated'' actor
                   [(''status'', JStr (plan_status_str VpGenerated))] d)
                 (\<lambda>d. Inr (d, i))))"

definition validate_existing_plan ::
    "db \<Rightarrow> nat \<Rightarrow> verification_plan \<Rightarrow> change \<Rightarrow> unit result" where
  "validate_existing_plan d i p c =
    (if vp_org p \<noteq> ch_org c
       then Inl (Domain DomainValidationError ''verification_plan_organization_mismatch'')
     else if vp_profile p \<noteq> ch_profile c
       then Inl (Domain DomainValidationError ''verification_plan_profile_mismatch'')
     else if vp_status p \<notin> {VpGenerated, VpActive, VpSatisfied}
       then Inl (Domain DomainConflictError ''verification_plan_not_dispatchable'')
     else if vp_required_count p \<le> 0
       then Inl (Domain DomainConflictError ''verification_plan_missing_required_checks'')
     else if int (length (tsel (\<lambda>_ c. vc_plan c = i \<and> vc_required c) (ver_checks d)))
        \<noteq> vp_required_count p
       then Inl (Domain DomainConflictError ''verification_plan_check_count_mismatch'')
     else Inr ())"

text \<open>\<open>VerificationPlan.clean\<close>.\<close>

definition plan_clean :: "db \<Rightarrow> verification_plan \<Rightarrow> unit result" where
  "plan_clean d p =
    (case (tget (changes d) (vp_change p), tget (op_profiles d) (vp_profile p)) of
       (Some c, Some q) \<Rightarrow>
         if ch_org c \<noteq> vp_org p \<or> op_org q \<noteq> vp_org p \<or> ch_profile c \<noteq> vp_profile p
         then Inl (DjangoValidation ''verification_plan'') else Inr ()
     | _ \<Rightarrow> Inl (NotFound ''verification_plan''))"

definition activate_plan :: "timestamp \<Rightarrow> nat \<Rightarrow> audit_actor \<Rightarrow> db \<Rightarrow> db result" where
  "activate_plan now i actor d =
    (case tget (ver_plans d) i of
       None \<Rightarrow> Inl (NotFound ''verification_plan'')
     | Some p \<Rightarrow>
       res_bind (plan_clean d p) (\<lambda>_.
         emit_plan_audit now i ''change.verification_plan_activated'' actor
           [(''status'', JStr (plan_status_str VpActive)),
            (''activated_at'', JStr (isoformat now))]
           (d\<lparr>ver_plans := tupd i (\<lambda>p. p\<lparr>vp_status := VpActive, vp_activated_at := Some now\<rparr>)
               (ver_plans d)\<rparr>)))"

definition ensure_verification_plan ::
    "timestamp \<Rightarrow> nat \<Rightarrow> audit_actor \<Rightarrow> bool \<Rightarrow> db \<Rightarrow> (db \<times> nat option) result" where
  "ensure_verification_plan now k actor activate d =
    (case tget (changes d) k of
       None \<Rightarrow> Inl (NotFound ''change'')
     | Some c \<Rightarrow>
      (case tget (op_profiles d) (ch_profile c) of
         None \<Rightarrow> Inl (NotFound ''operation_profile'')
       | Some p \<Rightarrow>
        if \<not> op_verification_required p then Inr (d, None)
        else if ch_status c \<in> {ChDraft, ChClosed, ChRejected, ChCanceled, ChExpired}
          then Inl (Domain InvalidStateTransitionError ''verification_plan_invalid_change_state'')
        else res_bind
          (case plan_of_change d k of
             Some (i, _) \<Rightarrow> Inr (d, i)
           | None \<Rightarrow>
              if ch_status c \<in> {ChDispatchable, ChRunning, ChVerificationPending,
                   ChVerificationFailed, ChVerified}
              then Inl (Domain DomainConflictError ''verification_plan_missing'')
              else generate_plan now k c p actor d)
          (\<lambda>(d, i).
            case tget (ver_plans d) i of
              None \<Rightarrow> Inl (NotFound ''verification_plan'')
            | Some vp \<Rightarrow>
               res_bind (validate_existing_plan d i vp c) (\<lambda>_.
               res_bind (if activate \<and> vp_status vp = VpGenerated
                         then activate_plan now i actor d else Inr d) (\<lambda>d.
               Inr (d, Some i))))))"

section \<open>Recomputing a plan\<close>

definition emit_plan_status_audit ::
    "timestamp \<Rightarrow> nat \<Rightarrow> verification_plan \<Rightarrow> plan_status \<Rightarrow> audit_actor \<Rightarrow> db \<Rightarrow> db result" where
  "emit_plan_status_audit now i p previous actor d =
    audit_emit now (vp_org p) actor ''change.verification_plan_status_changed'' ''change_record''
      (vp_change p) [
        (''verification_plan_id'', JStr (id_str i)),
        (''previous_status'', JStr (plan_status_str previous)),
        (''new_status'', JStr (plan_status_str (vp_status p))),
        (''satisfied_required_count'', JInt (vp_satisfied_required p)),
        (''failed_required_count'', JInt (vp_failed_required p)),
        (''required_check_count'', JInt (vp_required_count p))] d"

text \<open>The new plan, from its required checks.\<close>

definition recomputed_plan ::
    "timestamp \<Rightarrow> verification_check list \<Rightarrow> verification_plan \<Rightarrow> verification_plan" where
  "recomputed_plan now checks p =
    (let required = filter vc_required checks;
         satisfied = length (filter (\<lambda>c. vc_status c = VcPassed) required);
         failed = length (filter (\<lambda>c. vc_status c = VcFailed) required);
         p = p\<lparr>vp_satisfied_required := int satisfied, vp_failed_required := int failed\<rparr>
     in if failed \<noteq> 0 then
          p\<lparr>vp_status := VpFailed,
            vp_failed_at := (if vp_failed_at p = None then Some now else vp_failed_at p)\<rparr>
        else if required \<noteq> [] \<and> satisfied = length required then
          p\<lparr>vp_status := VpSatisfied,
            vp_satisfied_at := (if vp_satisfied_at p = None then Some now else vp_satisfied_at p)\<rparr>
        else if vp_status p \<in> {VpSatisfied, VpFailed} then
          p\<lparr>vp_status := (if vp_activated_at p \<noteq> None then VpActive else VpGenerated)\<rparr>
        else p)"

definition recompute_verification_state ::
    "timestamp \<Rightarrow> nat \<Rightarrow> audit_actor \<Rightarrow> db \<Rightarrow> db result" where
  "recompute_verification_state now k actor d =
    (case tget (changes d) k of
       None \<Rightarrow> Inl (NotFound ''change'')
     | Some c \<Rightarrow>
      (case plan_of_change d k of
         None \<Rightarrow> Inl (NotFound ''verification_plan'')
       | Some (i, p) \<Rightarrow>
         let p' = recomputed_plan now (map snd (checks_of d i)) p in
         res_bind (plan_clean d p') (\<lambda>_.
         let d = d\<lparr>ver_plans := tupd i (\<lambda>_. p') (ver_plans d)\<rparr> in
         res_bind (if vp_status p \<noteq> vp_status p'
                   then emit_plan_status_audit now i p' (vp_status p) actor d
                   else Inr d) (\<lambda>d.
         if ch_status c = ChVerificationPending \<and> vp_status p' = VpFailed then
           res_bind (transition_change now k ChVerificationFailed (Some actor) [] [
               (''verification_plan_id'', JStr (id_str i)),
               (''failed_required_count'', JInt (vp_failed_required p'))] d) (\<lambda>(d, _). Inr d)
         else if ch_status c = ChVerificationPending \<and> vp_status p' = VpSatisfied then
           res_bind (transition_change now k ChVerified (Some actor) [] [
               (''verification_plan_id'', JStr (id_str i)),
               (''satisfied_required_count'', JInt (vp_satisfied_required p'))] d)
             (\<lambda>(d, _). Inr d)
         else Inr d))))"

section \<open>Facts about templates and plans\<close>

lemma normalize_check_template_Inr:
  assumes "normalize_check_template raw = Inr i"
  shows "check_item_ok i"
proof -
  from assms have "check_item_ok (check_item_of raw)" "i = check_item_of raw"
    unfolding normalize_check_template_def
    by (auto simp del: check_item.simps simp: res_bind_eq_Inr split: if_splits)
  then show ?thesis by simp
qed

lemma normalize_checks_Inr:
  assumes "normalize_checks acc raws = Inr items" and "distinct (map ci_key acc)"
    and "list_all check_item_ok acc"
  shows "distinct (map ci_key items) \<and> length items = length acc + length raws \<and>
     list_all check_item_ok items"
  using assms
proof (induction raws arbitrary: acc)
  case (Cons raw rest)
  from Cons.prems(1) obtain i where i: "normalize_check_template (fields_of raw) = Inr i"
      "ci_key i \<notin> set (map ci_key acc)" "normalize_checks (acc @ [i]) rest = Inr items"
    by (auto simp: res_bind_eq_Inr split: if_splits)
  have "distinct (map ci_key (acc @ [i]))"
    using Cons.prems(2) i(2) by simp
  moreover have "list_all check_item_ok (acc @ [i])"
    using Cons.prems(3) normalize_check_template_Inr [OF i(1)] by simp
  ultimately show ?case using Cons.IH [OF i(3)] by simp
qed simp

lemma emit_plan_audit_progress [progress_rules]:
  "emit_plan_audit now i et a x d = Inr d' \<Longrightarrow> change_progress d d'"
  by (auto simp: emit_plan_audit_def split: option.splits dest: audit_emit_progress)

lemma create_checks_part:
  "control_part (create_checks i k n is d) = control_part d \<and>
   changes (create_checks i k n is d) = changes d \<and>
   still_part (create_checks i k n is d) = still_part d"
  by (induction "is" arbitrary: n d) (auto simp: fresh_def control_part_def still_part_def)

lemma generate_plan_progress [progress_rules]:
  assumes "generate_plan now k c p a d = Inr (d', i)"
  shows "change_progress d d'"
proof -
  from assms obtain items d1 x where e: "emit_plan_audit now i ''change.verification_plan_generated'' a x
      (create_checks i k 1 items d1) = Inr d'"
    and d1: "control_part d1 = control_part d" "changes d1 = changes d" "still_part d1 = still_part d"
    by (auto simp: generate_plan_def Let_def fresh_def res_simps control_part_def still_part_def
        split: if_splits)
  have "change_progress d (create_checks i k 1 items d1)"
    by (rule progress_same) (simp_all add: create_checks_part d1)
  with emit_plan_audit_progress [OF e] show ?thesis by (blast intro: progress.trans)
qed

lemma activate_plan_progress [progress_rules]:
  assumes "activate_plan now i a d = Inr d'"
  shows "change_progress d d'"
proof -
  from assms obtain d1 x where "emit_plan_audit now i ''change.verification_plan_activated'' a x d1 = Inr d'"
      "control_part d1 = control_part d" "changes d1 = changes d" "still_part d1 = still_part d"
    by (auto simp: activate_plan_def res_simps control_part_def still_part_def split: option.splits)
  then show ?thesis by (blast intro: progress.trans progress_same emit_plan_audit_progress)
qed

lemma ensure_verification_plan_progress [progress_rules]:
  assumes "ensure_verification_plan now k a act d = Inr (d', i)"
  shows "change_progress d d'"
proof -
  obtain c where c: "tget (changes d) k = Some c"
    using assms by (auto simp: ensure_verification_plan_def split: option.splits)
  obtain p where p: "tget (op_profiles d) (ch_profile c) = Some p"
    using assms c by (auto simp: ensure_verification_plan_def split: option.splits)
  show ?thesis
  proof (cases "op_verification_required p")
    case False
    with assms c p show ?thesis by (simp add: ensure_verification_plan_def progress.refl)
  next
    case True
    let ?first = "case plan_of_change d k of Some (i, _) \<Rightarrow> Inr (d, i)
      | None \<Rightarrow> if ch_status c \<in> {ChDispatchable, ChRunning, ChVerificationPending,
                   ChVerificationFailed, ChVerified}
              then Inl (Domain DomainConflictError ''verification_plan_missing'')
              else generate_plan now k c p a d"
    let ?then = "\<lambda>(d, i). case tget (ver_plans d) i of None \<Rightarrow> Inl (NotFound ''verification_plan'')
      | Some vp \<Rightarrow> res_bind (validate_existing_plan d i vp c) (\<lambda>_.
           res_bind (if act \<and> vp_status vp = VpGenerated then activate_plan now i a d else Inr d)
             (\<lambda>d. Inr (d, Some i)))"
    have live: "ch_status c \<notin> {ChDraft, ChClosed, ChRejected, ChCanceled, ChExpired}"
      using assms c p True by (auto simp: ensure_verification_plan_def)
    have "res_bind ?first ?then = Inr (d', i)"
      using assms unfolding ensure_verification_plan_def
      by (simp only: c p True live option.case if_False not_True_eq_False)
    then obtain d1 j where f: "?first = Inr (d1, j)" and t: "?then (d1, j) = Inr (d', i)"
      unfolding res_bind_eq_Inr by auto
    from t have "activate_plan now j a d1 = Inr d' \<or> d1 = d'"
      by (auto simp: res_bind_eq_Inr split: option.splits if_splits)
    then have "change_progress d1 d'"
      by (auto intro: progress.refl activate_plan_progress)
    from f have "change_progress d d1"
      by (auto split: option.splits if_splits intro: progress.refl generate_plan_progress)
    with \<open>change_progress d1 d'\<close> show ?thesis by (metis progress.trans)
  qed
qed

lemma emit_plan_status_audit_progress [progress_rules]:
  "emit_plan_status_audit now i p s a d = Inr d' \<Longrightarrow> change_progress d d'"
  by (auto simp: emit_plan_status_audit_def dest: audit_emit_progress)

lemma recompute_parts:
  assumes "recompute_verification_state now k a d = Inr d'"
  obtains c i p p' d1 where "tget (changes d) k = Some c" "plan_of_change d k = Some (i, p)"
    "p' = recomputed_plan now (map snd (checks_of d i)) p"
    "change_progress d d1" "changes d1 = changes d"
    "if ch_status c = ChVerificationPending \<and> vp_status p' = VpFailed
       then \<exists>x o'. transition_change now k ChVerificationFailed (Some a) [] x d1 = Inr (d', o')
     else if ch_status c = ChVerificationPending \<and> vp_status p' = VpSatisfied
       then \<exists>x o'. transition_change now k ChVerified (Some a) [] x d1 = Inr (d', o')
     else d' = d1"
proof -
  obtain c where c: "tget (changes d) k = Some c"
    using assms by (auto simp: recompute_verification_state_def split: option.splits)
  obtain i p where ip: "plan_of_change d k = Some (i, p)"
    using assms c by (auto simp: recompute_verification_state_def split: option.splits)
  define p' where "p' = recomputed_plan now (map snd (checks_of d i)) p"
  define d0 where "d0 = d\<lparr>ver_plans := tupd i (\<lambda>_. p') (ver_plans d)\<rparr>"
  let ?T = "\<lambda>d1. if ch_status c = ChVerificationPending \<and> vp_status p' = VpFailed then
           res_bind (transition_change now k ChVerificationFailed (Some a) [] [
               (''verification_plan_id'', JStr (id_str i)),
               (''failed_required_count'', JInt (vp_failed_required p'))] d1) (\<lambda>(d, _). Inr d)
         else if ch_status c = ChVerificationPending \<and> vp_status p' = VpSatisfied then
           res_bind (transition_change now k ChVerified (Some a) [] [
               (''verification_plan_id'', JStr (id_str i)),
               (''satisfied_required_count'', JInt (vp_satisfied_required p'))] d1)
             (\<lambda>(d, _). Inr d)
         else Inr d1"
  have "res_bind (plan_clean d p') (\<lambda>_.
      res_bind (if vp_status p \<noteq> vp_status p' then emit_plan_status_audit now i p' (vp_status p) a d0
         else Inr d0) ?T) = Inr d'"
    using assms unfolding recompute_verification_state_def
    by (simp only: c ip option.case prod.case Let_def p'_def d0_def)
  then obtain d1 where
    s: "(if vp_status p \<noteq> vp_status p' then emit_plan_status_audit now i p' (vp_status p) a d0
         else Inr d0) = Inr d1" and T: "?T d1 = Inr d'"
    unfolding res_bind_eq_Inr by blast
  from T have t: "if ch_status c = ChVerificationPending \<and> vp_status p' = VpFailed
       then \<exists>x o'. transition_change now k ChVerificationFailed (Some a) [] x d1 = Inr (d', o')
     else if ch_status c = ChVerificationPending \<and> vp_status p' = VpSatisfied
       then \<exists>x o'. transition_change now k ChVerified (Some a) [] x d1 = Inr (d', o')
     else d' = d1"
    by (auto simp: res_bind_eq_Inr split: if_splits)
  have "change_progress d d0"
    by (rule progress_same) (simp_all add: d0_def control_part_def still_part_def)
  moreover from s have "change_progress d0 d1"
    by (auto split: if_splits intro: progress.refl emit_plan_status_audit_progress)
  ultimately have pr: "change_progress d d1" by (rule progress.trans)
  have "changes d1 = changes d"
    using s by (auto simp: emit_plan_status_audit_def d0_def split: if_splits dest!: audit_emit_Inr)
  from that [OF c ip p'_def pr this t] show ?thesis .
qed

lemma recompute_verification_state_progress [progress_rules]:
  assumes "recompute_verification_state now k a d = Inr d'"
  shows "change_progress d d'"
  using assms
  by (rule recompute_parts)
    (auto split: if_splits intro: progress.trans transition_change_progress)

lemma length_filter_all: "length (filter P xs) = length xs \<longleftrightarrow> (\<forall>x \<in> set xs. P x)"
proof (induction xs)
  case (Cons x xs)
  then show ?case by auto (metis Suc_n_not_le_n length_filter_le)
qed simp

section \<open>Properties\<close>

text \<open>
  An accepted template of a profile yields one check per raw entry, with pairwise different
  keys; every check is well formed; a profile that requires verification has a required check;
  an automated profile has only automated required checks, and a manual one has some required
  check that is not automated. A template with a forbidden key at any depth is not accepted.
\<close>

theorem accepted_template:
  assumes "validate_plan_template p t = Inr items"
  shows "distinct (map ci_key items) \<and> list_all check_item_ok items \<and>
     (\<exists>raw. fget (fields_of t) ''checks'' JNull = JArr raw \<and> length items = length raw) \<and>
     (op_verification_required p \<longrightarrow> (\<exists>i \<in> set items. ci_required i)) \<and>
     (op_verification_mode p = VmAutomated \<longrightarrow>
        (\<forall>i \<in> set items. ci_required i \<longrightarrow> ci_type i \<in> set AUTOMATED_CHECK_TYPES)) \<and>
     (op_verification_mode p = VmManual \<longrightarrow> (\<exists>i \<in> set items. ci_required i) \<longrightarrow>
        (\<exists>i \<in> set items. ci_required i \<and> ci_type i \<notin> set AUTOMATED_CHECK_TYPES)) \<and>
     \<not> has_sensitive_key t"
proof -
  from assms obtain raw where raw: "fget (fields_of t) ''checks'' JNull = JArr raw"
      "normalize_checks [] raw = Inr items" "\<not> has_sensitive_key t"
    and req: "op_verification_required p \<longrightarrow> list_ex ci_required items"
    and auto_mode: "op_verification_mode p = VmAutomated \<longrightarrow> compute_plan_mode items = VmAutomated"
    and man_mode: "op_verification_mode p = VmManual \<longrightarrow> compute_plan_mode items \<noteq> VmAutomated"
    by (auto simp: validate_plan_template_def reject_sensitive_keys_def res_bind_eq_Inr
        split: json.splits if_splits)
  from normalize_checks_Inr [OF raw(2)] have
    "distinct (map ci_key items)" "length items = length raw" "list_all check_item_ok items"
    by simp_all
  moreover have "ci_type i \<in> set AUTOMATED_CHECK_TYPES"
    if "op_verification_mode p = VmAutomated" "i \<in> set items" "ci_required i" for i
    using auto_mode that by (auto simp: compute_plan_mode_def Let_def split: if_splits)
  moreover have "\<exists>i \<in> set items. ci_required i \<and> ci_type i \<notin> set AUTOMATED_CHECK_TYPES"
    if "op_verification_mode p = VmManual" "\<exists>i \<in> set items. ci_required i"
    using man_mode that by (auto simp: compute_plan_mode_def Let_def filter_empty_conv split: if_splits)
  ultimately show ?thesis
    using raw(1,3) req by (auto simp: list_ex_iff)
qed

definition sample_template :: json where
  "sample_template = JObj [(''checks'', JArr [
     JObj [(''key'', JStr ''smoke''), (''name'', JStr ''Smoke''), (''type'', JStr ''runner_step''),
       (''source_step_key'', JStr ''b'')],
     JObj [(''key'', JStr ''note''), (''name'', JStr ''Note''), (''required'', JBool False),
       (''type'', JStr ''manual_attestation'')]])]"

theorem accepted_template_witness:
  "\<exists>items. validate_plan_template (sample_profile\<lparr>op_verification_required := True,
       op_verification_mode := VmAutomated\<rparr>) sample_template = Inr items \<and>
     distinct (map ci_key items) \<and> (\<exists>i \<in> set items. ci_required i)"
proof -
  let ?p = "sample_profile\<lparr>op_verification_required := True, op_verification_mode := VmAutomated\<rparr>"
  have "\<not> isl (validate_plan_template ?p sample_template)" by code_simp
  then obtain items where i: "validate_plan_template ?p sample_template = Inr items"
    by (cases "validate_plan_template ?p sample_template") auto
  from accepted_template [OF i] i show ?thesis by auto
qed

text \<open>
  C23: recomputing the verification of a change decides its status from the required checks of its
  plan alone: while verification is pending it becomes failed if one of them failed, verified if
  there is one and all passed, and stays otherwise; in any other status the change is not moved.
\<close>

theorem recompute_decides_verification:
  assumes "recompute_verification_state now k a d = Inr d'"
    and "tget (changes d) k = Some c" and "plan_of_change d k = Some (i, p)"
  shows "\<exists>c'. tget (changes d') k = Some c' \<and> frozen_request c' = frozen_request c \<and>
     ch_status c' =
       (let required = filter vc_required (map snd (checks_of d i))
        in if ch_status c \<noteq> ChVerificationPending then ch_status c
           else if \<exists>v \<in> set required. vc_status v = VcFailed then ChVerificationFailed
           else if required \<noteq> [] \<and> (\<forall>v \<in> set required. vc_status v = VcPassed) then ChVerified
           else ChVerificationPending)"
proof -
  let ?cs = "map snd (checks_of d i)"
  let ?req = "filter vc_required ?cs"
  have all: "length (filter (\<lambda>v. vc_status v = VcPassed) ?req) = length ?req \<longleftrightarrow>
      (\<forall>v \<in> set ?req. vc_status v = VcPassed)"
    by (rule length_filter_all)
  have failed: "vp_status (recomputed_plan now ?cs p) = VpFailed \<longleftrightarrow>
      (\<exists>v \<in> set ?req. vc_status v = VcFailed)"
    by (auto simp: recomputed_plan_def Let_def filter_empty_conv)
  have sat: "vp_status (recomputed_plan now ?cs p) = VpSatisfied \<longleftrightarrow>
      \<not> (\<exists>v \<in> set ?req. vc_status v = VcFailed) \<and> ?req \<noteq> [] \<and> (\<forall>v \<in> set ?req. vc_status v = VcPassed)"
    unfolding all [symmetric]
    by (auto simp: recomputed_plan_def Let_def filter_empty_conv)
  from assms(1) show ?thesis
  proof (rule recompute_parts)
    fix c1 i1 p1 p' d1
    assume p: "tget (changes d) k = Some c1" "plan_of_change d k = Some (i1, p1)"
      "p' = recomputed_plan now (map snd (checks_of d i1)) p1" "changes d1 = changes d"
      and t: "if ch_status c1 = ChVerificationPending \<and> vp_status p' = VpFailed
       then \<exists>x o'. transition_change now k ChVerificationFailed (Some a) [] x d1 = Inr (d', o')
     else if ch_status c1 = ChVerificationPending \<and> vp_status p' = VpSatisfied
       then \<exists>x o'. transition_change now k ChVerified (Some a) [] x d1 = Inr (d', o')
     else d' = d1"
    have eq: "c1 = c" "i1 = i" "p' = recomputed_plan now ?cs p" using p assms by auto
    have moved: "\<exists>c'. tget (changes d') k = Some c' \<and> frozen_request c' = frozen_request c \<and> ch_status c' = s"
      if "transition_change now k s (Some a) [] x d1 = Inr (d', o')" for s x o'
      using that
    proof (rule transition_change_Inr)
      fix b b' ev
      assume "tget (changes d1) k = Some b" "transition_fields now s [] b = Inr b'"
        "d' = d1\<lparr>changes := tupd k (\<lambda>_. b') (changes d1), audit_log := audit_log d1 @ [ev]\<rparr>"
      then show ?thesis
        using p(4) assms(2)
        by (auto simp: table_simps transition_fields_def frozen_request_def split: if_splits)
    qed
    define F where "F \<longleftrightarrow> (\<exists>v \<in> set ?req. vc_status v = VcFailed)"
    define S where "S \<longleftrightarrow> ?req \<noteq> [] \<and> (\<forall>v \<in> set ?req. vc_status v = VcPassed)"
    have st: "vp_status p' = VpFailed \<longleftrightarrow> F" "vp_status p' = VpSatisfied \<longleftrightarrow> \<not> F \<and> S"
      unfolding F_def S_def eq using failed sat by blast+
    have "\<exists>c'. tget (changes d') k = Some c' \<and> frozen_request c' = frozen_request c \<and>
       ch_status c' = (if ch_status c \<noteq> ChVerificationPending then ch_status c
         else if F then ChVerificationFailed else if S then ChVerified else ChVerificationPending)"
    proof (cases "ch_status c = ChVerificationPending \<and> (F \<or> S)")
      case True
      with t st eq obtain x o' where
        "transition_change now k (if F then ChVerificationFailed else ChVerified) (Some a) [] x d1
           = Inr (d', o')"
        by (auto split: if_splits)
      from moved [OF this] True show ?thesis by (cases F; cases S) auto
    next
      case False
      with t st eq have "d' = d1" by (auto split: if_splits)
      with False p(4) assms(2) show ?thesis by auto
    qed
    then show ?thesis by (simp only: F_def S_def Let_def)
  qed
qed

definition sample_plan :: verification_plan where
  "sample_plan = \<lparr>vp_org = 1, vp_change = 30, vp_profile = 10, vp_mode = VmManual,
     vp_status = VpActive, vp_snapshot = JObj [], vp_snapshot_sha = [], vp_required_count = 1,
     vp_optional_count = 0, vp_satisfied_required = 0, vp_failed_required = 0,
     vp_generated_at = 1, vp_activated_at = Some 2, vp_satisfied_at = None, vp_failed_at = None\<rparr>"

definition sample_check :: "check_status \<Rightarrow> verification_check" where
  "sample_check s = (new_check 50 30 1 (check_item_of [(''key'', JStr ''k'')]))\<lparr>vc_status := s\<rparr>"

definition verifying_db :: "check_status \<Rightarrow> db" where
  "verifying_db s = (sample_db ChVerificationPending)\<lparr>ver_plans := [(50, sample_plan)],
     ver_checks := [(51, sample_check s)]\<rparr>"

theorem recompute_decides_verification_witness:
  "\<exists>d' c'. recompute_verification_state 9 30 (system_actor ''s'') (verifying_db VcPassed) = Inr d' \<and>
     tget (changes d') 30 = Some c' \<and> ch_status c' = ChVerified"
proof -
  let ?r = "recompute_verification_state 9 30 (system_actor ''s'') (verifying_db VcPassed)"
  have "\<not> isl ?r" by code_simp
  then obtain d' where d': "?r = Inr d'" by (cases ?r) auto
  have c: "tget (changes (verifying_db VcPassed)) 30 = Some (sample_change ChVerificationPending)"
    and p: "plan_of_change (verifying_db VcPassed) 30 = Some (50, sample_plan)"
    and s: "map snd (checks_of (verifying_db VcPassed) 50) = [sample_check VcPassed]"
    and q: "vc_required (sample_check VcPassed)" "vc_status (sample_check VcPassed) = VcPassed"
      "ch_status (sample_change ChVerificationPending) = ChVerificationPending"
    by code_simp+
  from recompute_decides_verification [OF d' c p] d' show ?thesis
    by (auto simp: s q)
qed

end
