(* ===== verification/Change_Emergency.thy ===== *)
theory Change_Emergency
  imports Verification_Plan
begin

text \<open>
  Emergency controls of a change (\<open>apps/changes/services.py\<close>): the expiry of exceptions and of
  breakglass sessions, ending a session, and the check that a session covers a gate. These
  functions open no transaction of their own, so they are outcomes: what is written before an
  exception stays, unless the caller is atomic.
\<close>

section \<open>Exceptions\<close>

text \<open>\<open>ChangeException.clean\<close>.\<close>

definition exception_clean :: "db \<Rightarrow> change_exception \<Rightarrow> unit result" where
  "exception_clean d x =
    (case tget (changes d) (xc_change x) of
       None \<Rightarrow> Inl (NotFound ''change'')
     | Some c \<Rightarrow>
        if ch_org c \<noteq> xc_org x then Inl (DjangoValidation ''change_exception'')
        else (case xc_check x of
            None \<Rightarrow> Inr ()
          | Some j \<Rightarrow>
             (case tget (ver_checks d) j of
                None \<Rightarrow> Inl (NotFound ''verification_check'')
              | Some vc \<Rightarrow>
                 if vc_change vc \<noteq> xc_change x then Inl (DjangoValidation ''change_exception'')
                 else Inr ())))"

definition expire_exception :: "timestamp \<Rightarrow> db \<Rightarrow> nat \<times> change_exception \<Rightarrow> unit outcome" where
  "expire_exception now d ix =
    (case ix of (i, x) \<Rightarrow>
      (case exception_clean d x of
         Inl e \<Rightarrow> (d, Inl e)
       | Inr _ \<Rightarrow>
         let d = d\<lparr>change_exceptions :=
               tupd i (\<lambda>x. x\<lparr>xc_status := XcExpired\<rparr>) (change_exceptions d)\<rparr>
         in commit_result d (audit_emit now (xc_org x) (system_actor ''expiry-check'')
              ''change_exception.expired'' ''change_exception'' i [
                (''change_record_id'', JStr (id_str (xc_change x))),
                (''exception_type'', JStr (xc_type x)),
                (''exception_id'', JStr (id_str i)),
                (''expired_at'', JStr (isoformat now))] d)))"

definition expire_exceptions :: "timestamp \<Rightarrow> nat \<Rightarrow> db \<Rightarrow> unit outcome" where
  "expire_exceptions now k d =
    each (expire_exception now) d
      (tsel (\<lambda>_ x. xc_change x = k \<and> xc_status x \<in> {XcPendingApproval, XcApproved} \<and>
                xc_expires_at x \<le> now) (change_exceptions d))"

section \<open>Breakglass sessions\<close>

text \<open>\<open>BreakglassSession.clean\<close>.\<close>

definition breakglass_clean :: "db \<Rightarrow> breakglass \<Rightarrow> unit result" where
  "breakglass_clean d s =
    (case tget (changes d) (bg_change s) of
       None \<Rightarrow> Inl (NotFound ''change'')
     | Some c \<Rightarrow>
        if ch_org c \<noteq> bg_org s \<or> bg_expires_at s \<le> bg_started_at s \<or>
           bg_review_due_at s < bg_started_at s
        then Inl (DjangoValidation ''breakglass_session'') else Inr ())"

definition save_breakglass :: "nat \<Rightarrow> breakglass \<Rightarrow> db \<Rightarrow> db result" where
  "save_breakglass i s d =
    res_bind (breakglass_clean d s) (\<lambda>_.
      Inr (d\<lparr>breakglasses := tupd i (\<lambda>_. s) (breakglasses d)\<rparr>))"

definition end_breakglass ::
    "timestamp \<Rightarrow> nat \<times> breakglass \<Rightarrow> audit_actor option \<Rightarrow> string \<Rightarrow> string option \<Rightarrow> db
      \<Rightarrow> unit outcome" where
  "end_breakglass now is actor end_reason user d =
    (case is of (i, s) \<Rightarrow>
      if bg_status s \<noteq> BgActive
      then (d, Inl (Domain InvalidStateTransitionError ''breakglass_not_active''))
      else (case save_breakglass i (s\<lparr>bg_status := BgEnded, bg_ended_at := Some now,
                bg_end_reason := end_reason, bg_ended_by := user\<rparr>) d of
          Inl e \<Rightarrow> (d, Inl e)
        | Inr d \<Rightarrow>
          commit_result d (audit_emit now (bg_org s)
            (case actor of None \<Rightarrow> system_actor ''Django system'' | Some a \<Rightarrow> a)
            ''breakglass.ended'' ''breakglass_session'' i [
              (''change_record_id'', JStr (id_str (bg_change s))),
              (''breakglass_session_id'', JStr (id_str i)),
              (''end_reason'', JStr end_reason),
              (''ended_at'', JStr (isoformat now))] d)))"

text \<open>An \<open>InvalidStateTransitionError\<close> of one session is skipped.\<close>

definition skip_invalid_state :: "unit outcome \<Rightarrow> unit outcome" where
  "skip_invalid_state p =
    (case p of (d, Inl (Domain InvalidStateTransitionError _)) \<Rightarrow> (d, Inr ()) | _ \<Rightarrow> p)"

definition end_active_breakglass_sessions ::
    "timestamp \<Rightarrow> nat \<Rightarrow> string \<Rightarrow> audit_actor \<Rightarrow> db \<Rightarrow> unit outcome" where
  "end_active_breakglass_sessions now k end_reason actor d =
    each (\<lambda>d s. skip_invalid_state (end_breakglass now s (Some actor) end_reason None d)) d
      (tsel (\<lambda>_ s. bg_change s = k \<and> bg_status s = BgActive) (breakglasses d))"

definition expire_breakglass :: "timestamp \<Rightarrow> db \<Rightarrow> nat \<times> breakglass \<Rightarrow> unit outcome" where
  "expire_breakglass now d is =
    (case is of (i, s) \<Rightarrow>
      let review = (if bg_review_due_at s \<le> now then RvOverdue else RvPending)
      in (case save_breakglass i (s\<lparr>bg_status := BgExpired, bg_ended_at := Some now,
                bg_end_reason := ''expired'', bg_review_status := review\<rparr>) d of
            Inl e \<Rightarrow> (d, Inl e)
          | Inr d \<Rightarrow>
            commit_result d (audit_emit now (bg_org s) (system_actor ''expiry-check'')
              ''breakglass.expired'' ''breakglass_session'' i [
                (''change_record_id'', JStr (id_str (bg_change s))),
                (''breakglass_session_id'', JStr (id_str i)),
                (''expired_at'', JStr (isoformat now)),
                (''review_status'', JStr (review_status_str review))] d)))"

definition expire_breakglass_sessions :: "timestamp \<Rightarrow> nat option \<Rightarrow> db \<Rightarrow> unit outcome" where
  "expire_breakglass_sessions now k d =
    each (expire_breakglass now) d
      (tsel (\<lambda>_ s. bg_status s = BgActive \<and> bg_expires_at s \<le> now \<and>
                (case k of None \<Rightarrow> True | Some k \<Rightarrow> bg_change s = k)) (breakglasses d))"

text \<open>\<open>enforce_emergency_expiry_for_change\<close> and its variant for an execution.\<close>

definition enforce_emergency_expiry_for_change :: "timestamp \<Rightarrow> nat \<Rightarrow> db \<Rightarrow> unit outcome" where
  "enforce_emergency_expiry_for_change now k d =
    then_do (expire_exceptions now k d) (\<lambda>d _. expire_breakglass_sessions now (Some k) d)"

definition enforce_emergency_expiry_for_execution ::
    "timestamp \<Rightarrow> nat \<Rightarrow> db \<Rightarrow> unit outcome" where
  "enforce_emergency_expiry_for_execution now e d =
    (case binding_of_exec d e of
       None \<Rightarrow> (d, Inr ())
     | Some (_, b) \<Rightarrow> enforce_emergency_expiry_for_change now (bd_change b) d)"

section \<open>Does a session cover a gate?\<close>

text \<open>\<open>set(scope.get(name, []))\<close>.\<close>

definition scope_set :: "json \<Rightarrow> string \<Rightarrow> json list result" where
  "scope_set scope name =
    res_bind (py_get scope name (JArr [])) (\<lambda>v.
    res_bind (py_iter v) (\<lambda>xs.
    if list_all py_hashable xs then Inr xs else Inl (PyError ''TypeError'')))"

definition scope_allows :: "json \<Rightarrow> string \<Rightarrow> string \<Rightarrow> string list \<Rightarrow> unit result" where
  "scope_allows scope gate action target_ids =
    res_bind (scope_set scope ''gate_types'') (\<lambda>gates.
    res_bind (scope_set scope ''allowed_actions'') (\<lambda>actions.
    res_bind (py_get scope ''target_ids'' (JArr [])) (\<lambda>v.
    res_bind (py_iter v) (\<lambda>targets.
      if JStr gate \<notin> set gates
        then Inl (Domain DomainValidationError ''breakglass_gate_type_not_in_scope'')
      else if JStr action \<notin> set actions
        then Inl (Domain DomainValidationError ''breakglass_action_not_in_scope'')
      else if \<not> set target_ids \<subseteq> set (map py_str targets)
        then Inl (Domain DomainValidationError ''breakglass_targets_out_of_scope'')
      else Inr ()))))"

definition assert_breakglass_allows ::
    "timestamp \<Rightarrow> nat \<Rightarrow> string \<Rightarrow> string \<Rightarrow> string list \<Rightarrow> db \<Rightarrow> nat outcome" where
  "assert_breakglass_allows now k gate action target_ids d =
    then_do (expire_breakglass_sessions now (Some k) d) (\<lambda>d _.
      case tsel (\<lambda>_ s. bg_change s = k \<and> bg_status s = BgActive) (breakglasses d) of
        [] \<Rightarrow> (d, Inl (Domain DomainValidationError ''no_active_breakglass_session''))
      | [(i, s)] \<Rightarrow> (d, res_bind (scope_allows (bg_scope s) gate action target_ids) (\<lambda>_. Inr i))
      | _ \<Rightarrow> (d, Inl (PyError ''MultipleObjectsReturned'')))"

section \<open>Facts\<close>

lemma commit_result_progress:
  assumes "commit_result d r = (d', q)" and "\<And>t. r = Inr t \<Longrightarrow> change_progress d t"
  shows "change_progress d d'"
  using assms by (cases r) (auto intro: progress.refl)

lemma same_then_emit:
  assumes "commit_result d1 (audit_emit now org a et ot oid md d1) = (d', q)"
    and "control_part d1 = control_part d" and "changes d1 = changes d" and "still_part d1 = still_part d"
  shows "change_progress d d'"
  using progress_same [OF assms(2,3,4)] commit_result_progress [OF assms(1)]
  by (blast intro: progress.trans audit_emit_progress)

lemma expire_exception_progress:
  assumes "expire_exception now d ix = (d', q)"
  shows "change_progress d d'"
proof -
  obtain i x where ix: "ix = (i, x)" by (cases ix)
  let ?d = "d\<lparr>change_exceptions :=
    tupd i (\<lambda>x. x\<lparr>xc_status := XcExpired\<rparr>) (change_exceptions d)\<rparr>"
  from assms consider "d' = d"
    | et ot md a where "commit_result ?d (audit_emit now (xc_org x) a et ot i md ?d) = (d', q)"
    unfolding expire_exception_def ix prod.case Let_def by (auto split: sum.splits)
  then show ?thesis
  proof cases
    case 1
    then show ?thesis by (simp add: progress.refl)
  next
    case 2
    show ?thesis by (rule same_then_emit [OF 2]) (simp_all add: control_part_def still_part_def)
  qed
qed

lemma expire_exceptions_progress:
  "expire_exceptions now k d = (d', q) \<Longrightarrow> change_progress d d'"
  unfolding expire_exceptions_def
  by (erule progress.each_within) (rule expire_exception_progress)

lemma save_breakglass_Inr:
  assumes "save_breakglass i s d = Inr d'"
  shows "control_part d' = control_part d" and "changes d' = changes d" and "still_part d' = still_part d"
  using assms by (auto simp: save_breakglass_def res_simps control_part_def still_part_def)

lemma end_breakglass_progress:
  assumes "end_breakglass now ix a why u d = (d', q)"
  shows "change_progress d d'"
proof -
  obtain i s where ix: "ix = (i, s)" by (cases ix)
  from assms consider "d' = d" | d1 et ot md a' where "save_breakglass i
        (s\<lparr>bg_status := BgEnded, bg_ended_at := Some now, bg_end_reason := why,
           bg_ended_by := u\<rparr>) d = Inr d1"
      "commit_result d1 (audit_emit now (bg_org s) a' et ot i md d1) = (d', q)"
    by (auto simp: end_breakglass_def ix split: if_splits sum.splits)
  then show ?thesis
  proof cases
    case 1
    then show ?thesis by (simp add: progress.refl)
  next
    case 2
    show ?thesis by (rule same_then_emit [OF 2(2) save_breakglass_Inr [OF 2(1)]])
  qed
qed

lemma end_active_breakglass_sessions_progress:
  assumes "end_active_breakglass_sessions now k why a d = (d', q)"
  shows "change_progress d d'"
  using assms unfolding end_active_breakglass_sessions_def
proof (rule progress.each_within)
  fix x t t' r
  assume "skip_invalid_state (end_breakglass now x (Some a) why None t) = (t', r)"
  then show "change_progress t t'"
    using end_breakglass_progress
    by (auto simp: skip_invalid_state_def split: prod.splits sum.splits err.splits err_kind.splits)
qed

lemma expire_breakglass_progress:
  assumes "expire_breakglass now d ix = (d', q)"
  shows "change_progress d d'"
proof -
  obtain i s where ix: "ix = (i, s)" by (cases ix)
  from assms consider "d' = d" | d1 s' et ot md a where "save_breakglass i s' d = Inr d1"
      "commit_result d1 (audit_emit now (bg_org s) a et ot i md d1) = (d', q)"
    unfolding expire_breakglass_def ix prod.case Let_def by (auto split: sum.splits)
  then show ?thesis
  proof cases
    case 1
    then show ?thesis by (simp add: progress.refl)
  next
    case 2
    show ?thesis by (rule same_then_emit [OF 2(2) save_breakglass_Inr [OF 2(1)]])
  qed
qed

lemma expire_breakglass_sessions_progress:
  "expire_breakglass_sessions now k d = (d', q) \<Longrightarrow> change_progress d d'"
  unfolding expire_breakglass_sessions_def
  by (erule progress.each_within) (rule expire_breakglass_progress)

lemma enforce_emergency_expiry_for_change_progress:
  "enforce_emergency_expiry_for_change now k d = (d', q) \<Longrightarrow> change_progress d d'"
  unfolding enforce_emergency_expiry_for_change_def
  by (erule progress.then_do_within)
    (rule expire_exceptions_progress expire_breakglass_sessions_progress, assumption)+

lemma enforce_emergency_expiry_for_execution_progress:
  "enforce_emergency_expiry_for_execution now e d = (d', q) \<Longrightarrow> change_progress d d'"
  by (auto simp: enforce_emergency_expiry_for_execution_def intro: progress.refl
      enforce_emergency_expiry_for_change_progress split: option.splits prod.splits)

text \<open>A session that is allowed really covers the gate, the action and every target.\<close>

lemma scope_allows_Inr:
  assumes "scope_allows scope gate action ids = Inr ()"
  obtains gates actions targets where
    "scope_set scope ''gate_types'' = Inr gates" "JStr gate \<in> set gates"
    "scope_set scope ''allowed_actions'' = Inr actions" "JStr action \<in> set actions"
    "set ids \<subseteq> py_str ` set targets"
  using assms by (auto simp: scope_allows_def res_bind_eq_Inr split: if_splits)

section \<open>After the expiry sweep\<close>

text \<open>An active session that has not expired.\<close>

definition session_live :: "timestamp \<Rightarrow> breakglass \<Rightarrow> bool" where
  "session_live now s \<longleftrightarrow> bg_status s = BgActive \<and> now < bg_expires_at s"

lemma expire_breakglass_row:
  assumes "expire_breakglass now d (i, s) = (d', Inr ())"
  shows "\<exists>s'. bg_status s' = BgExpired \<and> breakglasses d' = tupd i (\<lambda>_. s') (breakglasses d)"
proof -
  from assms obtain s' d1 et ot md a where "save_breakglass i s' d = Inr d1" "bg_status s' = BgExpired"
      "commit_result d1 (audit_emit now (bg_org s) a et ot i md d1) = (d', Inr ())"
    unfolding expire_breakglass_def prod.case Let_def by (auto split: sum.splits)
  moreover from this(3) have "breakglasses d' = breakglasses d1"
    by (auto simp: commit_result_def split: sum.splits dest!: audit_emit_Inr)
  ultimately show ?thesis by (auto simp: save_breakglass_def res_bind_eq_Inr)
qed

lemma expire_breakglass_each:
  assumes "each (expire_breakglass now) d xs = (d', Inr ())"
    and "(i, s) \<in> set (breakglasses d')" and "bg_status s = BgActive"
  shows "i \<notin> fst ` set xs \<and> (i, s) \<in> set (breakglasses d)"
  using assms(1)
proof (induction xs arbitrary: d)
  case Nil
  with assms(2) show ?case by simp
next
  case (Cons x xs)
  obtain j t where x: "x = (j, t)" by (cases x)
  from Cons.prems obtain d1 where f: "expire_breakglass now d (j, t) = (d1, Inr ())"
    and r: "each (expire_breakglass now) d1 xs = (d', Inr ())"
    by (auto simp: then_do_eq x)
  from Cons.IH [OF r] have ih: "i \<notin> fst ` set xs" "(i, s) \<in> set (breakglasses d1)" by auto
  from expire_breakglass_row [OF f] ih(2) assms(3) have "i \<noteq> j \<and> (i, s) \<in> set (breakglasses d)"
    by (auto simp: set_tupd split: if_splits)
  with ih(1) show ?case by (simp add: x)
qed

lemma expire_sweep_live:
  assumes "expire_breakglass_sessions now (Some k) d = (d', Inr ())"
    and "(i, s) \<in> set (breakglasses d')" and "bg_status s = BgActive" and "bg_change s = k"
  shows "now < bg_expires_at s"
proof (rule ccontr)
  assume late: "\<not> now < bg_expires_at s"
  note e = expire_breakglass_each [OF assms(1) [unfolded expire_breakglass_sessions_def] assms(2,3)]
  have "(i, s) \<in> set (tsel (\<lambda>_ s. bg_status s = BgActive \<and> bg_expires_at s \<le> now \<and>
                (case Some k of None \<Rightarrow> True | Some k \<Rightarrow> bg_change s = k)) (breakglasses d))"
    using e assms(3,4) late by simp
  from image_eqI [of i fst, OF _ this] e show False by simp
qed

section \<open>Properties\<close>


definition sample_session :: breakglass where
  "sample_session = \<lparr>bg_org = 1, bg_change = 30, bg_status = BgActive,
     bg_scope = JObj [(''gate_types'', JArr [JStr ''window'']), (''allowed_actions'', JArr [JStr ''dispatch'']),
       (''target_ids'', JArr [JStr ''31''])],
     bg_started_at = 1, bg_expires_at = 100, bg_ended_at = None, bg_ended_by = None,
     bg_end_reason = [], bg_review_due_at = 200, bg_review_status = RvPending,
     bg_scope_sha = [], bg_reason = [], bg_activated_by = None, bg_heartbeat_at = None\<rparr>"


end
