(* ===== verification/Change_Completion.thy ===== *)
theory Change_Completion
  imports Change_Emergency
begin

text \<open>
  Where changes and executions meet (\<open>apps/changes/services.py\<close>): the guard on a change-bound
  execution, the expiry of unbound dispatches, binding, the runner's timing callbacks, and the
  hook run when a bound execution completes.
\<close>

section \<open>The guard on a bound execution\<close>

definition assert_execution_change_binding_ready ::
    "timestamp \<Rightarrow> nat \<Rightarrow> string \<Rightarrow> string option \<Rightarrow> db \<Rightarrow> unit outcome" where
  "assert_execution_change_binding_ready now e runner_id claim_token d =
    (case binding_of_exec d e of
       None \<Rightarrow> (d, Inr ())
     | Some (_, b) \<Rightarrow>
      (case (tget (changes d) (bd_change b), tget (executions d) e) of
         (Some c, Some x) \<Rightarrow>
          if bd_bound_at b = None \<or> ch_status c \<noteq> ChRunning
            then (d, Inl (Domain InvalidStateTransitionError ''change_binding_not_confirmed''))
          else if bd_bound_by b \<noteq> runner_id
            then (d, Inl (Domain InvalidStateTransitionError ''change_binding_runner_mismatch''))
          else if ex_runner x \<noteq> bd_bound_by b
            then (d, Inl (Domain InvalidStateTransitionError ''change_binding_runner_mismatch''))
          else if claim_token \<noteq> None \<and> Some (token_text (ex_claim_token x)) \<noteq> claim_token
            then (d, Inl (Domain InvalidStateTransitionError ''claim_token_mismatch''))
          else then_do (enforce_emergency_expiry_for_change now (bd_change b) d)
            (\<lambda>d _. (d, validate_request_integrity d (bd_change b)))
       | _ \<Rightarrow> (d, Inl (NotFound ''binding''))))"

section \<open>Expiry of a dispatch\<close>

definition expire_dispatchable_change ::
    "timestamp \<Rightarrow> nat \<Rightarrow> string \<Rightarrow> db \<Rightarrow> db result" where
  "expire_dispatchable_change now k reason d =
    (case tget (changes d) k of
       None \<Rightarrow> Inl (NotFound ''change'')
     | Some c \<Rightarrow>
        if ch_status c \<noteq> ChDispatchable then Inr d
        else res_bind (transition_change now k ChExpired (Some (system_actor ''Change service''))
               reason [] d) (\<lambda>(d, _). Inr d))"

text \<open>The second half of \<open>expire_unbound_dispatch_for_execution\<close>: a queued or claimed
  execution is cancelled.\<close>

definition cancelled_at :: "timestamp \<Rightarrow> execution \<Rightarrow> execution" where
  "cancelled_at now x = x\<lparr>ex_status := ExCancelled, ex_finished_at := Some now,
     ex_started_at := (if ex_started_at x = None then Some now else ex_started_at x)\<rparr>"

definition cancel_undispatched :: "timestamp \<Rightarrow> nat \<Rightarrow> nat \<Rightarrow> db \<Rightarrow> db result" where
  "cancel_undispatched now e k d =
    (case tget (executions d) e of
       None \<Rightarrow> Inl (NotFound ''execution'')
     | Some x \<Rightarrow>
        if ex_status x \<noteq> ExQueued \<and> ex_status x \<noteq> ExClaimed then Inr d
        else audit_emit now (ex_org x) (system_actor ''Change service'')
          ''execution.cancelled'' ''execution'' e [
            (''previous_status'', JStr (exec_status_str (ex_status x))),
            (''new_status'', JStr (exec_status_str ExCancelled)),
            (''reason'', JStr ''change_dispatch_token_expired''),
            (''change_record_id'', JStr (id_str k))]
          (upd_exec e (cancelled_at now) d))"

text \<open>The result says whether a runner's claim must skip the execution.\<close>

definition expire_unbound_dispatch_for_execution ::
    "timestamp \<Rightarrow> nat \<Rightarrow> db \<Rightarrow> (db \<times> bool) result" where
  "expire_unbound_dispatch_for_execution now e d =
    (case binding_of_exec d e of
       None \<Rightarrow> Inr (d, False)
     | Some (_, b) \<Rightarrow>
        if bd_bound_at b \<noteq> None \<or> bd_expires_at b > now then Inr (d, False)
        else res_bind (expire_dispatchable_change now (bd_change b) ''dispatch_token_expired'' d)
          (\<lambda>d. res_bind (cancel_undispatched now e (bd_change b) d) (\<lambda>d. Inr (d, True))))"

section \<open>Binding\<close>

datatype bind_flag = NoExpiry | TokenExpired | IntegrityFailed

type_synonym 'a flagged = "(err \<times> bind_flag) + 'a"

definition flagged :: "bind_flag \<Rightarrow> 'a result \<Rightarrow> 'a flagged" where
  "flagged f r = (case r of Inl e \<Rightarrow> Inl (e, f) | Inr a \<Rightarrow> Inr a)"

definition refuse :: "bind_flag \<Rightarrow> err_kind \<Rightarrow> string \<Rightarrow> 'a flagged" where
  "refuse f k code = Inl (Domain k code, f)"

text \<open>The reply: the binding, the status of the change and \<open>bound_at\<close>.\<close>

type_synonym bind_reply = "nat \<times> change_status \<times> timestamp option"

text \<open>An idempotent retry: the binding is confirmed already.\<close>

definition bind_again ::
    "timestamp \<Rightarrow> nat \<Rightarrow> change \<Rightarrow> nat \<times> binding \<Rightarrow> string \<Rightarrow> string \<Rightarrow> string \<Rightarrow> string \<Rightarrow> db
      \<Rightarrow> (db \<times> bind_reply) flagged" where
  "bind_again now k c ib runner_id dispatch_token inputs_sha profile_key d =
    (case ib of (i, b) \<Rightarrow>
      if bd_bound_by b \<noteq> runner_id
        then refuse NoExpiry InvalidStateTransitionError ''execution_binding_conflict''
      else if bd_expires_at b \<le> now
        then refuse NoExpiry InvalidStateTransitionError ''dispatch_token_expired''
      else if bd_profile_key b \<noteq> profile_key
        then refuse NoExpiry DomainValidationError ''operation_profile_key_mismatch''
      else if bd_inputs_sha b \<noteq> inputs_sha
        then refuse NoExpiry DomainValidationError ''requested_inputs_hash_mismatch''
      else res_bind (flagged NoExpiry (verify_dispatch_token (cfg d) b dispatch_token)) (\<lambda>ok.
        if \<not> ok then refuse NoExpiry DomainValidationError ''dispatch_token_invalid''
        else res_bind (flagged NoExpiry (ensure_verification_plan now k
               (actor_from_runner runner_id) False d)) (\<lambda>(d, _).
          Inr (d, (i, ch_status c, bd_bound_at b)))))"

text \<open>The first bind of a dispatchable change.\<close>

definition bind_first ::
    "timestamp \<Rightarrow> nat \<Rightarrow> change \<Rightarrow> nat \<times> binding \<Rightarrow> nat \<Rightarrow> string \<Rightarrow> string \<Rightarrow> string \<Rightarrow> string \<Rightarrow> db
      \<Rightarrow> (db \<times> bind_reply) flagged" where
  "bind_first now k c ib e runner_id dispatch_token inputs_sha profile_key d =
    (case ib of (i, b) \<Rightarrow>
      if ch_status c \<noteq> ChDispatchable
        then refuse NoExpiry InvalidStateTransitionError ''change_not_dispatchable''
      else res_bind (flagged IntegrityFailed (validate_request_integrity d k)) (\<lambda>_.
      res_bind (flagged NoExpiry (ensure_verification_plan now k
          (actor_from_runner runner_id) False d)) (\<lambda>(d, _).
      if bd_profile_key b \<noteq> profile_key
        then refuse NoExpiry DomainValidationError ''operation_profile_key_mismatch''
      else if bd_inputs_sha b \<noteq> inputs_sha
        then refuse NoExpiry DomainValidationError ''requested_inputs_hash_mismatch''
      else if bd_expires_at b \<le> now
        then refuse TokenExpired InvalidStateTransitionError ''dispatch_token_expired''
      else res_bind (flagged NoExpiry (verify_dispatch_token (cfg d) b dispatch_token)) (\<lambda>ok.
      if \<not> ok then refuse NoExpiry DomainValidationError ''dispatch_token_invalid''
      else res_bind (flagged NoExpiry (binding_save i
          (b\<lparr>bd_bound_at := Some now, bd_bound_by := runner_id\<rparr>) d)) (\<lambda>d.
      res_bind (flagged NoExpiry (transition_change now k ChRunning
          (Some (actor_from_runner runner_id)) [] [] d)) (\<lambda>(d, _).
      res_bind (flagged NoExpiry (audit_emit now (ch_org c) (actor_from_runner runner_id)
          ''change.execution_bound'' ''change_execution_binding'' i [
            (''change_record_id'', JStr (id_str k)),
            (''execution_id'', JStr (id_str e)),
            (''runner_id'', JStr runner_id)] d)) (\<lambda>d.
      Inr (d, (i, ChRunning, Some now)))))))))"

definition bind_checked ::
    "timestamp \<Rightarrow> nat \<Rightarrow> string \<Rightarrow> string \<Rightarrow> nat \<Rightarrow> string \<Rightarrow> string \<Rightarrow> string \<Rightarrow> db
      \<Rightarrow> (db \<times> bind_reply) flagged" where
  "bind_checked now k runner_id claim_token e dispatch_token inputs_sha profile_key d =
    (case tget (changes d) k of
       None \<Rightarrow> refuse NoExpiry DomainValidationError ''change_not_found''
     | Some c \<Rightarrow>
      (case binding_of_change d k of
         None \<Rightarrow> refuse NoExpiry DomainValidationError ''execution_binding_not_found''
       | Some (i, b) \<Rightarrow>
          if bd_exec b \<noteq> e
            then refuse NoExpiry InvalidStateTransitionError ''execution_binding_conflict''
          else (case tget (executions d) e of
             None \<Rightarrow> refuse NoExpiry DomainValidationError ''execution_not_found''
           | Some x \<Rightarrow>
              if ex_runner x \<noteq> runner_id
                then refuse NoExpiry InvalidStateTransitionError ''runner_ownership_mismatch''
              else if token_text (ex_claim_token x) \<noteq> claim_token
                then refuse NoExpiry InvalidStateTransitionError ''claim_token_mismatch''
              else if bd_bound_at b \<noteq> None
                then bind_again now k c (i, b) runner_id dispatch_token inputs_sha profile_key d
              else bind_first now k c (i, b) e runner_id dispatch_token inputs_sha profile_key d)))"

text \<open>
  The transaction is rolled back on an exception; an expired token or a failed integrity check
  then expires the change on its own, and an error while doing so is only logged. (The event of
  that transition has constant metadata, so only the save itself can fail.)
\<close>

definition bind_execution ::
    "timestamp \<Rightarrow> nat \<Rightarrow> string \<Rightarrow> string \<Rightarrow> nat \<Rightarrow> string \<Rightarrow> string \<Rightarrow> string \<Rightarrow> db
      \<Rightarrow> bind_reply outcome" where
  "bind_execution now k runner_id claim_token e dispatch_token inputs_sha profile_key d =
    (case bind_checked now k runner_id claim_token e dispatch_token inputs_sha profile_key d of
       Inr (d', reply) \<Rightarrow> (d', Inr reply)
     | Inl (er, flag) \<Rightarrow>
        ((case er of
            Domain InvalidStateTransitionError _ \<Rightarrow>
              if flag = NoExpiry then d
              else (case expire_dispatchable_change now k
                      (if flag = IntegrityFailed then ''request_integrity_mismatch''
                       else ''dispatch_token_expired'') d of
                 Inl _ \<Rightarrow> d | Inr d' \<Rightarrow> d')
          | _ \<Rightarrow> d), Inl er))"

section \<open>Policy linkage\<close>

definition policy_decision_snapshot :: "nat \<Rightarrow> policy_evaluation \<Rightarrow> json" where
  "policy_decision_snapshot i p = JObj [
     (''policy_evaluation_id'', JStr (id_str i)),
     (''policy_id'', opt_json (\<lambda>n. JStr (id_str n)) (pe_policy p)),
     (''policy_rule_id'', opt_json (\<lambda>n. JStr (id_str n)) (pe_rule p)),
     (''outcome'', JStr (pe_outcome p)),
     (''effective_outcome'', JStr (pe_effective p)),
     (''decision_source'', JStr (decision_source_str (pe_source p))),
     (''reason'', JStr (pe_reason p)),
     (''evaluated_at'', JStr (isoformat (pe_created_at p)))]"

definition link_policy_evaluation ::
    "timestamp \<Rightarrow> nat \<Rightarrow> nat \<Rightarrow> policy_evaluation \<Rightarrow> db \<Rightarrow> db result" where
  "link_policy_evaluation now e i p d =
    (case binding_of_exec d e of
       None \<Rightarrow> Inr d
     | Some (_, b) \<Rightarrow>
      (case tget (changes d) (bd_change b) of
         None \<Rightarrow> Inl (NotFound ''change'')
       | Some c \<Rightarrow>
          if ch_policy_evaluation c \<noteq> None then Inr d
          else res_bind (change_save (bd_change b)
              (c\<lparr>ch_policy_evaluation := Some i,
                 ch_policy_snapshot := policy_decision_snapshot i p\<rparr>) d) (\<lambda>d.
            audit_emit now (ch_org c) (system_actor ''Change service'') ''change.policy_bound''
              ''change_record'' (bd_change b) [
                (''policy_evaluation_id'', JStr (id_str i)),
                (''outcome'', JStr (pe_outcome p)),
                (''effective_outcome'', JStr (pe_effective p))] d)))"

section \<open>The runner's timing callbacks\<close>

definition resolve_bound_binding ::
    "db \<Rightarrow> nat \<Rightarrow> string \<Rightarrow> nat \<Rightarrow> (change \<times> nat \<times> binding) result" where
  "resolve_bound_binding d k runner_id e =
    (case tget (changes d) k of
       None \<Rightarrow> Inl (Domain DomainValidationError ''change_not_found'')
     | Some c \<Rightarrow>
      (case binding_of_change d k of
         None \<Rightarrow> Inl (Domain DomainValidationError ''binding_not_found'')
       | Some (i, b) \<Rightarrow>
          if bd_exec b \<noteq> e then Inl (Domain DomainValidationError ''execution_id_mismatch'')
          else if bd_bound_at b = None
            then Inl (Domain InvalidStateTransitionError ''execution_not_bound'')
          else if bd_bound_by b \<noteq> runner_id
            then Inl (Domain InvalidStateTransitionError ''runner_ownership_mismatch'')
          else Inr (c, i, b)))"

definition timing_metadata :: "nat \<Rightarrow> string \<Rightarrow> timestamp \<Rightarrow> jdict" where
  "timing_metadata e runner_id at = [
     (''execution_id'', JStr (id_str e)), (''runner_id'', JStr runner_id),
     (''observed_at'', JStr (isoformat at))]"

text \<open>
  \<open>record_execution_accepted\<close> and \<open>record_execution_started\<close> take the time the runner observed,
  or the current one.
\<close>

definition record_execution_accepted ::
    "timestamp \<Rightarrow> nat \<Rightarrow> string \<Rightarrow> nat \<Rightarrow> timestamp option \<Rightarrow> db \<Rightarrow> db result" where
  "record_execution_accepted now k runner_id e observed_at d =
    (let at = (case observed_at of None \<Rightarrow> now | Some t \<Rightarrow> t) in
     res_bind (resolve_bound_binding d k runner_id e) (\<lambda>(c, i, b).
     res_bind (if bd_accepted_at b = None
               then binding_save i (b\<lparr>bd_accepted_at := Some at\<rparr>) d else Inr d) (\<lambda>d.
     audit_emit now (ch_org c) (actor_from_runner runner_id) ''change.execution_accepted''
       ''change_execution_binding'' i (timing_metadata e runner_id at) d)))"

definition record_execution_started ::
    "timestamp \<Rightarrow> nat \<Rightarrow> string \<Rightarrow> nat \<Rightarrow> timestamp option \<Rightarrow> db \<Rightarrow> db result" where
  "record_execution_started now k runner_id e observed_at d =
    (let at = (case observed_at of None \<Rightarrow> now | Some t \<Rightarrow> t) in
     res_bind (resolve_bound_binding d k runner_id e) (\<lambda>(c, i, b).
     res_bind (if bd_started_at b = None
               then binding_save i (b\<lparr>bd_started_at := Some at\<rparr>) d else Inr d) (\<lambda>d.
     audit_emit now (ch_org c) (actor_from_runner runner_id) ''change.execution_started''
       ''change_execution_binding'' i (timing_metadata e runner_id at) d)))"

definition active_locks :: "db \<Rightarrow> nat \<Rightarrow> target_lock table" where
  "active_locks d k =
    tsel (\<lambda>_ l. lk_change l = k \<and> lk_status l = LockActive) (target_locks d)"

definition release_lock ::
    "timestamp \<Rightarrow> nat \<Rightarrow> nat \<Rightarrow> audit_actor \<Rightarrow> string \<Rightarrow> db \<Rightarrow> nat \<times> target_lock \<Rightarrow> db result" where
  "release_lock now k org actor reason d il =
    (case il of (i, l) \<Rightarrow>
      audit_emit now org actor ''target_lock.released'' ''target_lock'' i [
          (''change_record_id'', JStr (id_str k)),
          (''target_type'', JStr (lk_type l)),
          (''target_identifier'', JStr (lk_identifier l)),
          (''release_reason'', JStr reason)]
        (d\<lparr>target_locks := tupd i (\<lambda>l. l\<lparr>lk_status := LockReleased, lk_released_at := Some now,
             lk_reason := reason\<rparr>) (target_locks d)\<rparr>))"

definition release_active_target_locks ::
    "timestamp \<Rightarrow> nat \<Rightarrow> nat \<Rightarrow> audit_actor \<Rightarrow> string \<Rightarrow> db \<Rightarrow> (db \<times> nat) result" where
  "release_active_target_locks now k org actor reason d =
    (let locks = active_locks d k in
     res_bind (res_fold (release_lock now k org actor reason) d locks)
       (\<lambda>d. Inr (d, length locks)))"

definition finalize_window ::
    "timestamp \<Rightarrow> nat \<Rightarrow> nat \<Rightarrow> string \<Rightarrow> db \<Rightarrow> (db \<times> window_status option) result" where
  "finalize_window now k org runner_id d =
    (case first_of (tsel (\<lambda>_ w. wn_change w = k) (windows d)) of
       None \<Rightarrow> Inr (d, None)
     | Some (i, w) \<Rightarrow>
        if wn_status w \<in> {WnClosed, WnOverrun} then Inr (d, Some (wn_status w))
        else
          let late = (now > wn_ends_at w);
              new_status = (if late then WnOverrun else WnClosed);
              d = d\<lparr>windows := tupd i (\<lambda>w.
                    if late then w\<lparr>wn_status := WnOverrun, wn_overrun_at := Some now\<rparr>
                    else w\<lparr>wn_status := WnClosed, wn_closed_at := Some now\<rparr>) (windows d)\<rparr>
          in res_bind (audit_emit now org (actor_from_runner runner_id)
               (if late then ''change.window_overrun'' else ''change.window_closed'')
               ''change_window'' i [
                 (''change_record_id'', JStr (id_str k)),
                 (''window_ends_at'', JStr (isoformat (wn_ends_at w))),
                 (''observed_finished_at'', JStr (isoformat now))] d)
               (\<lambda>d. Inr (d, Some new_status)))"

definition record_execution_finished ::
    "timestamp \<Rightarrow> nat \<Rightarrow> string \<Rightarrow> nat \<Rightarrow> timestamp option \<Rightarrow> db
      \<Rightarrow> (db \<times> nat \<times> window_status option) result" where
  "record_execution_finished now k runner_id e observed_at d =
    (let at = (case observed_at of None \<Rightarrow> now | Some t \<Rightarrow> t) in
     res_bind (resolve_bound_binding d k runner_id e) (\<lambda>(c, i, b).
     res_bind (if bd_finished_at b = None
               then binding_save i (b\<lparr>bd_finished_at := Some at\<rparr>) d else Inr d) (\<lambda>d.
     res_bind (release_active_target_locks at k (ch_org c) (actor_from_runner runner_id)
         ''execution_finished'' d) (\<lambda>(d, released).
     res_bind (finalize_window at k (ch_org c) runner_id d) (\<lambda>(d, window).
     res_bind (audit_emit now (ch_org c) (actor_from_runner runner_id)
         ''change.execution_finished'' ''change_execution_binding'' i
         (timing_metadata e runner_id at @
          [(''locks_released'', JInt (int released)),
           (''window_status'', opt_json (JStr \<circ> window_status_str) window)]) d) (\<lambda>d.
     Inr (d, released, window)))))))"

section \<open>The completion hook\<close>

definition service_transition ::
    "timestamp \<Rightarrow> nat \<Rightarrow> change_status \<Rightarrow> string \<Rightarrow> jdict \<Rightarrow> db \<Rightarrow> db result" where
  "service_transition now k new_status reason extra d =
    res_bind (transition_change now k new_status (Some (system_actor ''Change service'')) reason
      extra d) (\<lambda>(d, _). Inr d)"

text \<open>The part of the hook for a running change whose request is intact.\<close>

definition finish_running_change ::
    "timestamp \<Rightarrow> nat \<Rightarrow> op_profile \<Rightarrow> exec_status \<Rightarrow> db \<Rightarrow> db result" where
  "finish_running_change now k p status d =
    (let breakglass_reason =
           (if status = ExSucceeded then ''execution_finished''
            else if status = ExCancelled then ''execution_cancelled''
            else ''execution_failed'');
         extra = [(''execution_status'', JStr (exec_status_str status)),
           (''verification_required'', JBool (op_verification_required p))]
     in res_bind (atomic (end_active_breakglass_sessions now k breakglass_reason
          (system_actor ''Change service'') d)) (\<lambda>(d, _).
        if status = ExSucceeded then
          (if op_verification_required p then
             res_bind (service_transition now k ChVerificationPending [] extra d)
               (recompute_verification_state now k (system_actor ''Change service''))
           else service_transition now k ChClosed ''execution_succeeded'' extra d)
        else service_transition now k ChClosed
          (if status = ExCancelled then ''execution_cancelled''
           else ''execution_failed'') extra d))"

definition handle_bound_execution_completed ::
    "timestamp \<Rightarrow> nat \<Rightarrow> exec_status \<Rightarrow> db \<Rightarrow> db result" where
  "handle_bound_execution_completed now e status d =
    (case binding_of_exec d e of
       None \<Rightarrow> Inr d
     | Some (_, b) \<Rightarrow>
      let k = bd_change b in
      (case tget (changes d) k of
         None \<Rightarrow> Inl (NotFound ''change'')
       | Some c \<Rightarrow>
          if ch_status c = ChDispatchable
            then expire_dispatchable_change now k ''execution_failed_before_binding'' d
          else if ch_status c \<noteq> ChRunning then Inr d
          else (case validate_request_integrity d k of
             Inl (Domain InvalidStateTransitionError _) \<Rightarrow>
               service_transition now k ChClosed ''request_integrity_mismatch''
                 [(''execution_status'', JStr (exec_status_str status))] d
           | Inl er \<Rightarrow> Inl er
           | Inr _ \<Rightarrow>
              (case tget (op_profiles d) (ch_profile c) of
                 None \<Rightarrow> Inl (NotFound ''operation_profile'')
               | Some p \<Rightarrow> finish_running_change now k p status d))))"

section \<open>Facts\<close>

lemma binding_save_progress [progress_rules]:
  "binding_save i b d = Inr d' \<Longrightarrow> change_progress d d'"
  by (auto simp: binding_save_def res_bind_eq_Inr control_part_def still_part_def intro!: progress_same
      split: option.splits if_splits)

lemma expire_dispatchable_change_progress [progress_rules]:
  "expire_dispatchable_change now k why d = Inr d' \<Longrightarrow> change_progress d d'"
  by (auto simp: expire_dispatchable_change_def res_bind_eq_Inr intro: progress.refl
      transition_change_progress split: option.splits if_splits)

lemma expire_dispatchable_change_parts:
  assumes "expire_dispatchable_change now k why d = Inr d'"
  shows "executions d' = executions d" "exec_steps d' = exec_steps d"
    "target_locks d' = target_locks d" "bindings d' = bindings d" "control_part d' = control_part d"
  using assms
  by (auto simp: expire_dispatchable_change_def res_bind_eq_Inr control_part_def
      split: option.splits if_splits elim!: transition_change_Inr)

text \<open>
  What the expiry of an unbound dispatch does to executions: at most the one execution is
  cancelled, and only if it was queued or claimed.
\<close>

lemma cancel_undispatched_Inr:
  assumes "cancel_undispatched now e k d = Inr d'"
  shows "d' = d \<or> (\<exists>x ev. tget (executions d) e = Some x \<and>
     (ex_status x = ExQueued \<or> ex_status x = ExClaimed) \<and>
     d' = upd_exec e (cancelled_at now) d\<lparr>audit_log := audit_log d @ [ev]\<rparr>)"
  using assms
  by (auto simp: cancel_undispatched_def upd_exec_def split: option.splits if_splits
      dest!: audit_emit_Inr)

lemma expire_unbound_cases:
  assumes "expire_unbound_dispatch_for_execution now e d = Inr (d', skip)"
  obtains "d' = d" "\<not> skip"
  | k d1 where "expire_dispatchable_change now k ''dispatch_token_expired'' d = Inr d1"
      "cancel_undispatched now e k d1 = Inr d'" skip
  using assms
  unfolding expire_unbound_dispatch_for_execution_def
  by (auto simp: res_bind_eq_Inr split: option.splits if_splits)

lemma expire_unbound_executions:
  assumes "expire_unbound_dispatch_for_execution now e d = Inr (d', skip)"
  shows "executions d' = executions d \<or>
     (\<exists>x. tget (executions d) e = Some x \<and> (ex_status x = ExQueued \<or> ex_status x = ExClaimed) \<and>
        executions d' = tupd e (cancelled_at now) (executions d))"
    and "target_locks d' = target_locks d" and "bindings d' = bindings d"
    and "control_part (d'\<lparr>executions := []\<rparr>) = control_part (d\<lparr>executions := []\<rparr>)"
proof -
  from assms have "d' = d \<or> (\<exists>d1. executions d1 = executions d \<and> target_locks d1 = target_locks d \<and>
     bindings d1 = bindings d \<and> control_part d1 = control_part d \<and>
     (d' = d1 \<or> (\<exists>x ev. tget (executions d1) e = Some x \<and>
        (ex_status x = ExQueued \<or> ex_status x = ExClaimed) \<and>
        d' = upd_exec e (cancelled_at now) d1\<lparr>audit_log := audit_log d1 @ [ev]\<rparr>)))"
  proof (rule expire_unbound_cases)
    fix k d1
    assume "expire_dispatchable_change now k ''dispatch_token_expired'' d = Inr d1"
      and "cancel_undispatched now e k d1 = Inr d'"
    note parts = expire_dispatchable_change_parts [OF this(1)] cancel_undispatched_Inr [OF this(2)]
    show ?thesis
      by (rule disjI2, rule exI [of _ d1]) (use parts in simp)
  qed simp
  then consider "d' = d"
    | d1 where "executions d1 = executions d" "target_locks d1 = target_locks d"
      "bindings d1 = bindings d" "control_part d1 = control_part d" "d' = d1"
    | d1 x ev where "executions d1 = executions d" "target_locks d1 = target_locks d"
      "bindings d1 = bindings d" "control_part d1 = control_part d"
      "tget (executions d1) e = Some x" "ex_status x = ExQueued \<or> ex_status x = ExClaimed"
      "d' = upd_exec e (cancelled_at now) d1\<lparr>audit_log := audit_log d1 @ [ev]\<rparr>"
    by blast
  note cases = this
  from cases show "executions d' = executions d \<or>
     (\<exists>x. tget (executions d) e = Some x \<and> (ex_status x = ExQueued \<or> ex_status x = ExClaimed) \<and>
        executions d' = tupd e (cancelled_at now) (executions d))"
    by cases (simp_all add: upd_exec_def)
  from cases show "target_locks d' = target_locks d" by cases (simp_all add: upd_exec_def)
  from cases show "bindings d' = bindings d" by cases (simp_all add: upd_exec_def)
  from cases show "control_part (d'\<lparr>executions := []\<rparr>) = control_part (d\<lparr>executions := []\<rparr>)"
    by cases (simp_all add: upd_exec_def control_part_def)
qed

lemma ensure_then_progress:
  "ensure_verification_plan now k a act d = Inr (d1, i) \<Longrightarrow> change_progress d1 d2 \<Longrightarrow>
     change_progress d d2"
  by (blast intro: progress.trans ensure_verification_plan_progress)

lemma flagged_Inr [simp]: "flagged f r = Inr a \<longleftrightarrow> r = Inr a"
  by (cases r) (auto simp: flagged_def)

lemma refuse_Inr [simp]: "refuse f k c \<noteq> Inr a"
  by (simp add: refuse_def)

text \<open>What a first bind that succeeds has checked, and what it leaves.\<close>

lemma bind_first_Inr:
  assumes "bind_first now k c (i, b) e rid tok sha pk d = Inr (d', reply)"
  obtains d1 d2 o' d3 where "ch_status c = ChDispatchable" "validate_request_integrity d k = Inr ()"
    "bd_profile_key b = pk" "bd_inputs_sha b = sha" "now < bd_expires_at b"
    "change_progress d d1" "cfg d1 = cfg d" "verify_dispatch_token (cfg d) b tok = Inr True"
    "binding_save i (b\<lparr>bd_bound_at := Some now, bd_bound_by := rid\<rparr>) d1 = Inr d2"
    "transition_change now k ChRunning (Some (actor_from_runner rid)) [] [] d2 = Inr (d3, o')"
    "\<exists>a et ot md. audit_emit now (ch_org c) a et ot i md d3 = Inr d'"
    "reply = (i, ChRunning, Some now)"
proof -
  from assms obtain d1 j d2 d3 o' where
    "ch_status c = ChDispatchable" "validate_request_integrity d k = Inr ()"
    "bd_profile_key b = pk" "bd_inputs_sha b = sha" "now < bd_expires_at b"
    and en: "ensure_verification_plan now k (actor_from_runner rid) False d = Inr (d1, j)"
    and v: "verify_dispatch_token (cfg d1) b tok = Inr True"
    and "binding_save i (b\<lparr>bd_bound_at := Some now, bd_bound_by := rid\<rparr>) d1 = Inr d2"
    "transition_change now k ChRunning (Some (actor_from_runner rid)) [] [] d2 = Inr (d3, o')"
    "\<exists>a et ot md. audit_emit now (ch_org c) a et ot i md d3 = Inr d'"
    "reply = (i, ChRunning, Some now)"
    unfolding bind_first_def prod.case
    by (auto simp: res_bind_eq_Inr split: if_splits) blast
  moreover have "change_progress d d1" using en by (rule ensure_verification_plan_progress)
  moreover from this have "cfg d1 = cfg d" by (simp add: change_progress_def control_part_def)
  ultimately show ?thesis using that by metis
qed

lemma bind_checked_progress:
  assumes "bind_checked now k rid ct e tok sha pk d = Inr (d', reply)"
  shows "change_progress d d'"
proof -
  from assms obtain c i b where "tget (changes d) k = Some c"
    and either: "bind_again now k c (i, b) rid tok sha pk d = Inr (d', reply) \<or>
      bind_first now k c (i, b) e rid tok sha pk d = Inr (d', reply)"
    by (auto simp: bind_checked_def split: option.splits if_splits) blast+
  from either show ?thesis
  proof
    assume "bind_again now k c (i, b) rid tok sha pk d = Inr (d', reply)"
    then show ?thesis
      by (auto simp: bind_again_def res_bind_eq_Inr split: if_splits
          dest: ensure_verification_plan_progress)
  next
    assume "bind_first now k c (i, b) e rid tok sha pk d = Inr (d', reply)"
    then show ?thesis
      by (rule bind_first_Inr)
        (blast intro: progress.trans binding_save_progress transition_change_progress
          audit_emit_progress)
  qed
qed

lemma bind_execution_progress:
  assumes "bind_execution now k rid ct e tok sha pk d = (d', q)"
  shows "change_progress d d'"
proof (cases "bind_checked now k rid ct e tok sha pk d")
  case (Inr r)
  with assms show ?thesis
    by (cases r) (auto simp: bind_execution_def dest: bind_checked_progress)
next
  case (Inl ef)
  with assms consider "d' = d" | why where "expire_dispatchable_change now k why d = Inr d'"
    by (cases ef) (auto simp: bind_execution_def split: err.splits err_kind.splits if_splits
        sum.splits)
  then show ?thesis
    by cases (auto intro: progress.refl expire_dispatchable_change_progress)
qed

lemma link_policy_evaluation_parts:
  assumes "link_policy_evaluation now e i p d = Inr d'"
  shows "control_part d' = control_part d" and "target_locks d' = target_locks d"
    and "bindings d' = bindings d"
  using assms
  by (auto simp: link_policy_evaluation_def change_save_def res_bind_eq_Inr upd_change_def
      control_part_def split: option.splits if_splits dest!: audit_emit_Inr)

lemma service_transition_progress [progress_rules]:
  "service_transition now k s why x d = Inr d' \<Longrightarrow> change_progress d d'"
  by (auto simp: service_transition_def res_bind_eq_Inr dest: transition_change_progress)

lemma finish_running_change_progress:
  assumes "finish_running_change now k p status d = Inr d'"
  shows "change_progress d d'"
proof -
  let ?why = "if status = ExSucceeded then ''execution_finished''
            else if status = ExCancelled then ''execution_cancelled'' else ''execution_failed''"
  let ?extra = "[(''execution_status'', JStr (exec_status_str status)),
           (''verification_required'', JBool (op_verification_required p))]"
  let ?a = "system_actor ''Change service''"
  let ?rest = "\<lambda>d. if status = ExSucceeded then
          (if op_verification_required p then
             res_bind (service_transition now k ChVerificationPending [] ?extra d)
               (recompute_verification_state now k ?a)
           else service_transition now k ChClosed ''execution_succeeded'' ?extra d)
        else service_transition now k ChClosed
          (if status = ExCancelled then ''execution_cancelled'' else ''execution_failed'') ?extra d"
  have "res_bind (atomic (end_active_breakglass_sessions now k ?why ?a d)) (\<lambda>(d, _). ?rest d)
      = Inr d'"
    using assms by (simp only: finish_running_change_def Let_def)
  then obtain d1 x where e: "end_active_breakglass_sessions now k ?why ?a d = (d1, Inr x)"
    and t: "?rest d1 = Inr d'"
    unfolding res_bind_eq_Inr atomic_Inr by (auto simp only: atomic_Inr prod.case split_paired_Ex)
  have "change_progress d d1"
    using end_active_breakglass_sessions_progress [OF e] .
  moreover have "change_progress d1 d'"
    using t
    by (auto simp: res_bind_eq_Inr split: if_splits intro: progress.trans
        service_transition_progress recompute_verification_state_progress)
  ultimately show ?thesis by (rule progress.trans)
qed

lemma handle_bound_execution_completed_progress:
  assumes "handle_bound_execution_completed now e status d = Inr d'"
  shows "change_progress d d'"
  using assms
  by (auto simp: handle_bound_execution_completed_def Let_def intro: progress.refl
      expire_dispatchable_change_progress service_transition_progress
      finish_running_change_progress
      split: option.splits prod.splits if_splits sum.splits err.splits err_kind.splits)

section \<open>What a transition leaves of the row\<close>

lemma transition_change_row:
  assumes "transition_change now k s a why x d = Inr (d', o')" and "tget (changes d) k = Some c"
  shows "\<exists>c'. tget (changes d') k = Some c' \<and> ch_status c' = s \<and> frozen_request c' = frozen_request c"
    and "s \<in> set (ALLOWED_STATUS_TRANSITIONS (ch_status c))" and "bindings d' = bindings d"
    and "target_locks d' = target_locks d" and "breakglasses d' = breakglasses d"
    and "control_part d' = control_part d"
proof -
  from assms(1) obtain b b' ev where t: "tget (changes d) k = Some b"
      "s \<in> set (ALLOWED_STATUS_TRANSITIONS (ch_status b))" "transition_fields now s why b = Inr b'"
      "d' = d\<lparr>changes := tupd k (\<lambda>_. b') (changes d), audit_log := audit_log d @ [ev]\<rparr>"
    by (rule transition_change_Inr)
  with assms(2) show "\<exists>c'. tget (changes d') k = Some c' \<and> ch_status c' = s \<and>
      frozen_request c' = frozen_request c"
    by (auto simp: table_simps transition_fields_def frozen_request_def split: if_splits)
  from t assms(2) show "s \<in> set (ALLOWED_STATUS_TRANSITIONS (ch_status c))" by simp
  from t(4) show "bindings d' = bindings d" "target_locks d' = target_locks d"
    "breakglasses d' = breakglasses d" "control_part d' = control_part d"
    by (simp_all add: control_part_def)
qed

lemma service_transition_row:
  assumes "service_transition now k s why x d = Inr d'" and "tget (changes d) k = Some c"
  shows "\<exists>c'. tget (changes d') k = Some c' \<and> ch_status c' = s \<and> frozen_request c' = frozen_request c"
  using assms by (auto simp: service_transition_def res_bind_eq_Inr dest: transition_change_row(1))

lemma expire_dispatchable_row:
  assumes "expire_dispatchable_change now k why d = Inr d'"
  obtains c c' where "tget (changes d) k = Some c" "tget (changes d') k = Some c'"
    "ch_status c' = (if ch_status c = ChDispatchable then ChExpired else ch_status c)"
    "ch_status c \<noteq> ChDispatchable \<Longrightarrow> d' = d"
proof -
  obtain c where c: "tget (changes d) k = Some c"
    using assms by (auto simp: expire_dispatchable_change_def split: option.splits)
  show ?thesis
  proof (cases "ch_status c = ChDispatchable")
    case True
    with assms c obtain o' where "transition_change now k ChExpired
        (Some (system_actor ''Change service'')) why [] d = Inr (d', o')"
      by (auto simp: expire_dispatchable_change_def res_bind_eq_Inr)
    from transition_change_row(1) [OF this c] obtain c' where
      "tget (changes d') k = Some c'" "ch_status c' = ChExpired" by blast
    then show ?thesis by (intro that [OF c]) (simp_all add: True)
  next
    case False
    with assms c have "d' = d" by (simp add: expire_dispatchable_change_def)
    then show ?thesis by (intro that [OF c, of c]) (simp_all add: False c)
  qed
qed

lemma binding_save_row:
  assumes "binding_save i b d = Inr d'"
  shows "tget (bindings d') i = Some b" and "changes d' = changes d"
    and "control_part d' = control_part d"
  using assms
  by (auto simp: binding_save_def res_bind_eq_Inr table_simps control_part_def
      split: option.splits if_splits)

section \<open>Sample state\<close>

text \<open>
  A dispatched change with its binding and a claimed execution, for the witnesses. Hashes are
  left unevaluated.
\<close>

definition sample_execution :: "exec_status \<Rightarrow> execution" where
  "sample_execution s = \<lparr>ex_org = 1, ex_workflow = 20, ex_workflow_version = 3,
     ex_snapshot = wf_definition sample_workflow, ex_snapshot_hash = [], ex_mode = Live,
     ex_status = s, ex_started_at = None, ex_finished_at = None, ex_runner = ''r1'',
     ex_claim_token = Some 7, ex_claimed_at = Some 5, ex_heartbeat_at = Some 5, ex_pool_key = [],
     ex_cancel_at = None, ex_cancel_by = [], ex_created_at = 1\<rparr>"

definition sample_secret :: settings where
  "sample_secret = default_settings\<lparr>cfg_dispatch_secret := ''k3y''\<rparr>"

definition sample_token :: string where
  "sample_token = (case generate_dispatch_token sample_secret sample_binding of
     Inl _ \<Rightarrow> [] | Inr t \<Rightarrow> t)"

definition dispatched_db :: "change_status \<Rightarrow> exec_status \<Rightarrow> db" where
  "dispatched_db s x = (submitted_db s)\<lparr>cfg := sample_secret,
     executions := [(40, sample_execution x)],
     bindings := [(41, sample_binding\<lparr>bd_token_hash := hash_dispatch_token sample_token\<rparr>)]\<rparr>"

lemma sample_token_ok:
  "verify_dispatch_token sample_secret
     (sample_binding\<lparr>bd_token_hash := hash_dispatch_token sample_token\<rparr>) sample_token = Inr True"
proof -
  have "lower ''k3y'' \<notin> set INSECURE_SECRET_PLACEHOLDERS" by code_simp
  then obtain tok where t: "generate_dispatch_token sample_secret sample_binding = Inr tok"
    by (auto simp: generate_dispatch_token_def Let_def sample_secret_def)
  then have "sample_token = tok" by (simp add: sample_token_def)
  with dispatch_token_accepted [OF t] show ?thesis by simp
qed

section \<open>Properties\<close>

text \<open>
  C16: the first bind of a dispatched change succeeds only for the runner that owns the claimed
  execution, with its claim token, before the token expires, with a dispatch token that verifies,
  with the profile key and input hash of the binding, and only if the request is still what was
  submitted. Then the change runs and the binding records the runner and the time; executions,
  approvals and policies are untouched.
\<close>

theorem first_bind_checks:
  assumes "bind_execution now k rid ct e tok sha pk d = (d', Inr reply)"
    and "binding_of_change d k = Some (i, b)" and "bd_bound_at b = None"
  shows "reply = (i, ChRunning, Some now) \<and> bd_exec b = e \<and>
     (\<exists>x. tget (executions d) e = Some x \<and> ex_runner x = rid \<and> token_text (ex_claim_token x) = ct) \<and>
     (\<exists>c. tget (changes d) k = Some c \<and> ch_status c = ChDispatchable) \<and>
     validate_request_integrity d k = Inr () \<and> verify_dispatch_token (cfg d) b tok = Inr True \<and>
     now < bd_expires_at b \<and> bd_profile_key b = pk \<and> bd_inputs_sha b = sha \<and>
     (\<exists>c'. tget (changes d') k = Some c' \<and> ch_status c' = ChRunning) \<and>
     tget (bindings d') i = Some (b\<lparr>bd_bound_at := Some now, bd_bound_by := rid\<rparr>) \<and>
     control_part d' = control_part d"
proof -
  from assms(1) have bc: "bind_checked now k rid ct e tok sha pk d = Inr (d', reply)"
    by (auto simp: bind_execution_def split: sum.splits prod.splits)
  then have cp: "control_part d' = control_part d"
    using bind_checked_progress by (simp add: change_progress_def)
  from bc assms(2,3) obtain c x where c: "tget (changes d) k = Some c" and be: "bd_exec b = e"
    and x: "tget (executions d) e = Some x" "ex_runner x = rid" "token_text (ex_claim_token x) = ct"
    and bf: "bind_first now k c (i, b) e rid tok sha pk d = Inr (d', reply)"
    by (auto simp: bind_checked_def split: option.splits if_splits)
  from bf obtain d1 d2 o' d3 a et ot md where f: "ch_status c = ChDispatchable"
      "validate_request_integrity d k = Inr ()" "bd_profile_key b = pk" "bd_inputs_sha b = sha"
      "now < bd_expires_at b" "change_progress d d1" "verify_dispatch_token (cfg d) b tok = Inr True"
    and sv: "binding_save i (b\<lparr>bd_bound_at := Some now, bd_bound_by := rid\<rparr>) d1 = Inr d2"
    and tr: "transition_change now k ChRunning (Some (actor_from_runner rid)) [] [] d2 = Inr (d3, o')"
    and em: "audit_emit now (ch_org c) a et ot i md d3 = Inr d'"
    and reply: "reply = (i, ChRunning, Some now)"
    by (rule bind_first_Inr) blast
  from f(6) c obtain c1 where "tget (changes d1) k = Some c1"
    using progress_row by blast
  then have c2: "tget (changes d2) k = Some c1" using binding_save_row(2) [OF sv] by simp
  from transition_change_row(1,3) [OF tr c2] binding_save_row(1) [OF sv] em
  have "\<exists>c'. tget (changes d') k = Some c' \<and> ch_status c' = ChRunning"
    "tget (bindings d') i = Some (b\<lparr>bd_bound_at := Some now, bd_bound_by := rid\<rparr>)"
    by (auto dest!: audit_emit_Inr)
  with f c x be reply cp show ?thesis by blast
qed

lemma flagged_Inl [simp]: "flagged f r = Inl (e, g) \<longleftrightarrow> r = Inl e \<and> g = f"
  by (cases r) (auto simp: flagged_def)

lemma refuse_Inl [simp]: "refuse f k c = Inl (e, g) \<longleftrightarrow> e = Domain k c \<and> g = f"
  by (auto simp: refuse_def)

lemma bind_first_flag:
  assumes "bind_first now k c (i, b) e rid tok sha pk d = Inl (er, f)"
  shows "(f = TokenExpired \<longrightarrow> bd_expires_at b \<le> now) \<and>
     (f = IntegrityFailed \<longrightarrow> validate_request_integrity d k \<noteq> Inr ())"
  using assms
  by (auto simp: bind_first_def res_bind_eq_Inl split: if_splits)

lemma bind_again_flag:
  assumes "bind_again now k c ib rid tok sha pk d = Inl (er, f)"
  shows "f = NoExpiry"
  using assms
  by (auto simp: bind_again_def res_bind_eq_Inl split: if_splits prod.splits)

text \<open>
  C17: a bind that is refused writes nothing, with one exception: if the token had expired or the request
  no longer matched what was submitted, the dispatchable change expires. The binding stays
  unbound in every case.
\<close>

theorem refused_bind_effect:
  assumes "bind_execution now k rid ct e tok sha pk d = (d', Inl er)"
  shows "bindings d' = bindings d \<and> control_part d' = control_part d \<and>
     target_locks d' = target_locks d \<and>
     (d' = d \<or> (\<exists>i b c c'. binding_of_change d k = Some (i, b) \<and> bd_bound_at b = None \<and>
        tget (changes d) k = Some c \<and> ch_status c = ChDispatchable \<and>
        tget (changes d') k = Some c' \<and> ch_status c' = ChExpired \<and>
        (bd_expires_at b \<le> now \<or> validate_request_integrity d k \<noteq> Inr ())))"
proof (cases "d' = d")
  case False
  from assms obtain f where bc: "bind_checked now k rid ct e tok sha pk d = Inl (er, f)"
    by (auto simp: bind_execution_def split: sum.splits prod.splits)
  with assms False obtain why where f: "f \<noteq> NoExpiry"
    and ex: "expire_dispatchable_change now k why d = Inr d'"
    by (auto simp: bind_execution_def split: err.splits err_kind.splits if_splits sum.splits)
  from bc f obtain c i b where b: "binding_of_change d k = Some (i, b)" "bd_bound_at b = None"
    and bf: "bind_first now k c (i, b) e rid tok sha pk d = Inl (er, f)"
    by (auto simp: bind_checked_def refuse_def split: option.splits if_splits dest: bind_again_flag)
  from ex obtain c0 c' where c: "tget (changes d) k = Some c0" "tget (changes d') k = Some c'"
    "ch_status c' = (if ch_status c0 = ChDispatchable then ChExpired else ch_status c0)"
    "ch_status c0 \<noteq> ChDispatchable \<Longrightarrow> d' = d"
    by (rule expire_dispatchable_row) blast
  from bind_first_flag [OF bf] f have "bd_expires_at b \<le> now \<or> validate_request_integrity d k \<noteq> Inr ()"
    by (cases f) auto
  with b c False expire_dispatchable_change_parts [OF ex] show ?thesis by auto
qed simp

text \<open>
  An unbound dispatch whose token has expired is swept: its change is no longer dispatchable, a queued or claimed
  execution is cancelled, and no target lock is touched: the locks taken at
  dispatch stay active although the change can never run.
\<close>

theorem expired_dispatch_keeps_locks:
  assumes "expire_unbound_dispatch_for_execution now e d = Inr (d', True)"
  shows "\<exists>i b c'. binding_of_exec d e = Some (i, b) \<and> bd_bound_at b = None \<and> bd_expires_at b \<le> now \<and>
     tget (changes d') (bd_change b) = Some c' \<and> ch_status c' \<noteq> ChDispatchable \<and>
     (\<exists>x'. tget (executions d') e = Some x' \<and> ex_status x' \<noteq> ExQueued \<and> ex_status x' \<noteq> ExClaimed) \<and>
     target_locks d' = target_locks d"
proof -
  from assms obtain i b d1 where b: "binding_of_exec d e = Some (i, b)" "bd_bound_at b = None"
      "bd_expires_at b \<le> now"
    and ex: "expire_dispatchable_change now (bd_change b) ''dispatch_token_expired'' d = Inr d1"
    and ca: "cancel_undispatched now e (bd_change b) d1 = Inr d'"
    by (auto simp: expire_unbound_dispatch_for_execution_def res_bind_eq_Inr
        split: option.splits if_splits)
  from ex obtain c' where "tget (changes d1) (bd_change b) = Some c'" "ch_status c' \<noteq> ChDispatchable"
    by (rule expire_dispatchable_row) (auto split: if_splits)
  moreover from cancel_undispatched_Inr [OF ca] have "changes d' = changes d1"
    by (auto simp: upd_exec_def)
  moreover from ca have "\<exists>x'. tget (executions d') e = Some x' \<and> ex_status x' \<noteq> ExQueued \<and> ex_status x' \<noteq> ExClaimed"
    by (auto simp: cancel_undispatched_def upd_exec_def cancelled_at_def table_simps
        split: option.splits if_splits dest!: audit_emit_Inr)
  moreover have "target_locks d' = target_locks d"
    using assms by (rule expire_unbound_executions(2))
  ultimately show ?thesis using b by auto
qed

text \<open>
  C22: when the execution of a running change with an intact request ends, the change is closed, unless the execution
  succeeded and the profile requires verification: then the change leaves \<open>running\<close> for verification.
\<close>

theorem completion_moves_change:
  assumes "handle_bound_execution_completed now e s d = Inr d'"
    and "binding_of_exec d e = Some (i, b)" and "tget (changes d) (bd_change b) = Some c"
    and "ch_status c = ChRunning" and "validate_request_integrity d (bd_change b) = Inr ()"
    and "tget (op_profiles d) (ch_profile c) = Some p"
  shows "\<exists>c'. tget (changes d') (bd_change b) = Some c' \<and> frozen_request c' = frozen_request c \<and>
     (if s = ExSucceeded \<and> op_verification_required p
      then ch_status c' \<in> {ChVerificationPending, ChVerificationFailed, ChVerified}
      else ch_status c' = ChClosed)"
proof -
  let ?k = "bd_change b"
  from assms have fin: "finish_running_change now ?k p s d = Inr d'"
    by (simp add: handle_bound_execution_completed_def Let_def)
  have *: "\<exists>w a d1 x. end_active_breakglass_sessions now ?k w a d = (d1, Inr x) \<and>
     (if s = ExSucceeded \<and> op_verification_required p
      then \<exists>y d2 a'. service_transition now ?k ChVerificationPending [] y d1 = Inr d2 \<and>
         recompute_verification_state now ?k a' d2 = Inr d'
      else \<exists>why y. service_transition now ?k ChClosed why y d1 = Inr d')"
    using fin unfolding finish_running_change_def Let_def res_bind_eq_Inr
    by ((cases "s = ExSucceeded"; cases "op_verification_required p");
        (auto simp: atomic_Inr res_bind_eq_Inr split del: if_split); blast)
  then obtain w a d1 x where e: "end_active_breakglass_sessions now ?k w a d = (d1, Inr x)"
    and t: "if s = ExSucceeded \<and> op_verification_required p
      then \<exists>y d2 a'. service_transition now ?k ChVerificationPending [] y d1 = Inr d2 \<and>
         recompute_verification_state now ?k a' d2 = Inr d'
      else \<exists>why y. service_transition now ?k ChClosed why y d1 = Inr d'"
    by blast
  from end_active_breakglass_sessions_progress [OF e] assms(3,4) obtain c1 where
    c1: "tget (changes d1) ?k = Some c1" "frozen_request c1 = frozen_request c"
    using progress_row by force
  show ?thesis
  proof (cases "s = ExSucceeded \<and> op_verification_required p")
    case False
    with t obtain why y where "service_transition now ?k ChClosed why y d1 = Inr d'" by auto
    from service_transition_row [OF this c1(1)] c1(2) False show ?thesis by auto
  next
    case True
    with t obtain y d2 a' where s: "service_transition now ?k ChVerificationPending [] y d1 = Inr d2"
      and r: "recompute_verification_state now ?k a' d2 = Inr d'" by auto
    from service_transition_row [OF s c1(1)] obtain c2 where
      c2: "tget (changes d2) ?k = Some c2" "ch_status c2 = ChVerificationPending"
        "frozen_request c2 = frozen_request c" using c1(2) by auto
    from recompute_verification_state_progress [OF r] c2 obtain c3 where
      c3: "tget (changes d') ?k = Some c3" "frozen_request c3 = frozen_request c"
      using progress_row by force
    from r have "ch_status c3 \<in> {ChVerificationPending, ChVerificationFailed, ChVerified}"
    proof (rule recompute_parts)
      fix cc ii pp pp' dd
      assume q: "tget (changes d2) ?k = Some cc" "changes dd = changes d2"
        "if ch_status cc = ChVerificationPending \<and> vp_status pp' = VpFailed
       then \<exists>x o'. transition_change now ?k ChVerificationFailed (Some a') [] x dd = Inr (d', o')
     else if ch_status cc = ChVerificationPending \<and> vp_status pp' = VpSatisfied
       then \<exists>x o'. transition_change now ?k ChVerified (Some a') [] x dd = Inr (d', o')
     else d' = dd"
      with c2 have "tget (changes dd) ?k = Some c2" by simp
      with q(3) c2(2) c3 show ?thesis
        using transition_change_row(1) [of now ?k _ "Some a'" "[]" _ dd d' _ c2]
        by (fastforce split: if_splits)
    qed
    with True c3 show ?thesis by auto
  qed
qed


lemma dispatched_db_intact: "validate_request_integrity (dispatched_db s x) 30 = Inr ()"
  using validate_request_integrity_cong [of "dispatched_db s x" "submitted_db s"] submitted_db_intact
  by (simp add: dispatched_db_def)

text \<open>The events of the samples are accepted.\<close>

lemma sample_event_bound:
  "\<exists>ev. audit_emit now 1 (actor_from_runner ''r1'') ''change.execution_bound'' ''change_execution_binding'' 41
     [(''change_record_id'', JStr (id_str 30)), (''execution_id'', JStr (id_str 40)),
      (''runner_id'', JStr ''r1'')] d = Inr (d\<lparr>audit_log := audit_log d @ [ev]\<rparr>)"
  using length_id_str [of 30] length_id_str [of 40]
  by (intro audit_emit_succeeds) (simp_all add: sample_event_simps)

lemma sample_event_moved:
  assumes "length why \<le> 128"
  shows "\<exists>ev. audit_emit now 1 a ''change.status_changed'' ''change_record'' 30
     (transition_metadata s t why []) d = Inr (d\<lparr>audit_log := audit_log d @ [ev]\<rparr>)"
proof -
  have "length (change_status_str s) \<le> 30" for s by (cases s) simp_all
  from this [of s] this [of t] assms show ?thesis
    by (intro audit_emit_succeeds) (simp_all add: sample_event_simps transition_metadata_def)
qed

lemma sample_event_closed:
  "\<exists>ev. audit_emit now 1 a ''change.status_changed'' ''change_record'' 30
     (transition_metadata ChRunning ChClosed ''execution_succeeded''
       [(''execution_status'', JStr (exec_status_str ExSucceeded)),
        (''verification_required'', JBool False)]) d = Inr (d\<lparr>audit_log := audit_log d @ [ev]\<rparr>)"
  by (intro audit_emit_succeeds) (simp_all add: sample_event_simps transition_metadata_def)

lemma dispatched_rows [simp]:
  "changes (dispatched_db s x) = [(30, submitted_change s)]"
  "executions (dispatched_db s x) = [(40, sample_execution x)]"
  "bindings (dispatched_db s x) =
     [(41, sample_binding\<lparr>bd_token_hash := hash_dispatch_token sample_token\<rparr>)]"
  "cfg (dispatched_db s x) = sample_secret" "breakglasses (dispatched_db s x) = []"
  "op_profiles (dispatched_db s x) = [(10, sample_profile)]"
  "workflows (dispatched_db s x) = [(20, sample_workflow)]"
  by (simp_all add: dispatched_db_def submitted_db_def sample_db_def empty_db_def)

lemma sample_cancel_event:
  "\<exists>ev. audit_emit now 1 (system_actor ''Change service'') ''execution.cancelled'' ''execution'' 40 [
            (''previous_status'', JStr (exec_status_str ExQueued)),
            (''new_status'', JStr (exec_status_str ExCancelled)),
            (''reason'', JStr ''change_dispatch_token_expired''),
            (''change_record_id'', JStr (id_str 30))] d = Inr (d\<lparr>audit_log := audit_log d @ [ev]\<rparr>)"
  using length_id_str [of 30]
  by (intro audit_emit_succeeds) (simp_all add: sample_event_simps)

lemma submitted_change_inputs: "ch_inputs (submitted_change s) = JObj []"
  by (simp add: submitted_change_def sample_change_def Let_def)

lemma submitted_snapshot_eq: "py_eq (ch_snapshot (submitted_change s)) (ch_snapshot (submitted_change s))"
  by (simp add: submitted_change_def sample_db_def sample_change_def
      sample_profile_def sample_workflow_def empty_db_def tget_def
      build_live_submitted_request_snapshot_def build_request_snapshot_def targets_of_def tsel_def
      profile_snapshot_def workflow_snapshot_def py_or_def dict_set_def opt_json_def iso_json_def Let_def)

lemma sample_transition_of:
  assumes "changes d = [(30, c)]" and "ch_status c = s" and "ch_org c = 1" and "ch_profile c = 10"
    and "ch_workflow c = 20" and "py_eq (ch_snapshot c) (ch_snapshot c)" and "ch_inputs c = JObj []"
    and "op_profiles d = [(10, sample_profile)]" and "workflows d = [(20, sample_workflow)]"
    and "t \<in> set (ALLOWED_STATUS_TRANSITIONS s)"
    and "\<And>d. \<exists>ev. audit_emit now 1 (case a of None \<Rightarrow> system_actor ''Change service'' | Some a \<Rightarrow> a)
       ''change.status_changed'' ''change_record'' 30 (transition_metadata s t why x) d =
       Inr (d\<lparr>audit_log := audit_log d @ [ev]\<rparr>)"
  shows "\<exists>d'. transition_change now 30 t a why x d = Inr (d', s)"
proof -
  obtain c' where c': "transition_fields now t why c = Inr c'"
    using assms(2,10) by (simp add: transition_fields_def)
  have "immutable_fields_equal c c"
    using assms(6,7) by (simp add: immutable_fields_equal_def)
  with transition_fields_Inr [OF c'] have "change_save 30 c' d = Inr (upd_change 30 (\<lambda>_. c') d)"
    using assms(1-9)
    by (simp add: change_save_def change_clean_def tget_def sample_profile_def sample_workflow_def)
  moreover obtain ev where "audit_emit now 1 (case a of None \<Rightarrow> system_actor ''Change service'' | Some a \<Rightarrow> a)
       ''change.status_changed'' ''change_record'' 30 (transition_metadata s t why x) (upd_change 30 (\<lambda>_. c') d) =
       Inr ((upd_change 30 (\<lambda>_. c') d)\<lparr>audit_log := audit_log (upd_change 30 (\<lambda>_. c') d) @ [ev]\<rparr>)"
    using assms(11) by blast
  ultimately show ?thesis
    using assms(1,2,3) c' by (simp add: transition_change_def tget_def)
qed

lemma sample_transition:
  assumes "changes d = [(30, submitted_change s)]" and "op_profiles d = [(10, sample_profile)]"
    and "workflows d = [(20, sample_workflow)]" and "t \<in> set (ALLOWED_STATUS_TRANSITIONS s)"
    and "\<And>d. \<exists>ev. audit_emit now 1 (case a of None \<Rightarrow> system_actor ''Change service'' | Some a \<Rightarrow> a)
       ''change.status_changed'' ''change_record'' 30 (transition_metadata s t why x) d =
       Inr (d\<lparr>audit_log := audit_log d @ [ev]\<rparr>)"
  shows "\<exists>d'. transition_change now 30 t a why x d = Inr (d', s)"
  by (rule sample_transition_of [OF assms(1) _ _ _ _ submitted_snapshot_eq submitted_change_inputs assms(2-5)])
    simp_all

theorem first_bind_checks_witness:
  "\<exists>d'. bind_execution 9 30 ''r1'' (id_str 7) 40 sample_token ''h'' ''restart''
       (dispatched_db ChDispatchable ExClaimed) = (d', Inr (41, ChRunning, Some 9)) \<and>
     (\<exists>c'. tget (changes d') 30 = Some c' \<and> ch_status c' = ChRunning)"
proof -
  let ?d = "dispatched_db ChDispatchable ExClaimed"
  let ?b = "sample_binding\<lparr>bd_token_hash := hash_dispatch_token sample_token\<rparr>"
  let ?d2 = "?d\<lparr>bindings := [(41, ?b\<lparr>bd_bound_at := Some 9, bd_bound_by := ''r1''\<rparr>)]\<rparr>"
  have en: "ensure_verification_plan 9 30 a False ?d = Inr (?d, None)" for a
    by (simp add: ensure_verification_plan_def tget_def sample_profile_def)
  have sv: "binding_save 41 (?b\<lparr>bd_bound_at := Some 9, bd_bound_by := ''r1''\<rparr>) ?d = Inr ?d2"
    by (simp add: binding_save_def binding_clean_def tget_def sample_binding_def sample_execution_def
        tupd_def)
  obtain d3 where tr: "transition_change 9 30 ChRunning (Some (actor_from_runner ''r1'')) [] [] ?d2 =
      Inr (d3, ChDispatchable)"
    using sample_transition [of ?d2 ChDispatchable ChRunning 9 "Some (actor_from_runner ''r1'')" "[]" "[]"]
      sample_event_moved by auto
  obtain ev where em: "audit_emit 9 1 (actor_from_runner ''r1'') ''change.execution_bound''
     ''change_execution_binding'' 41 [(''change_record_id'', JStr (id_str 30)),
       (''execution_id'', JStr (id_str 40)), (''runner_id'', JStr ''r1'')] d3 =
      Inr (d3\<lparr>audit_log := audit_log d3 @ [ev]\<rparr>)"
    using sample_event_bound by blast
  have fields: "bd_profile_key ?b = ''restart''" "bd_inputs_sha ?b = ''h''" "bd_expires_at ?b = 900"
    "bd_bound_at ?b = None" "bd_exec ?b = 40" "bd_change ?b = 30"
    by (simp_all add: sample_binding_def)
  have bf: "bind_first 9 30 (submitted_change ChDispatchable) (41, ?b) 40 ''r1'' sample_token ''h''
     ''restart'' ?d = Inr (d3\<lparr>audit_log := audit_log d3 @ [ev]\<rparr>, 41, ChRunning, Some 9)"
    by (simp add: bind_first_def dispatched_db_intact en fields sample_token_ok sv tr em em [simplified] flagged_def)
  have bc: "binding_of_change ?d 30 = Some (41, ?b)"
    by (simp add: binding_of_change_def tsel_def fields)
  have "bind_execution 9 30 ''r1'' (id_str 7) 40 sample_token ''h'' ''restart'' ?d =
      (d3\<lparr>audit_log := audit_log d3 @ [ev]\<rparr>, Inr (41, ChRunning, Some 9))"
    using bf bc
    by (simp add: bind_execution_def bind_checked_def tget_def fields sample_execution_def token_text_def)
  from first_bind_checks [OF this bc fields(4)] this show ?thesis by blast
qed

theorem refused_bind_effect_witness:
  "\<exists>d' c'. bind_execution 2000 30 ''r1'' (id_str 7) 40 sample_token ''h'' ''restart''
       (dispatched_db ChDispatchable ExClaimed) =
       (d', Inl (Domain InvalidStateTransitionError ''dispatch_token_expired'')) \<and>
     tget (changes d') 30 = Some c' \<and> ch_status c' = ChExpired"
proof -
  let ?d = "dispatched_db ChDispatchable ExClaimed"
  let ?b = "sample_binding\<lparr>bd_token_hash := hash_dispatch_token sample_token\<rparr>"
  have en: "ensure_verification_plan 2000 30 a False ?d = Inr (?d, None)" for a
    by (simp add: ensure_verification_plan_def tget_def sample_profile_def)
  have fields: "bd_profile_key ?b = ''restart''" "bd_inputs_sha ?b = ''h''" "bd_expires_at ?b = 900"
    "bd_bound_at ?b = None" "bd_exec ?b = 40" "bd_change ?b = 30"
    by (simp_all add: sample_binding_def)
  have bf: "bind_first 2000 30 (submitted_change ChDispatchable) (41, ?b) 40 ''r1'' sample_token ''h''
     ''restart'' ?d = Inl (Domain InvalidStateTransitionError ''dispatch_token_expired'', TokenExpired)"
    by (simp add: bind_first_def dispatched_db_intact en fields refuse_def flagged_def)
  have bc: "binding_of_change ?d 30 = Some (41, ?b)"
    by (simp add: binding_of_change_def tsel_def fields)
  obtain d' where tr: "transition_change 2000 30 ChExpired (Some (system_actor ''Change service''))
      ''dispatch_token_expired'' [] ?d = Inr (d', ChDispatchable)"
    using sample_transition [of ?d ChDispatchable ChExpired 2000 "Some (system_actor ''Change service'')"
        "''dispatch_token_expired''" "[]"] sample_event_moved by auto
  have ex: "expire_dispatchable_change 2000 30 ''dispatch_token_expired'' ?d = Inr d'"
    by (simp add: expire_dispatchable_change_def tget_def tr)
  have r: "bind_execution 2000 30 ''r1'' (id_str 7) 40 sample_token ''h'' ''restart'' ?d =
      (d', Inl (Domain InvalidStateTransitionError ''dispatch_token_expired''))"
    using bf bc ex
    by (simp add: bind_execution_def bind_checked_def tget_def fields sample_execution_def token_text_def)
  have "d' \<noteq> ?d"
    using transition_change_row(1) [OF tr, of "submitted_change ChDispatchable"] by (auto simp: tget_def)
  with refused_bind_effect [OF r] r show ?thesis by blast
qed

theorem expired_dispatch_keeps_locks_witness:
  "\<exists>d'. expire_unbound_dispatch_for_execution 2000 40 (dispatched_db ChDispatchable ExQueued) = Inr (d', True) \<and>
     target_locks d' = target_locks (dispatched_db ChDispatchable ExQueued)"
proof -
  let ?d = "dispatched_db ChDispatchable ExQueued"
  let ?b = "sample_binding\<lparr>bd_token_hash := hash_dispatch_token sample_token\<rparr>"
  obtain d1 where tr: "transition_change 2000 30 ChExpired (Some (system_actor ''Change service''))
      ''dispatch_token_expired'' [] ?d = Inr (d1, ChDispatchable)"
    using sample_transition [of ?d ChDispatchable ChExpired 2000 "Some (system_actor ''Change service'')"
        "''dispatch_token_expired''" "[]"] sample_event_moved by auto
  have x: "executions d1 = [(40, sample_execution ExQueued)]"
    using transition_change_row(6) [OF tr, of "submitted_change ChDispatchable"]
    by (simp add: control_part_def tget_def)
  obtain d2 where "cancel_undispatched 2000 40 30 d1 = Inr d2"
    using sample_cancel_event [of 2000 "upd_exec 40 (cancelled_at 2000) d1"]
    by (auto simp: cancel_undispatched_def x tget_def sample_execution_def)
  then have "expire_unbound_dispatch_for_execution 2000 40 ?d = Inr (d2, True)"
    using tr by (simp add: expire_unbound_dispatch_for_execution_def binding_of_exec_def tsel_def
        sample_binding_def expire_dispatchable_change_def tget_def)
  from expired_dispatch_keeps_locks [OF this] this show ?thesis by blast
qed

theorem completion_moves_change_witness:
  "\<exists>d'. handle_bound_execution_completed 9 40 ExSucceeded (dispatched_db ChRunning ExRunning) = Inr d' \<and>
     (\<exists>c'. tget (changes d') 30 = Some c' \<and> ch_status c' = ChClosed)"
proof -
  let ?d = "dispatched_db ChRunning ExRunning"
  let ?b = "sample_binding\<lparr>bd_token_hash := hash_dispatch_token sample_token\<rparr>"
  have b: "binding_of_exec ?d 40 = Some (41, ?b)" "bd_change ?b = 30"
    by (simp_all add: binding_of_exec_def tsel_def sample_binding_def)
  have c: "tget (changes ?d) 30 = Some (submitted_change ChRunning)"
    "tget (op_profiles ?d) 10 = Some sample_profile" "\<not> op_verification_required sample_profile"
    by (simp_all add: tget_def sample_profile_def)
  have ends: "end_active_breakglass_sessions 9 30 w a ?d = (?d, Inr ())" for w a
    by (simp add: end_active_breakglass_sessions_def tsel_def)
  obtain d' where tr: "transition_change 9 30 ChClosed (Some (system_actor ''Change service''))
      ''execution_succeeded'' [(''execution_status'', JStr (exec_status_str ExSucceeded)),
        (''verification_required'', JBool False)] ?d = Inr (d', ChRunning)"
    using sample_transition [of ?d ChRunning ChClosed 9 "Some (system_actor ''Change service'')"
        "''execution_succeeded''" "[(''execution_status'', JStr (exec_status_str ExSucceeded)),
        (''verification_required'', JBool False)]"] sample_event_closed by auto
  have "handle_bound_execution_completed 9 40 ExSucceeded ?d = Inr d'"
    using tr by (simp add: handle_bound_execution_completed_def b c dispatched_db_intact
        finish_running_change_def ends atomic_def service_transition_def Let_def
        tget_def)
  from completion_moves_change [OF this b(1), of "submitted_change ChRunning" sample_profile] this
  show ?thesis by (auto simp: b c dispatched_db_intact tget_def sample_profile_def)
qed

end
