(* ===== verification/Executions.thy ===== *)
theory Executions
  imports Change_Completion Workflow_Validation
begin

text \<open>
  \<open>apps/executions/services.py\<close>: creating an execution and its steps from a workflow,
  cancelling, the two watchdogs, heartbeats, the step transitions and completion. (Claiming is
  in the theory on scheduling.) Events of the stream and integration notifications are sent
  after the commit; they are appended to \<open>outbox\<close>. Metrics and logging are not modelled.
\<close>

section \<open>Messages\<close>

definition send_all :: "message list \<Rightarrow> db \<Rightarrow> db" where
  "send_all ms d = d\<lparr>outbox := outbox d @ ms\<rparr>"

definition status_changed_event :: "nat \<Rightarrow> exec_status \<Rightarrow> message" where
  "status_changed_event e s = Stream e ''execution.status_changed'' [
     (''execution_id'', JStr (id_str e)), (''status'', JStr (exec_status_str s))]"

definition stream_closed_event :: "nat \<Rightarrow> exec_status \<Rightarrow> string \<Rightarrow> message" where
  "stream_closed_event e s reason = Stream e ''stream.closed'' [
     (''execution_id'', JStr (id_str e)), (''final_status'', JStr (exec_status_str s)),
     (''reason'', JStr reason)]"

definition step_event :: "nat \<Rightarrow> nat \<Rightarrow> exec_step \<Rightarrow> message" where
  "step_event e i s = Stream e ''step.status_changed'' [
     (''execution_id'', JStr (id_str e)), (''step_id'', JStr (id_str i)),
     (''position'', JInt (int (st_position s))),
     (''status'', JStr (step_status_str (st_status s))),
     (''exit_code'', opt_json JInt (st_exit_code s)),
     (''error_message'', JStr (st_error s))]"

definition or_system :: "audit_actor option \<Rightarrow> audit_actor" where
  "or_system actor = (case actor of None \<Rightarrow> system_actor ''Django system'' | Some a \<Rightarrow> a)"

section \<open>Creating an execution\<close>

text \<open>\<open>_compute_snapshot_hash\<close>.\<close>

definition compute_snapshot_hash :: "json \<Rightarrow> string" where
  "compute_snapshot_hash definition = sha256_hex (utf8 (dumps (compact_opts True) definition))"

definition extract_step_command :: "json \<Rightarrow> string \<Rightarrow> json result" where
  "extract_step_command step schema_version =
    (if schema_version = ''workflow.schema.v2'' then
       res_bind (py_get step ''action'' (JObj [])) (\<lambda>action.
       res_bind (action_params action) (\<lambda>params.
       py_get params ''command'' (JStr [])))
     else py_get step ''command'' (JStr []))"

text \<open>A step that declares the dry-run strategy \<open>unsupported\<close> blocks a dry run.\<close>

definition enforce_dry_run_compatibility :: "json \<Rightarrow> unit result" where
  "enforce_dry_run_compatibility definition =
    res_bind (py_get definition ''steps'' (JArr [])) (\<lambda>v.
    res_bind (py_iter v) (\<lambda>steps.
    all_ok (\<lambda>step.
      res_bind (py_get step ''dryRun'' JNull) (\<lambda>dry.
      if dry = JNull then Inr ()
      else res_bind (py_get dry ''strategy'' JNull) (\<lambda>s.
        if s = JStr ''unsupported''
        then Inl (Domain DomainValidationError ''step_not_dry_run_compatible'')
        else Inr ()))) steps))"

text \<open>
  The values of a step row before they are saved, and their conversion by the columns: a
  \<open>CharField\<close> stores \<open>str\<close> of a value, a \<open>BooleanField\<close> accepts a few spellings, and \<open>None\<close>
  violates a \<open>NOT NULL\<close> constraint.
\<close>

record raw_step =
  rs_key :: json
  rs_name :: json
  rs_type :: json
  rs_risk :: json
  rs_command :: json
  rs_approval :: json
  rs_snapshot :: json

definition raw_step_of :: "string \<Rightarrow> json \<Rightarrow> raw_step result" where
  "raw_step_of schema_version step =
    (let f = fields_of step
     in if \<not> is_obj step then Inl (PyError ''TypeError'')
        else if map_of f ''id'' = None \<or> map_of f ''name'' = None then Inl (PyError ''KeyError'')
        else res_bind (extract_step_command step schema_version) (\<lambda>cmd.
          Inr \<lparr>rs_key = fget f ''id'' JNull, rs_name = fget f ''name'' JNull,
            rs_type = fget f ''type'' (JStr []), rs_risk = fget f ''risk'' (JStr []),
            rs_command = cmd, rs_approval = fget f ''requiresApproval'' (JBool False),
            rs_snapshot = step\<rparr>))"

fun to_bool_field :: "json \<Rightarrow> bool option result" where
  "to_bool_field (JBool b) = Inr (Some b)"
| "to_bool_field JNull = Inr None"
| "to_bool_field (JStr s) =
    (if s \<in> {''t'', ''True'', ''1''} then Inr (Some True)
     else if s \<in> {''f'', ''False'', ''0''} then Inr (Some False)
     else Inl (DjangoValidation ''requires_approval''))"
| "to_bool_field v =
    (if number_of v = Some 1 then Inr (Some True)
     else if number_of v = Some 0 then Inr (Some False)
     else Inl (DjangoValidation ''requires_approval''))"

definition new_step :: "nat \<Rightarrow> nat \<Rightarrow> raw_step \<Rightarrow> bool \<Rightarrow> exec_step" where
  "new_step e position r approval = \<lparr>st_exec = e, st_position = position,
     st_key = py_str (rs_key r), st_name = py_str (rs_name r), st_type = py_str (rs_type r),
     st_risk = py_str (rs_risk r), st_command = py_str (rs_command r),
     st_requires_approval = approval, st_snapshot = rs_snapshot r, st_status = StPending,
     st_started_at = None, st_finished_at = None, st_exit_code = None, st_error = [],
     st_failure_kind = [], st_timed_out = False, st_cancelled = False,
     st_sandbox_provider = [], st_sandbox_run_id = [], st_command_sha = [],
     st_result_metadata = JObj []\<rparr>"

fun raw_steps :: "string \<Rightarrow> json list \<Rightarrow> raw_step list result" where
  "raw_steps v [] = Inr []"
| "raw_steps v (s # ss) =
    res_bind (raw_step_of v s) (\<lambda>r. res_bind (raw_steps v ss) (\<lambda>rs. Inr (r # rs)))"

fun approvals_of :: "raw_step list \<Rightarrow> bool option list result" where
  "approvals_of [] = Inr []"
| "approvals_of (r # rs) =
    res_bind (to_bool_field (rs_approval r)) (\<lambda>b.
    res_bind (approvals_of rs) (\<lambda>bs. Inr (b # bs)))"

definition null_column :: "raw_step \<Rightarrow> bool option \<Rightarrow> bool" where
  "null_column r b \<longleftrightarrow> b = None \<or>
     JNull \<in> {rs_key r, rs_name r, rs_type r, rs_risk r, rs_command r}"

text \<open>The rows of the steps, numbered from one, if the database accepts them all.\<close>

definition step_rows :: "nat \<Rightarrow> raw_step list \<Rightarrow> exec_step list result" where
  "step_rows e raws =
    res_bind (approvals_of raws) (\<lambda>bs.
    if list_ex (\<lambda>(r, b). null_column r b) (zip raws bs) then Inl (IntegrityErr ''null'')
    else if \<not> distinct (map (\<lambda>r. py_str (rs_key r)) raws)
      then Inl (IntegrityErr ''unique_step_key_per_execution'')
    else Inr (map (\<lambda>(n, r, b). new_step e n r (b = Some True)) (enumerate 1 (zip raws bs))))"

fun insert_steps :: "exec_step list \<Rightarrow> db \<Rightarrow> db" where
  "insert_steps [] d = d"
| "insert_steps (s # ss) d =
    (let (i, d) = fresh d in insert_steps ss (d\<lparr>exec_steps := tins i s (exec_steps d)\<rparr>))"

definition new_execution ::
    "timestamp \<Rightarrow> nat \<Rightarrow> workflow \<Rightarrow> string \<Rightarrow> exec_mode \<Rightarrow> execution" where
  "new_execution now w wfl hash mode = \<lparr>ex_org = wf_org wfl, ex_workflow = w,
     ex_workflow_version = wf_version wfl, ex_snapshot = wf_definition wfl,
     ex_snapshot_hash = hash, ex_mode = mode, ex_status = ExQueued, ex_started_at = None,
     ex_finished_at = None, ex_runner = [], ex_claim_token = None, ex_claimed_at = None,
     ex_heartbeat_at = None, ex_pool_key = [], ex_cancel_at = None, ex_cancel_by = [],
     ex_created_at = now\<rparr>"

text \<open>The checks before the transaction.\<close>

definition check_executable ::
    "wf_env \<Rightarrow> db \<Rightarrow> nat \<Rightarrow> workflow \<Rightarrow> exec_mode \<Rightarrow> bool \<Rightarrow> unit result" where
  "check_executable env d w wfl mode from_change_service =
    (if wf_status wfl \<noteq> WfPublished
       then Inl (Domain DomainValidationError ''workflow_not_published'')
     else if wf_requires_review wfl
       then Inl (Domain DomainValidationError ''workflow_requires_review'')
     else if \<not> from_change_service \<and>
       tsel (\<lambda>_ p. op_org p = wf_org wfl \<and> op_is_active p \<and> w \<in> set (op_allowed_workflows p))
         (op_profiles d) \<noteq> []
       then Inl (Domain DomainConflictError ''workflow_requires_change_record'')
     else res_bind
       (if wf_schema_version wfl = ''workflow.schema.v2'' then validate_v2 env (wf_definition wfl)
        else if wf_schema_version wfl = ''workflow.schema.v1'' then validate_v1 (wf_definition wfl)
        else Inl (bad_workflow ''unsupported_schema_version'')) (\<lambda>_.
       if mode = DryRun then enforce_dry_run_compatibility (wf_definition wfl) else Inr ()))"

text \<open>The transaction; the id of the execution is returned.\<close>

definition insert_execution ::
    "timestamp \<Rightarrow> nat \<Rightarrow> workflow \<Rightarrow> audit_actor option \<Rightarrow> exec_mode \<Rightarrow> db \<Rightarrow> (db \<times> nat) result" where
  "insert_execution now w wfl actor mode d =
    (let def_fields = fields_of (wf_definition wfl);
         (e, d) = fresh d;
         d = d\<lparr>executions := tins e (new_execution now w wfl
               (compute_snapshot_hash (wf_definition wfl)) mode) (executions d)\<rparr>
     in res_bind (py_iter (fget def_fields ''steps'' JNull)) (\<lambda>steps.
        res_bind (raw_steps (wf_schema_version wfl) steps) (\<lambda>raws.
        res_bind (step_rows e raws) (\<lambda>rows.
        res_bind (audit_emit now (wf_org wfl) (or_system actor) ''execution.created'' ''execution''
          e [
            (''workflow_id'', JStr (id_str w)),
            (''workflow_version'', JInt (int (wf_version wfl))),
            (''initial_status'', JStr (exec_status_str ExQueued)),
            (''execution_mode'', JStr (exec_mode_str mode)),
            (''schema_version'', fget def_fields ''schemaVersion'' (JStr [])),
            (''catalog_version'', fget def_fields ''catalogVersion'' (JStr [])),
            (''dry_run_mode'', JBool (mode = DryRun))] (insert_steps rows d)) (\<lambda>d.
        Inr (d, e))))))"

definition create_execution ::
    "wf_env \<Rightarrow> timestamp \<Rightarrow> nat \<Rightarrow> audit_actor option \<Rightarrow> exec_mode \<Rightarrow> bool \<Rightarrow> db \<Rightarrow> (db \<times> nat) result" where
  "create_execution env now w actor mode from_change_service d =
    (case tget (workflows d) w of
       None \<Rightarrow> Inl (NotFound ''workflow'')
     | Some wfl \<Rightarrow>
        res_bind (check_executable env d w wfl mode from_change_service) (\<lambda>_.
        case insert_execution now w wfl actor mode d of
          Inl (IntegrityErr _) \<Rightarrow> Inl (bad_workflow ''execution_step_materialization_failed'')
        | Inl er \<Rightarrow> Inl er
        | Inr (d, e) \<Rightarrow> Inr (send (Notify ''execution.created'' e) d, e)))"

section \<open>Cancelling\<close>

definition cancel_execution ::
    "timestamp \<Rightarrow> nat \<Rightarrow> audit_actor option \<Rightarrow> db \<Rightarrow> db result" where
  "cancel_execution now e actor d =
    (case tget (executions d) e of
       None \<Rightarrow> Inl (NotFound ''execution'')
     | Some x \<Rightarrow>
       let a = or_system actor in
       if ex_status x = ExQueued then
         res_bind (audit_emit now (ex_org x) a ''execution.cancelled'' ''execution'' e [
             (''previous_status'', JStr (exec_status_str (ex_status x))),
             (''new_status'', JStr (exec_status_str ExCancelled))]
           (upd_exec e (\<lambda>x. x\<lparr>ex_status := ExCancelled\<rparr>) d)) (\<lambda>d.
         Inr (send_all [status_changed_event e ExCancelled,
           stream_closed_event e ExCancelled ''terminal_state'',
           Notify ''execution.cancelled'' e] d))
       else if exec_active (ex_status x) then
         (let who = (if actor_label a \<noteq> [] then actor_label a
                     else if actor_id a \<noteq> [] then actor_id a else ''system'')
          in res_bind (audit_emit now (ex_org x) a ''execution.cancel_requested'' ''execution'' e [
               (''previous_status'', JStr (exec_status_str (ex_status x))),
               (''cancel_requested_by'', JStr who)]
             (upd_exec e (\<lambda>x. x\<lparr>ex_cancel_at := Some now, ex_cancel_by := who\<rparr>) d)) (\<lambda>d.
           Inr (send (Stream e ''execution.cancel_requested'' [
             (''execution_id'', JStr (id_str e)), (''cancel_requested_by'', JStr who)]) d)))
       else Inl (Domain InvalidStateTransitionError ''invalid_state_transition''))"

section \<open>The watchdogs\<close>

definition failed_at :: "timestamp \<Rightarrow> execution \<Rightarrow> execution" where
  "failed_at now x = x\<lparr>ex_status := ExFailed, ex_finished_at := Some now,
     ex_started_at := (if ex_started_at x = None then Some now else ex_started_at x)\<rparr>"

definition is_stuck :: "timestamp \<Rightarrow> execution \<Rightarrow> bool" where
  "is_stuck stale_before x \<longleftrightarrow> exec_active (ex_status x) \<and>
     (case ex_heartbeat_at x of None \<Rightarrow> False | Some h \<Rightarrow> h < stale_before)"

definition fail_running_steps :: "timestamp \<Rightarrow> nat \<Rightarrow> exec_step table \<Rightarrow> exec_step table" where
  "fail_running_steps now e t =
    tupd_where (\<lambda>_ s. st_exec s = e \<and> st_status s = StRunning)
      (\<lambda>s. s\<lparr>st_status := StFailed, st_finished_at := Some now,
         st_error := ''Step marked failed by watchdog: heartbeat timeout''\<rparr>) t"

definition expire_leases :: "timestamp \<Rightarrow> nat \<Rightarrow> lease_status \<Rightarrow> string \<Rightarrow> db \<Rightarrow> db" where
  "expire_leases now e new_status reason d =
    d\<lparr>leases := tupd_where (\<lambda>_ l. ls_exec l = e \<and> ls_status l = LeaseActive)
      (\<lambda>l. l\<lparr>ls_status := new_status, ls_released_at := Some now, ls_reason := reason\<rparr>) (leases d)\<rparr>"

text \<open>An error of the completion hook is logged and dropped.\<close>

definition completion_hook_logged :: "timestamp \<Rightarrow> nat \<Rightarrow> exec_status \<Rightarrow> db \<Rightarrow> db" where
  "completion_hook_logged now e status d =
    (case handle_bound_execution_completed now e status d of Inl _ \<Rightarrow> d | Inr d' \<Rightarrow> d')"

text \<open>
  One pass of the loop of \<open>recover_stuck_executions\<close>: the transaction, which reads the row again,
  and what follows it. The boolean tells whether the execution was recovered.
\<close>

definition recover_one ::
    "timestamp \<Rightarrow> int \<Rightarrow> timestamp \<Rightarrow> nat \<Rightarrow> db \<Rightarrow> (db \<times> bool) result" where
  "recover_one now threshold stale_before e d =
    (case tget (executions d) e of
       None \<Rightarrow> Inr (d, False)
     | Some x \<Rightarrow>
        if \<not> is_stuck stale_before x then Inr (d, False)
        else
          let running = tsel (\<lambda>_ s. st_exec s = e \<and> st_status s = StRunning) (exec_steps d)
          in res_bind (audit_emit now (ex_org x) (system_actor ''Django system'')
               ''execution.failed'' ''execution'' e [
                 (''previous_status'', JStr (exec_status_str (ex_status x))),
                 (''new_status'', JStr (exec_status_str ExFailed)),
                 (''reason'', JStr ''watchdog_heartbeat_timeout''),
                 (''stuck_threshold_seconds'', JInt threshold),
                 (''running_steps_failed'', JInt (int (length running)))]
               ((upd_exec e (failed_at now) d)
                  \<lparr>exec_steps := fail_running_steps now e (exec_steps d)\<rparr>)) (\<lambda>d.
             Inr (completion_hook_logged now e ExFailed
                    (expire_leases now e LeaseExpired ''heartbeat_timeout'' d), True)))"

text \<open>The loop; an exception of one pass leaves the passes before it committed.\<close>

fun recover_all ::
    "timestamp \<Rightarrow> int \<Rightarrow> timestamp \<Rightarrow> nat list \<Rightarrow> nat list \<Rightarrow> db \<Rightarrow> nat list outcome" where
  "recover_all now threshold stale_before [] recovered d = (d, Inr recovered)"
| "recover_all now threshold stale_before (e # es) recovered d =
    (case recover_one now threshold stale_before e d of
       Inl er \<Rightarrow> (d, Inl er)
     | Inr (d', done_it) \<Rightarrow>
         recover_all now threshold stale_before es
           (if done_it then recovered @ [e] else recovered) d')"

definition recover_stuck_executions :: "timestamp \<Rightarrow> int \<Rightarrow> db \<Rightarrow> nat list outcome" where
  "recover_stuck_executions now threshold d =
    (let stale_before = now - secs threshold
     in recover_all now threshold stale_before
          (map fst (tsel (\<lambda>_ x. is_stuck stale_before x) (executions d))) [] d)"

text \<open>
  \<open>fail_execution_for_approval_timeout\<close>: an execution blocked on an expired approval request.
  The boolean tells whether this call failed the execution.
\<close>

definition approval_timeout_metadata :: "nat \<Rightarrow> approval_request \<Rightarrow> nat \<Rightarrow> nat \<Rightarrow> jdict" where
  "approval_timeout_metadata a req e i = [
     (''approval_request_id'', JStr (id_str a)),
     (''execution_id'', JStr (id_str e)),
     (''step_id'', JStr (id_str i)),
     (''expires_at'', iso_json (ar_expires_at req)),
     (''reason'', JStr ''watchdog_approval_timeout''),
     (''recovery_source'', JStr ''watchdog'')]"

definition approval_timeout_tx ::
    "timestamp \<Rightarrow> nat \<Rightarrow> execution \<Rightarrow> nat \<Rightarrow> exec_step \<Rightarrow> nat \<Rightarrow> approval_request \<Rightarrow> db \<Rightarrow> db result" where
  "approval_timeout_tx now e x i s a req d =
    (let common = approval_timeout_metadata a req e i;
         msg = ''Step marked failed by watchdog: approval timeout'';
         sys = system_actor ''Django system'';
         moved = [(''previous_status'', JStr (exec_status_str (ex_status x))),
                  (''new_status'', JStr (exec_status_str ExFailed))];
         d = upd_exec e (failed_at now) (upd_step i (\<lambda>s. s\<lparr>st_status := StFailed,
               st_finished_at := Some now, st_error := msg\<rparr>) d)
     in res_bind (audit_emit now (ex_org x) sys ''execution_step.failed'' ''execution_step'' i
          (common @ [
            (''step_key'', JStr (st_key s)), (''position'', JInt (int (st_position s))),
            (''previous_status'', JStr (step_status_str (st_status s))),
            (''new_status'', JStr (step_status_str StFailed)),
            (''error_message'', JStr msg)]) d) (\<lambda>d.
        res_bind (audit_emit now (ex_org x) sys ''execution.failed'' ''execution'' e
          (common @ moved) d) (\<lambda>d.
        audit_emit now (ex_org x) sys ''execution.approval_timeout'' ''execution'' e
          (common @ moved) d)))"

definition fail_execution_for_approval_timeout ::
    "timestamp \<Rightarrow> nat \<Rightarrow> nat \<Rightarrow> nat \<Rightarrow> approval_request \<Rightarrow> db \<Rightarrow> (db \<times> bool) result" where
  "fail_execution_for_approval_timeout now e i a req d =
    (case (tget (executions d) e, tget (exec_steps d) i) of
       (Some x, Some s) \<Rightarrow>
         if st_exec s \<noteq> e then Inl (NotFound ''execution_step'')
         else if \<not> exec_active (ex_status x) then Inr (d, False)
         else if st_status s \<noteq> StWaiting then Inr (d, False)
         else res_bind (approval_timeout_tx now e x i s a req d) (\<lambda>d.
           Inr (completion_hook_logged now e ExFailed
             (send_all [
                step_event e i (s\<lparr>st_status := StFailed, st_finished_at := Some now,
                  st_error := ''Step marked failed by watchdog: approval timeout''\<rparr>),
                status_changed_event e ExFailed,
                stream_closed_event e ExFailed ''approval_timeout'',
                Notify ''execution_step.failed'' i, Notify ''execution.failed'' e] d), True))
     | (None, _) \<Rightarrow> Inl (NotFound ''execution'')
     | (_, None) \<Rightarrow> Inl (NotFound ''execution_step''))"

section \<open>The runner's calls\<close>

definition validate_runner_ownership :: "execution \<Rightarrow> string \<Rightarrow> string \<Rightarrow> unit result" where
  "validate_runner_ownership x runner_id claim_token =
    (if ex_runner x \<noteq> runner_id
       then Inl (Domain InvalidStateTransitionError ''runner_ownership_mismatch'')
     else if token_text (ex_claim_token x) \<noteq> claim_token
       then Inl (Domain InvalidStateTransitionError ''claim_token_mismatch'')
     else Inr ())"

definition heartbeat_execution ::
    "timestamp \<Rightarrow> nat \<Rightarrow> string \<Rightarrow> string \<Rightarrow> db \<Rightarrow> unit outcome" where
  "heartbeat_execution now e runner_id claim_token d =
    (case tget (executions d) e of
       None \<Rightarrow> (d, Inl (NotFound ''execution''))
     | Some x \<Rightarrow>
        if \<not> exec_active (ex_status x)
          then (d, Inl (Domain InvalidStateTransitionError ''invalid_state_transition''))
        else (case validate_runner_ownership x runner_id claim_token of
            Inl er \<Rightarrow> (d, Inl er)
          | Inr _ \<Rightarrow>
            then_do (enforce_emergency_expiry_for_execution now e d) (\<lambda>d _.
              (upd_exec e (\<lambda>x. x\<lparr>ex_heartbeat_at := Some now\<rparr>) d, Inr ()))))"

fun VALID_STEP_TRANSITIONS :: "step_status \<Rightarrow> step_status list" where
  "VALID_STEP_TRANSITIONS StPending = [StFailed]"
| "VALID_STEP_TRANSITIONS StWaiting = [StFailed]"
| "VALID_STEP_TRANSITIONS StRunning = [StSucceeded, StFailed]"
| "VALID_STEP_TRANSITIONS _ = []"

fun VALID_STEP_START_TRANSITIONS :: "step_status \<Rightarrow> step_status list" where
  "VALID_STEP_START_TRANSITIONS StPending = [StRunning, StFailed]"
| "VALID_STEP_START_TRANSITIONS StWaiting = [StRunning, StFailed]"
| "VALID_STEP_START_TRANSITIONS _ = []"

text \<open>
  \<open>_extract_v2_step_audit_metadata\<close>. The attributes of a snapshot that is not shaped like a v2
  step raise an \<open>AttributeError\<close>.
\<close>

fun artifact_keys :: "json list \<Rightarrow> json list result" where
  "artifact_keys [] = Inr []"
| "artifact_keys (a # as) =
    res_bind (py_get a ''key'' (JStr [])) (\<lambda>k.
    res_bind (artifact_keys as) (\<lambda>ks. Inr (k # ks)))"

definition or_empty :: "json \<Rightarrow> json" where
  "or_empty v = py_or v (JObj [])"

definition v2_step_audit_metadata :: "exec_step \<Rightarrow> execution \<Rightarrow> jdict result" where
  "v2_step_audit_metadata s x =
    (let snapshot = or_empty (st_snapshot s) in
     res_bind (py_get snapshot ''action'' JNull) (\<lambda>action.
     res_bind (py_get snapshot ''retry'' JNull) (\<lambda>retry.
     res_bind (py_get snapshot ''idempotency'' JNull) (\<lambda>idem.
     res_bind (py_get snapshot ''dryRun'' JNull) (\<lambda>dry.
     res_bind (py_get (or_empty (ex_snapshot x)) ''schemaVersion'' (JStr [])) (\<lambda>schema_version.
     res_bind (py_get (or_empty action) ''type'' (JStr [])) (\<lambda>action_type.
     res_bind (py_get (or_empty action) ''version'' (JStr [])) (\<lambda>action_version.
     res_bind (if truthy dry then py_get dry ''supported'' JNull else Inr JNull) (\<lambda>supported.
     res_bind (py_get (or_empty retry) ''maxAttempts'' JNull) (\<lambda>attempts.
     res_bind (py_get (or_empty idem) ''mode'' (JStr [])) (\<lambda>mode.
     res_bind (py_get snapshot ''artifacts'' JNull) (\<lambda>artifacts.
     res_bind (py_iter (py_or artifacts (JArr []))) (\<lambda>as.
     res_bind (artifact_keys as) (\<lambda>keys.
     res_bind (py_get snapshot ''secrets'' JNull) (\<lambda>secrets.
     res_bind (py_iter (py_or secrets (JArr []))) (\<lambda>names.
     Inr [
       (''schema_version'', schema_version), (''action_type'', action_type),
       (''action_version'', action_version), (''dry_run_supported'', supported),
       (''retry_max_attempts'', attempts), (''idempotency_mode'', mode),
       (''declared_artifact_keys'', JArr keys),
       (''declared_secret_key_names'', JArr names)]))))))))))))))))"

fun step_event_type :: "step_status \<Rightarrow> string option" where
  "step_event_type StWaiting = Some ''execution_step.waiting_for_approval''"
| "step_event_type StRunning = Some ''execution_step.started''"
| "step_event_type StSucceeded = Some ''execution_step.succeeded''"
| "step_event_type StFailed = Some ''execution_step.failed''"
| "step_event_type _ = None"

text \<open>\<open>_emit_step_transition_audit\<close>, for the step and execution as they are after the change.\<close>

definition emit_step_transition_audit ::
    "timestamp \<Rightarrow> nat \<Rightarrow> execution \<Rightarrow> nat \<Rightarrow> exec_step \<Rightarrow> string \<Rightarrow> step_status \<Rightarrow> step_status
      \<Rightarrow> string \<Rightarrow> db \<Rightarrow> db result" where
  "emit_step_transition_audit now e x i s runner_id previous new_status error_message d =
    (case step_event_type new_status of
       None \<Rightarrow> Inr d
     | Some event_type \<Rightarrow>
       res_bind (v2_step_audit_metadata s x) (\<lambda>v2.
       audit_emit now (ex_org x) (actor_from_runner runner_id) event_type ''execution_step'' i ([
         (''execution_id'', JStr (id_str e)), (''step_id'', JStr (id_str i)),
         (''step_key'', JStr (st_key s)), (''position'', JInt (int (st_position s))),
         (''step_type'', JStr (st_type s)), (''risk_level'', JStr (st_risk s)),
         (''previous_status'', JStr (step_status_str previous)),
         (''new_status'', JStr (step_status_str new_status)),
         (''exit_code'', opt_json JInt (st_exit_code s)),
         (''error_message'', JStr (if new_status = StFailed then take 500 error_message else [])),
         (''failure_kind'', JStr (st_failure_kind s)), (''timed_out'', JBool (st_timed_out s)),
         (''cancelled'', JBool (st_cancelled s)),
         (''sandbox_provider'', JStr (st_sandbox_provider s)),
         (''sandbox_run_id'', JStr (st_sandbox_run_id s))] @ v2) d))"

text \<open>What the runner reports about a step.\<close>

record step_report =
  sr_started_at :: "timestamp option"
  sr_finished_at :: "timestamp option"
  sr_exit_code :: "int option"
  sr_error :: string
  sr_failure_kind :: string
  sr_timed_out :: bool
  sr_cancelled :: bool
  sr_sandbox_provider :: string
  sr_sandbox_run_id :: string
  sr_command_sha :: string
  sr_result_metadata :: "json option"

definition empty_report :: step_report where
  "empty_report = \<lparr>sr_started_at = None, sr_finished_at = None, sr_exit_code = None, sr_error = [],
     sr_failure_kind = [], sr_timed_out = False, sr_cancelled = False, sr_sandbox_provider = [],
     sr_sandbox_run_id = [], sr_command_sha = [], sr_result_metadata = None\<rparr>"

definition apply_report :: "timestamp \<Rightarrow> step_status \<Rightarrow> step_report \<Rightarrow> exec_step \<Rightarrow> exec_step" where
  "apply_report now new_status r s =
    (let s = s\<lparr>st_status := new_status\<rparr>;
         s = (if new_status = StRunning
              then s\<lparr>st_started_at := Some (case sr_started_at r of None \<Rightarrow> now | Some t \<Rightarrow> t)\<rparr>
              else s)
     in if new_status = StSucceeded \<or> new_status = StFailed then
          s\<lparr>st_finished_at := Some (case sr_finished_at r of None \<Rightarrow> now | Some t \<Rightarrow> t),
            st_exit_code := (if sr_exit_code r \<noteq> None then sr_exit_code r else st_exit_code s),
            st_error := (if sr_error r \<noteq> [] then sr_error r else st_error s),
            st_failure_kind := sr_failure_kind r, st_timed_out := sr_timed_out r,
            st_cancelled := sr_cancelled r, st_sandbox_provider := sr_sandbox_provider r,
            st_sandbox_run_id := sr_sandbox_run_id r, st_command_sha := sr_command_sha r,
            st_result_metadata :=
              (case sr_result_metadata r of None \<Rightarrow> JObj [] | Some m \<Rightarrow> m)\<rparr>
        else s)"

text \<open>The first step that starts moves the execution from claimed to running.\<close>

definition start_if_claimed :: "step_status \<Rightarrow> exec_step \<Rightarrow> execution \<Rightarrow> execution" where
  "start_if_claimed new_status s x =
    (if ex_status x = ExClaimed \<and> new_status = StRunning
     then x\<lparr>ex_status := ExRunning,
        ex_started_at := (if ex_started_at x = None then st_started_at s else ex_started_at x)\<rparr>
     else x)"

definition update_execution_step ::
    "timestamp \<Rightarrow> nat \<Rightarrow> nat \<Rightarrow> string \<Rightarrow> string \<Rightarrow> step_status \<Rightarrow> step_report \<Rightarrow> bool \<Rightarrow> db
      \<Rightarrow> db result" where
  "update_execution_step now e i runner_id claim_token new_status r allow_running d =
    (case tget (executions d) e of
       None \<Rightarrow> Inl (NotFound ''execution'')
     | Some x \<Rightarrow>
       res_bind (validate_runner_ownership x runner_id claim_token) (\<lambda>_.
       case tget (exec_steps d) i of
         None \<Rightarrow> Inl (Domain InvalidStateTransitionError ''step_not_found'')
       | Some s \<Rightarrow>
          if st_exec s \<noteq> e then Inl (Domain InvalidStateTransitionError ''step_not_found'')
          else if new_status \<notin> set (if allow_running then VALID_STEP_START_TRANSITIONS (st_status s)
                                    else VALID_STEP_TRANSITIONS (st_status s))
            then Inl (Domain InvalidStateTransitionError ''invalid_state_transition'')
          else
            let s' = apply_report now new_status r s;
                x' = start_if_claimed new_status s' x;
                started = (ex_status x' \<noteq> ex_status x)
            in res_bind (emit_step_transition_audit now e x' i s' runner_id (st_status s)
                 new_status (sr_error r) (upd_exec e (\<lambda>_. x') (upd_step i (\<lambda>_. s') d))) (\<lambda>d.
               Inr (send_all (step_event e i s' #
                 (if started then [status_changed_event e ExRunning, Notify ''execution.started'' e]
                  else []) @
                 (case step_event_type new_status of
                    Some t \<Rightarrow> if new_status = StSucceeded then [] else [Notify t i]
                  | None \<Rightarrow> [])) d))))"

fun completion_event :: "exec_status \<Rightarrow> string" where
  "completion_event ExSucceeded = ''execution.completed''"
| "completion_event ExCancelled = ''execution.cancelled''"
| "completion_event _ = ''execution.failed''"

definition completed_at :: "timestamp \<Rightarrow> exec_status \<Rightarrow> execution \<Rightarrow> execution" where
  "completed_at now out x = x\<lparr>ex_status := out, ex_finished_at := Some now,
     ex_started_at := (if ex_started_at x = None then Some now else ex_started_at x)\<rparr>"

definition completion_messages :: "nat \<Rightarrow> exec_status \<Rightarrow> message list" where
  "completion_messages e out = [status_changed_event e out,
     stream_closed_event e out ''terminal_state'', Notify (completion_event out) e]"

text \<open>The transaction of \<open>complete_execution\<close>.\<close>

definition complete_tx ::
    "timestamp \<Rightarrow> nat \<Rightarrow> string \<Rightarrow> string \<Rightarrow> exec_status \<Rightarrow> db \<Rightarrow> db result" where
  "complete_tx now e runner_id claim_token out d =
    (case tget (executions d) e of
       None \<Rightarrow> Inl (NotFound ''execution'')
     | Some x \<Rightarrow>
       res_bind (validate_runner_ownership x runner_id claim_token) (\<lambda>_.
       if \<not> exec_active (ex_status x)
         then Inl (Domain InvalidStateTransitionError ''invalid_state_transition'')
       else if \<not> exec_terminal out
         then Inl (Domain InvalidStateTransitionError ''invalid_state_transition'')
       else res_bind (atomic (assert_execution_change_binding_ready now e runner_id
              (Some claim_token) d)) (\<lambda>(d, _).
         let x' = completed_at now out x
         in audit_emit now (ex_org x) (actor_from_runner runner_id) (completion_event out)
              ''execution'' e [
                (''previous_status'', JStr (exec_status_str (ex_status x))),
                (''new_status'', JStr (exec_status_str out)),
                (''started_at'', iso_json (ex_started_at x')),
                (''finished_at'', iso_json (ex_finished_at x'))]
              (upd_exec e (\<lambda>_. x') d))))"

text \<open>
  After the commit the lease is released and the change hook runs. Its error is raised again
  if the execution is bound to a change, with the completion already committed.
\<close>

definition complete_execution ::
    "timestamp \<Rightarrow> nat \<Rightarrow> string \<Rightarrow> string \<Rightarrow> exec_status \<Rightarrow> db \<Rightarrow> unit outcome" where
  "complete_execution now e runner_id claim_token out d =
    (case complete_tx now e runner_id claim_token out d of
       Inl er \<Rightarrow> (d, Inl er)
     | Inr d \<Rightarrow>
       let d = expire_leases now e LeaseReleased (exec_status_str out)
                 (send_all (completion_messages e out) d)
       in (case handle_bound_execution_completed now e out d of
             Inr d \<Rightarrow> (d, Inr ())
           | Inl er \<Rightarrow> (d, if binding_of_exec d e \<noteq> None then Inl er else Inr ())))"

section \<open>Lifecycles of executions and steps\<close>

text \<open>
  The moves the services make; the sources have no table for executions. The step moves are the
  two tables above and the move to \<open>waiting_for_approval\<close> of the start gate.
\<close>

fun exec_moves :: "exec_status \<Rightarrow> exec_status list" where
  "exec_moves ExQueued = [ExClaimed, ExCancelled]"
| "exec_moves ExClaimed = [ExRunning, ExSucceeded, ExFailed, ExCancelled]"
| "exec_moves ExRunning = [ExSucceeded, ExFailed, ExCancelled]"
| "exec_moves _ = []"

fun exec_rank :: "exec_status \<Rightarrow> nat" where
  "exec_rank ExQueued = 0"
| "exec_rank ExClaimed = 1"
| "exec_rank ExRunning = 2"
| "exec_rank _ = 3"

fun step_moves :: "step_status \<Rightarrow> step_status list" where
  "step_moves StPending = [StWaiting, StRunning, StFailed]"
| "step_moves StWaiting = [StRunning, StFailed]"
| "step_moves StRunning = [StSucceeded, StFailed]"
| "step_moves _ = []"

fun step_rank :: "step_status \<Rightarrow> nat" where
  "step_rank StPending = 0"
| "step_rank StWaiting = 1"
| "step_rank StRunning = 2"
| "step_rank _ = 3"

definition step_final :: "step_status \<Rightarrow> bool" where
  "step_final s \<longleftrightarrow> s \<in> {StSucceeded, StFailed, StSkipped, StCancelled}"

definition exec_final :: "exec_status \<Rightarrow> bool" where
  "exec_final s \<longleftrightarrow> exec_terminal s"

interpretation exec_lc: lifecycle exec_moves exec_rank exec_final
proof
  fix s t :: exec_status
  show "t \<in> set (exec_moves s) \<Longrightarrow> exec_rank s < exec_rank t"
    by (cases s) auto
  show "exec_final s \<longleftrightarrow> exec_moves s = []"
    by (cases s) (simp_all add: exec_final_def)
qed

interpretation step_lc: lifecycle step_moves step_rank step_final
proof
  fix s t :: step_status
  show "t \<in> set (step_moves s) \<Longrightarrow> step_rank s < step_rank t"
    by (cases s) auto
  show "step_final s \<longleftrightarrow> step_moves s = []"
    by (cases s) (simp_all add: step_final_def)
qed

text \<open>What never changes of an execution and of a step.\<close>

definition exec_fixed where
  "exec_fixed x = (ex_org x, ex_workflow x, ex_workflow_version x, ex_snapshot x,
     ex_snapshot_hash x, ex_mode x, ex_created_at x)"

definition step_fixed where
  "step_fixed s = (st_exec s, st_position s, st_key s, st_name s, st_type s, st_risk s,
     st_command s, st_requires_approval s, st_snapshot s)"

definition exec_row_ok :: "execution \<Rightarrow> execution \<Rightarrow> bool" where
  "exec_row_ok x y \<longleftrightarrow> exec_fixed y = exec_fixed x \<and> exec_lc.moves\<^sup>*\<^sup>* (ex_status x) (ex_status y)"

definition step_row_ok :: "exec_step \<Rightarrow> exec_step \<Rightarrow> bool" where
  "step_row_ok s t \<longleftrightarrow> step_fixed t = step_fixed s \<and> step_lc.moves\<^sup>*\<^sup>* (st_status s) (st_status t)"

definition exec_progress :: "db \<Rightarrow> db \<Rightarrow> bool" where
  "exec_progress d d' \<longleftrightarrow> table_within exec_row_ok (executions d) (executions d') \<and>
     table_within step_row_ok (exec_steps d) (exec_steps d')"

lemma exec_row_ok_refl: "exec_row_ok x x"
  by (simp add: exec_row_ok_def)

lemma step_row_ok_refl: "step_row_ok x x"
  by (simp add: step_row_ok_def)

lemma exec_row_ok_trans: "exec_row_ok x y \<Longrightarrow> exec_row_ok y z \<Longrightarrow> exec_row_ok x z"
  by (auto simp: exec_row_ok_def)

lemma step_row_ok_trans: "step_row_ok x y \<Longrightarrow> step_row_ok y z \<Longrightarrow> step_row_ok x z"
  by (auto simp: step_row_ok_def)

interpretation eprog: effect_order exec_progress
proof
  show "exec_progress d d" for d
    by (simp add: exec_progress_def table_within_refl exec_row_ok_refl step_row_ok_refl)
  show "exec_progress d d2" if "exec_progress d d1" "exec_progress d1 d2" for d d1 d2
    using that unfolding exec_progress_def
    by (blast intro: table_within_trans exec_row_ok_trans step_row_ok_trans)
qed

lemma exec_progress_same:
  "executions d' = executions d \<Longrightarrow> exec_steps d' = exec_steps d \<Longrightarrow> exec_progress d d'"
  using eprog.refl [of d] by (simp add: exec_progress_def)

lemma change_exec_progress: "change_progress d d' \<Longrightarrow> exec_progress d d'"
  by (rule exec_progress_same) (auto simp: change_progress_def control_part_def)

lemma exec_progress_upd:
  assumes "executions d' = tupd e f (executions d)" and "exec_steps d' = exec_steps d"
    and "\<And>x. tget (executions d) e = Some x \<Longrightarrow> exec_row_ok x (f x)"
  shows "exec_progress d d'"
  using assms unfolding exec_progress_def
  by (simp add: table_within_tupd table_within_refl exec_row_ok_refl step_row_ok_refl)

lemma completion_hook_progress: "exec_progress d (completion_hook_logged now e s d)"
  by (auto simp: completion_hook_logged_def intro: eprog.refl change_exec_progress
      handle_bound_execution_completed_progress split: sum.splits)

lemma moves_once: "t \<in> set (exec_moves s) \<Longrightarrow> exec_lc.moves\<^sup>*\<^sup>* s t"
  by (auto simp: exec_lc.moves_def)

lemma step_moves_once: "t \<in> set (step_moves s) \<Longrightarrow> step_lc.moves\<^sup>*\<^sup>* s t"
  by (auto simp: step_lc.moves_def)

lemma failed_at_ok: "exec_active (ex_status x) \<Longrightarrow> exec_row_ok x (failed_at now x)"
  by (auto simp: exec_row_ok_def exec_fixed_def failed_at_def intro!: moves_once)

lemma cancelled_at_ok:
  "ex_status x = ExQueued \<or> ex_status x = ExClaimed \<Longrightarrow> exec_row_ok x (cancelled_at now x)"
  by (auto simp: exec_row_ok_def exec_fixed_def cancelled_at_def intro!: moves_once)

lemma expire_unbound_progress:
  assumes "expire_unbound_dispatch_for_execution now e d = Inr (d', skip)"
  shows "exec_progress d d'"
proof -
  have s: "exec_steps d' = exec_steps d"
    using expire_unbound_executions(4) [OF assms] by (simp add: control_part_def)
  from expire_unbound_executions(1) [OF assms] show ?thesis
  proof
    assume "executions d' = executions d"
    then show ?thesis using s by (rule exec_progress_same)
  next
    assume "\<exists>x. tget (executions d) e = Some x \<and> (ex_status x = ExQueued \<or> ex_status x = ExClaimed) \<and>
        executions d' = tupd e (cancelled_at now) (executions d)"
    then show ?thesis
      by (auto intro!: exec_progress_upd [OF _ s] cancelled_at_ok)
  qed
qed

text \<open>An audit event and messages leave the execution tables alone.\<close>

lemma audit_emit_tables:
  "audit_emit now org a et ot oid md d = Inr d' \<Longrightarrow>
    executions d' = executions d \<and> exec_steps d' = exec_steps d \<and> leases d' = leases d \<and>
    changes d' = changes d \<and> bindings d' = bindings d \<and> approval_reqs d' = approval_reqs d \<and>
    approval_decs d' = approval_decs d \<and> target_locks d' = target_locks d \<and>
    control_part d' = control_part d \<and> next_id d' = next_id d"
  by (drule audit_emit_Inr) (auto simp: control_part_def)

lemma send_tables [simp]:
  "executions (send_all ms d) = executions d" "exec_steps (send_all ms d) = exec_steps d"
  "executions (send m d) = executions d" "exec_steps (send m d) = exec_steps d"
  "leases (send_all ms d) = leases d" "leases (send m d) = leases d"
  by (simp_all add: send_all_def send_def)

lemma expire_leases_tables [simp]:
  "executions (expire_leases now e st r d) = executions d"
  "exec_steps (expire_leases now e st r d) = exec_steps d"
  by (simp_all add: expire_leases_def)

lemma upd_exec_tables [simp]:
  "executions (upd_exec e f d) = tupd e f (executions d)"
  "exec_steps (upd_exec e f d) = exec_steps d" "leases (upd_exec e f d) = leases d"
  by (simp_all add: upd_exec_def)

lemma upd_step_tables [simp]:
  "exec_steps (upd_step i f d) = tupd i f (exec_steps d)"
  "executions (upd_step i f d) = executions d" "leases (upd_step i f d) = leases d"
  by (simp_all add: upd_step_def)

lemma cancel_execution_progress:
  assumes "cancel_execution now e actor d = Inr d'"
  shows "exec_progress d d'"
proof -
  from assms obtain x where x: "tget (executions d) e = Some x"
    by (auto simp: cancel_execution_def split: option.splits)
  with assms consider
      (queued) "ex_status x = ExQueued" "executions d' = tupd e (\<lambda>x. x\<lparr>ex_status := ExCancelled\<rparr>) (executions d)"
        "exec_steps d' = exec_steps d"
    | (active) who where "executions d' = tupd e (\<lambda>x. x\<lparr>ex_cancel_at := Some now, ex_cancel_by := who\<rparr>) (executions d)"
        "exec_steps d' = exec_steps d"
    by (auto simp: cancel_execution_def Let_def res_bind_eq_Inr dest!: audit_emit_tables
        split: if_splits)
  then show ?thesis
  proof cases
    case queued
    then show ?thesis using x
      by (intro exec_progress_upd) (auto simp: exec_row_ok_def exec_fixed_def intro!: moves_once)
  next
    case active
    then show ?thesis
      by (intro exec_progress_upd) (auto simp: exec_row_ok_def exec_fixed_def)
  qed
qed

lemma fail_running_steps_within: "table_within step_row_ok t (fail_running_steps now e t)"
  unfolding fail_running_steps_def
  by (rule table_within_tupd_where)
    (auto simp: step_row_ok_def step_fixed_def intro!: step_moves_once)

lemma recover_one_progress:
  assumes "recover_one now th sb e d = Inr (d', b)"
  shows "exec_progress d d'"
proof (cases "d' = d")
  case False
  with assms obtain x d1 where x: "tget (executions d) e = Some x" "is_stuck sb x"
    and d1: "executions d1 = tupd e (failed_at now) (executions d)"
      "exec_steps d1 = fail_running_steps now e (exec_steps d)"
    and d': "d' = completion_hook_logged now e ExFailed
       (expire_leases now e LeaseExpired ''heartbeat_timeout'' d1)"
    by (auto simp: recover_one_def Let_def res_bind_eq_Inr dest!: audit_emit_tables
        split: option.splits if_splits)
  have "exec_progress d d1"
    unfolding exec_progress_def d1
    using x fail_running_steps_within
    by (auto intro!: table_within_tupd exec_row_ok_refl failed_at_ok simp: is_stuck_def)
  moreover have "exec_progress d1 (expire_leases now e LeaseExpired ''heartbeat_timeout'' d1)"
    by (rule exec_progress_same) simp_all
  ultimately show ?thesis
    unfolding d' by (blast intro: eprog.trans completion_hook_progress)
qed (simp add: eprog.refl)

lemma recover_all_progress:
  "recover_all now th sb es acc d = (d', r) \<Longrightarrow> exec_progress d d'"
proof (induction es arbitrary: acc d)
  case (Cons e es)
  then show ?case
    by (auto split: sum.splits prod.splits intro: eprog.refl eprog.trans recover_one_progress)
qed (simp add: eprog.refl)

lemma approval_timeout_tx_tables:
  assumes "approval_timeout_tx now e x i s a req d = Inr d'"
  shows "executions d' = tupd e (failed_at now) (executions d)"
    and "exec_steps d' = tupd i (\<lambda>s. s\<lparr>st_status := StFailed, st_finished_at := Some now,
      st_error := ''Step marked failed by watchdog: approval timeout''\<rparr>) (exec_steps d)"
    and "leases d' = leases d"
  using assms
  by (auto simp: approval_timeout_tx_def Let_def res_bind_eq_Inr dest!: audit_emit_tables)

lemma fail_execution_for_approval_timeout_progress:
  assumes "fail_execution_for_approval_timeout now e i a req d = Inr (d', b)"
  shows "exec_progress d d'"
proof (cases "d' = d")
  case False
  with assms obtain x s d1 ms where x: "tget (executions d) e = Some x" "exec_active (ex_status x)"
    and s: "tget (exec_steps d) i = Some s" "st_status s = StWaiting"
    and tx: "approval_timeout_tx now e x i s a req d = Inr d1"
    and d': "d' = completion_hook_logged now e ExFailed (send_all ms d1)"
    by (auto simp: fail_execution_for_approval_timeout_def res_bind_eq_Inr
        split: option.splits if_splits)
  note t = approval_timeout_tx_tables [OF tx]
  have "exec_progress d (send_all ms d1)"
    unfolding exec_progress_def
    using x s by (auto simp: t intro!: table_within_tupd exec_row_ok_refl step_row_ok_refl failed_at_ok)
      (auto simp: step_row_ok_def step_fixed_def intro!: step_moves_once)
  then show ?thesis
    unfolding d' by (blast intro: eprog.trans completion_hook_progress)
qed (simp add: eprog.refl)

lemma heartbeat_execution_progress:
  assumes "heartbeat_execution now e rid tok d = (d', r)"
  shows "exec_progress d d'"
proof -
  from assms consider "d' = d"
    | d1 q where "enforce_emergency_expiry_for_execution now e d = (d1, q)"
        "d' = d1 \<or> d' = upd_exec e (\<lambda>x. x\<lparr>ex_heartbeat_at := Some now\<rparr>) d1"
    by (auto simp: heartbeat_execution_def then_do_eq split: option.splits if_splits sum.splits)
  then show ?thesis
  proof cases
    case 2
    have "exec_progress d d1"
      using 2(1) by (intro change_exec_progress enforce_emergency_expiry_for_execution_progress)
    moreover have "exec_progress d1 d'"
      using 2(2) by (auto intro!: eprog.refl exec_progress_upd simp: exec_row_ok_def exec_fixed_def)
    ultimately show ?thesis by (rule eprog.trans)
  qed (simp add: eprog.refl)
qed

text \<open>What a step transition that succeeds has checked, and what it writes.\<close>

lemma emit_step_transition_audit_tables:
  assumes "emit_step_transition_audit now e x i s rid st0 st1 err d = Inr d'"
  shows "control_part d' = control_part d" "leases d' = leases d" "changes d' = changes d"
    "bindings d' = bindings d" "approval_reqs d' = approval_reqs d"
    "approval_decs d' = approval_decs d" "executions d' = executions d" "exec_steps d' = exec_steps d"
  using assms
  by (auto simp: emit_step_transition_audit_def res_bind_eq_Inr split: option.splits
      dest!: audit_emit_tables)

lemma update_execution_step_Inr:
  assumes "update_execution_step now e i rid tok new r allow d = Inr d'"
  obtains x s where "tget (executions d) e = Some x" "tget (exec_steps d) i = Some s"
    "st_exec s = e" "validate_runner_ownership x rid tok = Inr ()"
    "new \<in> set (if allow then VALID_STEP_START_TRANSITIONS (st_status s)
                else VALID_STEP_TRANSITIONS (st_status s))"
    "executions d' = tupd e (\<lambda>_. start_if_claimed new (apply_report now new r s) x) (executions d)"
    "exec_steps d' = tupd i (\<lambda>_. apply_report now new r s) (exec_steps d)"
    "leases d' = leases d" "changes d' = changes d" "bindings d' = bindings d"
    "approval_reqs d' = approval_reqs d" "approval_decs d' = approval_decs d"
proof -
  from assms obtain x s d1 where
    "tget (executions d) e = Some x" "tget (exec_steps d) i = Some s"
    "st_exec s = e" "validate_runner_ownership x rid tok = Inr ()"
    "new \<in> set (if allow then VALID_STEP_START_TRANSITIONS (st_status s)
                else VALID_STEP_TRANSITIONS (st_status s))"
    and em: "emit_step_transition_audit now e (start_if_claimed new (apply_report now new r s) x) i
        (apply_report now new r s) rid (st_status s) new (sr_error r)
        (upd_exec e (\<lambda>_. start_if_claimed new (apply_report now new r s) x)
          (upd_step i (\<lambda>_. apply_report now new r s) d)) = Inr d1"
    and d': "\<exists>ms. d' = send_all ms d1"
    unfolding update_execution_step_def Let_def
    by (auto simp del: send_tables simp: res_bind_eq_Inr split: option.splits if_splits)
  moreover note emit_step_transition_audit_tables [OF em]
  ultimately show ?thesis
    by (intro that) (auto simp: send_all_def upd_exec_def upd_step_def)
qed

lemma apply_report_ok:
  "new \<in> set (step_moves (st_status s)) \<Longrightarrow> step_row_ok s (apply_report now new r s)"
  by (auto simp: step_row_ok_def step_fixed_def apply_report_def Let_def intro!: step_moves_once)

lemma apply_report_status [simp]: "st_status (apply_report now new r s) = new"
  by (simp add: apply_report_def Let_def)

lemma start_if_claimed_ok: "exec_row_ok x (start_if_claimed new s x)"
  by (auto simp: exec_row_ok_def exec_fixed_def start_if_claimed_def intro!: moves_once)

lemma service_step_moves:
  "new \<in> set (if allow then VALID_STEP_START_TRANSITIONS s else VALID_STEP_TRANSITIONS s) \<Longrightarrow>
     new \<in> set (step_moves s)"
  by (cases s; cases allow) auto

lemma update_execution_step_progress:
  assumes "update_execution_step now e i rid tok new r allow d = Inr d'"
  shows "exec_progress d d'"
  using assms
proof (rule update_execution_step_Inr)
  fix x s
  assume "tget (executions d) e = Some x" "tget (exec_steps d) i = Some s"
    and "new \<in> set (if allow then VALID_STEP_START_TRANSITIONS (st_status s)
                else VALID_STEP_TRANSITIONS (st_status s))"
    and "executions d' = tupd e (\<lambda>_. start_if_claimed new (apply_report now new r s) x) (executions d)"
    and "exec_steps d' = tupd i (\<lambda>_. apply_report now new r s) (exec_steps d)"
  then show ?thesis
    unfolding exec_progress_def
    by (auto intro!: table_within_tupd exec_row_ok_refl step_row_ok_refl start_if_claimed_ok
        apply_report_ok dest: service_step_moves)
qed

lemma assert_binding_ready_progress:
  assumes "assert_execution_change_binding_ready now e rid tok d = (d', r)"
  shows "change_progress d d'"
  using assms
  by (auto simp: assert_execution_change_binding_ready_def then_do_eq intro: progress.refl
      enforce_emergency_expiry_for_change_progress split: option.splits if_splits prod.splits)

text \<open>What a completion that commits has checked, and what its transaction writes.\<close>

lemma complete_tx_Inr:
  assumes "complete_tx now e rid tok out d = Inr d'"
  obtains x d1 where "tget (executions d) e = Some x" "validate_runner_ownership x rid tok = Inr ()"
    "exec_active (ex_status x)" "exec_terminal out"
    "assert_execution_change_binding_ready now e rid (Some tok) d = (d1, Inr ())"
    "executions d' = tupd e (\<lambda>_. completed_at now out x) (executions d)"
    "exec_steps d' = exec_steps d" "leases d' = leases d"
    "bindings d' = bindings d1" "changes d' = changes d1" "target_locks d' = target_locks d1"
    "next_id d' = next_id d1"
proof -
  obtain x where x: "tget (executions d) e = Some x"
    using assms by (auto simp: complete_tx_def split: option.splits)
  from assms obtain d1 where ok: "validate_runner_ownership x rid tok = Inr ()"
      "exec_active (ex_status x)" "exec_terminal out"
    and b: "assert_execution_change_binding_ready now e rid (Some tok) d = (d1, Inr ())"
    and em: "\<exists>a et md. audit_emit now (ex_org x) a et ''execution'' e md
       (upd_exec e (\<lambda>_. completed_at now out x) d1) = Inr d'"
    unfolding complete_tx_def x Let_def option.case res_bind_eq_Inr atomic_Inr
    by (auto simp: res_bind_eq_Inr atomic_Inr simp del: completion_event.simps split: if_splits;
        blast)
  have "control_part d1 = control_part d"
    using assert_binding_ready_progress [OF b] by (simp add: change_progress_def)
  then have d1: "executions d1 = executions d" "exec_steps d1 = exec_steps d" "leases d1 = leases d"
    by (auto simp: control_part_def)
  show ?thesis
    by (rule that [OF x ok b]) (use em d1 in \<open>auto dest!: audit_emit_tables simp: upd_exec_def\<close>)
qed

lemma completed_at_ok:
  "exec_active (ex_status x) \<Longrightarrow> exec_terminal out \<Longrightarrow> exec_row_ok x (completed_at now out x)"
  by (auto simp: exec_row_ok_def exec_fixed_def completed_at_def intro!: moves_once)

lemma complete_execution_parts:
  assumes "complete_execution now e rid tok out d = (d', r)"
  obtains (rejected) er where "complete_tx now e rid tok out d = Inl er" "d' = d" "r = Inl er"
  | (committed) d1 d2 where "complete_tx now e rid tok out d = Inr d1"
      "d2 = expire_leases now e LeaseReleased (exec_status_str out)
         (send_all (completion_messages e out) d1)"
      "d' = completion_hook_logged now e out d2"
  using assms
  by (auto simp: complete_execution_def Let_def completion_hook_logged_def split: sum.splits)

lemma complete_execution_progress:
  assumes "complete_execution now e rid tok out d = (d', r)"
  shows "exec_progress d d'"
  using assms
proof (cases rule: complete_execution_parts)
  case rejected
  then show ?thesis by (simp add: eprog.refl)
next
  case (committed d1 d2)
  from committed(1) obtain x where "tget (executions d) e = Some x" "exec_active (ex_status x)"
      "exec_terminal out" "executions d1 = tupd e (\<lambda>_. completed_at now out x) (executions d)"
      "exec_steps d1 = exec_steps d"
    by (rule complete_tx_Inr)
  then have "exec_progress d d2"
    unfolding committed(2) by (intro exec_progress_upd) (auto intro: completed_at_ok)
  then show ?thesis unfolding committed(3) by (blast intro: eprog.trans completion_hook_progress)
qed

section \<open>What creation materialises\<close>

lemma insert_steps_tables:
  "exec_steps (insert_steps ss d) =
     exec_steps d @ zip [next_id d ..< next_id d + length ss] ss \<and>
   executions (insert_steps ss d) = executions d \<and>
   next_id (insert_steps ss d) = next_id d + length ss"
proof (induction ss arbitrary: d)
  case (Cons s ss)
  have "[next_id d ..< next_id d + length (s # ss)] =
      next_id d # [Suc (next_id d) ..< Suc (next_id d) + length ss]"
    by (simp add: upt_rec)
  then show ?case by (simp add: Cons.IH fresh_def tins_def)
qed simp

lemma raw_steps_length: "raw_steps v ss = Inr rs \<Longrightarrow> length rs = length ss"
  by (induction ss arbitrary: rs) (auto simp: res_bind_eq_Inr)

lemma raw_steps_snapshots: "raw_steps v ss = Inr rs \<Longrightarrow> map rs_snapshot rs = ss"
  by (induction ss arbitrary: rs) (auto simp: res_bind_eq_Inr raw_step_of_def Let_def split: if_splits)

lemma approvals_of_length: "approvals_of rs = Inr bs \<Longrightarrow> length bs = length rs"
  by (induction rs arbitrary: bs) (auto simp: res_bind_eq_Inr)

lemma step_rows_Inr:
  assumes "step_rows e raws = Inr rows"
  shows "length rows = length raws" "map st_position rows = [1 ..< Suc (length raws)]"
    "map st_key rows = map (\<lambda>r. py_str (rs_key r)) raws" "distinct (map st_key rows)"
    "map st_snapshot rows = map rs_snapshot raws"
    "\<forall>s \<in> set rows. st_exec s = e \<and> st_status s = StPending"
proof -
  from assms obtain bs where bs: "approvals_of raws = Inr bs"
    and rows: "rows = map (\<lambda>(n, r, b). new_step e n r (b = Some True)) (enumerate 1 (zip raws bs))"
    and dist: "distinct (map (\<lambda>r. py_str (rs_key r)) raws)"
    by (auto simp: step_rows_def res_bind_eq_Inr split: if_splits)
  have len: "length bs = length raws" using approvals_of_length [OF bs] .
  show "length rows = length raws" by (simp add: rows len)
  have nth: "rows ! k = new_step e (Suc k) (raws ! k) (bs ! k = Some True)"
    if "k < length raws" for k
    using that len by (simp add: rows nth_enumerate_eq)
  show "map st_position rows = [1 ..< Suc (length raws)]"
    by (rule nth_equalityI) (simp_all del: upt_Suc add: rows len nth_enumerate_eq new_step_def)
  show keys: "map st_key rows = map (\<lambda>r. py_str (rs_key r)) raws"
    by (rule nth_equalityI) (simp_all add: rows len nth_enumerate_eq new_step_def)
  show "distinct (map st_key rows)" unfolding keys using dist .
  show "map st_snapshot rows = map rs_snapshot raws"
    by (rule nth_equalityI) (simp_all add: rows len nth_enumerate_eq new_step_def)
  show "\<forall>s \<in> set rows. st_exec s = e \<and> st_status s = StPending"
    by (auto simp: rows new_step_def)
qed

lemma insert_execution_Inr:
  assumes "insert_execution now w wfl actor mode d = Inr (d', e)"
  obtains steps raws rows where "e = next_id d"
    "py_iter (fget (fields_of (wf_definition wfl)) ''steps'' JNull) = Inr steps"
    "raw_steps (wf_schema_version wfl) steps = Inr raws" "step_rows e raws = Inr rows"
    "executions d' = tins e (new_execution now w wfl
       (compute_snapshot_hash (wf_definition wfl)) mode) (executions d)"
    "exec_steps d' = exec_steps d @ zip [Suc e ..< Suc e + length rows] rows"
proof -
  define d1 where "d1 = d\<lparr>next_id := Suc (next_id d), executions := tins (next_id d)
     (new_execution now w wfl (compute_snapshot_hash (wf_definition wfl)) mode) (executions d)\<rparr>"
  from assms obtain steps raws rows a md where e: "e = next_id d"
    and st: "py_iter (fget (fields_of (wf_definition wfl)) ''steps'' JNull) = Inr steps"
      "raw_steps (wf_schema_version wfl) steps = Inr raws" "step_rows e raws = Inr rows"
    and em: "audit_emit now (wf_org wfl) a ''execution.created'' ''execution'' e md
       (insert_steps rows d1) = Inr d'"
    unfolding d1_def by (auto simp: insert_execution_def Let_def fresh_def res_bind_eq_Inr)
  from em have "executions d' = executions (insert_steps rows d1)"
    "exec_steps d' = exec_steps (insert_steps rows d1)"
    by (auto dest: audit_emit_tables)
  then show ?thesis
    by (intro that [OF e st]) (simp_all add: insert_steps_tables d1_def e)
qed

lemma create_execution_parts:
  assumes "create_execution env now w actor mode fc d = Inr (d', e)"
  obtains wfl d1 where "tget (workflows d) w = Some wfl"
    "check_executable env d w wfl mode fc = Inr ()"
    "insert_execution now w wfl actor mode d = Inr (d1, e)"
    "d' = send (Notify ''execution.created'' e) d1"
  using assms
  by (auto simp: create_execution_def res_bind_eq_Inr split: option.splits sum.splits err.splits)

lemma table_within_append:
  assumes "\<And>r. P r r"
  shows "table_within P t (t @ u)"
  using assms by (auto simp: table_within_def tget_def map_add_def split: option.splits)

lemma create_execution_progress:
  assumes "create_execution env now w actor mode fc d = Inr (d', e)"
  shows "exec_progress d d'"
  using assms
proof (rule create_execution_parts)
  fix wfl d1
  assume "insert_execution now w wfl actor mode d = Inr (d1, e)"
    and d': "d' = send (Notify ''execution.created'' e) d1"
  then obtain rows x where "executions d1 = tins e x (executions d)"
      "exec_steps d1 = exec_steps d @ zip [Suc e ..< Suc e + length rows] rows"
    by (metis insert_execution_Inr)
  then show ?thesis
    unfolding exec_progress_def d'
    by (simp add: table_within_tins table_within_append exec_row_ok_refl step_row_ok_refl)
qed

section \<open>The watchdog as a sweep\<close>

lemma completion_hook_control: "control_part (completion_hook_logged now e s d) = control_part d"
  using handle_bound_execution_completed_progress [of now e s d]
  by (auto simp: completion_hook_logged_def change_progress_def split: sum.splits)

lemma recover_one_cases:
  assumes "recover_one now th sb e d = Inr (d', b)"
  obtains (skip) "d' = d" "\<not> b" "\<And>x. tget (executions d) e = Some x \<Longrightarrow> \<not> is_stuck sb x"
  | (failed) x d1 where "tget (executions d) e = Some x" "is_stuck sb x" b
      "executions d1 = tupd e (failed_at now) (executions d)"
      "exec_steps d1 = fail_running_steps now e (exec_steps d)" "leases d1 = leases d"
      "d' = completion_hook_logged now e ExFailed (expire_leases now e LeaseExpired ''heartbeat_timeout'' d1)"
proof (cases "\<exists>x. tget (executions d) e = Some x \<and> is_stuck sb x")
  case True
  then obtain x where x: "tget (executions d) e = Some x" "is_stuck sb x" by blast
  with assms obtain d1 where "b" "executions d1 = tupd e (failed_at now) (executions d)"
      "exec_steps d1 = fail_running_steps now e (exec_steps d)" "leases d1 = leases d"
      "d' = completion_hook_logged now e ExFailed (expire_leases now e LeaseExpired ''heartbeat_timeout'' d1)"
    by (auto simp: recover_one_def Let_def res_bind_eq_Inr dest!: audit_emit_tables)
  with x show ?thesis by (intro failed)
next
  case False
  with assms show ?thesis
    by (intro skip) (auto simp: recover_one_def split: option.splits)
qed

lemma recover_one_Inr:
  assumes "recover_one now th sb e d = Inr (d', b)"
  shows "b = (case tget (executions d) e of None \<Rightarrow> False | Some x \<Rightarrow> is_stuck sb x)"
    and "executions d' = (if b then tupd e (failed_at now) (executions d) else executions d)"
    and "exec_steps d' = (if b then fail_running_steps now e (exec_steps d) else exec_steps d)"
    and "leases d' = (if b then leases (expire_leases now e LeaseExpired ''heartbeat_timeout'' d)
       else leases d)"
proof -
  have c: "executions (completion_hook_logged now e s d2) = executions d2"
    "exec_steps (completion_hook_logged now e s d2) = exec_steps d2"
    "leases (completion_hook_logged now e s d2) = leases d2" for s d2
    using completion_hook_control [of now e s d2] by (simp_all add: control_part_def)
  show "b = (case tget (executions d) e of None \<Rightarrow> False | Some x \<Rightarrow> is_stuck sb x)"
    using assms by (cases rule: recover_one_cases) (auto split: option.splits)
  show "executions d' = (if b then tupd e (failed_at now) (executions d) else executions d)"
    "exec_steps d' = (if b then fail_running_steps now e (exec_steps d) else exec_steps d)"
    "leases d' = (if b then leases (expire_leases now e LeaseExpired ''heartbeat_timeout'' d) else leases d)"
    using assms by (cases rule: recover_one_cases; simp add: c expire_leases_def)+
qed

lemma expire_leases_none:
  assumes "(i, l) \<in> set (leases (expire_leases now e st why d))" and "st \<noteq> LeaseActive" and "ls_exec l = e"
  shows "ls_status l \<noteq> LeaseActive"
proof -
  from assms(1) obtain l0 where "l = (if ls_exec l0 = e \<and> ls_status l0 = LeaseActive
      then l0\<lparr>ls_status := st, ls_released_at := Some now, ls_reason := why\<rparr> else l0)"
    by (auto simp: expire_leases_def set_tupd_where)
  with assms(2,3) show ?thesis by (simp split: if_splits)
qed

lemma not_stuck_failed [simp]: "\<not> is_stuck sb (failed_at now x)"
  by (simp add: is_stuck_def failed_at_def)

lemma sweep_twf: "twf t \<Longrightarrow> twf (tbl.sweep P f ks t)"
  unfolding tbl.sweep_def by (induction ks arbitrary: t) (auto simp: table_simps split: option.splits)

lemma recover_all_sweep:
  assumes "recover_all now th sb es acc d = (d', Inr rec)"
  shows "executions d' = tbl.sweep (\<lambda>_. is_stuck sb) (failed_at now) es (executions d) \<and>
     (distinct es \<longrightarrow> rec = acc @ filter (\<lambda>e. case tget (executions d) e of
        None \<Rightarrow> False | Some x \<Rightarrow> is_stuck sb x) es)"
  using assms
proof (induction es arbitrary: acc d)
  case Nil
  then show ?case by (simp add: tbl.sweep_def)
next
  case (Cons e es)
  from Cons.prems obtain d1 b where o: "recover_one now th sb e d = Inr (d1, b)"
    and r: "recover_all now th sb es (if b then acc @ [e] else acc) d1 = (d', Inr rec)"
    by (auto split: sum.splits prod.splits)
  note one = recover_one_Inr [OF o]
  have same: "tget (executions d1) i = tget (executions d) i" if "i \<noteq> e" for i
    using that by (simp add: one(2) table_simps)
  have "filter (\<lambda>e. case tget (executions d1) e of None \<Rightarrow> False | Some x \<Rightarrow> is_stuck sb x) es =
      filter (\<lambda>e. case tget (executions d) e of None \<Rightarrow> False | Some x \<Rightarrow> is_stuck sb x) es"
    if "e \<notin> set es"
    using that same by (intro filter_cong refl) (metis)
  moreover have "tbl.sweep (\<lambda>_. is_stuck sb) (failed_at now) (e # es) (executions d) =
      tbl.sweep (\<lambda>_. is_stuck sb) (failed_at now) es (executions d1)"
    using one(1,2) by (auto simp: tbl.sweep_def split: option.splits)
  ultimately show ?case
    using Cons.IH [OF r] one(1) by (auto split: option.splits)
qed

section \<open>Properties\<close>

text \<open>
  C18: creating an execution materialises the published workflow: one queued execution with the
  definition, its version and its hash, and one pending step per step of the definition, in order, at
  positions 1, 2, ..., with pairwise different keys and the step's own definition as snapshot. All
  other executions and steps are untouched.
\<close>

theorem create_execution_materialises:
  assumes "create_execution env now w actor mode fc d = Inr (d', e)"
    and "tget (executions d) (next_id d) = None"
  shows "\<exists>wfl x ss rows. tget (workflows d) w = Some wfl \<and> wf_status wfl = WfPublished \<and>
     \<not> wf_requires_review wfl \<and> executions d' = tins e x (executions d) \<and>
     tget (executions d') e = Some x \<and> ex_status x = ExQueued \<and> ex_org x = wf_org wfl \<and>
     ex_workflow x = w \<and> ex_workflow_version x = wf_version wfl \<and>
     ex_snapshot x = wf_definition wfl \<and> ex_mode x = mode \<and> ex_claim_token x = None \<and>
     ex_snapshot_hash x = sha256_hex (utf8 (dumps (compact_opts True) (wf_definition wfl))) \<and>
     py_iter (fget (fields_of (wf_definition wfl)) ''steps'' JNull) = Inr ss \<and>
     exec_steps d' = exec_steps d @ zip [Suc e ..< Suc e + length rows] rows \<and>
     map st_snapshot rows = ss \<and> map st_position rows = [1 ..< Suc (length ss)] \<and>
     distinct (map st_key rows) \<and> (\<forall>s \<in> set rows. st_exec s = e \<and> st_status s = StPending)"
  using assms(1)
proof (rule create_execution_parts)
  fix wfl d1
  assume w: "tget (workflows d) w = Some wfl" and ok: "check_executable env d w wfl mode fc = Inr ()"
    and ins: "insert_execution now w wfl actor mode d = Inr (d1, e)"
    and d': "d' = send (Notify ''execution.created'' e) d1"
  from ok have p: "wf_status wfl = WfPublished" "\<not> wf_requires_review wfl"
    by (auto simp: check_executable_def split: if_splits)
  from ins obtain steps raws rows where e: "e = next_id d"
    and st: "py_iter (fget (fields_of (wf_definition wfl)) ''steps'' JNull) = Inr steps"
      "raw_steps (wf_schema_version wfl) steps = Inr raws" "step_rows e raws = Inr rows"
    and ex: "executions d1 = tins e (new_execution now w wfl
       (compute_snapshot_hash (wf_definition wfl)) mode) (executions d)"
      "exec_steps d1 = exec_steps d @ zip [Suc e ..< Suc e + length rows] rows"
    by (rule insert_execution_Inr)
  let ?x = "new_execution now w wfl (compute_snapshot_hash (wf_definition wfl)) mode"
  note rows = step_rows_Inr [OF st(3)]
  have "tget (executions d') e = Some ?x"
    using assms(2) by (simp add: d' ex e table_simps)
  moreover have "map st_snapshot rows = steps"
    using rows(5) raw_steps_snapshots [OF st(2)] by simp
  moreover have "map st_position rows = [1 ..< Suc (length steps)]"
    using rows(2) raw_steps_length [OF st(2)] by simp
  ultimately show ?thesis
    using w p st(1) ex rows(4,6)
    by (intro exI [of _ wfl] exI [of _ ?x] exI [of _ steps] exI [of _ rows])
      (simp add: d' new_execution_def compute_snapshot_hash_def)
qed

lemma emit_then: "\<exists>x. r = Inr x \<Longrightarrow> \<exists>y. res_bind r (\<lambda>d. Inr (d, k)) = Inr (y, k)"
  by auto

lemma sample_create_execution:
  assumes w: "workflows d = [(20, sample_workflow)]" and n: "next_id d = n"
    and rows: "\<not> isl (res_bind (raw_steps (wf_schema_version sample_workflow)
       (items_of (fget (fields_of (wf_definition sample_workflow)) ''steps'' JNull))) (step_rows n))"
  shows "\<exists>d'. create_execution sample_env now 20 actor Live True d = Inr (d', n)"
proof -
  let ?v = "wf_schema_version sample_workflow"
  let ?ss = "items_of (fget (fields_of (wf_definition sample_workflow)) ''steps'' JNull)"
  have it: "py_iter (fget (fields_of (wf_definition sample_workflow)) ''steps'' JNull) = Inr ?ss"
    by (simp add: sample_workflow_def fget_def)
  from rows obtain raws rows where rr: "raw_steps ?v ?ss = Inr raws" "step_rows n raws = Inr rows"
    by (cases "raw_steps ?v ?ss"; cases "step_rows n (projr (raw_steps ?v ?ss))") auto
  have "check_executable sample_env (sample_db ChDraft) 20 sample_workflow Live True = Inr ()"
    by code_simp
  moreover have "check_executable sample_env d 20 sample_workflow Live True =
      check_executable sample_env (sample_db ChDraft) 20 sample_workflow Live True"
    by (simp only: check_executable_def not_True_eq_False simp_thms(24) if_False)
  ultimately have ok: "check_executable sample_env d 20 sample_workflow Live True = Inr ()"
    by simp
  have ev: "\<exists>ev. audit_emit now (wf_org sample_workflow) (or_system actor) ''execution.created'' ''execution'' n [
            (''workflow_id'', JStr (id_str 20)),
            (''workflow_version'', JInt (int (wf_version sample_workflow))),
            (''initial_status'', JStr (exec_status_str ExQueued)),
            (''execution_mode'', JStr (exec_mode_str Live)),
            (''schema_version'', fget (fields_of (wf_definition sample_workflow)) ''schemaVersion'' (JStr [])),
            (''catalog_version'', fget (fields_of (wf_definition sample_workflow)) ''catalogVersion'' (JStr [])),
            (''dry_run_mode'', JBool (Live = DryRun))] d = Inr (d\<lparr>audit_log := audit_log d @ [ev]\<rparr>)" for d
    using length_id_str [of 20]
    by (intro audit_emit_succeeds)
      (simp_all add: sample_event_simps sample_workflow_def fget_def)
  have "\<exists>d1. insert_execution now 20 sample_workflow actor Live d = Inr (d1, n)"
    unfolding insert_execution_def fresh_def Let_def prod.case n it res_bind_Inr rr
    by (rule emit_then) (use ev in blast)
  then show ?thesis
    by (auto simp: create_execution_def w ok tget_def)
qed

theorem create_execution_materialises_witness:
  "\<exists>d'. create_execution sample_env 9 20 None Live True (sample_db ChDraft) = Inr (d', 100) \<and>
     map st_position (map snd (exec_steps d')) = [1, 2]"
proof -
  let ?d = "sample_db ChDraft"
  have "\<not> isl (res_bind (raw_steps (wf_schema_version sample_workflow)
     (items_of (fget (fields_of (wf_definition sample_workflow)) ''steps'' JNull))) (step_rows 100))"
    by code_simp
  from sample_create_execution [OF _ _ this, of ?d 9 None]
  obtain d' where d': "create_execution sample_env 9 20 None Live True ?d = Inr (d', 100)"
    by (auto simp: sample_db_def)
  have "tget (executions ?d) (next_id ?d) = None"
    by (simp add: sample_db_def empty_db_def tget_def)
  from create_execution_materialises [OF d' this] obtain ss rows where
    ex: "exec_steps d' = exec_steps ?d @ zip [Suc 100 ..< Suc 100 + length rows] rows" and
    ss: "py_iter (fget (fields_of (wf_definition sample_workflow)) ''steps'' JNull) = Inr ss" and
    pos: "map st_position rows = [1 ..< Suc (length ss)]"
    by (auto simp: sample_db_def tget_def)
  have "length ss = 2" using ss by (auto simp: sample_workflow_def fget_def)
  moreover have "[1 ..< Suc 2] = [1, 2 :: nat]" by code_simp
  ultimately have two: "map st_position rows = [1, 2]" using pos by simp
  have "map snd (exec_steps d') = rows"
    unfolding ex by (simp add: sample_db_def empty_db_def map_snd_zip)
  with d' two show ?thesis by (intro exI [of _ d']) simp
qed

text \<open>
  C24: the heartbeat watchdog fails every stuck execution and only those: afterwards none is
  stuck, the recovered ids are the stuck ones in order, every other execution is as before, and running
  it again does nothing.
\<close>

theorem watchdog_recovers_stuck:
  assumes "recover_stuck_executions now th d = (d', Inr rec)" and "twf (executions d)"
  shows "rec = map fst (filter (\<lambda>(_, x). is_stuck (now - secs th) x) (executions d)) \<and>
     (\<forall>e. tget (executions d') e =
        map_option (\<lambda>x. if is_stuck (now - secs th) x then failed_at now x else x) (tget (executions d) e)) \<and>
     recover_stuck_executions now th d' = (d', Inr [])"
proof -
  let ?P = "is_stuck (now - secs th)"
  let ?es = "map fst (tsel (\<lambda>_ x. ?P x) (executions d))"
  have dist: "distinct ?es"
    using assms(2) by (simp add: twf_def tsel_def distinct_map_filter)
  from assms(1) have ra: "recover_all now th (now - secs th) ?es [] d = (d', Inr rec)"
    by (simp add: recover_stuck_executions_def Let_def)
  note sw = recover_all_sweep [OF ra]
  have key: "e \<in> set ?es \<longleftrightarrow> (\<exists>x. tget (executions d) e = Some x \<and> ?P x)" for e
    using tget_unique [OF assms(2)] by (auto simp: tsel_def image_iff dest: tget_SomeD)
  have all: "tget (executions d') e = map_option (\<lambda>x. if ?P x then failed_at now x else x)
      (tget (executions d) e)" for e
  proof -
    have "tget (executions d') e = (if e \<in> set ?es
        then map_option (\<lambda>x. if ?P x then failed_at now x else x) (tget (executions d) e)
        else tget (executions d) e)"
      using sw tbl.sweep_row [of "\<lambda>_. ?P" e "failed_at now" ?es "executions d"] by simp
    then show ?thesis
      using key [of e] by (cases "tget (executions d) e") auto
  qed
  have "\<not> ?P x" if "(e, x) \<in> set (executions d')" for e x
  proof -
    have "twf (executions d')"
      using sw assms(2) sweep_twf by metis
    from tget_unique [OF this that] all [of e] show ?thesis
      by (auto split: if_splits) (metis not_stuck_failed)
  qed
  then have "tsel (\<lambda>_ x. ?P x) (executions d') = []"
    by (auto simp: tsel_def filter_empty_conv)
  then have "recover_stuck_executions now th d' = (d', Inr [])"
    by (simp add: recover_stuck_executions_def Let_def)
  moreover have "rec = ?es"
  proof -
    have "case tget (executions d) e of None \<Rightarrow> False | Some x \<Rightarrow> ?P x" if "e \<in> set ?es" for e
      using key [of e] that by (auto split: option.splits)
    then have "filter (\<lambda>e. case tget (executions d) e of None \<Rightarrow> False | Some x \<Rightarrow> ?P x) ?es = ?es"
      by (intro filter_True) blast
    with sw dist show ?thesis by simp
  qed
  ultimately show ?thesis
    using all by (simp add: tsel_def)
qed


definition stuck_db :: db where
  "stuck_db = empty_db\<lparr>executions := [(40, sample_execution ExRunning), (41, sample_execution ExQueued)],
     leases := [(60, \<lparr>ls_exec = 40, ls_org = 1, ls_runner = 2, ls_pool = 3, ls_status = LeaseActive,
       ls_claimed_at = 1, ls_released_at = None, ls_reason = []\<rparr>)]\<rparr>"

theorem watchdog_recovers_stuck_witness:
  "\<exists>d'. recover_stuck_executions (secs 1000) 300 stuck_db = (d', Inr [40]) \<and>
     recover_stuck_executions (secs 1000) 300 d' = (d', Inr [])"
proof -
  have ok: "\<not> isl (snd (recover_stuck_executions (secs 1000) 300 stuck_db))" by code_simp
  then obtain d' rec where r: "recover_stuck_executions (secs 1000) 300 stuck_db = (d', Inr rec)"
    by (cases "recover_stuck_executions (secs 1000) 300 stuck_db"; cases "snd (recover_stuck_executions (secs 1000) 300 stuck_db)") auto
  have wf: "twf (executions stuck_db)" by (simp add: stuck_db_def twf_def)
  have "map fst (filter (\<lambda>(_, x). is_stuck (secs 1000 - secs 300) x) (executions stuck_db)) = [40]"
    by (simp add: stuck_db_def is_stuck_def sample_execution_def secs_def)
  with watchdog_recovers_stuck [OF r wf] r show ?thesis by metis
qed

text \<open>
  C21: a completion that is answered with success was sent by the runner that holds the claim, for an active execution and a
  terminal outcome; the execution then has the outcome and an end time, no lease of it is active, all
  other executions and all steps are untouched, and a bound execution had its binding confirmed by this runner.
\<close>

theorem completion_checks_ownership:
  assumes "complete_execution now e rid tok out d = (d', Inr ())"
  shows "\<exists>x. tget (executions d) e = Some x \<and> ex_runner x = rid \<and>
     token_text (ex_claim_token x) = tok \<and> exec_active (ex_status x) \<and> exec_terminal out \<and>
     executions d' = tupd e (\<lambda>_. completed_at now out x) (executions d) \<and>
     exec_steps d' = exec_steps d \<and>
     (\<forall>(i, l) \<in> set (leases d'). ls_exec l = e \<longrightarrow> ls_status l \<noteq> LeaseActive) \<and>
     (\<forall>i b. binding_of_exec d e = Some (i, b) \<longrightarrow> bd_bound_at b \<noteq> None \<and> bd_bound_by b = rid \<and>
        (\<exists>c. tget (changes d) (bd_change b) = Some c \<and> ch_status c = ChRunning))"
  using assms
proof (cases rule: complete_execution_parts)
  case (committed d1 d2)
  from committed(1) obtain x d0 where x: "tget (executions d) e = Some x"
    "validate_runner_ownership x rid tok = Inr ()" "exec_active (ex_status x)" "exec_terminal out"
    and b: "assert_execution_change_binding_ready now e rid (Some tok) d = (d0, Inr ())"
    and d1: "executions d1 = tupd e (\<lambda>_. completed_at now out x) (executions d)"
      "exec_steps d1 = exec_steps d" "leases d1 = leases d"
    by (rule complete_tx_Inr)
  have "control_part d' = control_part d2"
    unfolding committed(3) by (rule completion_hook_control)
  then have same: "executions d' = executions d2" "exec_steps d' = exec_steps d2" "leases d' = leases d2"
    by (simp_all add: control_part_def)
  have "\<forall>(i, l) \<in> set (leases d'). ls_exec l = e \<longrightarrow> ls_status l \<noteq> LeaseActive"
    unfolding same committed(2) by (auto dest: expire_leases_none)
  moreover have "\<forall>i b. binding_of_exec d e = Some (i, b) \<longrightarrow> bd_bound_at b \<noteq> None \<and> bd_bound_by b = rid \<and>
        (\<exists>c. tget (changes d) (bd_change b) = Some c \<and> ch_status c = ChRunning)"
    using b by (auto simp: assert_execution_change_binding_ready_def split: option.splits if_splits)
  moreover have "ex_runner x = rid" "token_text (ex_claim_token x) = tok"
    using x(2) by (auto simp: validate_runner_ownership_def split: if_splits)
  ultimately show ?thesis
    using x d1 same committed(2) by simp
qed simp

lemma sample_event_completed:
  "\<exists>ev. audit_emit now 1 (actor_from_runner ''r1'') ''execution.completed'' ''execution'' 40 [
     (''previous_status'', JStr (exec_status_str ExRunning)),
     (''new_status'', JStr (exec_status_str ExSucceeded)),
     (''started_at'', iso_json (Some 9)), (''finished_at'', iso_json (Some 9))] d =
   Inr (d\<lparr>audit_log := audit_log d @ [ev]\<rparr>)"
  using length_isoformat [of 9] by (intro audit_emit_succeeds) (simp_all add: sample_event_simps)

theorem completion_checks_ownership_witness:
  "\<exists>d'. complete_execution 9 40 ''r1'' (id_str 7) ExSucceeded stuck_db = (d', Inr ()) \<and>
     (\<exists>x. executions d' = [(40, x), (41, sample_execution ExQueued)] \<and> ex_status x = ExSucceeded)"
proof -
  have b: "binding_of_exec d 40 = None" if "bindings d = []" for d
    using that by (simp add: binding_of_exec_def tsel_def)
  have x: "tget (executions stuck_db) 40 = Some (sample_execution ExRunning)" "bindings stuck_db = []"
    by (simp_all add: stuck_db_def tget_def empty_db_def)
  obtain ev where "complete_tx 9 40 ''r1'' (id_str 7) ExSucceeded stuck_db =
      Inr (upd_exec 40 (\<lambda>_. completed_at 9 ExSucceeded (sample_execution ExRunning))
        stuck_db\<lparr>audit_log := [ev]\<rparr>)"
    using sample_event_completed [of 9 "upd_exec 40 (\<lambda>_. completed_at 9 ExSucceeded (sample_execution ExRunning)) stuck_db"]
    by (auto simp: complete_tx_def x b assert_execution_change_binding_ready_def atomic_def
        validate_runner_ownership_def token_text_def completed_at_def sample_execution_def upd_exec_def
        stuck_db_def empty_db_def tget_def)
  then have "\<exists>d'. complete_execution 9 40 ''r1'' (id_str 7) ExSucceeded stuck_db = (d', Inr ())"
    by (simp add: complete_execution_def handle_bound_execution_completed_def b x expire_leases_def
        send_all_def upd_exec_def Let_def)
  then obtain d' where d': "complete_execution 9 40 ''r1'' (id_str 7) ExSucceeded stuck_db = (d', Inr ())" ..
  from completion_checks_ownership [OF d'] d' show ?thesis
    by (auto simp: x stuck_db_def tupd_def completed_at_def)
qed

text \<open>
  C25: a step moves only for the runner that holds the claim and only along the table: it starts only through the
  start call (\<open>allow_running\<close>), and the first start turns a claimed execution into a running one; no
  other row of a step or execution changes, and no change record, approval or lease.
\<close>

theorem step_update_effect:
  assumes "update_execution_step now e i rid tok new r allow d = Inr d'"
  shows "\<exists>x s. tget (executions d) e = Some x \<and> tget (exec_steps d) i = Some s \<and> st_exec s = e \<and>
     ex_runner x = rid \<and> token_text (ex_claim_token x) = tok \<and>
     (new = StRunning \<longrightarrow> allow \<and> st_status s \<in> {StPending, StWaiting}) \<and>
     (new = StSucceeded \<longrightarrow> \<not> allow \<and> st_status s = StRunning) \<and>
     new \<in> {StRunning, StSucceeded, StFailed} \<and> \<not> step_final (st_status s) \<and>
     (\<exists>s'. st_status s' = new \<and> step_fixed s' = step_fixed s \<and>
        exec_steps d' = tupd i (\<lambda>_. s') (exec_steps d)) \<and>
     (\<exists>x'. ex_status x' = (if ex_status x = ExClaimed \<and> new = StRunning then ExRunning else ex_status x) \<and>
        exec_fixed x' = exec_fixed x \<and> executions d' = tupd e (\<lambda>_. x') (executions d)) \<and>
     leases d' = leases d \<and> changes d' = changes d \<and> bindings d' = bindings d \<and>
     approval_reqs d' = approval_reqs d"
  using assms
proof (rule update_execution_step_Inr)
  fix x s
  assume x: "tget (executions d) e = Some x" "tget (exec_steps d) i = Some s" "st_exec s = e"
    and own: "validate_runner_ownership x rid tok = Inr ()"
    and new: "new \<in> set (if allow then VALID_STEP_START_TRANSITIONS (st_status s)
                else VALID_STEP_TRANSITIONS (st_status s))"
    and d': "executions d' = tupd e (\<lambda>_. start_if_claimed new (apply_report now new r s) x) (executions d)"
      "exec_steps d' = tupd i (\<lambda>_. apply_report now new r s) (exec_steps d)"
      "leases d' = leases d" "changes d' = changes d" "bindings d' = bindings d"
      "approval_reqs d' = approval_reqs d"
  have "ex_runner x = rid" "token_text (ex_claim_token x) = tok"
    using own by (auto simp: validate_runner_ownership_def split: if_splits)
  moreover have "(new = StRunning \<longrightarrow> allow \<and> st_status s \<in> {StPending, StWaiting}) \<and>
     (new = StSucceeded \<longrightarrow> \<not> allow \<and> st_status s = StRunning) \<and>
     new \<in> {StRunning, StSucceeded, StFailed} \<and> \<not> step_final (st_status s)"
    using new by (cases "st_status s"; cases allow) (auto simp: step_final_def)
  moreover have fs: "step_fixed (apply_report now new r s) = step_fixed s"
    by (simp add: step_fixed_def apply_report_def Let_def)
  moreover have fx: "exec_fixed (start_if_claimed new (apply_report now new r s) x) = exec_fixed x"
    "ex_status (start_if_claimed new (apply_report now new r s) x) =
       (if ex_status x = ExClaimed \<and> new = StRunning then ExRunning else ex_status x)"
    by (simp_all add: exec_fixed_def start_if_claimed_def)
  moreover from fs d'(2) have "\<exists>s'. st_status s' = new \<and> step_fixed s' = step_fixed s \<and>
        exec_steps d' = tupd i (\<lambda>_. s') (exec_steps d)"
    by (intro exI [of _ "apply_report now new r s"]) simp
  moreover from fx d'(1) have "\<exists>x'. ex_status x' = (if ex_status x = ExClaimed \<and> new = StRunning
          then ExRunning else ex_status x) \<and>
        exec_fixed x' = exec_fixed x \<and> executions d' = tupd e (\<lambda>_. x') (executions d)"
    by (intro exI [of _ "start_if_claimed new (apply_report now new r s) x"]) simp
  ultimately show ?thesis
    using x d'(3-) by blast
qed

definition sample_step :: "step_status \<Rightarrow> exec_step" where
  "sample_step s = \<lparr>st_exec = 40, st_position = 1, st_key = ''a'', st_name = ''A'', st_type = [],
     st_risk = [], st_command = ''ls'', st_requires_approval = False,
     st_snapshot = JObj [(''id'', JStr ''a'')], st_status = s, st_started_at = None,
     st_finished_at = None, st_exit_code = None, st_error = [], st_failure_kind = [],
     st_timed_out = False, st_cancelled = False, st_sandbox_provider = [], st_sandbox_run_id = [],
     st_command_sha = [], st_result_metadata = JObj []\<rparr>"

definition running_db :: "exec_status \<Rightarrow> step_status \<Rightarrow> db" where
  "running_db x s = empty_db\<lparr>executions := [(40, sample_execution x)], exec_steps := [(45, sample_step s)],
     leases := leases stuck_db\<rparr>"

lemma step_keys: "\<not> sensitive ''step_type''" "\<not> sensitive ''risk_level''" "\<not> sensitive ''exit_code''"
  "\<not> sensitive ''failure_kind''" "\<not> sensitive ''timed_out''" "\<not> sensitive ''cancelled''" "\<not> sensitive ''sandbox_provider''"
  "\<not> sensitive ''sandbox_run_id''" "\<not> sensitive ''action_type''" "\<not> sensitive ''action_version''"
  "\<not> sensitive ''dry_run_supported''" "\<not> sensitive ''retry_max_attempts''" "\<not> sensitive ''idempotency_mode''"
  "\<not> sensitive ''declared_artifact_keys''" "\<not> sensitive ''declared_secret_key_names''"
  by (simp_all add: sensitive_def lower_def lower_char_def code_point_def REJECTED_METADATA_KEYS_def
      FORBIDDEN_METADATA_KEYS_def)

lemma sample_start_event:
  "\<exists>ev. emit_step_transition_audit 9 40 x 45 (apply_report 9 StRunning empty_report (sample_step StPending)) ''r1'' StPending
     StRunning [] d = Inr (d\<lparr>audit_log := audit_log d @ [ev]\<rparr>)"
  if "ex_snapshot x = ex_snapshot (sample_execution ExClaimed)"
proof -
  have v: "v2_step_audit_metadata (apply_report 9 StRunning empty_report (sample_step StPending)) x = Inr
    [(''schema_version'', JStr []), (''action_type'', JStr []),
       (''action_version'', JStr []), (''dry_run_supported'', JNull),
       (''retry_max_attempts'', JNull), (''idempotency_mode'', JStr []),
       (''declared_artifact_keys'', JArr []), (''declared_secret_key_names'', JArr [])]"
    using that by (simp add: v2_step_audit_metadata_def apply_report_def sample_step_def sample_execution_def or_empty_def py_or_def fget_def sample_workflow_def)
  show ?thesis
    unfolding emit_step_transition_audit_def v step_event_type.simps option.case res_bind_Inr
    using length_id_str [of 40] length_id_str [of 45]
    by (intro audit_emit_succeeds) (simp_all add: sample_event_simps step_keys sample_step_def apply_report_def empty_report_def)
qed

lemma sample_start_updates:
  "\<exists>d'. update_execution_step 9 40 45 ''r1'' (id_str 7) StRunning empty_report True (running_db ExClaimed StPending) = Inr d'"
proof -
  let ?s = "apply_report 9 StRunning empty_report (sample_step StPending)"
  let ?x = "start_if_claimed StRunning ?s (sample_execution ExClaimed)"
  let ?d = "upd_exec 40 (\<lambda>_. ?x) (upd_step 45 (\<lambda>_. ?s) (running_db ExClaimed StPending))"
  have sn: "ex_snapshot ?x = ex_snapshot (sample_execution ExClaimed)" by (simp add: start_if_claimed_def)
  obtain ev where ev: "emit_step_transition_audit 9 40 ?x 45 ?s ''r1'' StPending StRunning [] ?d =
      Inr (?d\<lparr>audit_log := audit_log ?d @ [ev]\<rparr>)"
    using sample_start_event [OF sn, of ?d] by blast
  have rows: "tget (executions (running_db ExClaimed StPending)) 40 = Some (sample_execution ExClaimed)"
    "tget (exec_steps (running_db ExClaimed StPending)) 45 = Some (sample_step StPending)"
    by (simp_all add: running_db_def tget_def)
  have own: "validate_runner_ownership (sample_execution ExClaimed) ''r1'' (id_str 7) = Inr ()"
    by (simp add: validate_runner_ownership_def sample_execution_def token_text_def)
  have s: "st_exec (sample_step StPending) = 40" "st_status (sample_step StPending) = StPending" "sr_error empty_report = []"
    by (simp_all add: sample_step_def empty_report_def)
  show ?thesis
    unfolding update_execution_step_def Let_def
    by (simp add: rows own s ev del: send_tables)
qed

theorem step_update_effect_witness:
  "\<exists>d' x' s'. update_execution_step 9 40 45 ''r1'' (id_str 7) StRunning empty_report True
       (running_db ExClaimed StPending) = Inr d' \<and> executions d' = [(40, x')] \<and>
     ex_status x' = ExRunning \<and> exec_steps d' = [(45, s')] \<and> st_status s' = StRunning"
proof -
  obtain d' where d': "update_execution_step 9 40 45 ''r1'' (id_str 7) StRunning empty_report True
       (running_db ExClaimed StPending) = Inr d'" using sample_start_updates by blast
  from step_update_effect [OF d'] d' show ?thesis
    by (auto simp: running_db_def tget_def tupd_def sample_execution_def)
qed

definition sample_request :: approval_request where
  "sample_request = \<lparr>ar_org = 1, ar_subject_type = SubjStep, ar_subject_id = Some 45, ar_exec = Some 40,
     ar_step = Some 45, ar_status = ArPending, ar_runner = ''r1'', ar_requested_at = 1,
     ar_timeout = Some 5, ar_expires_at = Some 6, ar_resolved_at = None\<rparr>"

text \<open>
  When a step's approval has expired, the watchdog fails the step and its execution, if the
  execution is active and the step waits, but it leaves the lease of the execution as it is: the runner's
  lease stays active although the execution has ended.
\<close>

theorem approval_timeout_keeps_lease:
  assumes "fail_execution_for_approval_timeout now e i a req d = Inr (d', True)"
  shows "\<exists>x s. tget (executions d) e = Some x \<and> exec_active (ex_status x) \<and>
     tget (exec_steps d) i = Some s \<and> st_exec s = e \<and> st_status s = StWaiting \<and>
     executions d' = tupd e (failed_at now) (executions d) \<and>
     (\<exists>s'. st_status s' = StFailed \<and> tget (exec_steps d') i = Some s') \<and> leases d' = leases d"
proof -
  from assms obtain x s d1 ms where x: "tget (executions d) e = Some x" "exec_active (ex_status x)"
    and s: "tget (exec_steps d) i = Some s" "st_status s = StWaiting" "st_exec s = e"
    and tx: "approval_timeout_tx now e x i s a req d = Inr d1"
    and d': "d' = completion_hook_logged now e ExFailed (send_all ms d1)"
    by (auto simp: fail_execution_for_approval_timeout_def res_bind_eq_Inr
        split: option.splits if_splits)
  note t = approval_timeout_tx_tables [OF tx]
  have "control_part d' = control_part (send_all ms d1)"
    unfolding d' by (rule completion_hook_control)
  then have "executions d' = executions d1" "exec_steps d' = exec_steps d1" "leases d' = leases d1"
    by (simp_all add: control_part_def)
  with t s show ?thesis using x by (auto simp: table_simps)
qed

lemma sample_timeout_tx:
  "\<exists>d'. approval_timeout_tx 9 40 (sample_execution ExRunning) 45 (sample_step StWaiting) 70
     sample_request d = Inr d'"
proof -
  let ?c = "approval_timeout_metadata 70 sample_request 40 45"
  let ?m = "[(''previous_status'', JStr (exec_status_str (ex_status (sample_execution ExRunning)))),
     (''new_status'', JStr (exec_status_str ExFailed))]"
  note lens = length_isoformat [of 6] length_id_str [of 40] length_id_str [of 45] length_id_str [of 70]
  have common: "clean_metadata (?c @ ?m)" "2 * weight_fields (?c @ ?m) + 4 \<le> MAX_METADATA_BYTES"
    using lens by (simp_all add: approval_timeout_metadata_def sample_request_def sample_execution_def
        sample_event_simps)
  have "\<exists>x. audit_emit 9 1 a ''execution.failed'' ''execution'' 40 (?c @ ?m) d = Inr x"
    "\<exists>x. audit_emit 9 1 a ''execution.approval_timeout'' ''execution'' 40 (?c @ ?m) d = Inr x" for a d
  proof -
    have t: "''execution'' \<in> set OBJECT_TYPES"
      "strip ''execution.failed'' \<noteq> [] \<and> length ''execution.failed'' \<le> 128"
      "strip ''execution.approval_timeout'' \<noteq> [] \<and> length ''execution.approval_timeout'' \<le> 128"
      by (simp_all add: sample_event_simps)
    show "\<exists>x. audit_emit 9 1 a ''execution.failed'' ''execution'' 40 (?c @ ?m) d = Inr x"
      "\<exists>x. audit_emit 9 1 a ''execution.approval_timeout'' ''execution'' 40 (?c @ ?m) d = Inr x"
      using audit_emit_succeeds [OF t(1,2) common] audit_emit_succeeds [OF t(1,3) common] by blast+
  qed
  moreover have "\<exists>x. audit_emit 9 1 a ''execution_step.failed'' ''execution_step'' 45 (?c @
            [(''step_key'', JStr (st_key (sample_step StWaiting))),
             (''position'', JInt (int (st_position (sample_step StWaiting)))),
            (''previous_status'', JStr (step_status_str (st_status (sample_step StWaiting)))),
            (''new_status'', JStr (step_status_str StFailed)),
            (''error_message'', JStr ''Step marked failed by watchdog: approval timeout'')]) d = Inr x" for a d
    using lens audit_emit_succeeds [of "''execution_step''" "''execution_step.failed''" "?c @
            [(''step_key'', JStr (st_key (sample_step StWaiting))),
             (''position'', JInt (int (st_position (sample_step StWaiting)))),
            (''previous_status'', JStr (step_status_str (st_status (sample_step StWaiting)))),
            (''new_status'', JStr (step_status_str StFailed)),
            (''error_message'', JStr ''Step marked failed by watchdog: approval timeout'')]" 9 1 a 45 d]
    by (simp add: approval_timeout_metadata_def sample_request_def sample_step_def sample_event_simps) blast
  moreover have "ex_org (sample_execution ExRunning) = 1" by (simp add: sample_execution_def)
  ultimately show ?thesis
    unfolding approval_timeout_tx_def Let_def by (metis res_bind_Inr)
qed

theorem approval_timeout_keeps_lease_witness:
  "\<exists>d'. fail_execution_for_approval_timeout 9 40 45 70 sample_request (running_db ExRunning StWaiting) =
       Inr (d', True) \<and> leases d' = leases stuck_db"
proof -
  let ?d = "running_db ExRunning StWaiting"
  have r: "tget (executions ?d) 40 = Some (sample_execution ExRunning)"
    "tget (exec_steps ?d) 45 = Some (sample_step StWaiting)"
    by (simp_all add: running_db_def tget_def)
  obtain d1 where "approval_timeout_tx 9 40 (sample_execution ExRunning) 45 (sample_step StWaiting) 70
     sample_request ?d = Inr d1"
    using sample_timeout_tx by blast
  then have "\<exists>d'. fail_execution_for_approval_timeout 9 40 45 70 sample_request ?d = Inr (d', True)"
    by (simp add: fail_execution_for_approval_timeout_def r) (simp add: sample_step_def sample_execution_def)
  then obtain d' where d': "fail_execution_for_approval_timeout 9 40 45 70 sample_request ?d = Inr (d', True)" ..
  from approval_timeout_keeps_lease [OF d'] d' show ?thesis
    by (auto simp: running_db_def)
qed

end
