(* ===== verification/Dispatch_Preflight.thy ===== *)
theory Dispatch_Preflight
  imports Runner_Routing Executions
begin

text \<open>
  The dispatch preflight (\<open>apps/changes/services.py\<close>): its eight gates, each a function of its own, the
  row that records them and the query for a fresh passed one. The preflight opens no transaction of its
  own (an outcome). The entries of \<open>checks\<close> and \<open>conflicts\<close> are modelled without their
  human-readable \<open>detail\<close> text. A gate that opens is shown to have seen what it guards; running the
  gates changes nothing but expiring exceptions and sessions.
\<close>

definition normalize_target_identifier :: "string \<Rightarrow> string" where
  "normalize_target_identifier s = lower (strip s)"

section \<open>Windows\<close>

definition window_status_from_time :: "timestamp \<Rightarrow> timestamp \<Rightarrow> timestamp \<Rightarrow> window_status" where
  "window_status_from_time starts ends now =
    (if now < starts then WnScheduled else if now \<le> ends then WnOpen else WnExpired)"

definition recompute_window_status :: "timestamp \<Rightarrow> change_status \<Rightarrow> change_window \<Rightarrow> window_status" where
  "recompute_window_status now s w =
    (if s \<in> {ChClosed, ChVerified, ChRejected, ChCanceled, ChExpired} then WnClosed
     else if s \<in> {ChRunning, ChVerificationPending} \<and> now > wn_ends_at w then WnOverrun
     else window_status_from_time (wn_starts_at w) (wn_ends_at w) now)"

section \<open>The gates\<close>

type_synonym gate = "bool \<times> json list \<times> json list"

definition entry :: "string \<Rightarrow> bool \<Rightarrow> jdict \<Rightarrow> json" where
  "entry name ok extra = JObj ([(''name'', JStr name), (''ok'', JBool ok)] @ extra)"

abbreviation simple_gate :: "string \<Rightarrow> bool \<Rightarrow> gate" where
  "simple_gate name ok \<equiv> (ok, [entry name ok []], [])"

definition preflight_approval_status :: "db \<Rightarrow> change \<Rightarrow> op_profile \<Rightarrow> gate result" where
  "preflight_approval_status d c p =
    (if ch_status c \<notin> {ChApproved, ChScheduled, ChDispatchable}
       then Inr (simple_gate ''approved_status'' False)
     else if \<not> op_requires_approval p then Inr (simple_gate ''approved_status'' True)
     else (case ch_approval_request c of
         None \<Rightarrow> Inr (simple_gate ''approved_status'' False)
       | Some a \<Rightarrow>
          (case tget (approval_reqs d) a of
             None \<Rightarrow> Inl (NotFound ''approval_request'')
           | Some ar \<Rightarrow> Inr (simple_gate ''approved_status'' (ar_status ar = ArApproved)))))"

text \<open>The approved, unexpired exceptions of a type, the latest approval first.\<close>

definition approved_exceptions :: "timestamp \<Rightarrow> nat \<Rightarrow> string \<Rightarrow> db \<Rightarrow> change_exception table" where
  "approved_exceptions now k et d =
    (let xs = tsel (\<lambda>_ x. xc_change x = k \<and> xc_type x = et \<and> xc_status x = XcApproved \<and>
                now < xc_expires_at x) (change_exceptions d)
     in filter (\<lambda>(i, x). xc_approved_at x = None) xs @
        sort_key (\<lambda>(i, x). case xc_approved_at x of None \<Rightarrow> 0 | Some t \<Rightarrow> - t)
          (filter (\<lambda>(i, x). xc_approved_at x \<noteq> None) xs))"

fun first_match :: "(json \<Rightarrow> bool result) \<Rightarrow> change_exception table \<Rightarrow> nat option result" where
  "first_match pred [] = Inr None"
| "first_match pred ((i, x) # xs) =
    res_bind (pred (py_or (xc_scope x) (JObj []))) (\<lambda>b.
      if b then Inr (Some i) else first_match pred xs)"

definition approved_exception_for_scope ::
    "timestamp \<Rightarrow> nat \<Rightarrow> string \<Rightarrow> (json \<Rightarrow> bool result) \<Rightarrow> db \<Rightarrow> nat option outcome" where
  "approved_exception_for_scope now k et pred d =
    then_do (expire_exceptions now k d) (\<lambda>d _.
      (d, first_match pred (approved_exceptions now k et d)))"

definition breakglass_allows_preflight ::
    "timestamp \<Rightarrow> nat \<Rightarrow> string \<Rightarrow> string list \<Rightarrow> db \<Rightarrow> nat option outcome" where
  "breakglass_allows_preflight now k gate ids d =
    (case assert_breakglass_allows now k gate ''dispatch'' ids d of
       (d, Inl (Domain DomainValidationError _)) \<Rightarrow> (d, Inr None)
     | (d, Inl e) \<Rightarrow> (d, Inl e)
     | (d, Inr i) \<Rightarrow> (d, Inr (Some i)))"

text \<open>\<open>{str(x) for x in scope.get(name, [])}\<close>.\<close>

definition scope_strs :: "json \<Rightarrow> string \<Rightarrow> string list result" where
  "scope_strs scope name =
    res_bind (py_get scope name (JArr [])) (\<lambda>v.
    res_bind (py_iter v) (\<lambda>xs. Inr (map py_str xs)))"

definition policy_override_covers :: "nat \<Rightarrow> policy_evaluation \<Rightarrow> json \<Rightarrow> bool result" where
  "policy_override_covers i pe scope =
    res_bind (py_get scope ''policy_evaluation_id'' JNull) (\<lambda>v.
    if py_str v \<noteq> id_str i then Inr False
    else res_bind (py_get scope ''overridden_outcome'' JNull) (\<lambda>v.
    if v \<noteq> JStr (pe_effective pe) then Inr False
    else (case pe_rule pe of
        None \<Rightarrow> Inr True
      | Some r \<Rightarrow> res_bind (scope_strs scope ''policy_rule_ids'') (\<lambda>rs. Inr (id_str r \<in> set rs)))))"

definition preflight_policy_gate ::
    "timestamp \<Rightarrow> nat \<Rightarrow> change \<Rightarrow> string list \<Rightarrow> db \<Rightarrow> gate outcome" where
  "preflight_policy_gate now k c ids d =
    (case ch_policy_evaluation c of
       None \<Rightarrow> (d, Inr (simple_gate ''policy_pass'' True))
     | Some i \<Rightarrow>
      (case tget (policy_evals d) i of
         None \<Rightarrow> (d, Inl (NotFound ''policy_evaluation''))
       | Some pe \<Rightarrow>
          if pe_effective pe = ''pass'' then (d, Inr (simple_gate ''policy_pass'' True))
          else then_do (approved_exception_for_scope now k ''policy_override''
                 (policy_override_covers i pe) d) (\<lambda>d x.
            case x of
              Some x \<Rightarrow> (d, Inr (True,
                [entry ''policy_pass'' True [(''change_exception_id'', JStr (id_str x))]], []))
            | None \<Rightarrow>
              then_do (breakglass_allows_preflight now k ''policy_override'' ids d) (\<lambda>d s.
                case s of
                  Some s \<Rightarrow> (d, Inr (True,
                    [entry ''policy_pass'' True [(''breakglass_session_id'', JStr (id_str s))]], []))
                | None \<Rightarrow> (d, Inr (simple_gate ''policy_pass'' False))))))"

definition window_of :: "db \<Rightarrow> nat \<Rightarrow> (nat \<times> change_window) option" where
  "window_of d k = first_of (tsel (\<lambda>_ w. wn_change w = k) (windows d))"

definition window_snapshot :: "nat \<Rightarrow> change_window \<Rightarrow> window_status \<Rightarrow> json" where
  "window_snapshot i w s = JObj [
     (''window_id'', JStr (id_str i)),
     (''starts_at'', JStr (isoformat (wn_starts_at w))),
     (''ends_at'', JStr (isoformat (wn_ends_at w))),
     (''status'', JStr (window_status_str s))]"

definition preflight_window ::
    "timestamp \<Rightarrow> nat \<Rightarrow> change \<Rightarrow> string list \<Rightarrow> db \<Rightarrow> (gate \<times> string) outcome" where
  "preflight_window now k c ids d =
    (case window_of d k of
       None \<Rightarrow> (d, Inr (simple_gate ''window_open'' True, []))
     | Some (i, w) \<Rightarrow>
        let s = recompute_window_status now (ch_status c) w;
            sha = sha256_canonical_json (window_snapshot i w s)
        in if s = WnOpen then (d, Inr (simple_gate ''window_open'' True, sha))
           else then_do (breakglass_allows_preflight now k ''window_overrun'' ids d) (\<lambda>d b.
             case b of
               Some b \<Rightarrow> (d, Inr ((True,
                 [entry ''window_open'' True [(''breakglass_session_id'', JStr (id_str b))]], []), sha))
             | None \<Rightarrow> (d, Inr (simple_gate ''window_open'' False, sha))))"

text \<open>The active freeze rules that match one of the targets, by their start.\<close>

definition freeze_matches :: "change_target list \<Rightarrow> freeze_rule \<Rightarrow> bool" where
  "freeze_matches ts f \<longleftrightarrow> fz_scope f = ScopeAllProduction \<or>
     (\<exists>t \<in> set ts. fz_scope f = ScopeTargetType \<and> fz_target_type f = tg_type t \<or>
        fz_scope f = ScopeTargetIdentifier \<and>
          fz_normalized f = normalize_target_identifier (tg_identifier t))"

definition matching_freeze_rules ::
    "timestamp \<Rightarrow> nat \<Rightarrow> change_target list \<Rightarrow> db \<Rightarrow> freeze_rule table" where
  "matching_freeze_rules now org ts d =
    sort_key (\<lambda>(i, f). fz_starts_at f)
      (tsel (\<lambda>_ f. fz_org f = org \<and> fz_is_active f \<and> fz_starts_at f \<le> now \<and> now < fz_ends_at f \<and>
         freeze_matches ts f) (freeze_rules d))"

text \<open>\<open>get_active_matching_freeze_rules\<close>, the read-only helper for one target.\<close>

definition get_active_matching_freeze_rules ::
    "timestamp \<Rightarrow> nat \<Rightarrow> string \<Rightarrow> string \<Rightarrow> db \<Rightarrow> freeze_rule table" where
  "get_active_matching_freeze_rules now org target_type target_identifier d =
    (let normalized = (if target_identifier \<noteq> [] then normalize_target_identifier target_identifier
                       else [])
     in sort_key (\<lambda>(i, f). fz_starts_at f)
      (tsel (\<lambda>_ f. fz_org f = org \<and> fz_is_active f \<and> fz_starts_at f \<le> now \<and> now < fz_ends_at f \<and>
         (fz_scope f = ScopeAllProduction \<or>
          target_type \<noteq> [] \<and> fz_scope f = ScopeTargetType \<and> fz_target_type f = target_type \<or>
          normalized \<noteq> [] \<and> fz_scope f = ScopeTargetIdentifier \<and> fz_normalized f = normalized))
        (freeze_rules d)))"

definition freeze_override_covers :: "nat \<Rightarrow> string list \<Rightarrow> json \<Rightarrow> bool result" where
  "freeze_override_covers i ids scope =
    res_bind (py_get scope ''freeze_rule_id'' JNull) (\<lambda>v.
    if py_str v \<noteq> id_str i then Inr False
    else res_bind (scope_strs scope ''target_ids'') (\<lambda>ts. Inr (set ids \<subseteq> set ts)))"

fun freeze_blocking ::
    "timestamp \<Rightarrow> nat \<Rightarrow> string list \<Rightarrow> freeze_rule table \<Rightarrow> db \<Rightarrow> freeze_rule table outcome" where
  "freeze_blocking now k ids [] d = (d, Inr [])"
| "freeze_blocking now k ids ((i, f) # fs) d =
    then_do (case fz_behavior f of
        FreezeBlock \<Rightarrow> (d, Inr None)
      | FreezeAllowWithException \<Rightarrow>
          approved_exception_for_scope now k ''freeze_override'' (freeze_override_covers i ids) d)
      (\<lambda>d x. then_do (freeze_blocking now k ids fs d) (\<lambda>d rest.
        (d, Inr (if x = None then (i, f) # rest else rest))))"

definition freeze_conflict :: "nat \<times> freeze_rule \<Rightarrow> json" where
  "freeze_conflict jf = (case jf of (i, f) \<Rightarrow> JObj [
     (''type'', JStr ''freeze_rule''), (''id'', JStr (id_str i)), (''name'', JStr (fz_name f)),
     (''behavior'', JStr (freeze_behavior_str (fz_behavior f))),
     (''scope_type'', JStr (freeze_scope_str (fz_scope f)))])"

definition preflight_freeze_conflicts ::
    "timestamp \<Rightarrow> nat \<Rightarrow> change \<Rightarrow> change_target table \<Rightarrow> db \<Rightarrow> gate outcome" where
  "preflight_freeze_conflicts now k c ts d =
    (if ts = [] then (d, Inr (simple_gate ''freeze_conflicts'' True))
     else then_do (freeze_blocking now k (map (id_str \<circ> fst) ts)
         (matching_freeze_rules now (ch_org c) (map snd ts) d) d) (\<lambda>d blocking.
       (d, Inr (blocking = [], [entry ''freeze_conflicts'' (blocking = []) []],
          map freeze_conflict blocking))))"

text \<open>Active locks of other changes on one of the targets.\<close>

definition conflicting_locks :: "nat \<Rightarrow> nat \<Rightarrow> change_target list \<Rightarrow> db \<Rightarrow> target_lock table" where
  "conflicting_locks k org ts d =
    sort_key (\<lambda>(i, l). lk_acquired_at l)
      (tsel (\<lambda>_ l. lk_org l = org \<and> lk_status l = LockActive \<and> lk_change l \<noteq> k \<and>
         (\<exists>t \<in> set ts. lk_type l = tg_type t \<and>
            lk_normalized l = normalize_target_identifier (tg_identifier t))) (target_locks d))"

definition lock_conflict :: "nat \<times> target_lock \<Rightarrow> json" where
  "lock_conflict il = (case il of (i, l) \<Rightarrow> JObj [
     (''type'', JStr ''target_lock''), (''id'', JStr (id_str i)),
     (''target_type'', JStr (lk_type l)), (''target_identifier'', JStr (lk_identifier l)),
     (''change_record_id'', JStr (id_str (lk_change l))),
     (''acquired_at'', JStr (isoformat (lk_acquired_at l)))])"

definition preflight_target_locks :: "nat \<Rightarrow> change \<Rightarrow> change_target list \<Rightarrow> db \<Rightarrow> gate" where
  "preflight_target_locks k c ts d =
    (if ts = [] then simple_gate ''target_locks'' True
     else let ls = conflicting_locks k (ch_org c) ts d
          in (ls = [], [entry ''target_locks'' (ls = []) []], map lock_conflict ls))"

definition preflight_actor :: "audit_actor option \<Rightarrow> gate" where
  "preflight_actor actor = simple_gate ''actor_authorized'' (actor \<noteq> None)"

definition preflight_verification_plan :: "nat \<Rightarrow> change \<Rightarrow> op_profile \<Rightarrow> db \<Rightarrow> gate result" where
  "preflight_verification_plan k c p d =
    (if \<not> op_verification_required p then Inr (simple_gate ''verification_plan'' True)
     else (case plan_of_change d k of
         None \<Rightarrow> Inr (False, [entry ''verification_plan'' False []],
           [JObj [(''type'', JStr ''verification_plan''), (''reason'', JStr ''missing''),
                  (''change_record_id'', JStr (id_str k))]])
       | Some (i, vp) \<Rightarrow>
          (case validate_existing_plan d i vp c of
             Inr _ \<Rightarrow> Inr (True, [entry ''verification_plan'' True
               [(''verification_plan_id'', JStr (id_str i))]], [])
           | Inl (Domain kind code) \<Rightarrow>
              if kind = DomainConflictError \<or> kind = DomainValidationError
              then Inr (False, [entry ''verification_plan'' False []],
                [JObj [(''type'', JStr ''verification_plan''), (''reason'', JStr code),
                       (''verification_plan_id'', JStr (id_str i))]])
              else Inl (Domain kind code)
           | Inl e \<Rightarrow> Inl e)))"

text \<open>
  The runner pool gate: \<open>runner_pool_ok\<close> (\<open>None\<close> if no route is configured), the entry, and the
  pool. It blocks only if \<open>runner_pool_ok\<close> is false.
\<close>

record pool_gate =
  pg_ok :: "bool option"
  pg_key :: string
  pg_id :: string
  pg_reason :: string
  pg_checks :: "json list"

definition preflight_runner_pool :: "timestamp \<Rightarrow> nat \<Rightarrow> change \<Rightarrow> db \<Rightarrow> pool_gate" where
  "preflight_runner_pool now k c d =
    (case find_pool_for_change now k c d of
       Inl _ \<Rightarrow> \<lparr>pg_ok = Some False, pg_key = [], pg_id = [], pg_reason = ''check_error'',
         pg_checks = [entry ''runner_pool'' False [(''reason'', JStr ''check_error'')]]\<rparr>
     | Inr (pool, why) \<Rightarrow>
        if why = ''no_routes_configured''
          then \<lparr>pg_ok = None, pg_key = [], pg_id = [], pg_reason = why, pg_checks = []\<rparr>
        else (case pool of
            Some (i, p) \<Rightarrow> \<lparr>pg_ok = Some True, pg_key = pl_key p, pg_id = id_str i, pg_reason = why,
              pg_checks = [entry ''runner_pool'' True [(''pool_key'', JStr (pl_key p)),
                 (''pool_id'', JStr (id_str i)), (''reason'', JStr why)]]\<rparr>
          | None \<Rightarrow> \<lparr>pg_ok = Some False, pg_key = [], pg_id = [], pg_reason = why,
              pg_checks = [entry ''runner_pool'' False [(''reason'', JStr why)]]\<rparr>))"

section \<open>The preflight\<close>

abbreviation PREFLIGHT_TTL_SECONDS :: int where
  "PREFLIGHT_TTL_SECONDS \<equiv> 300"

definition flag :: "string \<Rightarrow> gate \<Rightarrow> string \<times> bool option" where
  "flag name g = (name, Some (fst g))"

text \<open>The row that records the gates.\<close>

definition new_eligibility_check ::
    "timestamp \<Rightarrow> nat \<Rightarrow> change \<Rightarrow> audit_actor option \<Rightarrow> (string \<times> gate) list \<Rightarrow> pool_gate \<Rightarrow> string
      \<Rightarrow> eligibility_check" where
  "new_eligibility_check now k c actor gates pg window_sha = \<lparr>ec_org = ch_org c, ec_change = k,
     ec_requested_by = (case actor of
         Some a \<Rightarrow> if actor_type a = ActorUser then Some (actor_id a) else None
       | None \<Rightarrow> None),
     ec_passed = (list_all (fst \<circ> snd) gates \<and> pg_ok pg \<noteq> Some False),
     ec_checked_at = now, ec_expires_at = now + secs PREFLIGHT_TTL_SECONDS,
     ec_flags = map (\<lambda>(n, g). flag n g) gates @ [(''runner_pool_ok'', pg_ok pg)],
     ec_pool_key = pg_key pg, ec_pool_id = pg_id pg, ec_pool_reason = pg_reason pg,
     ec_checks = JArr (concat (map (fst \<circ> snd \<circ> snd) gates) @ pg_checks pg),
     ec_conflicts = JArr (concat (map (snd \<circ> snd \<circ> snd) gates)),
     ec_input_sha = (if ch_snapshot_sha c \<noteq> [] then ch_snapshot_sha c
                     else sha256_canonical_json (ch_snapshot c)),
     ec_window_sha = window_sha\<rparr>"

text \<open>All gates are evaluated, whatever the earlier ones said.\<close>

definition preflight_gates ::
    "timestamp \<Rightarrow> nat \<Rightarrow> change \<Rightarrow> op_profile \<Rightarrow> audit_actor option \<Rightarrow> db
      \<Rightarrow> ((string \<times> gate) list \<times> string) outcome" where
  "preflight_gates now k c p actor d =
    (let targets = targets_of d k; ts = map snd targets; ids = map (id_str \<circ> fst) targets in
     then_do (d, preflight_approval_status d c p) (\<lambda>d approval.
     then_do (preflight_policy_gate now k c ids d) (\<lambda>d policy.
     then_do (preflight_window now k c ids d) (\<lambda>d (window, window_sha).
     then_do (preflight_freeze_conflicts now k c targets d) (\<lambda>d freeze.
     then_do (d, preflight_verification_plan k c p d) (\<lambda>d plan.
       (d, Inr ([(''approved_status_ok'', approval), (''policy_pass_ok'', policy),
          (''window_open_ok'', window), (''freeze_conflicts_ok'', freeze),
          (''target_locks_ok'', preflight_target_locks k c ts d),
          (''actor_authorized_ok'', preflight_actor actor),
          (''verification_plan_ok'', plan)], window_sha))))))))"

definition save_eligibility_check ::
    "timestamp \<Rightarrow> nat \<Rightarrow> change \<Rightarrow> audit_actor option \<Rightarrow> eligibility_check \<Rightarrow> db
      \<Rightarrow> (nat \<times> eligibility_check) outcome" where
  "save_eligibility_check now k c actor ec d =
    (let (i, d) = fresh d; d = d\<lparr>elig_checks := tins i ec (elig_checks d)\<rparr>
     in (case audit_emit now (ch_org c)
           (case actor of None \<Rightarrow> system_actor ''Change service'' | Some a \<Rightarrow> a)
           ''change.preflight_checked'' ''dispatch_eligibility_check'' i [
             (''change_record_id'', JStr (id_str k)),
             (''result'', JStr (if ec_passed ec then ''passed'' else ''failed''))] d of
          Inl e \<Rightarrow> (d, Inl e)
        | Inr d \<Rightarrow> (d, Inr (i, ec))))"

definition run_dispatch_preflight ::
    "timestamp \<Rightarrow> nat \<Rightarrow> audit_actor option \<Rightarrow> db \<Rightarrow> (nat \<times> eligibility_check) outcome" where
  "run_dispatch_preflight now k actor d =
    (case tget (changes d) k of
       None \<Rightarrow> (d, Inl (NotFound ''change''))
     | Some c \<Rightarrow>
      (case tget (op_profiles d) (ch_profile c) of
         None \<Rightarrow> (d, Inl (NotFound ''operation_profile''))
       | Some p \<Rightarrow>
        then_do (enforce_emergency_expiry_for_change now k d) (\<lambda>d _.
        then_do (preflight_gates now k c p actor d) (\<lambda>d (gates, window_sha).
          save_eligibility_check now k c actor
            (new_eligibility_check now k c actor gates (preflight_runner_pool now k c d) window_sha) d))))"

text \<open>The latest passed, unexpired check of a change.\<close>

definition get_fresh_passed_preflight ::
    "timestamp \<Rightarrow> nat \<Rightarrow> db \<Rightarrow> (nat \<times> eligibility_check) option" where
  "get_fresh_passed_preflight now k d =
    first_of (sort_key (\<lambda>(i, x). - ec_checked_at x)
      (tsel (\<lambda>_ x. ec_change x = k \<and> ec_passed x \<and> now < ec_expires_at x) (elig_checks d)))"

section \<open>What the gates may change\<close>

text \<open>
  Running the gates only expires exceptions and sessions: what is still approved or active was so
  before, and every other table they read is untouched.
\<close>

definition gate_tables where
  "gate_tables d = (changes d, change_targets d, windows d, freeze_rules d, target_locks d,
     ver_plans d, ver_checks d, op_profiles d, elig_checks d, bindings d, control_part d)"

definition gate_frame :: "db \<Rightarrow> db \<Rightarrow> bool" where
  "gate_frame d d' \<longleftrightarrow> gate_tables d' = gate_tables d \<and> change_progress d d' \<and>
     (\<forall>i s. (i, s) \<in> set (breakglasses d') \<longrightarrow> bg_status s = BgActive \<longrightarrow> (i, s) \<in> set (breakglasses d)) \<and>
     (\<forall>i x. (i, x) \<in> set (change_exceptions d') \<longrightarrow> xc_status x = XcApproved \<longrightarrow>
        (i, x) \<in> set (change_exceptions d))"

interpretation gframe: effect_order gate_frame
  by unfold_locales (auto simp: gate_frame_def intro: progress.refl progress.trans)

lemma gate_frame_emit:
  assumes "commit_result d1 (audit_emit now org a et ot oid md d1) = (d', r)" and "gate_frame d d1"
  shows "gate_frame d d'"
proof (cases "audit_emit now org a et ot oid md d1")
  case (Inr d2)
  then have "gate_frame d1 d2"
    using audit_emit_progress [OF Inr]
    by (auto simp: gate_frame_def gate_tables_def control_part_def dest!: audit_emit_Inr)
  with assms Inr show ?thesis by (auto intro: gframe.trans)
qed (use assms in auto)

lemma expire_exception_frame: "expire_exception now d ix = (d', r) \<Longrightarrow> gate_frame d d'"
proof -
  assume a: "expire_exception now d ix = (d', r)"
  obtain i x where ix: "ix = (i, x)" by (cases ix)
  let ?d = "d\<lparr>change_exceptions := tupd i (\<lambda>x. x\<lparr>xc_status := XcExpired\<rparr>) (change_exceptions d)\<rparr>"
  have "change_progress d ?d"
    by (rule progress_same) (simp_all add: control_part_def still_part_def)
  then have f: "gate_frame d ?d"
    by (auto simp: gate_frame_def gate_tables_def control_part_def set_tupd split: if_splits)
  from a show ?thesis
    unfolding expire_exception_def ix prod.case Let_def
    by (auto intro: gframe.refl gate_frame_emit [OF _ f] split: sum.splits)
qed

lemma expire_breakglass_frame: "expire_breakglass now d ix = (d', r) \<Longrightarrow> gate_frame d d'"
proof -
  assume a: "expire_breakglass now d ix = (d', r)"
  obtain i s where ix: "ix = (i, s)" by (cases ix)
  have f: "gate_frame d d1" if "save_breakglass i s' d = Inr d1" "bg_status s' = BgExpired" for s' d1
    using that progress_same [OF save_breakglass_Inr [OF that(1)]]
    by (auto simp: save_breakglass_def res_simps gate_frame_def gate_tables_def
        control_part_def set_tupd split: if_splits)
  from a show ?thesis
    unfolding expire_breakglass_def ix prod.case Let_def
    by (auto intro: gframe.refl gate_frame_emit [OF _ f] split: sum.splits)
qed

lemma expire_exceptions_frame: "expire_exceptions now k d = (d', r) \<Longrightarrow> gate_frame d d'"
  unfolding expire_exceptions_def by (erule gframe.each_within) (rule expire_exception_frame)

lemma expire_sessions_frame: "expire_breakglass_sessions now k d = (d', r) \<Longrightarrow> gate_frame d d'"
  unfolding expire_breakglass_sessions_def by (erule gframe.each_within) (rule expire_breakglass_frame)

lemma enforce_expiry_frame: "enforce_emergency_expiry_for_change now k d = (d', r) \<Longrightarrow> gate_frame d d'"
  unfolding enforce_emergency_expiry_for_change_def
  by (erule gframe.then_do_within) (rule expire_exceptions_frame expire_sessions_frame, assumption)+

lemma approved_exception_frame:
  "approved_exception_for_scope now k et pred d = (d', r) \<Longrightarrow> gate_frame d d'"
  unfolding approved_exception_for_scope_def
  by (erule gframe.then_do_within) (auto intro: expire_exceptions_frame gframe.refl)

lemma assert_breakglass_frame: "assert_breakglass_allows now k g a ids d = (d', r) \<Longrightarrow> gate_frame d d'"
  unfolding assert_breakglass_allows_def
  by (erule gframe.then_do_within) (auto intro: expire_sessions_frame gframe.refl split: list.splits)

lemma breakglass_preflight_cases:
  assumes "breakglass_allows_preflight now k gate ids d = (d', r)"
  obtains q where "assert_breakglass_allows now k gate ''dispatch'' ids d = (d', q)"
    and "\<And>i. r = Inr (Some i) \<Longrightarrow> q = Inr i"
  using assms unfolding breakglass_allows_preflight_def
  by (auto split: prod.splits sum.splits err.splits err_kind.splits)

lemma breakglass_preflight_frame: "breakglass_allows_preflight now k gate ids d = (d', r) \<Longrightarrow> gate_frame d d'"
  by (erule breakglass_preflight_cases) (rule assert_breakglass_frame)

section \<open>What a gate that opens has seen\<close>

text \<open>A live session of the change whose scope covers the gate, and an approved exception.\<close>

definition covered_by_session :: "timestamp \<Rightarrow> nat \<Rightarrow> string \<Rightarrow> string list \<Rightarrow> db \<Rightarrow> bool" where
  "covered_by_session now k gate ids d \<longleftrightarrow>
    (\<exists>(i, s) \<in> set (breakglasses d). bg_change s = k \<and> session_live now s \<and>
       scope_allows (bg_scope s) gate ''dispatch'' ids = Inr ())"

definition covered_by_exception :: "timestamp \<Rightarrow> nat \<Rightarrow> string \<Rightarrow> (json \<Rightarrow> bool result) \<Rightarrow> db \<Rightarrow> bool" where
  "covered_by_exception now k et pred d \<longleftrightarrow>
    (\<exists>(i, x) \<in> set (change_exceptions d). xc_change x = k \<and> xc_type x = et \<and>
       xc_status x = XcApproved \<and> now < xc_expires_at x \<and>
       pred (py_or (xc_scope x) (JObj [])) = Inr True)"

lemma covered_before:
  assumes "gate_frame d d'"
  shows "covered_by_session now k gate ids d' \<Longrightarrow> covered_by_session now k gate ids d"
    and "covered_by_exception now k et pred d' \<Longrightarrow> covered_by_exception now k et pred d"
  using assms unfolding covered_by_session_def covered_by_exception_def gate_frame_def session_live_def
  by fast+

lemma breakglass_preflight_covers:
  assumes "breakglass_allows_preflight now k gate ids d = (d', Inr (Some i))"
  shows "covered_by_session now k gate ids d"
proof -
  from assms have a: "assert_breakglass_allows now k gate ''dispatch'' ids d = (d', Inr i)"
    by (rule breakglass_preflight_cases) simp
  then obtain d1 where e: "expire_breakglass_sessions now (Some k) d = (d1, Inr ())"
    and c: "(case tsel (\<lambda>_ s. bg_change s = k \<and> bg_status s = BgActive) (breakglasses d1) of
        [] \<Rightarrow> (d1, Inl (Domain DomainValidationError ''no_active_breakglass_session''))
      | [(i, s)] \<Rightarrow> (d1, res_bind (scope_allows (bg_scope s) gate ''dispatch'' ids) (\<lambda>_. Inr i))
      | _ \<Rightarrow> (d1, Inl (PyError ''MultipleObjectsReturned''))) = (d', Inr i)"
    by (auto simp: assert_breakglass_allows_def then_do_eq)
  from c obtain s where one: "tsel (\<lambda>_ s. bg_change s = k \<and> bg_status s = BgActive) (breakglasses d1) = [(i, s)]"
    and sc: "scope_allows (bg_scope s) gate ''dispatch'' ids = Inr ()" and d': "d' = d1"
    by (auto split: list.splits simp: res_bind_eq_Inr)
  from one have s: "(i, s) \<in> set (breakglasses d1)" "bg_change s = k" "bg_status s = BgActive"
    using tsel_mem [of i s "\<lambda>_ s. bg_change s = k \<and> bg_status s = BgActive" "breakglasses d1"] by simp_all
  with expire_sweep_live [OF e] have "session_live now s" by (simp add: session_live_def)
  with s sc have "covered_by_session now k gate ids d1"
    unfolding covered_by_session_def by blast
  then show ?thesis by (rule covered_before(1) [OF expire_sessions_frame [OF e]])
qed

lemma first_match_Some: "first_match pred xs = Inr (Some i) \<Longrightarrow>
    \<exists>x. (i, x) \<in> set xs \<and> pred (py_or (xc_scope x) (JObj [])) = Inr True"
  by (induction pred xs rule: first_match.induct) (auto simp: res_simps split: if_splits)

lemma approved_exceptions_mem: "(i, x) \<in> set (approved_exceptions now k et d) \<longleftrightarrow>
    (i, x) \<in> set (change_exceptions d) \<and> xc_change x = k \<and> xc_type x = et \<and>
    xc_status x = XcApproved \<and> now < xc_expires_at x"
  by (auto simp: approved_exceptions_def Let_def)

lemma approved_exception_covers:
  assumes "approved_exception_for_scope now k et pred d = (d', Inr (Some i))"
  shows "covered_by_exception now k et pred d"
proof -
  from assms obtain d1 where e: "expire_exceptions now k d = (d1, Inr ())"
    and m: "first_match pred (approved_exceptions now k et d1) = Inr (Some i)"
    by (auto simp: approved_exception_for_scope_def then_do_eq)
  from first_match_Some [OF m] have "covered_by_exception now k et pred d1"
    unfolding covered_by_exception_def by (auto simp: approved_exceptions_mem)
  then show ?thesis by (rule covered_before(2) [OF expire_exceptions_frame [OF e]])
qed

definition policy_clear :: "timestamp \<Rightarrow> nat \<Rightarrow> change \<Rightarrow> string list \<Rightarrow> db \<Rightarrow> bool" where
  "policy_clear now k c ids d \<longleftrightarrow>
    (case ch_policy_evaluation c of
       None \<Rightarrow> True
     | Some i \<Rightarrow> \<exists>pe. tget (policy_evals d) i = Some pe \<and>
         (pe_effective pe = ''pass'' \<or>
          covered_by_exception now k ''policy_override'' (policy_override_covers i pe) d \<or>
          covered_by_session now k ''policy_override'' ids d))"

definition window_clear :: "timestamp \<Rightarrow> nat \<Rightarrow> change \<Rightarrow> string list \<Rightarrow> db \<Rightarrow> bool" where
  "window_clear now k c ids d \<longleftrightarrow>
    (case window_of d k of
       None \<Rightarrow> True
     | Some (i, w) \<Rightarrow> recompute_window_status now (ch_status c) w = WnOpen \<or>
         covered_by_session now k ''window_overrun'' ids d)"

definition freeze_clear :: "timestamp \<Rightarrow> nat \<Rightarrow> change \<Rightarrow> change_target table \<Rightarrow> db \<Rightarrow> bool" where
  "freeze_clear now k c targets d \<longleftrightarrow> targets = [] \<or>
    (\<forall>(i, f) \<in> set (matching_freeze_rules now (ch_org c) (map snd targets) d).
       fz_behavior f = FreezeAllowWithException \<and>
       covered_by_exception now k ''freeze_override''
         (freeze_override_covers i (map (id_str \<circ> fst) targets)) d)"

lemma gate_frame_control: "gate_frame d d' \<Longrightarrow> control_part d' = control_part d"
  by (simp add: gate_frame_def gate_tables_def)

lemma preflight_policy_gate_Inr:
  assumes "preflight_policy_gate now k c ids d = (d', r)"
  shows "gate_frame d d'" and "r = Inr g \<Longrightarrow> fst g \<Longrightarrow> policy_clear now k c ids d"
proof -
  have "gate_frame d d' \<and> (\<forall>g. r = Inr g \<longrightarrow> fst g \<longrightarrow> policy_clear now k c ids d)"
  proof (cases "\<exists>i pe. ch_policy_evaluation c = Some i \<and> tget (policy_evals d) i = Some pe \<and>
      pe_effective pe \<noteq> ''pass''")
    case False
    with assms show ?thesis
      by (auto simp: preflight_policy_gate_def policy_clear_def gframe.refl split: option.splits if_splits)
  next
    case True
    then obtain i pe where pe: "ch_policy_evaluation c = Some i" "tget (policy_evals d) i = Some pe"
      "pe_effective pe \<noteq> ''pass''" by blast
    obtain d1 q where x: "approved_exception_for_scope now k ''policy_override''
        (policy_override_covers i pe) d = (d1, q)" by fastforce
    note f1 = approved_exception_frame [OF x]
    obtain d2 b where b: "breakglass_allows_preflight now k ''policy_override'' ids d1 = (d2, b)"
      by fastforce
    note f2 = gframe.trans [OF f1 breakglass_preflight_frame [OF b]]
    show ?thesis
      using assms pe x b f1 f2 approved_exception_covers [of now k _ _ d d1]
        covered_before(1) [OF f1] breakglass_preflight_covers [of now k _ ids d1 d2]
      by (auto simp: preflight_policy_gate_def then_do_eq policy_clear_def split: option.splits)
  qed
  then show "gate_frame d d'" "r = Inr g \<Longrightarrow> fst g \<Longrightarrow> policy_clear now k c ids d"
    by blast+
qed

lemma preflight_window_Inr:
  assumes "preflight_window now k c ids d = (d', r)"
  shows "gate_frame d d'" and "r = Inr (g, sha) \<Longrightarrow> fst g \<Longrightarrow> window_clear now k c ids d"
proof -
  have "gate_frame d d' \<and> (\<forall>g sha. r = Inr (g, sha) \<longrightarrow> fst g \<longrightarrow> window_clear now k c ids d)"
  proof -
    obtain d1 b where b: "breakglass_allows_preflight now k ''window_overrun'' ids d = (d1, b)"
      by fastforce
    show ?thesis
      using assms b breakglass_preflight_frame [OF b] breakglass_preflight_covers [of now k _ ids d d1]
      by (auto simp: preflight_window_def Let_def then_do_eq window_clear_def gframe.refl
          split: option.splits if_splits)
  qed
  then show "gate_frame d d'" "r = Inr (g, sha) \<Longrightarrow> fst g \<Longrightarrow> window_clear now k c ids d"
    by blast+
qed

lemma freeze_blocking_Inr:
  assumes "freeze_blocking now k ids fs d = (d', r)"
  shows "gate_frame d d' \<and> (r = Inr [] \<longrightarrow> (\<forall>(i, f) \<in> set fs.
     fz_behavior f = FreezeAllowWithException \<and>
     covered_by_exception now k ''freeze_override'' (freeze_override_covers i ids) d))"
  using assms
proof (induction fs arbitrary: d d' r)
  case (Cons jf fs)
  obtain i f where jf: "jf = (i, f)" by (cases jf)
  show ?case
  proof (cases "fz_behavior f")
    case FreezeBlock
    with Cons.prems obtain q where q: "freeze_blocking now k ids fs d = (d', q)" "r \<noteq> Inr []"
      by (auto simp: jf then_do_eq split: if_splits)
    with Cons.IH [OF q(1)] show ?thesis by simp
  next
    case FreezeAllowWithException
    obtain d1 q where x: "approved_exception_for_scope now k ''freeze_override''
        (freeze_override_covers i ids) d = (d1, q)" by fastforce
    note f1 = approved_exception_frame [OF x]
    show ?thesis
    proof (cases q)
      case (Inl e)
      with Cons.prems f1 show ?thesis by (auto simp: jf FreezeAllowWithException x)
    next
      case (Inr y)
      with Cons.prems obtain q' where q': "freeze_blocking now k ids fs d1 = (d', q')"
          "r = Inr [] \<longrightarrow> q' = Inr [] \<and> y \<noteq> None"
        by (auto simp: jf FreezeAllowWithException x then_do_eq split: if_splits)
      from Cons.IH [OF q'(1)] gframe.trans [OF f1] have "gate_frame d d'" by blast
      moreover have "\<forall>(i, f) \<in> set (jf # fs). fz_behavior f = FreezeAllowWithException \<and>
          covered_by_exception now k ''freeze_override'' (freeze_override_covers i ids) d"
        if "r = Inr []"
      proof -
        from q'(2) that obtain z where y: "y = Some z" and q: "q' = Inr []" by blast
        have "covered_by_exception now k ''freeze_override'' (freeze_override_covers i ids) d"
          by (rule approved_exception_covers) (use x Inr y in simp)
        with Cons.IH [OF q'(1)] q covered_before(2) [OF f1] show ?thesis
          by (auto simp: jf FreezeAllowWithException)
      qed
      ultimately show ?thesis by blast
    qed
  qed
qed (auto intro: gframe.refl)

lemma preflight_freeze_Inr:
  assumes "preflight_freeze_conflicts now k c ts d = (d', r)"
  shows "gate_frame d d'" and "r = Inr g \<Longrightarrow> fst g \<Longrightarrow> freeze_clear now k c ts d"
proof -
  obtain d1 q where q: "freeze_blocking now k (map (id_str \<circ> fst) ts)
      (matching_freeze_rules now (ch_org c) (map snd ts) d) d = (d1, q)" by fastforce
  have "gate_frame d d' \<and> (\<forall>g. r = Inr g \<longrightarrow> fst g \<longrightarrow> freeze_clear now k c ts d)"
    using assms freeze_blocking_Inr [OF q]
    by (auto simp: preflight_freeze_conflicts_def q then_do_eq freeze_clear_def gframe.refl split: if_splits)
  then show "gate_frame d d'" "r = Inr g \<Longrightarrow> fst g \<Longrightarrow> freeze_clear now k c ts d"
    by blast+
qed

section \<open>The preflight as a whole\<close>

text \<open>What a passed check certifies of the state it was run in.\<close>

definition gates_clear :: "timestamp \<Rightarrow> nat \<Rightarrow> change \<Rightarrow> op_profile \<Rightarrow> db \<Rightarrow> bool" where
  "gates_clear now k c p d \<longleftrightarrow>
    (let targets = targets_of d k; ids = map (id_str \<circ> fst) targets in
     ch_status c \<in> {ChApproved, ChScheduled, ChDispatchable} \<and>
     (op_requires_approval p \<longrightarrow> (\<exists>a ar. ch_approval_request c = Some a \<and>
        tget (approval_reqs d) a = Some ar \<and> ar_status ar = ArApproved)) \<and>
     policy_clear now k c ids d \<and> window_clear now k c ids d \<and> freeze_clear now k c targets d \<and>
     conflicting_locks k (ch_org c) (map snd targets) d = [] \<and>
     (op_verification_required p \<longrightarrow> (\<exists>i vp. plan_of_change d k = Some (i, vp) \<and>
        validate_existing_plan d i vp c = Inr ())) \<and>
     ((\<exists>pool. find_pool_for_change now k c d = Inr (Some pool, ''ok'')) \<or>
      find_pool_for_change now k c d = Inr (None, ''no_routes_configured'')))"

lemma match_targets_cong:
  assumes r: "routes d' = routes d" and p: "runner_pools d' = runner_pools d"
  shows "match_targets d' org ts = match_targets d org ts"
proof (induction ts)
  case (Cons t ts)
  show ?case unfolding match_targets.simps route_for_def r p Cons.IH by (rule refl)
qed simp

lemma gate_tables_queries:
  assumes "gate_tables d' = gate_tables d"
  shows "targets_of d' k = targets_of d k" and "window_of d' k = window_of d k"
    and "matching_freeze_rules now org ts d' = matching_freeze_rules now org ts d"
    and "conflicting_locks k org ts d' = conflicting_locks k org ts d"
    and "plan_of_change d' k = plan_of_change d k"
    and "validate_existing_plan d' i vp c = validate_existing_plan d i vp c"
    and "find_pool_for_change now k c d' = find_pool_for_change now k c d"
    and "approval_reqs d' = approval_reqs d" and "policy_evals d' = policy_evals d"
    and "changes d' = changes d" and "op_profiles d' = op_profiles d"
proof -
  have t: "changes d' = changes d" "change_targets d' = change_targets d" "windows d' = windows d"
      "freeze_rules d' = freeze_rules d" "target_locks d' = target_locks d"
      "ver_plans d' = ver_plans d" "ver_checks d' = ver_checks d" "op_profiles d' = op_profiles d"
      "control_part d' = control_part d"
    using assms by (simp_all add: gate_tables_def)
  then have c: "routes d' = routes d" "runner_pools d' = runner_pools d" "runners d' = runners d"
      "cfg d' = cfg d" "approval_reqs d' = approval_reqs d" "policy_evals d' = policy_evals d"
    by (simp_all add: control_part_def)
  show targets: "targets_of d' k = targets_of d k" by (simp add: targets_of_def t)
  show "window_of d' k = window_of d k" by (simp add: window_of_def t)
  show "matching_freeze_rules now org ts d' = matching_freeze_rules now org ts d"
    by (simp add: matching_freeze_rules_def t)
  show "conflicting_locks k org ts d' = conflicting_locks k org ts d"
    by (simp add: conflicting_locks_def t)
  show "plan_of_change d' k = plan_of_change d k" by (simp add: plan_of_change_def t)
  show "validate_existing_plan d' i vp c = validate_existing_plan d i vp c"
    by (simp add: validate_existing_plan_def t)
  have pool: "check_pool now p ip d' = check_pool now p ip d" for p ip
    unfolding check_pool_def has_online_runner_def c by (rule refl)
  show "find_pool_for_change now k c d' = find_pool_for_change now k c d"
    unfolding find_pool_for_change_def targets match_targets_cong [OF c(1,2)] pool c t by (rule refl)
  show "approval_reqs d' = approval_reqs d" "policy_evals d' = policy_evals d"
    "changes d' = changes d" "op_profiles d' = op_profiles d"
    by (fact c t)+
qed

lemma clear_before:
  assumes "gate_frame d d'"
  shows "policy_clear now k c ids d' \<Longrightarrow> policy_clear now k c ids d"
    and "window_clear now k c ids d' \<Longrightarrow> window_clear now k c ids d"
    and "freeze_clear now k c ts d' \<Longrightarrow> freeze_clear now k c ts d"
proof -
  from assms have t: "gate_tables d' = gate_tables d" by (simp add: gate_frame_def)
  note q = gate_tables_queries [OF t]
  note cov = covered_before [OF assms]
  show "policy_clear now k c ids d" if "policy_clear now k c ids d'"
    using that cov unfolding policy_clear_def q by (auto split: option.splits)
  show "window_clear now k c ids d" if "window_clear now k c ids d'"
    using that cov unfolding window_clear_def q by (auto split: option.splits)
  show "freeze_clear now k c ts d" if "freeze_clear now k c ts d'"
    using that cov unfolding freeze_clear_def q by blast
qed

lemma gates_clear_before:
  assumes "gate_frame d d'" and "gates_clear now k c p d'"
  shows "gates_clear now k c p d"
proof -
  from assms(1) have t: "gate_tables d' = gate_tables d" by (simp add: gate_frame_def)
  show ?thesis
    using assms(2) clear_before [OF assms(1)] unfolding gates_clear_def Let_def gate_tables_queries [OF t]
    by blast
qed

lemma lock_gate_clear:
  "fst (preflight_target_locks k c ts d) \<Longrightarrow> conflicting_locks k (ch_org c) ts d = []"
  by (cases ts) (simp_all add: preflight_target_locks_def Let_def conflicting_locks_def tsel_def)

lemma approval_gate_clear:
  assumes "preflight_approval_status d c p = Inr g" and "fst g"
  shows "ch_status c \<in> {ChApproved, ChScheduled, ChDispatchable} \<and>
     (op_requires_approval p \<longrightarrow> (\<exists>a ar. ch_approval_request c = Some a \<and>
        tget (approval_reqs d) a = Some ar \<and> ar_status ar = ArApproved))"
  using assms by (auto simp: preflight_approval_status_def split: if_splits option.splits)

lemma plan_gate_clear:
  assumes "preflight_verification_plan k c p d = Inr g" and "fst g" and "op_verification_required p"
  shows "\<exists>i vp. plan_of_change d k = Some (i, vp) \<and> validate_existing_plan d i vp c = Inr ()"
  using assms by (auto simp: preflight_verification_plan_def split: option.splits sum.splits err.splits if_splits)

lemma pool_gate_clear:
  assumes "pg_ok (preflight_runner_pool now k c d) \<noteq> Some False"
  shows "(\<exists>pool. find_pool_for_change now k c d = Inr (Some pool, ''ok'')) \<or>
     find_pool_for_change now k c d = Inr (None, ''no_routes_configured'')"
proof (cases "find_pool_for_change now k c d")
  case (Inr b)
  obtain pool why where b: "b = (pool, why)" by (cases b)
  show ?thesis
  proof (cases pool)
    case None
    with assms Inr b show ?thesis by (auto simp: preflight_runner_pool_def split: if_splits)
  next
    case (Some ip)
    obtain i p where "ip = (i, p)" by (cases ip)
    with Inr b Some chosen_pool_serves_all [of now k c d i p why] show ?thesis by auto
  qed
qed (use assms in \<open>simp add: preflight_runner_pool_def\<close>)

lemma preflight_gates_Inr:
  assumes "preflight_gates now k c p actor d = (d', Inr (gates, sha))"
  shows "gate_frame d d'"
    and "list_all (fst \<circ> snd) gates \<Longrightarrow> pg_ok (preflight_runner_pool now k c d') \<noteq> Some False \<Longrightarrow>
      gates_clear now k c p d \<and> actor \<noteq> None"
proof -
  let ?targets = "targets_of d k"
  let ?ids = "map (id_str \<circ> fst) ?targets"
  from assms obtain ga gp gw gf gv t1 t2 where
      a: "preflight_approval_status d c p = Inr ga"
      and pol: "preflight_policy_gate now k c ?ids d = (t1, Inr gp)"
      and win: "preflight_window now k c ?ids t1 = (t2, Inr (gw, sha))"
      and fr: "preflight_freeze_conflicts now k c ?targets t2 = (d', Inr gf)"
      and pl: "preflight_verification_plan k c p d' = Inr gv"
      and gates: "gates = [(''approved_status_ok'', ga), (''policy_pass_ok'', gp),
          (''window_open_ok'', gw), (''freeze_conflicts_ok'', gf),
          (''target_locks_ok'', preflight_target_locks k c (map snd ?targets) d'),
          (''actor_authorized_ok'', preflight_actor actor), (''verification_plan_ok'', gv)]"
    by (auto simp: preflight_gates_def then_do_eq Let_def)
  note f1 = preflight_policy_gate_Inr(1) [OF pol]
  note f2 = gframe.trans [OF f1 preflight_window_Inr(1) [OF win]]
  show f3: "gate_frame d d'"
    using f2 preflight_freeze_Inr(1) [OF fr] by (rule gframe.trans)
  then have t: "gate_tables d' = gate_tables d" by (simp add: gate_frame_def)
  note q = gate_tables_queries [OF t]
  assume ok: "list_all (fst \<circ> snd) gates" and pg: "pg_ok (preflight_runner_pool now k c d') \<noteq> Some False"
  have "policy_clear now k c ?ids d"
    using preflight_policy_gate_Inr(2) [OF pol refl] ok gates by simp
  moreover have "window_clear now k c ?ids d"
    using clear_before(2) [OF f1] preflight_window_Inr(2) [OF win refl] ok gates by simp
  moreover have "freeze_clear now k c ?targets d"
    using clear_before(3) [OF f2] preflight_freeze_Inr(2) [OF fr refl] ok gates by simp
  moreover have "conflicting_locks k (ch_org c) (map snd ?targets) d = []"
    using lock_gate_clear [of k c "map snd ?targets" d'] ok gates unfolding q by simp
  moreover have "actor \<noteq> None" using ok gates by (simp add: preflight_actor_def)
  ultimately show "gates_clear now k c p d \<and> actor \<noteq> None"
    using approval_gate_clear [OF a] plan_gate_clear [OF pl] pool_gate_clear [OF pg] ok gates
    unfolding gates_clear_def Let_def q by simp
qed

lemma save_eligibility_check_Inr:
  assumes "save_eligibility_check now k c actor ec d = (d', Inr (i, ec'))"
  obtains ev where "ec' = ec" "i = next_id d" "d' = d\<lparr>next_id := Suc (next_id d),
    elig_checks := tins i ec' (elig_checks d), audit_log := audit_log d @ [ev]\<rparr>" "world_grows d d'"
proof -
  let ?d = "d\<lparr>next_id := Suc (next_id d), elig_checks := tins (next_id d) ec (elig_checks d)\<rparr>"
  from assms have em: "audit_emit now (ch_org c)
      (case actor of None \<Rightarrow> system_actor ''Change service'' | Some a \<Rightarrow> a)
      ''change.preflight_checked'' ''dispatch_eligibility_check'' (next_id d) [
        (''change_record_id'', JStr (id_str k)),
        (''result'', JStr (if ec_passed ec then ''passed'' else ''failed''))] ?d = Inr d'"
    and i: "i = next_id d" "ec' = ec"
    unfolding save_eligibility_check_def fresh_def Let_def prod.case by (auto split: sum.splits)
  have "world_grows d ?d"
    by (simp add: world_grows_def log_grows_same table_within_refl table_within_tins locks_exclusive_def)
  then have "world_grows d d'" using audit_emit_world [OF em] by (rule world.trans)
  with audit_emit_Inr [OF em] i show ?thesis by (auto intro: that)
qed

lemma run_preflight_Inr:
  assumes "run_dispatch_preflight now k actor d = (d', Inr (i, ec))"
  obtains c p d1 ev where
    "tget (changes d) k = Some c" "tget (op_profiles d) (ch_profile c) = Some p" "gate_frame d d1"
    "d' = d1\<lparr>next_id := Suc (next_id d1), elig_checks := tins i ec (elig_checks d1),
       audit_log := audit_log d1 @ [ev]\<rparr>" "i = next_id d1"
    "ec_change ec = k" "ec_checked_at ec = now" "ec_expires_at ec = now + secs 300"
    "ec_passed ec \<longrightarrow> gates_clear now k c p d \<and> actor \<noteq> None" "world_grows d d'"
proof -
  from assms obtain c p t0 t1 gates sha where c: "tget (changes d) k = Some c"
      and p: "tget (op_profiles d) (ch_profile c) = Some p"
      and e: "enforce_emergency_expiry_for_change now k d = (t0, Inr ())"
      and g: "preflight_gates now k c p actor t0 = (t1, Inr (gates, sha))"
      and sv: "save_eligibility_check now k c actor (new_eligibility_check now k c actor gates
        (preflight_runner_pool now k c t1) sha) t1 = (d', Inr (i, ec))"
    by (auto simp: run_dispatch_preflight_def then_do_eq split: option.splits)
  note f0 = enforce_expiry_frame [OF e]
  note gi = preflight_gates_Inr [OF g]
  from sv obtain ev where ec: "ec = new_eligibility_check now k c actor gates (preflight_runner_pool now k c t1) sha"
      and d': "i = next_id t1" "d' = t1\<lparr>next_id := Suc (next_id t1),
        elig_checks := tins i ec (elig_checks t1), audit_log := audit_log t1 @ [ev]\<rparr>"
      and w: "world_grows t1 d'"
    by (rule save_eligibility_check_Inr)
  show thesis
  proof (rule that [OF c p gframe.trans [OF f0 gi(1)] d'(2,1)])
    show "ec_passed ec \<longrightarrow> gates_clear now k c p d \<and> actor \<noteq> None"
      using gi(2) gates_clear_before [OF f0] by (auto simp: ec new_eligibility_check_def)
    show "world_grows d d'"
      using gframe.trans [OF f0 gi(1)] w by (auto simp: gate_frame_def change_progress_def intro: world.trans)
  qed (simp_all add: ec new_eligibility_check_def)
qed

section \<open>Properties\<close>

text \<open>
  C3: a preflight that passes has checked every gate in the state it was run in: an eligible and, where
  required, approved change; policy, window and freeze rules clear or covered by an approved
  exception or a live session in scope; no foreign lock on a target; a dispatchable plan; a pool.
\<close>

theorem preflight_certifies_gates:
  assumes "run_dispatch_preflight now k actor d = (d', Inr (i, ec))" and "ec_passed ec"
  shows "\<exists>c p. tget (changes d) k = Some c \<and> tget (op_profiles d) (ch_profile c) = Some p \<and>
     gates_clear now k c p d \<and> actor \<noteq> None \<and> (i, ec) \<in> set (elig_checks d') \<and>
     ec_change ec = k \<and> ec_expires_at ec = now + 300000000 \<and> changes d' = changes d \<and>
     target_locks d' = target_locks d"
  using assms(1)
proof (rule run_preflight_Inr)
  fix c p d1 ev
  assume "tget (changes d) k = Some c" "tget (op_profiles d) (ch_profile c) = Some p" "gate_frame d d1"
    "d' = d1\<lparr>next_id := Suc (next_id d1), elig_checks := tins i ec (elig_checks d1),
       audit_log := audit_log d1 @ [ev]\<rparr>" "ec_change ec = k" "ec_expires_at ec = now + secs 300"
    "ec_passed ec \<longrightarrow> gates_clear now k c p d \<and> actor \<noteq> None"
  with assms(2) show ?thesis
    by (intro exI [of _ c] exI [of _ p])
      (simp add: gate_frame_def gate_tables_def tins_def secs_def)
qed

section \<open>Witnesses\<close>

text \<open>
  An approved change with one target, ready to be dispatched: its snapshot and hashes are those of
  its request, its approval request is approved, and no route is configured.
\<close>

definition targeted_db :: db where
  "targeted_db = (sample_db ChApproved)\<lparr>change_targets := [(35, sample_target 1 ''web-1'')]\<rparr>"

definition ready_change :: "change_status \<Rightarrow> change" where
  "ready_change s =
    (let c = (sample_change s)\<lparr>ch_inputs_sha := sha256_canonical_json (JObj []),
           ch_approval_request := Some 50, ch_scheduled_for := Some 5\<rparr>;
         live = (case build_live_submitted_request_snapshot targeted_db 30 c of
             Inl _ \<Rightarrow> [] | Inr l \<Rightarrow> l)
     in c\<lparr>ch_snapshot := JObj live, ch_snapshot_sha := sha256_canonical_json (JObj live)\<rparr>)"

definition ready_approval :: approval_request where
  "ready_approval = \<lparr>ar_org = 1, ar_subject_type = SubjChange, ar_subject_id = Some 30,
     ar_exec = None, ar_step = None, ar_status = ArApproved, ar_runner = [], ar_requested_at = 5,
     ar_timeout = None, ar_expires_at = None, ar_resolved_at = Some 6\<rparr>"

definition ready_db :: "change_status \<Rightarrow> db" where
  "ready_db s = targeted_db\<lparr>cfg := sample_secret, changes := [(30, ready_change s)],
     approval_reqs := [(50, ready_approval)]\<rparr>"

lemma ready_change_fields [simp]:
  "ch_status (ready_change s) = s" "ch_org (ready_change s) = 1" "ch_profile (ready_change s) = 10"
  "ch_workflow (ready_change s) = 20" "ch_policy_evaluation (ready_change s) = None"
  "ch_approval_request (ready_change s) = Some 50" "ch_scheduled_for (ready_change s) = Some 5"
  "ch_inputs (ready_change s) = JObj []" "ch_snapshot_sha (ready_change s) \<noteq> []" "ch_inputs_sha (ready_change s) \<noteq> []"
  by (simp_all add: ready_change_def sample_change_def Let_def sha256_canonical_ne)

lemma ready_rows [simp]:
  "changes (ready_db s) = [(30, (ready_change s))]" "cfg (ready_db s) = sample_secret"
  "op_profiles (ready_db s) = [(10, sample_profile)]" "workflows (ready_db s) = [(20, sample_workflow)]"
  "approval_reqs (ready_db s) = [(50, ready_approval)]" "breakglasses (ready_db s) = []"
  "change_targets (ready_db s) = [(35, sample_target 1 ''web-1'')]" "change_exceptions (ready_db s) = []"
  "executions (ready_db s) = []" "bindings (ready_db s) = []" "target_locks (ready_db s) = []"
  "elig_checks (ready_db s) = []" "windows (ready_db s) = []" "routes (ready_db s) = []"
  "freeze_rules (ready_db s) = []" "next_id (ready_db s) = 100"
  by (simp_all add: ready_db_def targeted_db_def sample_db_def empty_db_def)

lemma ready_targets [simp]: "targets_of (ready_db s) 30 = [(35, sample_target 1 ''web-1'')]"
  by (simp add: targets_of_def tsel_def sample_target_def)

lemma ready_snapshot_eq: "py_eq (ch_snapshot (ready_change s)) (ch_snapshot (ready_change s))"
  by (simp add: ready_change_def targeted_db_def sample_db_def sample_change_def
      sample_profile_def sample_workflow_def empty_db_def tget_def sample_target_def
      build_live_submitted_request_snapshot_def build_request_snapshot_def targets_of_def tsel_def
      target_snapshot_def
      profile_snapshot_def workflow_snapshot_def py_or_def dict_set_def opt_json_def iso_json_def Let_def)

lemma ready_intact: "validate_request_integrity (ready_db s) 30 = Inr ()"
  by (simp add: ready_db_def ready_change_def targeted_db_def sample_db_def sample_change_def
      sample_profile_def sample_workflow_def empty_db_def validate_request_integrity_def tget_def
      build_live_submitted_request_snapshot_def build_request_snapshot_def targets_of_def tsel_def
      sample_target_def target_snapshot_def
      profile_snapshot_def workflow_snapshot_def py_or_def dict_set_def opt_json_def iso_json_def Let_def)

lemma ready_preflight:
  assumes s: "s \<in> {ChApproved, ChScheduled}"
  obtains ev ec where
    "run_dispatch_preflight 9 30 (Some (system_actor ''Change service'')) (ready_db s) =
      ((ready_db s)\<lparr>next_id := 101, elig_checks := [(100, ec)], audit_log := audit_log (ready_db s) @ [ev]\<rparr>, Inr (100, ec))"
    "ec_passed ec" "ec_pool_key ec = []"
proof -
  let ?a = "Some (system_actor ''Change service'')"
  let ?n = "\<lambda>n. simple_gate n True"
  let ?gates = "[(''approved_status_ok'', ?n ''approved_status''), (''policy_pass_ok'', ?n ''policy_pass''),
          (''window_open_ok'', ?n ''window_open''), (''freeze_conflicts_ok'', ?n ''freeze_conflicts''),
          (''target_locks_ok'', ?n ''target_locks''),
          (''actor_authorized_ok'', ?n ''actor_authorized''), (''verification_plan_ok'', ?n ''verification_plan'')]"
  have exp: "enforce_emergency_expiry_for_change 9 30 (ready_db s) = ((ready_db s), Inr ())"
    by (simp add: enforce_emergency_expiry_for_change_def expire_exceptions_def expire_breakglass_sessions_def tsel_def)
  have g: "preflight_gates 9 30 (ready_change s) sample_profile ?a (ready_db s) = ((ready_db s), Inr (?gates, []))"
    using s
    by (auto simp add: preflight_gates_def preflight_approval_status_def sample_profile_def tget_def ready_approval_def
        preflight_policy_gate_def preflight_window_def window_of_def tsel_def preflight_freeze_conflicts_def
        matching_freeze_rules_def preflight_target_locks_def conflicting_locks_def Let_def preflight_actor_def
        preflight_verification_plan_def)
  have p: "preflight_runner_pool 9 30 (ready_change s) (ready_db s) =
      \<lparr>pg_ok = None, pg_key = [], pg_id = [], pg_reason = ''no_routes_configured'', pg_checks = []\<rparr>"
    by (simp add: preflight_runner_pool_def find_pool_for_change_def tsel_def)
  obtain ec where ec: "ec = new_eligibility_check 9 30 (ready_change s) ?a ?gates
      (preflight_runner_pool 9 30 (ready_change s) (ready_db s)) []" by simp
  then have ok: "ec_passed ec" "ec_pool_key ec = []"
    by (simp_all add: new_eligibility_check_def p)
  let ?d = "(ready_db s)\<lparr>next_id := 101, elig_checks := [(100, ec)]\<rparr>"
  have "\<exists>ev. audit_emit 9 1 (system_actor ''Change service'') ''change.preflight_checked''
      ''dispatch_eligibility_check'' 100 [(''change_record_id'', JStr (id_str 30)), (''result'', JStr ''passed'')]
      d = Inr (d\<lparr>audit_log := audit_log d @ [ev]\<rparr>)" for d
    using length_id_str [of 30] by (intro audit_emit_succeeds) (simp_all add: sample_event_simps)
  then obtain ev where ev: "audit_emit 9 1 (system_actor ''Change service'') ''change.preflight_checked''
      ''dispatch_eligibility_check'' 100 [(''change_record_id'', JStr (id_str 30)), (''result'', JStr ''passed'')] ?d =
      Inr (?d\<lparr>audit_log := audit_log ?d @ [ev]\<rparr>)"
    by blast
  let ?d' = "(ready_db s)\<lparr>next_id := 101, elig_checks := [(100, ec)], audit_log := audit_log (ready_db s) @ [ev]\<rparr>"
  have "save_eligibility_check 9 30 (ready_change s) ?a ec (ready_db s) = (?d', Inr (100, ec))"
    using ev ok unfolding save_eligibility_check_def fresh_def Let_def prod.case
    by (simp add: tins_def)
  then have "run_dispatch_preflight 9 30 ?a (ready_db s) = (?d', Inr (100, ec))"
    by (simp add: run_dispatch_preflight_def tget_def exp g flip: ec)
  with ok show thesis by (intro that)
qed

theorem preflight_certifies_gates_witness:
  "\<exists>d' ec. run_dispatch_preflight 9 30 (Some (system_actor ''Change service'')) (ready_db ChApproved) = (d', Inr (100, ec)) \<and>
     gates_clear 9 30 (ready_change ChApproved) sample_profile (ready_db ChApproved)"
proof -
  obtain ev ec where r: "run_dispatch_preflight 9 30 (Some (system_actor ''Change service'')) (ready_db ChApproved) =
      ((ready_db ChApproved)\<lparr>next_id := 101, elig_checks := [(100, ec)], audit_log := audit_log (ready_db ChApproved) @ [ev]\<rparr>, Inr (100, ec))"
    and ok: "ec_passed ec" by (rule ready_preflight [of ChApproved]) simp_all
  from preflight_certifies_gates [OF r ok] r show ?thesis by (auto simp: tget_def)
qed


end
