(* ===== verification/Retro_Reviews.thy ===== *)
theory Retro_Reviews
  imports Dispatch_Preflight
begin

text \<open>
  Breakglass sessions and retrospective reviews (\<open>apps/changes/services.py\<close>): opening a session
  within the limits of the profile, the heartbeat of a runner that works under one, the reviews a
  session or a severe exception makes necessary, their submission, the overdue sweeps, and the gate
  they put before the closure of a change. \<open>transaction.atomic()\<close> bodies return a \<open>result\<close>; the
  other functions keep what they wrote before an exception and are outcomes.
\<close>

section \<open>Constants\<close>

text \<open>\<open>or\<close> with a numeric default: \<open>None\<close> and \<open>0\<close> give the default.\<close>

definition int_or :: "int option \<Rightarrow> int \<Rightarrow> int" where
  "int_or x dflt = (case x of None \<Rightarrow> dflt | Some n \<Rightarrow> if n = 0 then dflt else n)"

definition DEFAULT_MAX_BREAKGLASS_SECONDS :: int where
  "DEFAULT_MAX_BREAKGLASS_SECONDS = 14400"

definition DEFAULT_RETRO_REVIEW_SLA_SECONDS :: int where
  "DEFAULT_RETRO_REVIEW_SLA_SECONDS = 86400"

definition BREAKGLASS_SCOPE_REQUIRED_KEYS :: "string list" where
  "BREAKGLASS_SCOPE_REQUIRED_KEYS = [''allowed_actions'', ''target_ids'', ''gate_types'']"

definition BREAKGLASS_SCOPE_FORBIDDEN_KEYS :: "string list" where
  "BREAKGLASS_SCOPE_FORBIDDEN_KEYS = [
    ''api_key'', ''apikey'', ''auth'', ''bearer'', ''bearer_token'', ''cloud_role'',
    ''host_credentials'', ''iam_role'', ''iam_policy'', ''kubeconfig'', ''password'',
    ''private_key'', ''secret'', ''ssh_key'', ''token'']"

definition BREAKGLASS_ACTIVATABLE_STATUSES :: "change_status list" where
  "BREAKGLASS_ACTIVATABLE_STATUSES = [
    ChApproved, ChDispatchable, ChRunning, ChVerificationPending, ChVerificationFailed, ChVerified]"

section \<open>Saving reviews\<close>

text \<open>\<open>RetroReview.clean\<close>.\<close>

definition retro_clean :: "db \<Rightarrow> retro_review \<Rightarrow> unit result" where
  "retro_clean d r =
    (case tget (changes d) (rr_change r) of
       None \<Rightarrow> Inl (NotFound ''change'')
     | Some c \<Rightarrow>
        if ch_org c \<noteq> rr_org r then Inl (DjangoValidation ''retro_review'')
        else if rr_session r = None \<and> rr_exception r = None
          then Inl (DjangoValidation ''retrorev_source_required'')
        else if (case rr_session r of None \<Rightarrow> False
                 | Some s \<Rightarrow> map_option bg_change (tget (breakglasses d) s) \<noteq> Some (rr_change r))
          then Inl (DjangoValidation ''retro_review'')
        else if (case rr_exception r of None \<Rightarrow> False
                 | Some x \<Rightarrow> map_option xc_change (tget (change_exceptions d) x) \<noteq> Some (rr_change r))
          then Inl (DjangoValidation ''retro_review'')
        else Inr ())"

definition new_review ::
    "nat \<Rightarrow> nat \<Rightarrow> nat option \<Rightarrow> nat option \<Rightarrow> timestamp \<Rightarrow> retro_review" where
  "new_review org k session exc due =
    \<lparr>rr_org = org, rr_change = k, rr_session = session, rr_exception = exc,
     rr_status = RrPending, rr_disposition = None, rr_reviewed_by = None, rr_reviewed_at = None,
     rr_due_at = due, rr_summary = [], rr_remediation_required = False, rr_remediation_ref = [],
     rr_failure_category = JStr [], rr_evidence = JObj []\<rparr>"

definition create_review :: "retro_review \<Rightarrow> db \<Rightarrow> (db \<times> nat) result" where
  "create_review r d =
    res_bind (retro_clean d r) (\<lambda>_.
      let (j, d) = fresh d in Inr (d\<lparr>retro_reviews := tins j r (retro_reviews d)\<rparr>, j))"

text \<open>The review the change now waits for, with the earliest of the due times.\<close>

definition require_review :: "timestamp \<Rightarrow> change \<Rightarrow> change" where
  "require_review due c = c\<lparr>ch_retro_required := True,
     ch_retro_due := (case ch_retro_due c of
        None \<Rightarrow> Some due | Some t \<Rightarrow> if due < t then Some due else Some t),
     ch_retro_blocking := ''pending''\<rparr>"

section \<open>Opening a breakglass session\<close>

definition validate_breakglass_scope :: "json \<Rightarrow> unit result" where
  "validate_breakglass_scope scope =
    (case scope of
       JObj sc \<Rightarrow>
        if \<not> set BREAKGLASS_SCOPE_REQUIRED_KEYS \<subseteq> fst ` set sc
          then Inl (Domain DomainValidationError ''breakglass_scope_missing_keys'')
        else if list_ex (\<lambda>key. items_of (fget sc key JNull) = []) BREAKGLASS_SCOPE_REQUIRED_KEYS
          then Inl (Domain DomainValidationError ''breakglass_scope_empty_list'')
        else if list_ex (\<lambda>(key, _). lower key \<in> set BREAKGLASS_SCOPE_FORBIDDEN_KEYS) sc
          then Inl (Domain DomainValidationError ''breakglass_scope_forbidden_key'')
        else Inr ()
     | _ \<Rightarrow> Inl (Domain DomainValidationError ''breakglass_scope_invalid''))"

text \<open>The summary a runner logs; \<open>len\<close> of a value without a length is a \<open>TypeError\<close>.\<close>

fun py_len :: "json \<Rightarrow> nat result" where
  "py_len (JStr s) = Inr (length s)"
| "py_len (JArr xs) = Inr (length xs)"
| "py_len (JObj d) = Inr (length d)"
| "py_len _ = Inl (PyError ''TypeError'')"

definition build_scope_summary :: "json \<Rightarrow> string result" where
  "build_scope_summary scope =
    res_bind (py_get scope ''allowed_actions'' (JArr [])) (\<lambda>a.
    res_bind (py_iter a) (\<lambda>actions.
    res_bind (py_get scope ''gate_types'' (JArr [])) (\<lambda>g.
    res_bind (py_iter g) (\<lambda>gates.
    res_bind (py_get scope ''target_ids'' (JArr [])) (\<lambda>t.
    res_bind (py_len t) (\<lambda>n.
      Inr (''actions='' @ join_with '','' (map py_str actions) @
           '' gates='' @ join_with '','' (map py_str gates) @
           '' targets='' @ nat_str n)))))))"

definition scope_list :: "json \<Rightarrow> string \<Rightarrow> json list" where
  "scope_list scope name = items_of (fget (fields_of scope) name JNull)"

text \<open>
  The insertion of a session: the model's \<open>clean\<close> and the partial unique constraint
  \<open>bglsess_one_active_per_change\<close>.
\<close>

definition active_session :: "db \<Rightarrow> nat \<Rightarrow> breakglass table" where
  "active_session d k = tsel (\<lambda>_ s. bg_change s = k \<and> bg_status s = BgActive) (breakglasses d)"

definition insert_breakglass :: "breakglass \<Rightarrow> db \<Rightarrow> (db \<times> nat) result" where
  "insert_breakglass s d =
    res_bind (breakglass_clean d s) (\<lambda>_.
      if active_session d (bg_change s) \<noteq> []
        then Inl (IntegrityErr ''bglsess_one_active_per_change'')
      else let (i, d) = fresh d in Inr (d\<lparr>breakglasses := tins i s (breakglasses d)\<rparr>, i))"

definition breakglass_limits ::
    "timestamp \<Rightarrow> change \<Rightarrow> json \<Rightarrow> timestamp \<Rightarrow> nat \<Rightarrow> db \<Rightarrow> timestamp result" where
  "breakglass_limits now c scope expires k d =
    (if ch_status c \<notin> set BREAKGLASS_ACTIVATABLE_STATUSES
       then Inl (Domain DomainConflictError ''change_status_invalid_for_breakglass'')
     else (case tget (op_profiles d) (ch_profile c) of
        None \<Rightarrow> Inl (NotFound ''operation_profile'')
      | Some p \<Rightarrow>
         if \<not> op_allow_emergency p
           then Inl (Domain DomainValidationError ''breakglass_not_allowed'')
         else if expires \<le> now
           then Inl (Domain DomainValidationError ''breakglass_expires_at_past'')
         else if secs (int_or (op_max_breakglass p) DEFAULT_MAX_BREAKGLASS_SECONDS) < expires - now
           then Inl (Domain DomainValidationError ''breakglass_ttl_exceeded'')
         else res_bind (validate_breakglass_scope scope) (\<lambda>_.
           if \<not> set (map py_str (scope_list scope ''target_ids''))
                 \<subseteq> set (map (id_str \<circ> fst) (targets_of d k))
             then Inl (Domain DomainValidationError ''breakglass_scope_unknown_targets'')
           else Inr (now + secs (int_or (op_retro_sla p) DEFAULT_RETRO_REVIEW_SLA_SECONDS)))))"

definition activation_events ::
    "timestamp \<Rightarrow> nat \<Rightarrow> nat \<Rightarrow> breakglass \<Rightarrow> nat \<Rightarrow> audit_actor \<Rightarrow> db \<Rightarrow> db result" where
  "activation_events now k i s j actor d =
    res_bind (audit_emit now (bg_org s) actor ''breakglass.activated'' ''breakglass_session'' i [
        (''change_record_id'', JStr (id_str k)),
        (''breakglass_session_id'', JStr (id_str i)),
        (''scope_sha256'', JStr (bg_scope_sha s)),
        (''scope_action_count'', JInt (int (length (scope_list (bg_scope s) ''allowed_actions'')))),
        (''scope_gate_count'', JInt (int (length (scope_list (bg_scope s) ''gate_types'')))),
        (''scope_target_count'', JInt (int (length (scope_list (bg_scope s) ''target_ids'')))),
        (''expires_at'', JStr (isoformat (bg_expires_at s))),
        (''review_due_at'', JStr (isoformat (bg_review_due_at s))),
        (''started_at'', JStr (isoformat now))] d) (\<lambda>d.
    audit_emit now (bg_org s) (system_actor ''breakglass-activation'') ''retro_review.required''
      ''retro_review'' j [
        (''change_record_id'', JStr (id_str k)),
        (''breakglass_session_id'', JStr (id_str i)),
        (''review_due_at'', JStr (isoformat (bg_review_due_at s)))] d)"

definition activate_breakglass ::
    "timestamp \<Rightarrow> nat \<Rightarrow> audit_actor \<Rightarrow> json \<Rightarrow> string \<Rightarrow> timestamp \<Rightarrow> string option \<Rightarrow> db
      \<Rightarrow> (db \<times> nat) result" where
  "activate_breakglass now k actor scope reason expires user d =
    (case tget (changes d) k of
       None \<Rightarrow> Inl (NotFound ''change'')
     | Some c \<Rightarrow>
        res_bind (atomic (expire_breakglass_sessions now (Some k) d)) (\<lambda>(d, _).
        res_bind (breakglass_limits now c scope expires k d) (\<lambda>due.
        let s = \<lparr>bg_org = ch_org c, bg_change = k, bg_status = BgActive, bg_scope = scope,
              bg_started_at = now, bg_expires_at = expires, bg_ended_at = None, bg_ended_by = None,
              bg_end_reason = [], bg_review_due_at = due, bg_review_status = RvPending,
              bg_scope_sha = sha256_canonical_json scope, bg_reason = take 4000 reason,
              bg_activated_by = user, bg_heartbeat_at = None\<rparr>
        in res_bind (insert_breakglass s d) (\<lambda>(d, i).
           res_bind (change_save k (require_review due c) d) (\<lambda>d.
           res_bind (create_review (new_review (ch_org c) k (Some i) None due) d) (\<lambda>(d, j).
           res_bind (activation_events now k i s j actor d) (\<lambda>d.
           Inr (d, i))))))))"

section \<open>The heartbeat of a session and its overdue review\<close>

definition record_breakglass_heartbeat ::
    "timestamp \<Rightarrow> nat \<Rightarrow> string \<Rightarrow> string \<Rightarrow> string \<Rightarrow> db \<Rightarrow> nat option outcome" where
  "record_breakglass_heartbeat now k runner_id claim_token observed d =
    (case binding_of_change d k of
       None \<Rightarrow> (d, Inl (Domain DomainValidationError ''no_execution_binding''))
     | Some (_, b) \<Rightarrow>
      (case tget (executions d) (bd_exec b) of
         None \<Rightarrow> (d, Inl (Domain DomainValidationError ''no_execution_binding''))
       | Some x \<Rightarrow>
        (case validate_runner_ownership x runner_id claim_token of
           Inl e \<Rightarrow> (d, Inl e)
         | Inr _ \<Rightarrow>
            then_do (expire_breakglass_sessions now (Some k) d) (\<lambda>d _.
              case active_session d k of
                [] \<Rightarrow> (d, Inr None)
              | [(i, s)] \<Rightarrow>
                  if id_str i \<noteq> observed then (d, Inr None)
                  else (case save_breakglass i (s\<lparr>bg_heartbeat_at := Some now\<rparr>) d of
                      Inl e \<Rightarrow> (d, Inl e)
                    | Inr d \<Rightarrow>
                      then_do (commit_result d (audit_emit now (bg_org s)
                        (system_actor (''runner:'' @ runner_id)) ''breakglass.heartbeat_observed''
                        ''breakglass_session'' i [
                          (''change_record_id'', JStr (id_str k)),
                          (''breakglass_session_id'', JStr (id_str i)),
                          (''runner_id'', JStr runner_id),
                          (''observed_at'', JStr (isoformat now)),
                          (''expires_at'', JStr (isoformat (bg_expires_at s)))] d))
                        (\<lambda>d _. (d, Inr (Some i))))
              | _ \<Rightarrow> (d, Inl (PyError ''MultipleObjectsReturned''))))))"

definition mark_session_overdue :: "timestamp \<Rightarrow> db \<Rightarrow> nat \<times> breakglass \<Rightarrow> unit outcome" where
  "mark_session_overdue now d is =
    (case is of (i, s) \<Rightarrow>
      (case save_breakglass i (s\<lparr>bg_review_status := RvOverdue\<rparr>) d of
         Inl e \<Rightarrow> (d, Inl e)
       | Inr d \<Rightarrow>
          commit_result d (audit_emit now (bg_org s) (system_actor ''overdue-check'')
            ''retro_review.overdue'' ''breakglass_session'' i [
              (''change_record_id'', JStr (id_str (bg_change s))),
              (''breakglass_session_id'', JStr (id_str i)),
              (''review_due_at'', JStr (isoformat (bg_review_due_at s))),
              (''marked_overdue_at'', JStr (isoformat now))] d)))"

definition mark_breakglass_review_overdue :: "timestamp \<Rightarrow> db \<Rightarrow> unit outcome" where
  "mark_breakglass_review_overdue now d =
    each (mark_session_overdue now) d
      (tsel (\<lambda>_ s. bg_review_status s = RvPending \<and> bg_review_due_at s \<le> now) (breakglasses d))"

section \<open>The review status of a change\<close>

definition reviews_of :: "db \<Rightarrow> nat \<Rightarrow> retro_review table" where
  "reviews_of d k = tsel (\<lambda>_ r. rr_change r = k) (retro_reviews d)"

text \<open>The loop of \<open>_recompute_change_retro_review_status\<close>, with its early exit.\<close>

fun recompute_loop :: "timestamp \<Rightarrow> string \<Rightarrow> retro_review list \<Rightarrow> string" where
  "recompute_loop now st [] = st"
| "recompute_loop now st (r # rs) =
    (case rr_status r of
       RrSubmitted \<Rightarrow>
         if rr_disposition r = Some DispControlFailure then ''control_failure''
         else recompute_loop now st rs
     | RrPending \<Rightarrow>
         recompute_loop now
           (if rr_due_at r \<le> now then ''overdue''
            else if st \<noteq> ''overdue'' then ''pending'' else st) rs
     | RrSuperseded \<Rightarrow> recompute_loop now st rs)"

definition recompute_change_retro_review_status :: "timestamp \<Rightarrow> nat \<Rightarrow> db \<Rightarrow> db result" where
  "recompute_change_retro_review_status now k d =
    (case tget (changes d) k of
       None \<Rightarrow> Inl (NotFound ''change'')
     | Some c \<Rightarrow>
        let rs = map snd (reviews_of d k); st = recompute_loop now [] rs
        in if rs = [] \<or> ch_retro_blocking c = st then Inr d
           else change_save k (c\<lparr>ch_retro_blocking := st\<rparr>) d)"

section \<open>Reviews for exceptions\<close>

definition EXCEPTION_RETRO_REVIEW_REQUIRED_TYPES :: "string list" where
  "EXCEPTION_RETRO_REVIEW_REQUIRED_TYPES = [''policy_override'', ''missing_artifact'']"

text \<open>
  \<open>select_for_update\<close> is refused by Django when the connection is in autocommit mode: \<open>in_tx\<close>
  says whether a transaction is open.
\<close>

definition ensure_retro_review_for_exception ::
    "bool \<Rightarrow> timestamp \<Rightarrow> nat \<Rightarrow> db \<Rightarrow> nat option outcome" where
  "ensure_retro_review_for_exception in_tx now i d =
    (case tget (change_exceptions d) i of
       None \<Rightarrow> (d, Inl (NotFound ''change_exception''))
     | Some x \<Rightarrow>
        if xc_type x \<notin> set EXCEPTION_RETRO_REVIEW_REQUIRED_TYPES then (d, Inr None)
        else (case first_of (tsel (\<lambda>_ r. rr_exception r = Some i) (retro_reviews d)) of
            Some (j, _) \<Rightarrow> (d, Inr (Some j))
          | None \<Rightarrow>
             if \<not> in_tx then (d, Inl (PyError ''TransactionManagementError''))
             else (case tget (changes d) (xc_change x) of
                None \<Rightarrow> (d, Inl (NotFound ''change''))
              | Some c \<Rightarrow>
                (case tget (op_profiles d) (ch_profile c) of
                   None \<Rightarrow> (d, Inl (NotFound ''operation_profile''))
                 | Some p \<Rightarrow>
                    let due = now + secs (int_or (op_retro_sla p) DEFAULT_RETRO_REVIEW_SLA_SECONDS)
                    in (case create_review (new_review (ch_org c) (xc_change x) None (Some i) due) d of
                          Inl e \<Rightarrow> (d, Inl e)
                        | Inr (d, j) \<Rightarrow>
                           then_do (commit_result d (change_save (xc_change x) (require_review due c) d)) (\<lambda>d _.
                           then_do (commit_result d (audit_emit now (ch_org c)
                              (system_actor ''exception-approval'') ''retro_review.required''
                              ''retro_review'' j [
                                (''change_record_id'', JStr (id_str (xc_change x))),
                                (''change_exception_id'', JStr (id_str i)),
                                (''exception_type'', JStr (xc_type x)),
                                (''review_due_at'', JStr (isoformat due))] d)) (\<lambda>d _.
                           (d, Inr (Some j)))))))))"

section \<open>Submitting a review\<close>

fun disposition_of :: "string \<Rightarrow> disposition option" where
  "disposition_of s =
    (if s = ''accepted'' then Some DispAccepted
     else if s = ''needs_remediation'' then Some DispRemediation
     else if s = ''control_failure'' then Some DispControlFailure else None)"

definition is_org_admin :: "db \<Rightarrow> nat \<Rightarrow> string \<Rightarrow> bool" where
  "is_org_admin d org u =
    list_ex (\<lambda>(_, m). mb_org m = org \<and> mb_user m = u \<and> mb_role m \<in> {RoleAdmin, RoleOwner})
      (memberships d)"

text \<open>The reason a user may not review: opened the session, or asked for the exception.\<close>

definition self_review_reason :: "db \<Rightarrow> retro_review \<Rightarrow> string option \<Rightarrow> string option" where
  "self_review_reason d r user =
    (case user of
       None \<Rightarrow> None
     | Some u \<Rightarrow>
        if (case rr_session r of None \<Rightarrow> False | Some s \<Rightarrow>
              (case tget (breakglasses d) s of None \<Rightarrow> False | Some b \<Rightarrow> bg_activated_by b = Some u))
          then Some ''breakglass_activator_cannot_review''
        else if (case rr_exception r of None \<Rightarrow> False | Some i \<Rightarrow>
              (case tget (change_exceptions d) i of None \<Rightarrow> False
               | Some x \<Rightarrow> xc_requested_by x = Some u))
          then Some ''exception_requester_cannot_review''
        else None)"

definition check_remediation ::
    "db \<Rightarrow> nat \<Rightarrow> disposition \<Rightarrow> string \<Rightarrow> string option \<Rightarrow> unit result" where
  "check_remediation d org disp remediation user =
    (if disp \<in> {DispRemediation, DispControlFailure} \<and> strip remediation = []
       then Inl (Domain DomainValidationError ''retro_review_remediation_reference_required'')
     else if disp = DispControlFailure \<and>
          (case user of None \<Rightarrow> False | Some u \<Rightarrow> \<not> is_org_admin d org u)
       then Inl (Domain DomainValidationError ''retro_review_admin_required'')
     else Inr ())"

text \<open>The submitted review is saved, and the session it is about marked.\<close>

definition store_submitted :: "nat \<Rightarrow> retro_review \<Rightarrow> db \<Rightarrow> db" where
  "store_submitted j r d =
    (let d = d\<lparr>retro_reviews := tupd j (\<lambda>_. r) (retro_reviews d)\<rparr>
     in (case rr_session r of
           None \<Rightarrow> d
         | Some s \<Rightarrow> d\<lparr>breakglasses :=
             tupd s (\<lambda>s. s\<lparr>bg_review_status := RvSubmitted\<rparr>) (breakglasses d)\<rparr>))"

definition submit_review_tx ::
    "timestamp \<Rightarrow> nat \<Rightarrow> disposition \<Rightarrow> string \<Rightarrow> jdict \<Rightarrow> string \<Rightarrow> string option \<Rightarrow> db
      \<Rightarrow> db result" where
  "submit_review_tx now j disp summary evidence remediation user d =
    (case tget (retro_reviews d) j of
       None \<Rightarrow> Inl (NotFound ''retro_review'')
     | Some r \<Rightarrow>
        if rr_status r \<noteq> RrPending
          then Inl (Domain InvalidStateTransitionError ''retro_review_not_pending'')
        else let r' = r\<lparr>rr_status := RrSubmitted, rr_disposition := Some disp,
                 rr_reviewed_by := user, rr_reviewed_at := Some now, rr_summary := summary,
                 rr_evidence := JObj evidence,
                 rr_remediation_required := (disp \<in> {DispRemediation, DispControlFailure}),
                 rr_remediation_ref := remediation,
                 rr_failure_category := fget evidence ''control_failure_category'' (JStr [])\<rparr>
          in res_bind (retro_clean d r') (\<lambda>_.
             recompute_change_retro_review_status now (rr_change r) (store_submitted j r' d)))"

definition submit_retro_review ::
    "timestamp \<Rightarrow> nat \<Rightarrow> audit_actor \<Rightarrow> string option \<Rightarrow> string \<Rightarrow> string \<Rightarrow> jdict option \<Rightarrow> string
      \<Rightarrow> db \<Rightarrow> unit outcome" where
  "submit_retro_review now j actor user disposition summary evidence remediation d =
    (case tget (retro_reviews d) j of
       None \<Rightarrow> (d, Inl (NotFound ''retro_review''))
     | Some r \<Rightarrow>
      (case disposition_of disposition of
         None \<Rightarrow> (d, Inl (Domain DomainValidationError ''retro_review_disposition_invalid''))
       | Some disp \<Rightarrow>
          if strip summary = []
            then (d, Inl (Domain DomainValidationError ''retro_review_summary_required''))
          else (case self_review_reason d r user of
              Some why \<Rightarrow>
                then_do (commit_result d (audit_emit now (rr_org r) actor
                  ''retro_review.self_review_rejected'' ''retro_review'' j [
                    (''change_record_id'', JStr (id_str (rr_change r))),
                    (''reason'', JStr why)] d)) (\<lambda>d _.
                (d, Inl (Domain DomainValidationError ''retro_review_self_review_rejected'')))
            | None \<Rightarrow>
                (case check_remediation d (rr_org r) disp remediation user of
                   Inl e \<Rightarrow> (d, Inl e)
                 | Inr _ \<Rightarrow>
                   then_do (commit_result d (submit_review_tx now j disp summary
                      (case evidence of None \<Rightarrow> [] | Some e \<Rightarrow> e) remediation user d)) (\<lambda>d _.
                   commit_result d (audit_emit now (rr_org r) actor ''retro_review.submitted''
                     ''retro_review'' j [
                       (''change_record_id'', JStr (id_str (rr_change r))),
                       (''disposition'', JStr disposition),
                       (''remediation_required'',
                          JBool (disp \<in> {DispRemediation, DispControlFailure})),
                       (''reviewed_at'', JStr (isoformat now))] d))))))"

section \<open>The overdue sweep\<close>

text \<open>
  The query loads each review with its own copy of the change (\<open>select_related\<close>), so that a
  copy does not see what an earlier round of the loop saved. Only the blocking status is written.
\<close>

definition mark_review_overdue ::
    "timestamp \<Rightarrow> db \<Rightarrow> (nat \<times> retro_review) \<times> change \<Rightarrow> unit outcome" where
  "mark_review_overdue now d rc =
    (case rc of ((j, r), c) \<Rightarrow>
      if ch_retro_blocking c = ''overdue'' then (d, Inr ())
      else if (case tget (changes d) (rr_change r) of
                 None \<Rightarrow> False
               | Some p \<Rightarrow> ch_status p \<noteq> ChDraft \<and>
                   \<not> immutable_fields_equal p (c\<lparr>ch_retro_blocking := ''overdue''\<rparr>))
        then (d, Inl (DjangoValidation ''change_request_immutable''))
      else (case change_clean d c of
          Inl e \<Rightarrow> (d, Inl e)
        | Inr _ \<Rightarrow>
          let d = upd_change (rr_change r) (\<lambda>c. c\<lparr>ch_retro_blocking := ''overdue''\<rparr>) d
          in commit_result d (audit_emit now (rr_org r) (system_actor ''overdue-check'')
               ''retro_review.overdue'' ''retro_review'' j [
                 (''change_record_id'', JStr (id_str (rr_change r))),
                 (''review_due_at'', JStr (isoformat (rr_due_at r))),
                 (''marked_overdue_at'', JStr (isoformat now))] d)))"

definition with_change :: "db \<Rightarrow> nat \<times> retro_review \<Rightarrow> ((nat \<times> retro_review) \<times> change) list" where
  "with_change d jr = (case tget (changes d) (rr_change (snd jr)) of None \<Rightarrow> [] | Some c \<Rightarrow> [(jr, c)])"

definition mark_overdue_retro_reviews :: "timestamp \<Rightarrow> db \<Rightarrow> unit outcome" where
  "mark_overdue_retro_reviews now d =
    each (mark_review_overdue now) d
      (concat (map (with_change d)
        (tsel (\<lambda>_ r. rr_status r = RrPending \<and> rr_due_at r \<le> now) (retro_reviews d))))"

section \<open>The closure gate\<close>

definition unresolved :: "retro_review \<Rightarrow> bool" where
  "unresolved r \<longleftrightarrow> rr_status r = RrSubmitted \<and>
     rr_disposition r \<in> {Some DispRemediation, Some DispControlFailure} \<and>
     strip (rr_remediation_ref r) = []"

definition blocker :: "timestamp \<Rightarrow> nat \<times> retro_review \<Rightarrow> json list" where
  "blocker now jr =
    (case jr of (j, r) \<Rightarrow>
      let item = (\<lambda>why. [JObj [(''review_id'', JStr (id_str j)), (''reason'', JStr why)]])
      in if rr_status r = RrPending
           then (if rr_due_at r \<le> now then item ''retro_review_overdue''
                 else item ''retro_review_pending'')
         else if unresolved r then item ''retro_review_needs_remediation_reference''
         else [])"

definition assert_retro_reviews_allow_closure :: "timestamp \<Rightarrow> nat \<Rightarrow> change \<Rightarrow> db \<Rightarrow> unit outcome" where
  "assert_retro_reviews_allow_closure now k c d =
    (if \<not> ch_retro_required c then (d, Inr ())
     else let blockers = concat (map (blocker now) (reviews_of d k))
       in if blockers = [] then (d, Inr ())
          else then_do (commit_result d (audit_emit now (ch_org c) (system_actor ''change-closure'')
                 ''change.closure_blocked_retro_review'' ''change_record'' k [
                   (''blockers'', JArr blockers),
                   (''change_record_id'', JStr (id_str k))] d)) (\<lambda>d _.
               (d, Inl (Domain DomainConflictError ''retro_review_blocking_closure''))))"

definition ids_where :: "(retro_review \<Rightarrow> bool) \<Rightarrow> retro_review table \<Rightarrow> json list" where
  "ids_where P rs = map (\<lambda>(j, _). JStr (id_str j)) (filter (\<lambda>(_, r). P r) rs)"

definition summarize_retro_review_blockers :: "timestamp \<Rightarrow> nat \<Rightarrow> db \<Rightarrow> jdict" where
  "summarize_retro_review_blockers now k d =
    (let rs = reviews_of d k;
         pending = ids_where (\<lambda>r. rr_status r = RrPending \<and> now < rr_due_at r) rs;
         overdue = ids_where (\<lambda>r. rr_status r = RrPending \<and> rr_due_at r \<le> now) rs;
         unref = ids_where unresolved rs;
         failures = ids_where (\<lambda>r. rr_status r = RrSubmitted \<and>
                       rr_disposition r = Some DispControlFailure) rs
     in [(''has_blockers'', JBool (pending \<noteq> [] \<or> overdue \<noteq> [] \<or> unref \<noteq> [])),
         (''pending_review_ids'', JArr pending),
         (''overdue_review_ids'', JArr overdue),
         (''needs_remediation_without_ref_ids'', JArr unref),
         (''control_failure_review_ids'', JArr failures),
         (''total_reviews'', JInt (int (length rs)))])"

section \<open>What these operations may change\<close>

lemma create_review_Inr:
  assumes "create_review r d = Inr (d', j)"
  shows "d' = d\<lparr>next_id := Suc (next_id d), retro_reviews := tins j r (retro_reviews d)\<rparr>"
    and "j = next_id d" and "retro_clean d r = Inr ()"
  using assms by (auto simp: create_review_def res_bind_eq_Inr fresh_def)

lemma create_review_progress [progress_rules]:
  "create_review r d = Inr (d', j) \<Longrightarrow> change_progress d d'"
  by (drule create_review_Inr(1), rule progress_same) (simp_all add: control_part_def still_part_def)

lemma insert_breakglass_Inr:
  assumes "insert_breakglass s d = Inr (d', i)"
  shows "d' = d\<lparr>next_id := Suc (next_id d), breakglasses := tins i s (breakglasses d)\<rparr>"
    and "i = next_id d" and "breakglass_clean d s = Inr ()" and "active_session d (bg_change s) = []"
  using assms by (auto simp: insert_breakglass_def res_bind_eq_Inr fresh_def split: if_splits)

lemma insert_breakglass_progress [progress_rules]:
  "insert_breakglass s d = Inr (d', i) \<Longrightarrow> change_progress d d'"
  by (drule insert_breakglass_Inr(1), rule progress_same) (simp_all add: control_part_def still_part_def)

lemma require_review_ok: "change_row_ok c (require_review due c)"
  by (simp add: change_row_ok_def require_review_def frozen_request_def)

lemma blocking_ok: "change_row_ok c (c\<lparr>ch_retro_blocking := st\<rparr>)"
  by (simp add: change_row_ok_def frozen_request_def)

lemma activation_events_progress:
  "activation_events now k i s j actor d = Inr d' \<Longrightarrow> change_progress d d'"
  by (auto simp: activation_events_def res_bind_eq_Inr intro: progress.trans dest!: audit_emit_progress)

lemma commit_save_progress:
  assumes "commit_result d r = (d', q)" and "\<And>t. r = Inr t \<Longrightarrow> change_progress d t"
  shows "change_progress d d'"
  using assms by (rule commit_result_progress)

text \<open>What a successful activation went through.\<close>

lemma activate_breakglass_stages:
  assumes "activate_breakglass now k actor scope reason expires user d = Inr (d', i)"
  obtains c d1 due s d2 d3 d4 j where "tget (changes d) k = Some c"
    "expire_breakglass_sessions now (Some k) d = (d1, Inr ())"
    "breakglass_limits now c scope expires k d1 = Inr due"
    "bg_change s = k" "bg_status s = BgActive" "bg_expires_at s = expires" "bg_started_at s = now"
    "bg_scope s = scope" "bg_review_due_at s = due"
    "insert_breakglass s d1 = Inr (d2, i)" "change_save k (require_review due c) d2 = Inr d3"
    "create_review (new_review (ch_org c) k (Some i) None due) d3 = Inr (d4, j)"
    "activation_events now k i s j actor d4 = Inr d'"
proof -
  from assms obtain c d1 due where c: "tget (changes d) k = Some c"
      "expire_breakglass_sessions now (Some k) d = (d1, Inr ())"
      "breakglass_limits now c scope expires k d1 = Inr due"
    unfolding activate_breakglass_def
    by (auto simp: res_bind_eq_Inr atomic_Inr split: option.splits)
  let ?s = "\<lparr>bg_org = ch_org c, bg_change = k, bg_status = BgActive, bg_scope = scope,
              bg_started_at = now, bg_expires_at = expires, bg_ended_at = None, bg_ended_by = None,
              bg_end_reason = [], bg_review_due_at = due, bg_review_status = RvPending,
              bg_scope_sha = sha256_canonical_json scope, bg_reason = take 4000 reason,
              bg_activated_by = user, bg_heartbeat_at = None\<rparr>"
  from assms c obtain d2 d3 d4 j where "insert_breakglass ?s d1 = Inr (d2, i)"
      "change_save k (require_review due c) d2 = Inr d3"
      "create_review (new_review (ch_org c) k (Some i) None due) d3 = Inr (d4, j)"
      "activation_events now k i ?s j actor d4 = Inr d'"
    unfolding activate_breakglass_def Let_def
    by (auto simp: res_bind_eq_Inr atomic_def)
  with c show ?thesis by (intro that [of c d1 due ?s]) simp_all
qed

lemma expire_sessions_changes:
  "expire_breakglass_sessions now k d = (d', r) \<Longrightarrow> changes d' = changes d"
  by (drule expire_sessions_frame) (simp add: gate_frame_def gate_tables_def)

lemma activate_breakglass_progress [progress_rules]:
  assumes "activate_breakglass now k actor scope reason expires user d = Inr (d', i)"
  shows "change_progress d d'"
proof (rule activate_breakglass_stages [OF assms])
  fix c d1 due s d2 d3 d4 j
  assume a: "tget (changes d) k = Some c" "expire_breakglass_sessions now (Some k) d = (d1, Inr ())"
    "insert_breakglass s d1 = Inr (d2, i)" "change_save k (require_review due c) d2 = Inr d3"
    "create_review (new_review (ch_org c) k (Some i) None due) d3 = Inr (d4, j)"
    "activation_events now k i s j actor d4 = Inr d'"
  from a(1) insert_breakglass_Inr(1) [OF a(3)] have "tget (changes d2) k = Some c"
    by (simp add: expire_sessions_changes [OF a(2)])
  then have "change_progress d2 d3" using change_save_progress [OF a(4)] require_review_ok by blast
  then show ?thesis
    using expire_breakglass_sessions_progress [OF a(2)] insert_breakglass_progress [OF a(3)]
      create_review_progress [OF a(5)] activation_events_progress [OF a(6)]
    by (blast intro: progress.trans)
qed

lemma save_breakglass_progress [progress_rules]:
  "save_breakglass i s d = Inr d' \<Longrightarrow> change_progress d d'"
  by (rule progress_same) (rule save_breakglass_Inr, assumption)+

lemma commit_emit_progress:
  "commit_result d (audit_emit now org a et ot oid md d) = (d', r) \<Longrightarrow> change_progress d d'"
  by (erule commit_result_progress) (rule audit_emit_progress)

lemma record_breakglass_heartbeat_progress [progress_rules]:
  assumes "record_breakglass_heartbeat now k rid tok obs d = (d', r)"
  shows "change_progress d d'"
proof -
  let ?f = "\<lambda>d. case active_session d k of
                [] \<Rightarrow> (d, Inr None)
              | [(i, s)] \<Rightarrow>
                  if id_str i \<noteq> obs then (d, Inr None)
                  else (case save_breakglass i (s\<lparr>bg_heartbeat_at := Some now\<rparr>) d of
                      Inl e \<Rightarrow> (d, Inl e)
                    | Inr d \<Rightarrow>
                      then_do (commit_result d (audit_emit now (bg_org s)
                        (system_actor (''runner:'' @ rid)) ''breakglass.heartbeat_observed''
                        ''breakglass_session'' i [
                          (''change_record_id'', JStr (id_str k)),
                          (''breakglass_session_id'', JStr (id_str i)),
                          (''runner_id'', JStr rid),
                          (''observed_at'', JStr (isoformat now)),
                          (''expires_at'', JStr (isoformat (bg_expires_at s)))] d))
                        (\<lambda>d _. (d, Inr (Some i))))
              | _ \<Rightarrow> (d, Inl (PyError ''MultipleObjectsReturned''))"
  have f: "change_progress t t'" if "?f t = (t', q)" for t t' q
    using that
    by (auto split: list.splits if_splits sum.splits simp: then_do_eq
        intro: progress.refl progress.trans dest!: save_breakglass_progress commit_emit_progress)
  from assms show ?thesis
    unfolding record_breakglass_heartbeat_def
    by (auto split: option.splits sum.splits intro: progress.refl
        elim!: progress.then_do_within [OF _ expire_breakglass_sessions_progress] f)
qed

lemma mark_session_overdue_progress:
  "mark_session_overdue now d is = (d', r) \<Longrightarrow> change_progress d d'"
  unfolding mark_session_overdue_def
  by (auto split: prod.splits sum.splits intro: progress.refl progress.trans
      dest!: save_breakglass_progress commit_emit_progress)

lemma mark_breakglass_review_overdue_progress [progress_rules]:
  "mark_breakglass_review_overdue now d = (d', r) \<Longrightarrow> change_progress d d'"
  unfolding mark_breakglass_review_overdue_def
  by (erule progress.each_within) (rule mark_session_overdue_progress)

lemma recompute_retro_progress [progress_rules]:
  assumes "recompute_change_retro_review_status now k d = Inr d'"
  shows "change_progress d d'"
  using assms unfolding recompute_change_retro_review_status_def
  by (auto simp: Let_def split: option.splits if_splits intro: progress.refl
      dest!: change_save_progress intro!: blocking_ok)

lemma ensure_retro_review_progress [progress_rules]:
  assumes "ensure_retro_review_for_exception in_tx now i d = (d', r)"
  shows "change_progress d d'"
proof -
  have save: "change_progress d t'"
    if "tget (changes d) k = Some c" "create_review rr d = Inr (t, j)"
      "commit_result t (change_save k (require_review due c) t) = (t', q)"
    for t t' q c k due rr j
  proof -
    from that(1) create_review_Inr(1) [OF that(2)] have "tget (changes t) k = Some c" by simp
    then have "change_progress t t'"
      using that(3) by (auto intro!: commit_result_progress [OF that(3)] change_save_progress require_review_ok)
    with create_review_progress [OF that(2)] show ?thesis by (rule progress.trans)
  qed
  show ?thesis
    using assms unfolding ensure_retro_review_for_exception_def Let_def
    by (auto split: option.splits if_splits sum.splits prod.splits simp: then_do_eq
        intro: progress.refl progress.trans save dest: commit_emit_progress)
qed

lemma submit_review_tx_progress:
  assumes "submit_review_tx now j disp sm ev rem user d = Inr d'"
  shows "change_progress d d'"
proof -
  have "change_progress d (store_submitted j r' d)" for r'
    by (rule progress_same)
      (simp_all add: store_submitted_def control_part_def still_part_def Let_def split: option.splits)
  with assms show ?thesis
    unfolding submit_review_tx_def Let_def
    by (auto simp: res_bind_eq_Inr split: option.splits if_splits
        intro: progress.trans dest!: recompute_retro_progress)
qed

lemma submit_retro_review_progress [progress_rules]:
  assumes "submit_retro_review now j actor user disp sm ev rem d = (d', r)"
  shows "change_progress d d'"
  using assms unfolding submit_retro_review_def
  by (auto simp: then_do_eq split: option.splits if_splits sum.splits
      intro: progress.refl progress.trans
      dest: commit_emit_progress commit_result_progress [OF _ submit_review_tx_progress])

lemma mark_review_overdue_progress:
  assumes "mark_review_overdue now d rc = (d', r)"
  shows "change_progress d d'"
proof -
  have "change_progress d (upd_change k (\<lambda>c. c\<lparr>ch_retro_blocking := ''overdue''\<rparr>) d)" for k
    unfolding upd_change_def by (rule upd_change_progress) (rule blocking_ok)
  with assms show ?thesis unfolding mark_review_overdue_def Let_def
    by (auto split: prod.splits if_splits sum.splits option.splits intro: progress.refl progress.trans
        dest!: commit_emit_progress)
qed

lemma mark_overdue_retro_reviews_progress [progress_rules]:
  "mark_overdue_retro_reviews now d = (d', r) \<Longrightarrow> change_progress d d'"
  unfolding mark_overdue_retro_reviews_def
  by (erule progress.each_within) (rule mark_review_overdue_progress)

lemma assert_retro_reviews_progress [progress_rules]:
  "assert_retro_reviews_allow_closure now k c d = (d', r) \<Longrightarrow> change_progress d d'"
  unfolding assert_retro_reviews_allow_closure_def Let_def
  by (auto simp: then_do_eq split: if_splits intro: progress.refl dest!: commit_emit_progress)

section \<open>Limits\<close>

lemma breakglass_limits_Inr:
  assumes "breakglass_limits now c scope expires k d = Inr due"
  obtains p where "tget (op_profiles d) (ch_profile c) = Some p"
    "ch_status c \<in> set BREAKGLASS_ACTIVATABLE_STATUSES" "op_allow_emergency p" "now < expires"
    "expires \<le> now + secs (int_or (op_max_breakglass p) DEFAULT_MAX_BREAKGLASS_SECONDS)"
    "validate_breakglass_scope scope = Inr ()"
    "set (map py_str (scope_list scope ''target_ids'')) \<subseteq> set (map (id_str \<circ> fst) (targets_of d k))"
    "due = now + secs (int_or (op_retro_sla p) DEFAULT_RETRO_REVIEW_SLA_SECONDS)"
  using assms unfolding breakglass_limits_def
  by (auto simp: res_bind_eq_Inr split: if_splits option.splits)

lemma active_session_tins:
  assumes "active_session d k = []" and "bg_change s = k" and "bg_status s = BgActive"
    and "breakglasses d' = tins i s (breakglasses d)"
  shows "active_session d' k = [(i, s)]"
  using assms by (simp add: active_session_def tsel_def tins_def)

lemma activation_events_tables:
  assumes "activation_events now k i s j actor d = Inr d'"
  shows "\<exists>evs. d' = d\<lparr>audit_log := audit_log d @ evs\<rparr>"
  using assms by (auto simp: activation_events_def res_bind_eq_Inr dest!: audit_emit_Inr)


section \<open>Properties\<close>

text \<open>
  C32: opening a breakglass session succeeds only for a change in an activatable status whose
  profile allows emergencies, for a time of more than zero and at most the maximum of the profile,
  and for targets of the change. Afterwards it is the one active session of the change, and a
  pending review, due within the profile's deadline, is recorded and required of the change.
\<close>

theorem breakglass_within_limits:
  assumes "activate_breakglass now k actor scope reason expires user d = Inr (d', i)"
  shows "\<exists>c c' p s j r due. tget (changes d) k = Some c \<and> tget (op_profiles d) (ch_profile c) = Some p \<and>
     ch_status c \<in> set BREAKGLASS_ACTIVATABLE_STATUSES \<and> op_allow_emergency p \<and>
     0 < expires - now \<and>
     expires - now \<le> secs (int_or (op_max_breakglass p) DEFAULT_MAX_BREAKGLASS_SECONDS) \<and>
     set (map py_str (scope_list scope ''target_ids'')) \<subseteq> set (map (id_str \<circ> fst) (targets_of d k)) \<and>
     active_session d' k = [(i, s)] \<and> bg_scope s = scope \<and> bg_expires_at s = expires \<and>
     due = now + secs (int_or (op_retro_sla p) DEFAULT_RETRO_REVIEW_SLA_SECONDS) \<and>
     (j, r) \<in> set (retro_reviews d') \<and> rr_session r = Some i \<and> rr_status r = RrPending \<and> rr_due_at r = due \<and>
     tget (changes d') k = Some c' \<and> ch_retro_required c' \<and> ch_retro_blocking c' = ''pending'' \<and>
     (\<exists>t. ch_retro_due c' = Some t \<and> t \<le> due)"
proof (rule activate_breakglass_stages [OF assms])
  fix c d1 due s d2 d3 d4 j
  assume a: "tget (changes d) k = Some c" "expire_breakglass_sessions now (Some k) d = (d1, Inr ())"
    "breakglass_limits now c scope expires k d1 = Inr due"
    "insert_breakglass s d1 = Inr (d2, i)" "change_save k (require_review due c) d2 = Inr d3"
    "create_review (new_review (ch_org c) k (Some i) None due) d3 = Inr (d4, j)"
    "activation_events now k i s j actor d4 = Inr d'"
    and s: "bg_change s = k" "bg_status s = BgActive" "bg_expires_at s = expires" "bg_scope s = scope"
  note fr = expire_sessions_frame [OF a(2)]
  then have same: "changes d1 = changes d" "op_profiles d1 = op_profiles d" "targets_of d1 k = targets_of d k"
    by (simp_all add: gate_frame_def gate_tables_def targets_of_def)
  from a(3) obtain p where p: "tget (op_profiles d) (ch_profile c) = Some p"
    "ch_status c \<in> set BREAKGLASS_ACTIVATABLE_STATUSES" "op_allow_emergency p" "now < expires"
    "expires \<le> now + secs (int_or (op_max_breakglass p) DEFAULT_MAX_BREAKGLASS_SECONDS)"
    "set (map py_str (scope_list scope ''target_ids'')) \<subseteq> set (map (id_str \<circ> fst) (targets_of d k))"
    "due = now + secs (int_or (op_retro_sla p) DEFAULT_RETRO_REVIEW_SLA_SECONDS)"
    by (auto elim!: breakglass_limits_Inr simp: same)
  from insert_breakglass_Inr [OF a(4)] have d2: "breakglasses d2 = tins i s (breakglasses d1)"
    "tget (changes d2) k = Some c" "active_session d1 k = []" by (simp_all add: same a(1) s(1))
  from change_save_Inr(1) [OF a(5) d2(2)] have d3: "breakglasses d3 = breakglasses d2"
    "tget (changes d3) k = Some (require_review due c)" by (simp_all add: upd_change_def table_simps d2(2))
  from activation_events_tables [OF a(7)] create_review_Inr(1) [OF a(6)]
  have d': "breakglasses d' = breakglasses d3" "changes d' = changes d3"
    "(j, new_review (ch_org c) k (Some i) None due) \<in> set (retro_reviews d')"
    by (auto simp: tins_def)
  have "active_session d' k = [(i, s)]"
    by (rule active_session_tins [OF d2(3) s(1,2)]) (simp add: d' d3 d2)
  moreover have "\<exists>t. ch_retro_due (require_review due c) = Some t \<and> t \<le> due"
    by (auto simp: require_review_def split: option.split)
  ultimately show ?thesis
    using a(1) p d3(2) d' s
    by (intro exI [of _ c] exI [of _ "require_review due c"] exI [of _ p] exI [of _ s] exI [of _ j]
        exI [of _ "new_review (ch_org c) k (Some i) None due"] exI [of _ due])
      (auto simp: new_review_def require_review_def)
qed

text \<open>
  The blocking status the services compute in a loop with an early exit is a priority over the
  set of reviews, whatever their order: a control failure, else an overdue pending review, else a
  pending one, else none. Nothing else of the change is altered.
\<close>

definition blocking_spec :: "timestamp \<Rightarrow> retro_review set \<Rightarrow> string" where
  "blocking_spec now R =
    (if \<exists>r\<in>R. rr_status r = RrSubmitted \<and> rr_disposition r = Some DispControlFailure
       then ''control_failure''
     else if \<exists>r\<in>R. rr_status r = RrPending \<and> rr_due_at r \<le> now then ''overdue''
     else if \<exists>r\<in>R. rr_status r = RrPending then ''pending'' else [])"

lemma recompute_loop_spec:
  "recompute_loop now st rs =
    (if \<exists>r\<in>set rs. rr_status r = RrSubmitted \<and> rr_disposition r = Some DispControlFailure
       then ''control_failure''
     else if st = ''overdue'' \<or> (\<exists>r\<in>set rs. rr_status r = RrPending \<and> rr_due_at r \<le> now) then ''overdue''
     else if \<exists>r\<in>set rs. rr_status r = RrPending then ''pending'' else st)"
proof (induction rs arbitrary: st)
  case (Cons r rs)
  then show ?case by (cases "rr_status r") (auto simp: Cons)
qed simp

theorem retro_status_priority:
  assumes "recompute_change_retro_review_status now k d = Inr d'"
    and "tget (changes d) k = Some c" and "reviews_of d k \<noteq> []"
  shows "tget (changes d') i =
    (if i = k then Some (c\<lparr>ch_retro_blocking := blocking_spec now (snd ` set (reviews_of d k))\<rparr>)
     else tget (changes d) i)"
proof -
  have spec: "recompute_loop now [] (map snd (reviews_of d k)) = blocking_spec now (snd ` set (reviews_of d k))"
    by (simp add: recompute_loop_spec blocking_spec_def)
  obtain st where st: "st = blocking_spec now (snd ` set (reviews_of d k))" by simp
  show ?thesis
  proof (cases "ch_retro_blocking c = st")
    case True
    then have "c\<lparr>ch_retro_blocking := st\<rparr> = c" by simp
    moreover from assms(1) True have "d' = d"
      by (simp add: recompute_change_retro_review_status_def Let_def spec assms(2) flip: st)
    ultimately show ?thesis using assms(2) by (simp flip: st)
  next
    case False
    with assms have "change_save k (c\<lparr>ch_retro_blocking := st\<rparr>) d = Inr d'"
      by (simp add: recompute_change_retro_review_status_def Let_def spec flip: st)
    from change_save_Inr(1) [OF this assms(2)] show ?thesis
      by (simp add: upd_change_def table_simps assms(2) flip: st)
  qed
qed

text \<open>
  The gate before a closure and the summary shown to the user agree: the gate lets a change
  that needs reviews pass exactly when the summary reports no blocker, that is, when no review is
  pending and no remediation lacks its reference. The gate never changes the change or its reviews.
\<close>

lemma blocker_Nil: "blocker now (j, r) = [] \<longleftrightarrow> rr_status r \<noteq> RrPending \<and> \<not> unresolved r"
  by (simp add: blocker_def)

lemma ids_where_Nil: "ids_where P rs = [] \<longleftrightarrow> (\<forall>(j, r)\<in>set rs. \<not> P r)"
  by (auto simp: ids_where_def filter_empty_conv)

lemma no_blockers_iff:
  "fget (summarize_retro_review_blockers now k d) ''has_blockers'' JNull =
     JBool (\<exists>(j, r)\<in>set (reviews_of d k). rr_status r = RrPending \<or> unresolved r)"
proof -
  have "fget (summarize_retro_review_blockers now k d) ''has_blockers'' JNull =
     JBool (ids_where (\<lambda>r. rr_status r = RrPending \<and> now < rr_due_at r) (reviews_of d k) \<noteq> [] \<or>
       ids_where (\<lambda>r. rr_status r = RrPending \<and> rr_due_at r \<le> now) (reviews_of d k) \<noteq> [] \<or>
       ids_where unresolved (reviews_of d k) \<noteq> [])"
    by (simp add: summarize_retro_review_blockers_def Let_def fget_def)
  also have "(ids_where (\<lambda>r. rr_status r = RrPending \<and> now < rr_due_at r) (reviews_of d k) \<noteq> [] \<or>
       ids_where (\<lambda>r. rr_status r = RrPending \<and> rr_due_at r \<le> now) (reviews_of d k) \<noteq> [] \<or>
       ids_where unresolved (reviews_of d k) \<noteq> []) \<longleftrightarrow>
     (\<exists>(j, r)\<in>set (reviews_of d k). rr_status r = RrPending \<or> unresolved r)"
    unfolding ids_where_Nil by (force simp: not_le)
  finally show ?thesis .
qed

lemma closure_gate_cases:
  assumes "assert_retro_reviews_allow_closure now k c d = (d', r)"
  shows "r = Inr () \<longleftrightarrow> \<not> ch_retro_required c \<or> concat (map (blocker now) (reviews_of d k)) = []"
  using assms unfolding assert_retro_reviews_allow_closure_def Let_def
  by (auto simp: then_do_eq split: if_splits)

theorem closure_gate_open_iff:
  assumes "assert_retro_reviews_allow_closure now k c d = (d', r)"
  shows "(r = Inr () \<longleftrightarrow> \<not> ch_retro_required c \<or>
       fget (summarize_retro_review_blockers now k d) ''has_blockers'' JNull = JBool False) \<and>
     (r = Inr () \<longleftrightarrow> \<not> ch_retro_required c \<or>
       (\<forall>(j, r)\<in>set (reviews_of d k). rr_status r \<noteq> RrPending \<and> \<not> unresolved r)) \<and>
     changes d' = changes d \<and> retro_reviews d' = retro_reviews d"
proof -
  have "concat (map (blocker now) (reviews_of d k)) = [] \<longleftrightarrow>
      (\<forall>(j, r)\<in>set (reviews_of d k). rr_status r \<noteq> RrPending \<and> \<not> unresolved r)"
    by (auto simp: blocker_Nil)
  moreover have "changes d' = changes d \<and> retro_reviews d' = retro_reviews d"
    using assms unfolding assert_retro_reviews_allow_closure_def Let_def
    by (auto simp: then_do_eq commit_result_def split: if_splits sum.splits dest!: audit_emit_Inr)
  ultimately show ?thesis
    using closure_gate_cases [OF assms] unfolding no_blockers_iff by auto
qed
section \<open>Witnesses\<close>

lemma review_keys:
  "\<not> sensitive ''scope_sha256''" "\<not> sensitive ''scope_action_count''" "\<not> sensitive ''scope_gate_count''"
  "\<not> sensitive ''scope_target_count''" "\<not> sensitive ''review_id''" "\<not> sensitive ''blockers''"
  by (simp_all add: sensitive_def lower_def lower_char_def code_point_def REJECTED_METADATA_KEYS_def
      FORBIDDEN_METADATA_KEYS_def)

definition emergency_db :: "change_status \<Rightarrow> db" where
  "emergency_db s = (sample_db s)\<lparr>op_profiles := [(10, sample_profile\<lparr>op_allow_emergency := True\<rparr>)],
     change_targets := [(35, sample_target 1 ''web-1'')]\<rparr>"

definition sample_scope :: json where
  "sample_scope = JObj [(''allowed_actions'', JArr [JStr ''dispatch'']),
     (''target_ids'', JArr [JStr (id_str 35)]), (''gate_types'', JArr [JStr ''freeze_conflict''])]"

lemma emergency_rows:
  "changes (emergency_db s) = [(30, sample_change s)]" "breakglasses (emergency_db s) = []"
  "op_profiles (emergency_db s) = [(10, sample_profile\<lparr>op_allow_emergency := True\<rparr>)]"
  "workflows (emergency_db s) = [(20, sample_workflow)]" "next_id (emergency_db s) = 100"
  "targets_of (emergency_db s) 30 = [(35, sample_target 1 ''web-1'')]" "retro_reviews (emergency_db s) = []"
  by (simp_all add: emergency_db_def sample_db_def empty_db_def targets_of_def tsel_def sample_target_def)

lemma emergency_profile_org: "op_org (sample_profile\<lparr>op_allow_emergency := True\<rparr>) = 1"
  by (simp add: sample_profile_def)

lemma sample_limits:
  "breakglass_limits 9 (sample_change ChApproved) sample_scope (secs 3600) 30 (emergency_db ChApproved) =
     Inr (9 + secs 86400)"
  by (simp add: breakglass_limits_def emergency_rows tget_def sample_change_def sample_profile_def
      BREAKGLASS_ACTIVATABLE_STATUSES_def int_or_def DEFAULT_MAX_BREAKGLASS_SECONDS_def
      DEFAULT_RETRO_REVIEW_SLA_SECONDS_def secs_def validate_breakglass_scope_def sample_scope_def
      BREAKGLASS_SCOPE_REQUIRED_KEYS_def BREAKGLASS_SCOPE_FORBIDDEN_KEYS_def fget_def scope_list_def
      py_str_def lower_def lower_char_def code_point_def)

lemma sample_activation_events:
  assumes "length (bg_scope_sha s) = 64" and "bg_scope s = sample_scope"
    and "bg_expires_at s = secs 3600" and "length (isoformat (bg_review_due_at s)) \<le> 32"
  shows "\<exists>evs. activation_events 9 30 100 s 101 a d = Inr (d\<lparr>audit_log := audit_log d @ evs\<rparr>)"
proof -
  have iso: "length (isoformat 9) \<le> 32" "length (isoformat (secs 3600)) \<le> 32"
    by (rule length_isoformat; simp add: secs_def)+
  have one: "\<exists>ev. audit_emit 9 (bg_org s) a ''breakglass.activated'' ''breakglass_session'' 100 [
        (''change_record_id'', JStr (id_str 30)),
        (''breakglass_session_id'', JStr (id_str 100)),
        (''scope_sha256'', JStr (bg_scope_sha s)),
        (''scope_action_count'', JInt (int (length (scope_list (bg_scope s) ''allowed_actions'')))),
        (''scope_gate_count'', JInt (int (length (scope_list (bg_scope s) ''gate_types'')))),
        (''scope_target_count'', JInt (int (length (scope_list (bg_scope s) ''target_ids'')))),
        (''expires_at'', JStr (isoformat (bg_expires_at s))),
        (''review_due_at'', JStr (isoformat (bg_review_due_at s))),
        (''started_at'', JStr (isoformat 9))] d = Inr (d\<lparr>audit_log := audit_log d @ [ev]\<rparr>)" for d
    using length_id_str [of 30] length_id_str [of 100] iso assms
    by (intro audit_emit_succeeds)
      (simp_all add: sample_event_simps review_keys sample_scope_def scope_list_def fget_def)
  have two: "\<exists>ev. audit_emit 9 (bg_org s) (system_actor ''breakglass-activation'') ''retro_review.required''
      ''retro_review'' 101 [
        (''change_record_id'', JStr (id_str 30)),
        (''breakglass_session_id'', JStr (id_str 100)),
        (''review_due_at'', JStr (isoformat (bg_review_due_at s)))] d =
      Inr (d\<lparr>audit_log := audit_log d @ [ev]\<rparr>)" for d
    using length_id_str [of 30] length_id_str [of 100] assms(4)
    by (intro audit_emit_succeeds) (simp_all add: sample_event_simps)
  obtain e1 where e1: "audit_emit 9 (bg_org s) a ''breakglass.activated'' ''breakglass_session'' 100 [
        (''change_record_id'', JStr (id_str 30)),
        (''breakglass_session_id'', JStr (id_str 100)),
        (''scope_sha256'', JStr (bg_scope_sha s)),
        (''scope_action_count'', JInt (int (length (scope_list (bg_scope s) ''allowed_actions'')))),
        (''scope_gate_count'', JInt (int (length (scope_list (bg_scope s) ''gate_types'')))),
        (''scope_target_count'', JInt (int (length (scope_list (bg_scope s) ''target_ids'')))),
        (''expires_at'', JStr (isoformat (bg_expires_at s))),
        (''review_due_at'', JStr (isoformat (bg_review_due_at s))),
        (''started_at'', JStr (isoformat 9))] d = Inr (d\<lparr>audit_log := audit_log d @ [e1]\<rparr>)"
    using one by blast
  from two [of "d\<lparr>audit_log := audit_log d @ [e1]\<rparr>"] show ?thesis
    unfolding activation_events_def e1 by auto
qed

lemma sample_change_save:
  assumes "changes d = [(30, sample_change s)]" and "op_profiles d = [(10, p)]" and "op_org p = 1"
    and "workflows d = [(20, sample_workflow)]" and "c = f (sample_change s)"
    and "\<And>c. frozen_request (f c) = frozen_request c \<and> ch_org (f c) = ch_org c"
  shows "change_save 30 c d = Inr (d\<lparr>changes := [(30, c)]\<rparr>)"
proof -
  from assms(6) [of "sample_change s"] assms(5) have "frozen_request c = frozen_request (sample_change s)"
    "ch_org c = 1" by (simp_all add: sample_change_def)
  then show ?thesis
    using assms(1-4)
    by (simp add: change_save_def change_clean_def tget_def immutable_fields_equal_def frozen_request_def
        sample_change_def upd_change_def tupd_def sample_workflow_def)
qed

lemma sample_activation:
  "\<exists>d'. activate_breakglass 9 30 (system_actor ''ann'') sample_scope ''outage'' (secs 3600) (Some ''ann'')
     (emergency_db ChApproved) = Inr (d', 100)"
proof -
  let ?d = "emergency_db ChApproved"
  have x: "expire_breakglass_sessions 9 (Some 30) ?d = (?d, Inr ())"
    by (simp add: expire_breakglass_sessions_def emergency_rows tsel_def)
  obtain s where s: "s = \<lparr>bg_org = ch_org (sample_change ChApproved), bg_change = 30, bg_status = BgActive,
      bg_scope = sample_scope, bg_started_at = 9, bg_expires_at = secs 3600, bg_ended_at = None,
      bg_ended_by = None, bg_end_reason = [], bg_review_due_at = 9 + secs 86400,
      bg_review_status = RvPending, bg_scope_sha = sha256_canonical_json sample_scope,
      bg_reason = ''outage'', bg_activated_by = Some ''ann'', bg_heartbeat_at = None\<rparr>" by simp
  let ?d1 = "?d\<lparr>next_id := 101, breakglasses := [(100, s)]\<rparr>"
  have i: "insert_breakglass s ?d = Inr (?d1, 100)"
    by (simp add: insert_breakglass_def breakglass_clean_def emergency_rows tget_def s sample_change_def
        secs_def active_session_def tsel_def fresh_def tins_def)
  let ?c = "require_review (9 + secs 86400) (sample_change ChApproved)"
  have cs: "change_save 30 ?c ?d1 = Inr (?d1\<lparr>changes := [(30, ?c)]\<rparr>)"
    by (rule sample_change_save [where p = "sample_profile\<lparr>op_allow_emergency := True\<rparr>" and f = "require_review (9 + secs 86400)"])
      (simp_all add: emergency_rows require_review_def frozen_request_def emergency_profile_org [simplified])
  let ?r = "new_review (ch_org (sample_change ChApproved)) 30 (Some 100) None (9 + secs 86400)"
  have cr: "create_review ?r (?d1\<lparr>changes := [(30, ?c)]\<rparr>) =
     Inr (?d1\<lparr>changes := [(30, ?c)], next_id := 102, retro_reviews := [(101, ?r)]\<rparr>, 101)"
    by (simp add: create_review_def retro_clean_def new_review_def tget_def require_review_def
        sample_change_def s fresh_def tins_def emergency_rows)
  have "length (isoformat (9 + secs 86400)) \<le> 32" by code_simp
  then have "\<exists>evs. activation_events 9 30 100 s 101 (system_actor ''ann'') t =
      Inr (t\<lparr>audit_log := audit_log t @ evs\<rparr>)" for t
    by (intro sample_activation_events)
      (simp_all add: s sha256_canonical_json_def length_sha256_hex)
  then obtain d' where "activation_events 9 30 100 s 101 (system_actor ''ann'')
      (?d1\<lparr>changes := [(30, ?c)], next_id := 102, retro_reviews := [(101, ?r)]\<rparr>) = Inr d'" by blast
  then show ?thesis
    by (simp add: activate_breakglass_def emergency_rows tget_def x atomic_def sample_limits i cs cr Let_def
        flip: s)
qed

theorem breakglass_within_limits_witness:
  "\<exists>d' s. activate_breakglass 9 30 (system_actor ''ann'') sample_scope ''outage'' (secs 3600) (Some ''ann'')
     (emergency_db ChApproved) = Inr (d', 100) \<and> active_session d' 30 = [(100, s)]"
  using sample_activation breakglass_within_limits by blast

definition reviewed_db :: db where
  "reviewed_db = (emergency_db ChVerified)\<lparr>retro_reviews :=
     [(60, (new_review 1 30 None (Some 70) 5)), (61, (new_review 1 30 None (Some 71) 50))]\<rparr>"

theorem retro_status_priority_witness:
  "\<exists>d'. recompute_change_retro_review_status 9 30 reviewed_db = Inr d' \<and>
     tget (changes d') 30 = Some ((sample_change ChVerified)\<lparr>ch_retro_blocking := ''overdue''\<rparr>)"
proof -
  have ch: "tget (changes reviewed_db) 30 = Some (sample_change ChVerified)"
    and rs: "reviews_of reviewed_db 30 =
      [(60, (new_review 1 30 None (Some 70) 5)), (61, (new_review 1 30 None (Some 71) 50))]"
    by (simp_all add: reviewed_db_def emergency_rows tget_def reviews_of_def tsel_def new_review_def)
  have sp: "blocking_spec 9 (snd ` set (reviews_of reviewed_db 30)) = ''overdue''"
    by (simp add: rs blocking_spec_def new_review_def)
  have "\<exists>d'. recompute_change_retro_review_status 9 30 reviewed_db = Inr d'"
  proof -
    have "change_save 30 ((sample_change ChVerified)\<lparr>ch_retro_blocking := ''overdue''\<rparr>) reviewed_db =
        Inr (reviewed_db\<lparr>changes := [(30, (sample_change ChVerified)\<lparr>ch_retro_blocking := ''overdue''\<rparr>)]\<rparr>)"
      by (rule sample_change_save [where p = "sample_profile\<lparr>op_allow_emergency := True\<rparr>" and f = "\<lambda>c. c\<lparr>ch_retro_blocking := ''overdue''\<rparr>"])
        (simp_all add: reviewed_db_def emergency_rows frozen_request_def emergency_profile_org [simplified])
    then show ?thesis
      by (simp add: recompute_change_retro_review_status_def ch rs new_review_def Let_def)
  qed
  then obtain d' where d': "recompute_change_retro_review_status 9 30 reviewed_db = Inr d'" by blast
  from retro_status_priority [OF d' ch, of 30] d' rs sp show ?thesis by simp
qed

theorem closure_gate_open_iff_witness:
  "\<exists>d' e. assert_retro_reviews_allow_closure 9 30 ((sample_change ChVerified)\<lparr>ch_retro_required := True\<rparr>)
     reviewed_db = (d', Inl e) \<and> retro_reviews d' = retro_reviews reviewed_db"
proof -
  obtain d' r where a: "assert_retro_reviews_allow_closure 9 30
      ((sample_change ChVerified)\<lparr>ch_retro_required := True\<rparr>) reviewed_db = (d', r)" by fastforce
  note p = closure_gate_open_iff [OF a]
  have "\<not> (\<forall>(j, r)\<in>set (reviews_of reviewed_db 30). rr_status r \<noteq> RrPending \<and> \<not> unresolved r)"
    by (simp add: reviewed_db_def reviews_of_def tsel_def new_review_def)
  moreover have "ch_retro_required ((sample_change ChVerified)\<lparr>ch_retro_required := True\<rparr>)" by simp
  ultimately have "r \<noteq> Inr ()" using p by blast
  then obtain e where "r = Inl e" by (cases r) auto
  with a p show ?thesis by blast
qed



end
