(* ===== verification/Change_Exceptions.thy ===== *)
theory Change_Exceptions
  imports Retro_Reviews
begin

text \<open>
  Control exceptions of a change (\<open>apps/changes/services.py\<close>): the request with its
  type-specific scope, the approval, rejection and resolution, the synchronisation with a decision
  taken in the approval inbox, and the query for an exception that applies. Ids in a scope are
  text of the client: how a JSON value is read as a UUID, and a string as a time, is a parameter
  (\<open>parsers\<close>).
\<close>

section \<open>Constants\<close>

definition EXCEPTION_TYPES :: "string list" where
  "EXCEPTION_TYPES = [''freeze_override'', ''window_overrun'', ''late_verification'',
     ''policy_override'', ''missing_artifact'']"

fun EXCEPTION_SCOPE_REQUIRED_KEYS :: "string \<Rightarrow> string list" where
  "EXCEPTION_SCOPE_REQUIRED_KEYS et =
    (if et = ''freeze_override'' then [''freeze_rule_id'', ''target_ids'']
     else if et = ''window_overrun'' then [''change_window_id'', ''allowed_until'']
     else if et = ''late_verification''
       then [''verification_plan_id'', ''verification_check_ids'', ''due_at'']
     else if et = ''policy_override''
       then [''policy_evaluation_id'', ''policy_rule_ids'', ''overridden_outcome'']
     else if et = ''missing_artifact''
       then [''verification_check_id'', ''expected_artifact_kind'', ''replacement_evidence'']
     else [])"

definition EXCEPTION_ADMIN_APPROVAL_REQUIRED_TYPES :: "string list" where
  "EXCEPTION_ADMIN_APPROVAL_REQUIRED_TYPES = [''policy_override'', ''missing_artifact'']"

definition MAX_EXCEPTION_REASON_LENGTH :: nat where
  "MAX_EXCEPTION_REASON_LENGTH = 4000"

text \<open>
  \<open>parse_datetime\<close> gives a time with or without zone, \<open>None\<close>, or raises \<open>ValueError\<close>.
\<close>

datatype parsed_time = Aware timestamp | Naive | NoTime | BadTime

record parsers =
  pa_uuid :: "json \<Rightarrow> nat option"
  pa_datetime :: "string \<Rightarrow> parsed_time"

text \<open>\<open>Model.objects.get(pk=v, ...)\<close>, where a malformed id is as good as an unknown one.\<close>

definition find_row :: "parsers \<Rightarrow> 'r table \<Rightarrow> json \<Rightarrow> ('r \<Rightarrow> bool) \<Rightarrow> (nat \<times> 'r) option" where
  "find_row P t v Q =
    (case pa_uuid P v of
       None \<Rightarrow> None
     | Some i \<Rightarrow> (case tget t i of None \<Rightarrow> None | Some r \<Rightarrow> if Q r then Some (i, r) else None))"

section \<open>Who may approve\<close>

definition assert_exception_approver_allowed ::
    "timestamp \<Rightarrow> nat \<Rightarrow> change_exception \<Rightarrow> audit_actor \<Rightarrow> string option \<Rightarrow> db \<Rightarrow> unit outcome" where
  "assert_exception_approver_allowed now i x actor user d =
    (case user of
       None \<Rightarrow> (d, Inr ())
     | Some u \<Rightarrow>
        if xc_requested_by x = Some u
          then then_do (commit_result d (audit_emit now (xc_org x) actor
                 ''change_exception.self_approval_rejected'' ''change_exception'' i [
                   (''change_record_id'', JStr (id_str (xc_change x))),
                   (''exception_type'', JStr (xc_type x)),
                   (''exception_id'', JStr (id_str i))] d)) (\<lambda>d _.
               (d, Inl (Domain DomainValidationError ''exception_self_approval_rejected'')))
        else if xc_type x \<in> set EXCEPTION_ADMIN_APPROVAL_REQUIRED_TYPES \<and> \<not> is_org_admin d (xc_org x) u
          then (d, Inl (Domain DomainValidationError ''exception_admin_approval_required''))
        else (d, Inr ()))"

section \<open>Scopes\<close>

definition validate_exception_freeze_override ::
    "parsers \<Rightarrow> nat \<Rightarrow> change \<Rightarrow> jdict \<Rightarrow> db \<Rightarrow> unit result" where
  "validate_exception_freeze_override P k c sc d =
    (case find_row P (freeze_rules d) (fget sc ''freeze_rule_id'' (JStr [])) (\<lambda>f. fz_org f = ch_org c) of
       None \<Rightarrow> Inl (Domain DomainValidationError ''freeze_rule_not_found'')
     | Some (_, f) \<Rightarrow>
        if fz_behavior f = FreezeBlock
          then Inl (Domain DomainValidationError ''freeze_override_cannot_override_block'')
        else res_bind (scope_strs (JObj sc) ''target_ids'') (\<lambda>ids.
          if ids = [] \<or> \<not> set ids \<subseteq> set (map (id_str \<circ> fst) (targets_of d k))
            then Inl (Domain DomainValidationError ''exception_scope_unknown_targets'')
          else Inr ()))"

text \<open>
  Comparing the window's end with a time without zone, or with a value that is no time, is a
  \<open>TypeError\<close>.
\<close>

definition validate_exception_window_overrun ::
    "parsers \<Rightarrow> nat \<Rightarrow> change \<Rightarrow> jdict \<Rightarrow> db \<Rightarrow> unit result" where
  "validate_exception_window_overrun P k c sc d =
    (case find_row P (windows d) (fget sc ''change_window_id'' JNull)
            (\<lambda>w. wn_change w = k \<and> wn_org w = ch_org c) of
       None \<Rightarrow> Inl (Domain DomainValidationError ''change_window_not_found'')
     | Some (_, w) \<Rightarrow>
        (case fget sc ''allowed_until'' JNull of
           JNull \<Rightarrow> Inl (Domain DomainValidationError ''window_overrun_allowed_until_invalid'')
         | JStr s \<Rightarrow>
            (case pa_datetime P s of
               Aware t \<Rightarrow>
                 if t \<le> wn_ends_at w
                   then Inl (Domain DomainValidationError ''window_overrun_allowed_until_invalid'')
                 else Inr ()
             | NoTime \<Rightarrow> Inl (Domain DomainValidationError ''window_overrun_allowed_until_invalid'')
             | Naive \<Rightarrow> Inl (PyError ''TypeError'')
             | BadTime \<Rightarrow> Inl (PyError ''ValueError''))
         | _ \<Rightarrow> Inl (PyError ''TypeError'')))"

definition validate_exception_late_verification ::
    "parsers \<Rightarrow> nat \<Rightarrow> change \<Rightarrow> jdict \<Rightarrow> db \<Rightarrow> unit result" where
  "validate_exception_late_verification P k c sc d =
    (case find_row P (ver_plans d) (fget sc ''verification_plan_id'' JNull)
            (\<lambda>p. vp_change p = k \<and> vp_org p = ch_org c) of
       None \<Rightarrow> Inl (Domain DomainValidationError ''verification_plan_not_found'')
     | Some (i, _) \<Rightarrow>
        res_bind (scope_strs (JObj sc) ''verification_check_ids'') (\<lambda>ids.
          if ids = [] \<or> \<not> set ids \<subseteq> set (map (id_str \<circ> fst)
               (tsel (\<lambda>_ v. vc_plan v = i \<and> vc_change v = k) (ver_checks d)))
            then Inl (Domain DomainValidationError ''verification_check_not_found'')
          else Inr ()))"

text \<open>The rules among \<open>ids\<close> whose policy belongs to the organization.\<close>

definition known_rules :: "parsers \<Rightarrow> nat \<Rightarrow> string list \<Rightarrow> db \<Rightarrow> string list" where
  "known_rules P org ids d =
    map (id_str \<circ> fst) (tsel (\<lambda>i r. Some i \<in> set (map (pa_uuid P \<circ> JStr) ids) \<and>
      map_option po_org (tget (policies d) (pr_policy r)) = Some org) (policy_rules d))"

definition validate_exception_policy_override ::
    "parsers \<Rightarrow> nat \<Rightarrow> change \<Rightarrow> jdict \<Rightarrow> db \<Rightarrow> unit result" where
  "validate_exception_policy_override P k c sc d =
    (case find_row P (policy_evals d) (fget sc ''policy_evaluation_id'' JNull) (\<lambda>e. pe_org e = ch_org c) of
       None \<Rightarrow> Inl (Domain DomainValidationError ''policy_evaluation_not_found'')
     | Some (i, e) \<Rightarrow>
        if ch_policy_evaluation c \<noteq> Some i
          then Inl (Domain DomainValidationError ''policy_evaluation_change_mismatch'')
        else res_bind (scope_strs (JObj sc) ''policy_rule_ids'') (\<lambda>ids.
          if ids \<noteq> [] \<and> list_ex (\<lambda>s. pa_uuid P (JStr s) = None) ids
            then Inl (DjangoValidation ''policy_rule_ids'')
          else if ids \<noteq> [] \<and> \<not> set ids \<subseteq> set (known_rules P (ch_org c) ids d)
            then Inl (Domain DomainValidationError ''policy_rule_not_found'')
          else if ids \<noteq> [] \<and> (case pe_rule e of None \<Rightarrow> False | Some r \<Rightarrow> id_str r \<notin> set ids)
            then Inl (Domain DomainValidationError ''policy_rule_scope_mismatch'')
          else if fget sc ''overridden_outcome'' JNull \<notin> {JStr ''block'', JStr ''approval_required''}
            then Inl (Domain DomainValidationError ''policy_override_outcome_invalid'')
          else Inr ()))"

definition validate_exception_missing_artifact ::
    "parsers \<Rightarrow> nat \<Rightarrow> change \<Rightarrow> jdict \<Rightarrow> db \<Rightarrow> unit result" where
  "validate_exception_missing_artifact P k c sc d =
    (case find_row P (ver_checks d) (fget sc ''verification_check_id'' JNull)
            (\<lambda>v. vc_change v = k \<and> map_option vp_org (tget (ver_plans d) (vc_plan v)) = Some (ch_org c)) of
       None \<Rightarrow> Inl (Domain DomainValidationError ''verification_check_not_found'')
     | Some (_, v) \<Rightarrow>
        if vc_artifact_kind v \<noteq> [] \<and>
           py_str (fget sc ''expected_artifact_kind'' (JStr [])) \<noteq> vc_artifact_kind v
          then Inl (Domain DomainValidationError ''missing_artifact_kind_mismatch'')
        else if \<not> truthy (fget sc ''replacement_evidence'' JNull)
          then Inl (Domain DomainValidationError ''missing_artifact_replacement_evidence_required'')
        else Inr ())"

definition validate_exception_scope ::
    "parsers \<Rightarrow> nat \<Rightarrow> change \<Rightarrow> string \<Rightarrow> jdict \<Rightarrow> db \<Rightarrow> unit result" where
  "validate_exception_scope P k c et sc d =
    (if \<not> set (EXCEPTION_SCOPE_REQUIRED_KEYS et) \<subseteq> fst ` set sc
       then Inl (Domain DomainValidationError ''exception_scope_missing_keys'')
     else if et = ''freeze_override'' then validate_exception_freeze_override P k c sc d
     else if et = ''window_overrun'' then validate_exception_window_overrun P k c sc d
     else if et = ''late_verification'' then validate_exception_late_verification P k c sc d
     else if et = ''policy_override'' then validate_exception_policy_override P k c sc d
     else if et = ''missing_artifact'' then validate_exception_missing_artifact P k c sc d
     else Inr ())"

section \<open>Requesting an exception\<close>

text \<open>The arguments are checked before the transaction.\<close>

definition exception_arguments ::
    "timestamp \<Rightarrow> string \<Rightarrow> string \<Rightarrow> json \<Rightarrow> timestamp option \<Rightarrow> (jdict \<times> timestamp) result" where
  "exception_arguments now et reason scope expires =
    (if et \<notin> set EXCEPTION_TYPES
       then Inl (Domain DomainValidationError ''exception_type_invalid'')
     else if strip reason = []
       then Inl (Domain DomainValidationError ''exception_reason_required'')
     else if length reason > MAX_EXCEPTION_REASON_LENGTH
       then Inl (Domain DomainValidationError ''exception_reason_too_long'')
     else (case scope of
        JObj sc \<Rightarrow>
          (case expires of
             None \<Rightarrow> Inl (Domain DomainValidationError ''exception_expires_at_required'')
           | Some e \<Rightarrow>
              if e \<le> now then Inl (Domain DomainValidationError ''exception_expires_at_required'')
              else Inr (sc, e))
      | _ \<Rightarrow> Inl (Domain DomainValidationError ''exception_scope_invalid'')))"

definition new_exception ::
    "timestamp \<Rightarrow> nat \<Rightarrow> change \<Rightarrow> string \<Rightarrow> string \<Rightarrow> jdict \<Rightarrow> timestamp \<Rightarrow> string option
      \<Rightarrow> change_exception" where
  "new_exception now k c et reason sc expires user =
    \<lparr>xc_org = ch_org c, xc_change = k, xc_type = et, xc_status = XcPendingApproval,
     xc_reason = strip reason, xc_scope = JObj sc, xc_requested_by = user, xc_requested_at = now,
     xc_approval = None, xc_approved_by = None, xc_approved_at = None, xc_rejected_at = None,
     xc_expires_at = expires, xc_resolved_at = None, xc_note = [], xc_check = None\<rparr>"

definition exception_request :: "timestamp \<Rightarrow> nat \<Rightarrow> nat \<Rightarrow> approval_request" where
  "exception_request now org i =
    \<lparr>ar_org = org, ar_subject_type = SubjException, ar_subject_id = Some i, ar_exec = None,
     ar_step = None, ar_status = ArPending, ar_runner = [], ar_requested_at = now,
     ar_timeout = None, ar_expires_at = None, ar_resolved_at = None\<rparr>"

definition request_exception_tx ::
    "parsers \<Rightarrow> timestamp \<Rightarrow> nat \<Rightarrow> string \<Rightarrow> string \<Rightarrow> jdict \<Rightarrow> timestamp \<Rightarrow> string option \<Rightarrow> db
      \<Rightarrow> (db \<times> nat \<times> nat) result" where
  "request_exception_tx P now k et reason sc expires user d =
    (case tget (changes d) k of
       None \<Rightarrow> Inl (NotFound ''change'')
     | Some c \<Rightarrow>
        res_bind (validate_exception_scope P k c et sc d) (\<lambda>_.
        if et = ''window_overrun'' \<and>
           (case window_of d k of None \<Rightarrow> False | Some (_, w) \<Rightarrow> now < wn_starts_at w)
          then Inl (Domain DomainValidationError ''window_overrun_before_window_opens'')
        else let x = new_exception now k c et reason sc expires user
          in res_bind (exception_clean d x) (\<lambda>_.
             let (i, d) = fresh d;
                 d = d\<lparr>change_exceptions := tins i x (change_exceptions d)\<rparr>;
                 (a, d) = fresh d;
                 d = d\<lparr>approval_reqs := tins a (exception_request now (ch_org c) i) (approval_reqs d)\<rparr>
             in Inr (d\<lparr>change_exceptions :=
                  tupd i (\<lambda>x. x\<lparr>xc_approval := Some a\<rparr>) (change_exceptions d)\<rparr>, i, a))))"

definition request_exception ::
    "parsers \<Rightarrow> timestamp \<Rightarrow> nat \<Rightarrow> audit_actor \<Rightarrow> string \<Rightarrow> string \<Rightarrow> json \<Rightarrow> timestamp option
      \<Rightarrow> string option \<Rightarrow> db \<Rightarrow> nat outcome" where
  "request_exception P now k actor et reason scope expires user d =
    (case exception_arguments now et reason scope expires of
       Inl e \<Rightarrow> (d, Inl e)
     | Inr (sc, exp) \<Rightarrow>
        (case request_exception_tx P now k et reason sc exp user d of
           Inl e \<Rightarrow> (d, Inl e)
         | Inr (d, i, a) \<Rightarrow>
            (case tget (change_exceptions d) i of
               None \<Rightarrow> (d, Inl (NotFound ''change_exception''))
             | Some x \<Rightarrow>
                then_do (commit_result d (audit_emit now (xc_org x) actor
                  ''change_exception.requested'' ''change_exception'' i [
                    (''change_record_id'', JStr (id_str k)),
                    (''exception_type'', JStr et),
                    (''exception_id'', JStr (id_str i)),
                    (''expires_at'', JStr (isoformat exp)),
                    (''approval_request_id'', JStr (id_str a)),
                    (''scope_key_count'', JInt (int (length sc)))] d)) (\<lambda>d _.
                (d, Inr i)))))"

section \<open>Approval and rejection\<close>

text \<open>A pending exception that has not expired, after the expiry sweep of its change.\<close>

definition pending_exception :: "timestamp \<Rightarrow> nat \<Rightarrow> change_exception \<Rightarrow> db \<Rightarrow> (db \<times> change_exception) result" where
  "pending_exception now i x d =
    res_bind (atomic (expire_exceptions now (xc_change x) d)) (\<lambda>(d, _).
      case tget (change_exceptions d) i of
        None \<Rightarrow> Inl (NotFound ''change_exception'')
      | Some x \<Rightarrow>
         if xc_status x = XcExpired
           then Inl (Domain InvalidStateTransitionError ''exception_expired'')
         else if xc_status x \<noteq> XcPendingApproval
           then Inl (Domain InvalidStateTransitionError ''exception_not_pending'')
         else Inr (d, x))"

definition save_exception :: "nat \<Rightarrow> change_exception \<Rightarrow> db \<Rightarrow> db result" where
  "save_exception i x d =
    res_bind (exception_clean d x) (\<lambda>_.
      Inr (d\<lparr>change_exceptions := tupd i (\<lambda>_. x) (change_exceptions d)\<rparr>))"

text \<open>The insertion of a decision; a request has at most one (\<open>OneToOneField\<close>).\<close>

definition insert_decision :: "approval_decision \<Rightarrow> db \<Rightarrow> (db \<times> nat) result" where
  "insert_decision ad d =
    (if tsel (\<lambda>_ e. ad_request e = ad_request ad) (approval_decs d) \<noteq> []
       then Inl (IntegrityErr ''approval_decision'')
     else let (i, d) = fresh d in Inr (d\<lparr>approval_decs := tins i ad (approval_decs d)\<rparr>, i))"

definition resolve_linked_request ::
    "timestamp \<Rightarrow> change_exception \<Rightarrow> decision \<Rightarrow> audit_actor \<Rightarrow> string option \<Rightarrow> db \<Rightarrow> db result" where
  "resolve_linked_request now x dec actor user d =
    (case xc_approval x of
       None \<Rightarrow> Inr d
     | Some a \<Rightarrow>
        (case tget (approval_reqs d) a of
           None \<Rightarrow> Inl (NotFound ''approval_request'')
         | Some r \<Rightarrow>
            if ar_status r \<noteq> ArPending then Inr d
            else res_bind (insert_decision
                \<lparr>ad_request = a, ad_decision = dec, ad_source = Human, ad_user = user,
                 ad_label = actor_label actor, ad_label_source = ''verified_user'', ad_notes = [],
                 ad_decided_at = now\<rparr>
                (d\<lparr>approval_reqs := tupd a (\<lambda>r. r\<lparr>ar_status := decision_status dec,
                     ar_resolved_at := Some now\<rparr>) (approval_reqs d)\<rparr>))
              (\<lambda>(d, _). Inr d)))"

text \<open>A severe exception makes a review necessary (\<open>QuerySet.update\<close>, which runs no model code).\<close>

definition mark_review_required :: "change_exception \<Rightarrow> db \<Rightarrow> db" where
  "mark_review_required x d =
    (if xc_type x \<in> set EXCEPTION_RETRO_REVIEW_REQUIRED_TYPES
     then upd_change (xc_change x)
       (\<lambda>c. c\<lparr>ch_retro_required := True, ch_retro_blocking := ''pending''\<rparr>) d
     else d)"

definition approve_exception_tx ::
    "timestamp \<Rightarrow> nat \<Rightarrow> audit_actor \<Rightarrow> string option \<Rightarrow> db \<Rightarrow> db result" where
  "approve_exception_tx now i actor user d =
    (case tget (change_exceptions d) i of
       None \<Rightarrow> Inl (NotFound ''change_exception'')
     | Some x \<Rightarrow>
        res_bind (pending_exception now i x d) (\<lambda>(d, x).
        res_bind (save_exception i (x\<lparr>xc_status := XcApproved, xc_approved_by := user,
            xc_approved_at := Some now\<rparr>) d) (\<lambda>d.
        res_bind (resolve_linked_request now x Approved actor user d) (\<lambda>d.
        Inr (mark_review_required x d)))))"

text \<open>
  \<open>in_tx\<close>: whether the caller has a transaction open. The review is created after the
  \<open>atomic\<close> block.
\<close>

definition approve_exception ::
    "bool \<Rightarrow> timestamp \<Rightarrow> nat \<Rightarrow> audit_actor \<Rightarrow> string option \<Rightarrow> db \<Rightarrow> unit outcome" where
  "approve_exception in_tx now i actor user d =
    (case tget (change_exceptions d) i of
       None \<Rightarrow> (d, Inl (NotFound ''change_exception''))
     | Some x \<Rightarrow>
        then_do (assert_exception_approver_allowed now i x actor user d) (\<lambda>d _.
        then_do (commit_result d (approve_exception_tx now i actor user d)) (\<lambda>d _.
        then_do (if xc_type x \<in> set EXCEPTION_RETRO_REVIEW_REQUIRED_TYPES
                 then ensure_retro_review_for_exception in_tx now i d else (d, Inr None)) (\<lambda>d _.
        commit_result d (audit_emit now (xc_org x) actor ''change_exception.approved''
          ''change_exception'' i [
            (''change_record_id'', JStr (id_str (xc_change x))),
            (''exception_type'', JStr (xc_type x)),
            (''exception_id'', JStr (id_str i)),
            (''approved_at'', JStr (isoformat now)),
            (''expires_at'', JStr (isoformat (xc_expires_at x)))] d)))))"

definition reject_exception_tx ::
    "timestamp \<Rightarrow> nat \<Rightarrow> audit_actor \<Rightarrow> string option \<Rightarrow> db \<Rightarrow> db result" where
  "reject_exception_tx now i actor user d =
    (case tget (change_exceptions d) i of
       None \<Rightarrow> Inl (NotFound ''change_exception'')
     | Some x \<Rightarrow>
        res_bind (pending_exception now i x d) (\<lambda>(d, x).
        res_bind (save_exception i (x\<lparr>xc_status := XcRejected, xc_rejected_at := Some now\<rparr>) d) (\<lambda>d.
        resolve_linked_request now x Rejected actor user d)))"

definition reject_exception ::
    "timestamp \<Rightarrow> nat \<Rightarrow> audit_actor \<Rightarrow> string option \<Rightarrow> db \<Rightarrow> unit outcome" where
  "reject_exception now i actor user d =
    (case tget (change_exceptions d) i of
       None \<Rightarrow> (d, Inl (NotFound ''change_exception''))
     | Some x \<Rightarrow>
        then_do (commit_result d (reject_exception_tx now i actor user d)) (\<lambda>d _.
        commit_result d (audit_emit now (xc_org x) actor ''change_exception.rejected''
          ''change_exception'' i [
            (''change_record_id'', JStr (id_str (xc_change x))),
            (''exception_type'', JStr (xc_type x)),
            (''exception_id'', JStr (id_str i)),
            (''rejected_at'', JStr (isoformat now))] d)))"

section \<open>A decision of the approval inbox\<close>

text \<open>
  It runs in the transaction of \<open>decide_approval\<close>. The result says whether the review of the
  exception is to be created when that transaction has committed (\<open>transaction.on_commit\<close>).
\<close>

definition apply_exception_approval_decision ::
    "timestamp \<Rightarrow> nat \<Rightarrow> decision \<Rightarrow> audit_actor \<Rightarrow> string option \<Rightarrow> db \<Rightarrow> (db \<times> nat option) result" where
  "apply_exception_approval_decision now a dec actor user d =
    (case tget (approval_reqs d) a of
       None \<Rightarrow> Inl (NotFound ''approval_request'')
     | Some req \<Rightarrow>
      (case tsel (\<lambda>_ x. xc_approval x = Some a \<and> xc_org x = ar_org req) (change_exceptions d) of
         [] \<Rightarrow> Inl (Domain DomainValidationError ''change_exception_not_found'')
       | [(i, x)] \<Rightarrow>
          res_bind (pending_exception now i x d) (\<lambda>(d, x).
          let meta = [(''change_record_id'', JStr (id_str (xc_change x))),
                      (''exception_type'', JStr (xc_type x)),
                      (''exception_id'', JStr (id_str i))]
          in (case dec of
                Approved \<Rightarrow>
                  res_bind (atomic (assert_exception_approver_allowed now i x actor user d)) (\<lambda>(d, _).
                  res_bind (save_exception i (x\<lparr>xc_status := XcApproved, xc_approved_by := user,
                      xc_approved_at := Some now\<rparr>) d) (\<lambda>d.
                  res_bind (audit_emit now (xc_org x) actor ''change_exception.approved''
                    ''change_exception'' i (meta @ [
                      (''approved_at'', JStr (isoformat now)),
                      (''expires_at'', JStr (isoformat (xc_expires_at x)))])
                    (mark_review_required x d)) (\<lambda>d.
                  Inr (d, if xc_type x \<in> set EXCEPTION_RETRO_REVIEW_REQUIRED_TYPES
                          then Some i else None))))
              | Rejected \<Rightarrow>
                  res_bind (save_exception i (x\<lparr>xc_status := XcRejected,
                      xc_rejected_at := Some now\<rparr>) d) (\<lambda>d.
                  res_bind (audit_emit now (xc_org x) actor ''change_exception.rejected''
                    ''change_exception'' i (meta @ [(''rejected_at'', JStr (isoformat now))]) d) (\<lambda>d.
                  Inr (d, None)))
              | TimedOut \<Rightarrow> Inl (Domain DomainValidationError ''approval_decision_invalid'')))
       | _ \<Rightarrow> Inl (PyError ''MultipleObjectsReturned'')))"

section \<open>Resolution and use\<close>

text \<open>\<open>x\<close> is the exception as the caller loaded it; there is no lock.\<close>

definition resolve_exception ::
    "timestamp \<Rightarrow> nat \<Rightarrow> change_exception \<Rightarrow> audit_actor \<Rightarrow> string \<Rightarrow> db \<Rightarrow> unit outcome" where
  "resolve_exception now i x actor note d =
    (if xc_status x \<noteq> XcApproved
       then (d, Inl (Domain InvalidStateTransitionError ''exception_not_approved''))
     else (case exception_clean d x of
        Inl e \<Rightarrow> (d, Inl e)
      | Inr _ \<Rightarrow>
         let d = d\<lparr>change_exceptions := tupd i (\<lambda>x. x\<lparr>xc_status := XcResolved,
               xc_resolved_at := Some now, xc_note := take 2000 note\<rparr>) (change_exceptions d)\<rparr>
         in commit_result d (audit_emit now (xc_org x) actor ''change_exception.resolved''
              ''change_exception'' i [
                (''change_record_id'', JStr (id_str (xc_change x))),
                (''exception_type'', JStr (xc_type x)),
                (''exception_id'', JStr (id_str i)),
                (''resolved_at'', JStr (isoformat now))] d)))"

definition find_applicable_exception ::
    "timestamp \<Rightarrow> nat \<Rightarrow> string \<Rightarrow> db \<Rightarrow> (nat \<times> change_exception) option outcome" where
  "find_applicable_exception now k et d =
    then_do (expire_exceptions now k d) (\<lambda>d _.
      (d, Inr (first_of (approved_exceptions now k et d))))"

section \<open>What these operations may change\<close>

named_theorems world_rules \<open>operations within world_grows\<close>

lemma progress_world: "change_progress d d' \<Longrightarrow> world_grows d d'"
  by (simp add: change_progress_def)

lemma commit_world:
  assumes "commit_result d r = (d', q)" and "\<And>t. r = Inr t \<Longrightarrow> world_grows d t"
  shows "world_grows d d'"
  using assms by (cases r) (auto intro: world.refl)

lemma commit_emit_world [world_rules]:
  "commit_result d (audit_emit now org a et ot oid md d) = (d', r) \<Longrightarrow> world_grows d d'"
  by (rule progress_world) (rule commit_emit_progress)

lemma assert_exception_approver_progress:
  "assert_exception_approver_allowed now i x actor user d = (d', r) \<Longrightarrow> change_progress d d'"
  unfolding assert_exception_approver_allowed_def
  by (auto simp: then_do_eq split: option.splits if_splits intro: progress.refl dest!: commit_emit_progress)

lemma save_exception_Inr:
  assumes "save_exception i x d = Inr d'"
  shows "d' = d\<lparr>change_exceptions := tupd i (\<lambda>_. x) (change_exceptions d)\<rparr>"
  using assms by (auto simp: save_exception_def res_bind_eq_Inr)

lemma save_exception_progress:
  "save_exception i x d = Inr d' \<Longrightarrow> change_progress d d'"
  by (drule save_exception_Inr, rule progress_same) (simp_all add: control_part_def still_part_def)

lemma pending_exception_Inr:
  assumes "pending_exception now i x d = Inr (d1, y)"
  shows "expire_exceptions now (xc_change x) d = (d1, Inr ())"
    and "tget (change_exceptions d1) i = Some y" and "xc_status y = XcPendingApproval"
  using assms unfolding pending_exception_def
  by (auto simp: res_bind_eq_Inr atomic_Inr split: option.splits if_splits)

lemma pending_exception_progress:
  "pending_exception now i x d = Inr (d', y) \<Longrightarrow> change_progress d d'"
  by (drule pending_exception_Inr(1)) (rule expire_exceptions_progress)

lemma insert_decision_Inr:
  assumes "insert_decision ad d = Inr (d', j)"
  shows "d' = d\<lparr>next_id := Suc (next_id d), approval_decs := tins j ad (approval_decs d)\<rparr>"
    and "j = next_id d" and "tsel (\<lambda>_ e. ad_request e = ad_request ad) (approval_decs d) = []"
  using assms by (auto simp: insert_decision_def fresh_def split: if_splits)

text \<open>Tables \<open>world_grows\<close> speaks of that keep their contents, and those that may grow.\<close>

lemma world_requests:
  assumes "still_part d' = still_part d" and "changes d' = changes d" and "policy_evals d' = policy_evals d"
    and "table_within (=) (approval_decs d) (approval_decs d')"
    and "table_within request_row_ok (approval_reqs d) (approval_reqs d')"
  shows "world_grows d d'"
  using assms
  by (simp add: world_grows_def still_part_def locks_exclusive_def log_grows_def table_within_refl)

lemma insert_decision_world [world_rules]:
  "insert_decision ad d = Inr (d', j) \<Longrightarrow> world_grows d d'"
  by (drule insert_decision_Inr(1), rule world_requests)
    (simp_all add: still_part_def table_within_refl table_within_tins)

text \<open>A pending request is decided.\<close>

lemma decide_request_world:
  assumes "tget (approval_reqs d) a = Some r" and "ar_status r = ArPending"
  shows "world_grows d (d\<lparr>approval_reqs := tupd a (\<lambda>r. r\<lparr>ar_status := s, ar_resolved_at := t\<rparr>) (approval_reqs d)\<rparr>)"
  using assms
  by (intro world_requests)
    (auto simp: still_part_def table_within_refl request_row_ok_def intro!: table_within_tupd)

lemma resolve_linked_request_world [world_rules]:
  assumes "resolve_linked_request now x dec actor user d = Inr d'"
  shows "world_grows d d'"
  using assms unfolding resolve_linked_request_def
  by (auto simp: res_bind_eq_Inr split: option.splits if_splits
      intro: world.refl world.trans [OF decide_request_world insert_decision_world])

lemma mark_review_required_progress: "change_progress d (mark_review_required x d)"
  by (auto simp: mark_review_required_def upd_change_def change_row_ok_def frozen_request_def
      intro: progress.refl intro!: upd_change_progress)

lemma approve_exception_tx_world [world_rules]:
  assumes "approve_exception_tx now i actor user d = Inr d'"
  shows "world_grows d d'"
proof -
  from assms obtain x d1 y d2 d3 where "pending_exception now i x d = Inr (d1, y)"
    "save_exception i (y\<lparr>xc_status := XcApproved, xc_approved_by := user, xc_approved_at := Some now\<rparr>) d1 = Inr d2"
    "resolve_linked_request now y Approved actor user d2 = Inr d3" "d' = mark_review_required y d3"
    unfolding approve_exception_tx_def by (auto simp: res_bind_eq_Inr split: option.splits)
  then show ?thesis
    using mark_review_required_progress
    by (blast intro: world.trans progress_world pending_exception_progress save_exception_progress
        resolve_linked_request_world)
qed

lemma reject_exception_tx_world [world_rules]:
  assumes "reject_exception_tx now i actor user d = Inr d'"
  shows "world_grows d d'"
proof -
  from assms obtain x d1 y d2 where "pending_exception now i x d = Inr (d1, y)"
    "save_exception i (y\<lparr>xc_status := XcRejected, xc_rejected_at := Some now\<rparr>) d1 = Inr d2"
    "resolve_linked_request now y Rejected actor user d2 = Inr d'"
    unfolding reject_exception_tx_def by (auto simp: res_bind_eq_Inr split: option.splits)
  then show ?thesis
    by (blast intro: world.trans progress_world pending_exception_progress save_exception_progress
        resolve_linked_request_world)
qed

lemma approve_exception_world [world_rules]:
  assumes "approve_exception in_tx now i actor user d = (d', r)"
  shows "world_grows d d'"
  using assms unfolding approve_exception_def
  by (auto simp: then_do_eq split: option.splits if_splits
      dest!: progress_world [OF assert_exception_approver_progress] commit_emit_world
        commit_world [OF _ approve_exception_tx_world] progress_world [OF ensure_retro_review_progress]
      intro: world.refl world.trans)

lemma reject_exception_world [world_rules]:
  assumes "reject_exception now i actor user d = (d', r)"
  shows "world_grows d d'"
  using assms unfolding reject_exception_def
  by (auto simp: then_do_eq split: option.splits
      dest!: commit_world [OF _ reject_exception_tx_world] commit_emit_world
      intro: world.refl world.trans)

lemma apply_exception_decision_Inr:
  assumes "apply_exception_approval_decision now a dec actor user d = Inr (d', hook)"
  obtains i x d1 y where "(i, x) \<in> set (change_exceptions d)" "xc_approval x = Some a"
    "pending_exception now i x d = Inr (d1, y)"
    "dec = Approved \<Longrightarrow> \<exists>d2 d3 md. assert_exception_approver_allowed now i y actor user d1 = (d2, Inr ()) \<and>
       save_exception i (y\<lparr>xc_status := XcApproved, xc_approved_by := user, xc_approved_at := Some now\<rparr>) d2 = Inr d3 \<and>
       audit_emit now (xc_org y) actor ''change_exception.approved'' ''change_exception'' i md
         (mark_review_required y d3) = Inr d' \<and>
       hook = (if xc_type y \<in> set EXCEPTION_RETRO_REVIEW_REQUIRED_TYPES then Some i else None)"
    "dec = Rejected \<Longrightarrow> \<exists>d2 md. hook = None \<and>
       save_exception i (y\<lparr>xc_status := XcRejected, xc_rejected_at := Some now\<rparr>) d1 = Inr d2 \<and>
       audit_emit now (xc_org y) actor ''change_exception.rejected'' ''change_exception'' i md d2 = Inr d'"
    "dec \<noteq> TimedOut"
proof -
  from assms obtain req where req: "tget (approval_reqs d) a = Some req"
    unfolding apply_exception_approval_decision_def by (auto split: option.splits)
  with assms obtain i x where one:
      "tsel (\<lambda>_ x. xc_approval x = Some a \<and> xc_org x = ar_org req) (change_exceptions d) = [(i, x)]"
    unfolding apply_exception_approval_decision_def by (auto split: list.splits)
  with assms req obtain d1 y where p: "pending_exception now i x d = Inr (d1, y)"
    unfolding apply_exception_approval_decision_def by (auto simp: res_bind_eq_Inr)
  have "(i, x) \<in> set (tsel (\<lambda>_ x. xc_approval x = Some a \<and> xc_org x = ar_org req) (change_exceptions d))"
    unfolding one by simp
  then have mem: "(i, x) \<in> set (change_exceptions d)" "xc_approval x = Some a" by auto
  note red = assms [unfolded apply_exception_approval_decision_def, unfolded req option.case one
    list.case prod.case p res_bind_Inr Let_def]
  show ?thesis
  proof (rule that [OF mem p])
    assume "dec = Approved"
    from red [unfolded this decision.case]
    show "\<exists>d2 d3 md. assert_exception_approver_allowed now i y actor user d1 = (d2, Inr ()) \<and>
       save_exception i (y\<lparr>xc_status := XcApproved, xc_approved_by := user, xc_approved_at := Some now\<rparr>) d2 = Inr d3 \<and>
       audit_emit now (xc_org y) actor ''change_exception.approved'' ''change_exception'' i md
         (mark_review_required y d3) = Inr d' \<and>
       hook = (if xc_type y \<in> set EXCEPTION_RETRO_REVIEW_REQUIRED_TYPES then Some i else None)"
      by (auto simp: res_bind_eq_Inr atomic_Inr)
  next
    assume "dec = Rejected"
    from red [unfolded this decision.case]
    show "\<exists>d2 md. hook = None \<and>
       save_exception i (y\<lparr>xc_status := XcRejected, xc_rejected_at := Some now\<rparr>) d1 = Inr d2 \<and>
       audit_emit now (xc_org y) actor ''change_exception.rejected'' ''change_exception'' i md d2 = Inr d'"
      by (auto simp: res_bind_eq_Inr)
  next
    show "dec \<noteq> TimedOut"
      using red by auto
  qed
qed

lemma apply_exception_decision_progress [progress_rules]:
  assumes "apply_exception_approval_decision now a dec actor user d = Inr (d', hook)"
  shows "change_progress d d'"
  using assms
proof (rule apply_exception_decision_Inr)
  fix i x d1 y
  assume p: "pending_exception now i x d = Inr (d1, y)" and no: "dec \<noteq> TimedOut"
    and ap: "dec = Approved \<Longrightarrow> \<exists>d2 d3 md. assert_exception_approver_allowed now i y actor user d1 = (d2, Inr ()) \<and>
       save_exception i (y\<lparr>xc_status := XcApproved, xc_approved_by := user, xc_approved_at := Some now\<rparr>) d2 = Inr d3 \<and>
       audit_emit now (xc_org y) actor ''change_exception.approved'' ''change_exception'' i md
         (mark_review_required y d3) = Inr d' \<and>
       hook = (if xc_type y \<in> set EXCEPTION_RETRO_REVIEW_REQUIRED_TYPES then Some i else None)"
    and re: "dec = Rejected \<Longrightarrow> \<exists>d2 md. hook = None \<and>
       save_exception i (y\<lparr>xc_status := XcRejected, xc_rejected_at := Some now\<rparr>) d1 = Inr d2 \<and>
       audit_emit now (xc_org y) actor ''change_exception.rejected'' ''change_exception'' i md d2 = Inr d'"
  note first = pending_exception_progress [OF p]
  show ?thesis
  proof (cases dec)
    case Approved
    from ap [OF this] obtain d2 d3 md where "assert_exception_approver_allowed now i y actor user d1 = (d2, Inr ())"
      "save_exception i (y\<lparr>xc_status := XcApproved, xc_approved_by := user, xc_approved_at := Some now\<rparr>) d2 = Inr d3"
      "audit_emit now (xc_org y) actor ''change_exception.approved'' ''change_exception'' i md
         (mark_review_required y d3) = Inr d'" by blast
    from assert_exception_approver_progress [OF this(1)] save_exception_progress [OF this(2)]
      mark_review_required_progress [of d3 y] audit_emit_progress [OF this(3)] first
    show ?thesis by (blast intro: progress.trans)
  next
    case Rejected
    from re [OF this] obtain d2 md where
      "save_exception i (y\<lparr>xc_status := XcRejected, xc_rejected_at := Some now\<rparr>) d1 = Inr d2"
      "audit_emit now (xc_org y) actor ''change_exception.rejected'' ''change_exception'' i md d2 = Inr d'" by blast
    from save_exception_progress [OF this(1)] audit_emit_progress [OF this(2)] first
    show ?thesis by (blast intro: progress.trans)
  qed (use no in simp)
qed

lemma resolve_exception_progress [progress_rules]:
  assumes "resolve_exception now i x actor note d = (d', r)"
  shows "change_progress d d'"
proof -
  have "change_progress d (d\<lparr>change_exceptions := t\<rparr>)" for t
    by (rule progress_same) (simp_all add: control_part_def still_part_def)
  with assms show ?thesis
    unfolding resolve_exception_def Let_def
    by (auto split: if_splits sum.splits intro: progress.refl progress.trans dest!: commit_emit_progress)
qed

lemma find_applicable_exception_progress [progress_rules]:
  "find_applicable_exception now k et d = (d', r) \<Longrightarrow> change_progress d d'"
  unfolding find_applicable_exception_def
  by (erule progress.then_do_within) (auto intro: expire_exceptions_progress progress.refl)

lemma request_exception_tx_Inr:
  assumes "request_exception_tx P now k et reason sc expires user d = Inr (d', i, a)"
  obtains c where "tget (changes d) k = Some c" "validate_exception_scope P k c et sc d = Inr ()"
    "et = ''window_overrun'' \<Longrightarrow> (\<forall>j w. window_of d k = Some (j, w) \<longrightarrow> wn_starts_at w \<le> now)"
    "i = next_id d" "a = Suc i"
    "d' = d\<lparr>next_id := Suc a,
       change_exceptions := tupd i (\<lambda>x. x\<lparr>xc_approval := Some a\<rparr>)
         (tins i (new_exception now k c et reason sc expires user) (change_exceptions d)),
       approval_reqs := tins a (exception_request now (ch_org c) i) (approval_reqs d)\<rparr>"
  using assms unfolding request_exception_tx_def Let_def fresh_def
  by (auto simp: res_bind_eq_Inr split: option.splits if_splits)

lemma request_exception_tx_world [world_rules]:
  assumes "request_exception_tx P now k et reason sc expires user d = Inr (d', i, a)"
  shows "world_grows d d'"
  using assms
proof (rule request_exception_tx_Inr)
  fix c
  assume "d' = d\<lparr>next_id := Suc a,
       change_exceptions := tupd i (\<lambda>x. x\<lparr>xc_approval := Some a\<rparr>)
         (tins i (new_exception now k c et reason sc expires user) (change_exceptions d)),
       approval_reqs := tins a (exception_request now (ch_org c) i) (approval_reqs d)\<rparr>"
  then show ?thesis
    by (intro world_requests) (simp_all add: still_part_def table_within_refl table_within_tins)
qed

lemma request_exception_world [world_rules]:
  assumes "request_exception P now k actor et reason scope expires user d = (d', r)"
  shows "world_grows d d'"
  using assms unfolding request_exception_def
  by (auto simp: then_do_eq split: sum.splits prod.splits option.splits
      dest!: request_exception_tx_world commit_emit_world intro: world.refl world.trans)

section \<open>The expiry sweep on exceptions\<close>

lemma expire_exception_row:
  assumes "expire_exception now d (i, x) = (d', r)"
  shows "change_exceptions d' = change_exceptions d \<and> r \<noteq> Inr () \<or>
    change_exceptions d' = tupd i (\<lambda>x. x\<lparr>xc_status := XcExpired\<rparr>) (change_exceptions d)"
  using assms unfolding expire_exception_def Let_def prod.case
  by (auto simp: commit_result_def split: sum.splits dest!: audit_emit_Inr)

lemma expire_exceptions_each:
  assumes "each (expire_exception now) d xs = (d', r)"
    and "tget (change_exceptions d') i = Some y" and "xc_status y \<noteq> XcExpired"
  shows "tget (change_exceptions d) i = Some y \<and> (r = Inr () \<longrightarrow> i \<notin> fst ` set xs)"
  using assms
proof (induction xs arbitrary: d)
  case (Cons p xs)
  obtain j x where p: "p = (j, x)" by (cases p)
  from Cons.prems(1) consider e where "expire_exception now d (j, x) = (d', Inl e)" "r = Inl e"
    | d1 where "expire_exception now d (j, x) = (d1, Inr ())" "each (expire_exception now) d1 xs = (d', r)"
    by (auto simp: then_do_eq p)
  then show ?case
  proof cases
    case 1
    from expire_exception_row [OF 1(1)] Cons.prems(2,3) 1(2) show ?thesis
      by (auto simp: table_simps split: if_splits)
  next
    case 2
    from Cons.IH [OF 2(2) Cons.prems(2,3)] expire_exception_row [OF 2(1)] Cons.prems(3)
    show ?thesis by (auto simp: table_simps p split: if_splits)
  qed
qed simp

lemma expire_exceptions_live:
  assumes "expire_exceptions now k d = (d', r)"
    and "tget (change_exceptions d') i = Some y" and "xc_status y \<noteq> XcExpired"
  shows "tget (change_exceptions d) i = Some y"
    and "r = Inr () \<Longrightarrow> xc_change y = k \<Longrightarrow> xc_status y \<in> {XcPendingApproval, XcApproved} \<Longrightarrow> now < xc_expires_at y"
proof -
  note e = expire_exceptions_each [OF assms(1) [unfolded expire_exceptions_def] assms(2,3)]
  then show y: "tget (change_exceptions d) i = Some y" by simp
  assume a: "r = Inr ()" "xc_change y = k" "xc_status y \<in> {XcPendingApproval, XcApproved}"
  show "now < xc_expires_at y"
  proof (rule ccontr)
    assume "\<not> now < xc_expires_at y"
    with a tget_SomeD [OF y] have "(i, y) \<in> set (tsel (\<lambda>_ x. xc_change x = k \<and>
        xc_status x \<in> {XcPendingApproval, XcApproved} \<and> xc_expires_at x \<le> now) (change_exceptions d))"
      by simp
    from image_eqI [of i fst, OF _ this] e a(1) show False by simp
  qed
qed

lemma expire_exceptions_memberships:
  assumes "expire_exceptions now k d = (d', r)"
  shows "memberships d' = memberships d"
  using assms unfolding expire_exceptions_def
proof (rule each_keeps)
  fix p t t' q
  assume "expire_exception now t p = (t', q)"
  then show "memberships t' = memberships t"
    by (cases p) (auto simp: expire_exception_def commit_result_def Let_def
        split: sum.splits dest!: audit_emit_Inr)
qed

lemma approver_allowed_Inr:
  assumes "assert_exception_approver_allowed now i x actor (Some u) d = (d', Inr ())"
  shows "d' = d" and "xc_requested_by x \<noteq> Some u"
    and "xc_type x \<in> set EXCEPTION_ADMIN_APPROVAL_REQUIRED_TYPES \<Longrightarrow> is_org_admin d (xc_org x) u"
  using assms by (auto simp: assert_exception_approver_allowed_def then_do_eq split: if_splits)

lemma change_row_step:
  "change_progress d d' \<Longrightarrow> tget (changes d) k \<noteq> None \<Longrightarrow> tget (changes d') k \<noteq> None"
  using progress_row by fastforce

lemma freeze_behavior_not: "b \<noteq> FreezeBlock \<longleftrightarrow> b = FreezeAllowWithException"
  by (cases b) simp_all

lemma freeze_override_scope:
  assumes "validate_exception_scope P k c ''freeze_override'' sc d = Inr ()"
  shows "\<exists>j f ids. tget (freeze_rules d) j = Some f \<and> fz_org f = ch_org c \<and>
     fz_behavior f = FreezeAllowWithException \<and> scope_strs (JObj sc) ''target_ids'' = Inr ids \<and>
     ids \<noteq> [] \<and> set ids \<subseteq> set (map (id_str \<circ> fst) (targets_of d k))"
  using assms
  by (auto simp: validate_exception_scope_def validate_exception_freeze_override_def find_row_def
      freeze_behavior_not res_bind_eq_Inr split: if_splits option.splits) blast

lemma policy_override_scope:
  assumes "validate_exception_scope P k c ''policy_override'' sc d = Inr ()"
  shows "\<exists>j e. tget (policy_evals d) j = Some e \<and> pe_org e = ch_org c \<and> ch_policy_evaluation c = Some j \<and>
     fget sc ''overridden_outcome'' JNull \<in> {JStr ''block'', JStr ''approval_required''}"
  using assms
  by (auto simp: validate_exception_scope_def validate_exception_policy_override_def find_row_def
      res_bind_eq_Inr split: if_splits option.splits)

lemma window_overrun_scope:
  assumes "validate_exception_scope P k c ''window_overrun'' sc d = Inr ()"
  shows "\<exists>j w s t. tget (windows d) j = Some w \<and> wn_change w = k \<and>
     fget sc ''allowed_until'' JNull = JStr s \<and> pa_datetime P s = Aware t \<and> wn_ends_at w < t"
  using assms
  by (auto simp: validate_exception_scope_def validate_exception_window_overrun_def find_row_def
      res_bind_eq_Inr not_le split: if_splits option.splits json.splits parsed_time.splits) blast

section \<open>Properties\<close>

lemma exception_approval_effect:
  assumes "apply_exception_approval_decision now a Approved actor (Some u) d = Inr (d', hook)"
    and "twf (change_exceptions d)"
  shows "\<exists>i x. tget (change_exceptions d) i = Some x \<and> xc_approval x = Some a \<and>
     xc_status x = XcPendingApproval \<and> now < xc_expires_at x \<and> xc_requested_by x \<noteq> Some u \<and>
     (xc_type x \<in> {''policy_override'', ''missing_artifact''} \<longrightarrow> is_org_admin d (xc_org x) u) \<and>
     tget (change_exceptions d') i =
       Some (x\<lparr>xc_status := XcApproved, xc_approved_by := Some u, xc_approved_at := Some now\<rparr>) \<and>
     (if xc_type x \<in> {''policy_override'', ''missing_artifact''}
      then hook = Some i \<and> (\<forall>c. tget (changes d) (xc_change x) = Some c \<longrightarrow>
        (\<exists>c'. tget (changes d') (xc_change x) = Some c' \<and> ch_retro_required c' \<and> ch_retro_blocking c' = ''pending''))
      else hook = None)"
  using assms(1)
proof (rule apply_exception_decision_Inr)
  fix i x d1 y
  assume mem: "(i, x) \<in> set (change_exceptions d)" "xc_approval x = Some a"
    and p: "pending_exception now i x d = Inr (d1, y)"
    and ap: "Approved = Approved \<Longrightarrow> \<exists>d2 d3 md. assert_exception_approver_allowed now i y actor (Some u) d1 = (d2, Inr ()) \<and>
       save_exception i (y\<lparr>xc_status := XcApproved, xc_approved_by := Some u, xc_approved_at := Some now\<rparr>) d2 = Inr d3 \<and>
       audit_emit now (xc_org y) actor ''change_exception.approved'' ''change_exception'' i md
         (mark_review_required y d3) = Inr d' \<and>
       hook = (if xc_type y \<in> set EXCEPTION_RETRO_REVIEW_REQUIRED_TYPES then Some i else None)"
  note e = pending_exception_Inr [OF p]
  from expire_exceptions_live(1) [OF e(1,2)] e(3) have y: "tget (change_exceptions d) i = Some y" by simp
  with tget_unique [OF assms(2) mem(1)] have "y = x" by simp
  note x = y [unfolded this] e(3) [unfolded this]
  from expire_exceptions_live(2) [OF e(1,2)] e(3) \<open>y = x\<close> have live: "now < xc_expires_at x" by simp
  from ap \<open>y = x\<close> obtain d3 md where ok: "assert_exception_approver_allowed now i x actor (Some u) d1 = (d1, Inr ())"
    and sv: "save_exception i (x\<lparr>xc_status := XcApproved, xc_approved_by := Some u, xc_approved_at := Some now\<rparr>) d1 = Inr d3"
    and em: "audit_emit now (xc_org x) actor ''change_exception.approved'' ''change_exception'' i md
         (mark_review_required x d3) = Inr d'"
    and hook: "hook = (if xc_type x \<in> set EXCEPTION_RETRO_REVIEW_REQUIRED_TYPES then Some i else None)"
    using approver_allowed_Inr(1) by blast
  note al = approver_allowed_Inr [OF ok]
  have adm: "is_org_admin d1 = is_org_admin d"
    using expire_exceptions_memberships [OF e(1)] by (simp add: is_org_admin_def fun_eq_iff)
  from audit_emit_Inr [OF em] obtain ev where d': "d' = (mark_review_required x d3)\<lparr>audit_log := audit_log (mark_review_required x d3) @ [ev]\<rparr>" by blast
  from save_exception_Inr [OF sv] e(2) have row: "tget (change_exceptions d3) i = Some (x\<lparr>xc_status := XcApproved,
      xc_approved_by := Some u, xc_approved_at := Some now\<rparr>)" "changes d3 = changes d1"
    by (simp_all add: table_simps \<open>y = x\<close>)
  have ch: "changes d1 = changes d"
    using expire_exceptions_frame [OF e(1)] by (simp add: gate_frame_def gate_tables_def)
  show ?thesis
    using x mem(2) live al(2,3) hook row ch
    by (intro exI [of _ i] exI [of _ x])
      (auto simp: d' adm mark_review_required_def upd_change_def table_simps
        EXCEPTION_RETRO_REVIEW_REQUIRED_TYPES_def EXCEPTION_ADMIN_APPROVAL_REQUIRED_TYPES_def)
qed


text \<open>
  A requested exception is stored as pending, for a known type, with an expiry in the future,
  and waits for its own approval request. A freeze override names a rule of the organization that
  allows exceptions and targets of this change only; a policy override names the evaluation of this
  change and a blocked or approval outcome; a window overrun extends this change's window after it
  has opened.
\<close>

theorem requested_exception_bound:
  assumes "request_exception P now k actor et reason scope expires user d = (d', Inr i)"
    and "tget (change_exceptions d) (next_id d) = None" and "tget (approval_reqs d) (Suc (next_id d)) = None"
  shows "\<exists>c sc x a r. tget (changes d) k = Some c \<and> scope = JObj sc \<and> et \<in> set EXCEPTION_TYPES \<and>
     tget (change_exceptions d') i = Some x \<and> xc_change x = k \<and> xc_org x = ch_org c \<and> xc_type x = et \<and>
     xc_status x = XcPendingApproval \<and> xc_requested_by x = user \<and> now < xc_expires_at x \<and>
     xc_approval x = Some a \<and> tget (approval_reqs d') a = Some r \<and> ar_status r = ArPending \<and>
     ar_subject_type r = SubjException \<and> ar_subject_id r = Some i \<and> changes d' = changes d \<and>
     (et = ''freeze_override'' \<longrightarrow>
        (\<exists>j f ids. tget (freeze_rules d) j = Some f \<and> fz_org f = ch_org c \<and> fz_behavior f = FreezeAllowWithException \<and>
           scope_strs scope ''target_ids'' = Inr ids \<and> ids \<noteq> [] \<and>
           set ids \<subseteq> set (map (id_str \<circ> fst) (targets_of d k)))) \<and>
     (et = ''policy_override'' \<longrightarrow>
        (\<exists>j e. tget (policy_evals d) j = Some e \<and> pe_org e = ch_org c \<and> ch_policy_evaluation c = Some j \<and>
           fget sc ''overridden_outcome'' JNull \<in> {JStr ''block'', JStr ''approval_required''})) \<and>
     (et = ''window_overrun'' \<longrightarrow>
        (\<exists>j w s t. tget (windows d) j = Some w \<and> wn_change w = k \<and>
           fget sc ''allowed_until'' JNull = JStr s \<and> pa_datetime P s = Aware t \<and> wn_ends_at w < t) \<and>
        (\<forall>j w. window_of d k = Some (j, w) \<longrightarrow> wn_starts_at w \<le> now))"
proof -
  from assms(1) obtain sc e d1 a where ar: "exception_arguments now et reason scope expires = Inr (sc, e)"
    and tx: "request_exception_tx P now k et reason sc e user d = Inr (d1, i, a)"
    and em: "changes d' = changes d1" "change_exceptions d' = change_exceptions d1" "approval_reqs d' = approval_reqs d1"
    unfolding request_exception_def
    by (auto simp: then_do_eq commit_result_def split: sum.splits prod.splits option.splits dest!: audit_emit_Inr)
  from ar have a: "scope = JObj sc" "et \<in> set EXCEPTION_TYPES" "now < e"
    by (auto simp: exception_arguments_def split: if_splits json.splits option.splits)
  from tx obtain c where c: "tget (changes d) k = Some c" "validate_exception_scope P k c et sc d = Inr ()"
    "et = ''window_overrun'' \<Longrightarrow> (\<forall>j w. window_of d k = Some (j, w) \<longrightarrow> wn_starts_at w \<le> now)"
    and i: "i = next_id d" "a = Suc i"
    and d1: "d1 = d\<lparr>next_id := Suc a,
       change_exceptions := tupd i (\<lambda>x. x\<lparr>xc_approval := Some a\<rparr>)
         (tins i (new_exception now k c et reason sc e user) (change_exceptions d)),
       approval_reqs := tins a (exception_request now (ch_org c) i) (approval_reqs d)\<rparr>"
    by (rule request_exception_tx_Inr) blast
  have rows: "tget (change_exceptions d') i = Some ((new_exception now k c et reason sc e user)\<lparr>xc_approval := Some a\<rparr>)"
    "tget (approval_reqs d') a = Some (exception_request now (ch_org c) i)" "changes d' = changes d"
    using assms(2,3) by (simp_all add: em d1 table_simps i)
  show ?thesis
    using c a rows freeze_override_scope [of P k c sc d] policy_override_scope [of P k c sc d]
      window_overrun_scope [of P k c sc d]
    by (intro exI [of _ c] exI [of _ sc] exI [of _ "(new_exception now k c et reason sc e user)\<lparr>xc_approval := Some a\<rparr>"]
        exI [of _ a] exI [of _ "exception_request now (ch_org c) i"])
      (intro conjI impI; simp add: new_exception_def exception_request_def)
qed

section \<open>Witnesses\<close>

lemma exception_keys:
  "\<not> sensitive ''exception_id''" "\<not> sensitive ''approved_at''" "\<not> sensitive ''scope_key_count''"
  by (simp_all add: sensitive_def lower_def lower_char_def code_point_def REJECTED_METADATA_KEYS_def
      FORBIDDEN_METADATA_KEYS_def)

definition pending_override :: change_exception where
  "pending_override = (new_exception 5 30 (sample_change ChApproved) ''policy_override'' ''outage''
     [] (secs 60) (Some ''bob''))\<lparr>xc_approval := Some 71\<rparr>"

definition override_db :: db where
  "override_db = (emergency_db ChApproved)\<lparr>change_exceptions := [(70, pending_override)],
     approval_reqs := [(71, exception_request 5 1 70)],
     memberships := [(72, \<lparr>mb_org = 1, mb_user = ''ann'', mb_role = RoleAdmin\<rparr>)]\<rparr>"

lemma override_rows:
  "changes override_db = [(30, sample_change ChApproved)]" "change_exceptions override_db = [(70, pending_override)]"
  "approval_reqs override_db = [(71, exception_request 5 1 70)]"
  "memberships override_db = [(72, \<lparr>mb_org = 1, mb_user = ''ann'', mb_role = RoleAdmin\<rparr>)]"
  "retro_reviews override_db = []" "approval_decs override_db = []" "next_id override_db = 100"
  by (simp_all add: override_db_def emergency_rows) (simp_all add: emergency_db_def sample_db_def empty_db_def)

lemma pending_override_fields:
  "xc_change pending_override = 30" "xc_org pending_override = 1" "xc_type pending_override = ''policy_override''"
  "xc_status pending_override = XcPendingApproval" "xc_requested_by pending_override = Some ''bob''"
  "xc_approval pending_override = Some 71" "xc_check pending_override = None" "xc_expires_at pending_override = secs 60"
  by (simp_all add: pending_override_def new_exception_def sample_change_def)

lemma sample_pending: "pending_exception 9 70 pending_override override_db = Inr (override_db, pending_override)"
  by (simp add: pending_exception_def expire_exceptions_def override_rows tsel_def pending_override_fields
      secs_def atomic_def tget_def)

lemma sample_approver:
  "assert_exception_approver_allowed 9 70 pending_override a (Some ''ann'') override_db = (override_db, Inr ())"
  by (simp add: assert_exception_approver_allowed_def pending_override_fields is_org_admin_def override_rows)

abbreviation approved_override :: change_exception where
  "approved_override \<equiv> pending_override\<lparr>xc_status := XcApproved, xc_approved_by := Some ''ann'', xc_approved_at := Some 9\<rparr>"

lemma sample_save:
  "save_exception 70 approved_override override_db =
     Inr (override_db\<lparr>change_exceptions := [(70, approved_override)]\<rparr>)"
  by (simp add: save_exception_def exception_clean_def tget_def override_rows pending_override_fields
      sample_change_def tupd_def)

lemma sample_approved_event:
  "\<exists>ev. audit_emit 9 1 a ''change_exception.approved'' ''change_exception'' 70 [
     (''change_record_id'', JStr (id_str 30)), (''exception_type'', JStr ''policy_override''),
     (''exception_id'', JStr (id_str 70)), (''approved_at'', JStr (isoformat 9)),
     (''expires_at'', JStr (isoformat (secs 60)))] d = Inr (d\<lparr>audit_log := audit_log d @ [ev]\<rparr>)"
proof -
  have iso: "length (isoformat 9) \<le> 32" "length (isoformat (secs 60)) \<le> 32"
    by (rule length_isoformat; simp add: secs_def)+
  show ?thesis
    using length_id_str [of 30] length_id_str [of 70] iso
    by (intro audit_emit_succeeds) (simp_all add: sample_event_simps exception_keys)
qed

lemma sample_exception_decision:
  "\<exists>ev. apply_exception_approval_decision 9 71 Approved a (Some ''ann'') override_db =
     Inr ((mark_review_required pending_override (override_db\<lparr>change_exceptions := [(70, approved_override)]\<rparr>))
       \<lparr>audit_log := audit_log override_db @ [ev]\<rparr>, Some 70)"
proof -
  let ?d = "mark_review_required pending_override (override_db\<lparr>change_exceptions := [(70, approved_override)]\<rparr>)"
  have log: "audit_log ?d = audit_log override_db"
    by (simp add: mark_review_required_def upd_change_def)
  have sel: "tsel (\<lambda>_ x. xc_approval x = Some 71 \<and> xc_org x = Suc 0) (change_exceptions override_db) = [(70, pending_override)]"
    by (simp add: tsel_def override_rows pending_override_fields)
  from sample_approved_event [of a ?d] obtain ev where ev: "audit_emit 9 1 a ''change_exception.approved'' ''change_exception'' 70 [
     (''change_record_id'', JStr (id_str 30)), (''exception_type'', JStr ''policy_override''),
     (''exception_id'', JStr (id_str 70)), (''approved_at'', JStr (isoformat 9)),
     (''expires_at'', JStr (isoformat (secs 60)))] ?d = Inr (?d\<lparr>audit_log := audit_log ?d @ [ev]\<rparr>)" by blast
  have req: "tget (approval_reqs override_db) 71 = Some (exception_request 5 1 70)"
    "ar_org (exception_request 5 org 70) = org" for org
    by (simp_all add: override_rows tget_def exception_request_def)
  show ?thesis
    using ev
    by (intro exI [of _ ev]) (simp add: apply_exception_approval_decision_def req sel sample_pending sample_approver atomic_def sample_save
        Let_def pending_override_fields EXCEPTION_RETRO_REVIEW_REQUIRED_TYPES_def log)
qed


definition sample_parsers :: parsers where
  "sample_parsers = \<lparr>pa_uuid = (\<lambda>v. if v = JStr (id_str 73) then Some 73 else None), pa_datetime = (\<lambda>_. NoTime)\<rparr>"

definition sample_freeze :: freeze_rule where
  "sample_freeze = \<lparr>fz_org = 1, fz_name = ''f'', fz_is_active = True, fz_behavior = FreezeAllowWithException,
     fz_starts_at = 0, fz_ends_at = 100, fz_scope = ScopeAllProduction, fz_target_type = [],
     fz_target_identifier = [], fz_normalized = [], fz_requires_ref = False, fz_description = [],
     fz_created_by = None, fz_updated_by = None\<rparr>"

definition frozen_db :: db where
  "frozen_db = (emergency_db ChApproved)\<lparr>freeze_rules := [(73, sample_freeze)]\<rparr>"

definition override_scope :: json where
  "override_scope = JObj [(''freeze_rule_id'', JStr (id_str 73)), (''target_ids'', JArr [JStr (id_str 35)])]"

lemma frozen_rows:
  "changes frozen_db = [(30, sample_change ChApproved)]" "change_exceptions frozen_db = []"
  "approval_reqs frozen_db = []" "next_id frozen_db = 100" "freeze_rules frozen_db = [(73, sample_freeze)]"
  "targets_of frozen_db 30 = [(35, sample_target 1 ''web-1'')]"
  by (simp_all add: frozen_db_def emergency_rows targets_of_def) (simp_all add: emergency_db_def sample_db_def
      empty_db_def targets_of_def tsel_def sample_target_def)

lemma sample_exception_request:
  "\<exists>d'. request_exception sample_parsers 9 30 (system_actor ''s'') ''freeze_override'' ''outage'' override_scope
     (Some (secs 60)) (Some ''bob'') frozen_db = (d', Inr 100)"
proof -
  let ?sc = "fields_of override_scope"
  let ?c = "sample_change ChApproved"
  have v: "validate_exception_scope sample_parsers 30 ?c ''freeze_override'' ?sc frozen_db = Inr ()"
    by (simp add: validate_exception_scope_def validate_exception_freeze_override_def override_scope_def find_row_def
        sample_parsers_def fget_def frozen_rows tget_def sample_freeze_def sample_change_def scope_strs_def py_str_def)
  obtain x where x: "x = (new_exception 9 30 ?c ''freeze_override'' ''outage'' ?sc (secs 60) (Some ''bob''))" by simp
  let ?d = "frozen_db\<lparr>next_id := 102, change_exceptions := [(100, x\<lparr>xc_approval := Some 101\<rparr>)],
     approval_reqs := [(101, exception_request 9 1 100)]\<rparr>"
  have cl: "exception_clean frozen_db x = Inr ()"
    by (simp add: exception_clean_def x new_exception_def frozen_rows tget_def)
  have org: "ch_org ?c = 1" by (simp add: sample_change_def)
  have tx: "request_exception_tx sample_parsers 9 30 ''freeze_override'' ''outage'' ?sc (secs 60) (Some ''bob'') frozen_db =
      Inr (?d, 100, 101)"
    by (simp add: request_exception_tx_def frozen_rows tget_def v cl fresh_def tins_def tupd_def org Let_def flip: x)
  have iso: "length (isoformat (secs 60)) \<le> 32" by (rule length_isoformat; simp add: secs_def)
  have "\<exists>ev. audit_emit 9 1 (system_actor ''s'') ''change_exception.requested'' ''change_exception'' 100 [
      (''change_record_id'', JStr (id_str 30)), (''exception_type'', JStr ''freeze_override''),
      (''exception_id'', JStr (id_str 100)), (''expires_at'', JStr (isoformat (secs 60))),
      (''approval_request_id'', JStr (id_str 101)), (''scope_key_count'', JInt 2)] d =
    Inr (d\<lparr>audit_log := audit_log d @ [ev]\<rparr>)" for d
    using length_id_str [of 30] length_id_str [of 100] length_id_str [of 101] iso
    by (intro audit_emit_succeeds) (simp_all add: sample_event_simps exception_keys)
  then obtain ev where ev: "audit_emit 9 1 (system_actor ''s'') ''change_exception.requested'' ''change_exception'' 100 [
      (''change_record_id'', JStr (id_str 30)), (''exception_type'', JStr ''freeze_override''),
      (''exception_id'', JStr (id_str 100)), (''expires_at'', JStr (isoformat (secs 60))),
      (''approval_request_id'', JStr (id_str 101)), (''scope_key_count'', JInt 2)] ?d =
    Inr (?d\<lparr>audit_log := audit_log ?d @ [ev]\<rparr>)" by blast
  have ar: "exception_arguments 9 ''freeze_override'' ''outage'' override_scope (Some (secs 60)) = Inr (?sc, secs 60)"
    by (simp add: exception_arguments_def override_scope_def EXCEPTION_TYPES_def MAX_EXCEPTION_REASON_LENGTH_def
        secs_def strip_def lstrip_def is_space_def code_point_def)
  have len: "length ?sc = 2" by (simp add: override_scope_def)
  have xo: "xc_org x = 1" by (simp add: x new_exception_def org)
  show ?thesis
    using ev by (simp add: request_exception_def ar tx tget_def len xo del: fields_of.simps)
qed

theorem requested_exception_bound_witness:
  "\<exists>d' x. request_exception sample_parsers 9 30 (system_actor ''s'') ''freeze_override'' ''outage'' override_scope
     (Some (secs 60)) (Some ''bob'') frozen_db = (d', Inr 100) \<and>
     tget (change_exceptions d') 100 = Some x \<and> xc_status x = XcPendingApproval"
proof -
  obtain d' where d: "request_exception sample_parsers 9 30 (system_actor ''s'') ''freeze_override'' ''outage'' override_scope
     (Some (secs 60)) (Some ''bob'') frozen_db = (d', Inr 100)"
    using sample_exception_request by blast
  from requested_exception_bound [OF d] d show ?thesis by (auto simp: frozen_rows tget_def)
qed

end
