(* ===== verification/Change_Dispatch.thy ===== *)
theory Change_Dispatch
  imports Dispatch_Preflight
begin

text \<open>
  From approval to dispatch (\<open>apps/changes/services.py\<close>): the target locks, \<open>make_dispatchable\<close>
  (atomic), the promotion of scheduled changes and the effect of an approval decision on its change.
\<close>

section \<open>Target locks\<close>

definition new_lock :: "timestamp \<Rightarrow> nat \<Rightarrow> nat \<Rightarrow> nat \<Rightarrow> nat \<times> change_target \<Rightarrow> target_lock" where
  "new_lock now org k e it = (case it of (i, t) \<Rightarrow> \<lparr>lk_org = org, lk_change = k, lk_exec = e,
     lk_target = i, lk_type = tg_type t, lk_identifier = tg_identifier t,
     lk_normalized = tg_normalized t, lk_status = LockActive, lk_acquired_at = now,
     lk_released_at = None, lk_reason = []\<rparr>)"

text \<open>The unique constraint: one active lock per organization, type and normalized identifier.\<close>

definition lock_taken :: "target_lock \<Rightarrow> db \<Rightarrow> bool" where
  "lock_taken l d \<longleftrightarrow> tsel (\<lambda>_ m. lk_status m = LockActive \<and> lk_org m = lk_org l \<and>
     lk_type m = lk_type l \<and> lk_normalized m = lk_normalized l) (target_locks d) \<noteq> []"

fun create_locks ::
    "timestamp \<Rightarrow> nat \<Rightarrow> nat \<Rightarrow> nat \<Rightarrow> change_target table \<Rightarrow> db \<Rightarrow> (db \<times> target_lock table) result" where
  "create_locks now org k e [] d = Inr (d, [])"
| "create_locks now org k e (it # ts) d =
    (let l = new_lock now org k e it in
     if lock_taken l d then Inl (Domain DomainConflictError ''target_lock_conflict'')
     else let (j, d) = fresh d; d = d\<lparr>target_locks := tins j l (target_locks d)\<rparr>
          in res_bind (create_locks now org k e ts d) (\<lambda>(d, ls). Inr (d, (j, l) # ls)))"

definition acquire_target_locks ::
    "timestamp \<Rightarrow> nat \<Rightarrow> change \<Rightarrow> nat \<Rightarrow> audit_actor \<Rightarrow> db \<Rightarrow> db result" where
  "acquire_target_locks now k c e actor d =
    res_bind (create_locks now (ch_org c) k e (targets_of d k) d) (\<lambda>(d, ls).
      res_fold (\<lambda>d (j, l). audit_emit now (ch_org c) actor ''change.target_lock_acquired''
        ''target_lock'' j [
          (''target_type'', JStr (lk_type l)),
          (''target_identifier'', JStr (lk_identifier l)),
          (''execution_id'', JStr (id_str e))] d) d ls)"

section \<open>Dispatch\<close>

definition dispatch_failed :: err where
  "dispatch_failed = Domain DomainConflictError ''dispatch_preflight_failed''"

text \<open>A fresh passed check is reused, otherwise the preflight runs now.\<close>

definition passed_preflight ::
    "timestamp \<Rightarrow> nat \<Rightarrow> audit_actor \<Rightarrow> db \<Rightarrow> (db \<times> eligibility_check) result" where
  "passed_preflight now k actor d =
    (case get_fresh_passed_preflight now k d of
       Some (_, ec) \<Rightarrow> Inr (d, ec)
     | None \<Rightarrow>
        res_bind (atomic (run_dispatch_preflight now k (Some actor) d)) (\<lambda>(d, _, ec).
          if ec_passed ec then Inr (d, ec) else Inl dispatch_failed))"

text \<open>The binding of the new execution; \<open>nonce\<close> is the value of \<open>secrets.token_hex\<close>.\<close>

definition inputs_hash :: "change \<Rightarrow> string" where
  "inputs_hash c = (if ch_inputs_sha c \<noteq> [] then ch_inputs_sha c
     else sha256_canonical_json (ch_inputs c))"

definition new_binding :: "timestamp \<Rightarrow> string \<Rightarrow> nat \<Rightarrow> change \<Rightarrow> nat \<Rightarrow> op_profile \<Rightarrow> binding" where
  "new_binding now nonce k c e p = \<lparr>bd_change = k, bd_exec = e, bd_org = ch_org c,
     bd_profile_key = op_key p, bd_inputs_sha = inputs_hash c, bd_nonce = nonce, bd_token_hash = [],
     bd_expires_at = now + secs (op_dispatch_ttl p), bd_reserved_at = now, bd_bound_at = None,
     bd_bound_by = [], bd_accepted_at = None, bd_started_at = None, bd_finished_at = None,
     bd_payload = JObj []\<rparr>"

definition runner_payload :: "nat \<Rightarrow> binding \<Rightarrow> json" where
  "runner_payload k b = JObj [
     (''change_record_id'', JStr (id_str k)),
     (''execution_id'', JStr (id_str (bd_exec b))),
     (''operation_profile_key'', JStr (bd_profile_key b)),
     (''requested_inputs_sha256'', JStr (bd_inputs_sha b)),
     (''dispatch_token_expires_at'', JStr (isoformat (bd_expires_at b)))]"

definition reserve_binding ::
    "timestamp \<Rightarrow> string \<Rightarrow> nat \<Rightarrow> change \<Rightarrow> nat \<Rightarrow> op_profile \<Rightarrow> db \<Rightarrow> (db \<times> nat) result" where
  "reserve_binding now nonce k c e p d =
    (let b = new_binding now nonce k c e p; (i, d) = fresh d
     in res_bind (binding_save i b d) (\<lambda>d.
        res_bind (generate_dispatch_token (cfg d) b) (\<lambda>token.
        res_bind (binding_save i (b\<lparr>bd_token_hash := hash_dispatch_token token,
            bd_payload := runner_payload k b\<rparr>) d) (\<lambda>d.
        Inr (d, i)))))"

text \<open>The guards, and the part after them.\<close>

definition dispatch_guard :: "timestamp \<Rightarrow> change \<Rightarrow> unit result" where
  "dispatch_guard now c =
    (if ch_status c \<noteq> ChScheduled then Inr ()
     else (case ch_scheduled_for c of
         Some t \<Rightarrow> if now < t then Inl (Domain InvalidStateTransitionError ''invalid_state_transition'')
                   else Inr ()
       | None \<Rightarrow> Inr ()))"

definition set_pool :: "string \<Rightarrow> nat \<Rightarrow> db \<Rightarrow> db" where
  "set_pool key e d = (if key \<noteq> [] then upd_exec e (\<lambda>x. x\<lparr>ex_pool_key := key\<rparr>) d else d)"

definition reserve_execution ::
    "wf_env \<Rightarrow> timestamp \<Rightarrow> string \<Rightarrow> audit_actor option \<Rightarrow> nat \<Rightarrow> change \<Rightarrow> eligibility_check \<Rightarrow> db
      \<Rightarrow> db result" where
  "reserve_execution env now nonce actor k c ec d =
    (let act = (case actor of None \<Rightarrow> system_actor ''Change service'' | Some a \<Rightarrow> a) in
     case (tget (op_profiles d) (ch_profile c), tget (workflows d) (ch_workflow c)) of
       (Some p, Some w) \<Rightarrow>
         if op_org p \<noteq> ch_org c
           then Inl (Domain DomainValidationError ''operation_profile_organization_mismatch'')
         else if wf_org w \<noteq> ch_org c
           then Inl (Domain DomainValidationError ''workflow_organization_mismatch'')
         else res_bind (create_execution env now (ch_workflow c) (Some act) Live True d) (\<lambda>(d, e).
           res_bind (acquire_target_locks now k c e act (set_pool (ec_pool_key ec) e d)) (\<lambda>d.
           res_bind (reserve_binding now nonce k c e p d) (\<lambda>(d, i).
           res_bind (transition_change now k ChDispatchable actor [] [] d) (\<lambda>(d, _).
           audit_emit now (ch_org c) act ''change.execution_binding_reserved''
             ''change_execution_binding'' i [
               (''change_record_id'', JStr (id_str k)),
               (''execution_id'', JStr (id_str e)),
               (''operation_profile_key'', JStr (op_key p)),
               (''requested_inputs_sha256'', JStr (inputs_hash c))] d))))
     | _ \<Rightarrow> Inl (NotFound ''operation_profile''))"

definition make_dispatchable ::
    "wf_env \<Rightarrow> timestamp \<Rightarrow> string \<Rightarrow> audit_actor option \<Rightarrow> nat \<Rightarrow> db \<Rightarrow> db result" where
  "make_dispatchable env now nonce actor k d =
    (let act = (case actor of None \<Rightarrow> system_actor ''Change service'' | Some a \<Rightarrow> a) in
     case tget (changes d) k of
       None \<Rightarrow> Inl (NotFound ''change'')
     | Some c \<Rightarrow>
        if ch_status c \<noteq> ChApproved \<and> ch_status c \<noteq> ChScheduled
          then Inl (Domain InvalidStateTransitionError ''invalid_state_transition'')
        else res_bind (atomic (enforce_emergency_expiry_for_change now k d)) (\<lambda>(d, _).
          res_bind (dispatch_guard now c) (\<lambda>_.
          res_bind (validate_request_integrity d k) (\<lambda>_.
          res_bind (ensure_verification_plan now k act True d) (\<lambda>(d, _).
          res_bind (passed_preflight now k act d) (\<lambda>(d, ec).
          reserve_execution env now nonce actor k c ec d))))))"

text \<open>\<open>promote_due_scheduled_changes\<close>: at most fifty, newest first; a failure is logged and skipped.\<close>

definition due :: "timestamp \<Rightarrow> change \<Rightarrow> bool" where
  "due now c \<longleftrightarrow> ch_status c = ChScheduled \<and>
     (case ch_scheduled_for c of None \<Rightarrow> False | Some t \<Rightarrow> t \<le> now)"

fun promote_all ::
    "wf_env \<Rightarrow> timestamp \<Rightarrow> (nat \<Rightarrow> string) \<Rightarrow> nat list \<Rightarrow> db \<Rightarrow> db \<times> nat list" where
  "promote_all env now nonce [] d = (d, [])"
| "promote_all env now nonce (k # ks) d =
    (case tget (changes d) k of
       None \<Rightarrow> promote_all env now nonce ks d
     | Some c \<Rightarrow>
        if \<not> due now c then promote_all env now nonce ks d
        else (case make_dispatchable env now (nonce k) None k d of
            Inl _ \<Rightarrow> promote_all env now nonce ks d
          | Inr d \<Rightarrow> (case promote_all env now nonce ks d of (d, ps) \<Rightarrow> (d, k # ps))))"

definition promote_due_scheduled_changes ::
    "wf_env \<Rightarrow> timestamp \<Rightarrow> (nat \<Rightarrow> string) \<Rightarrow> db \<Rightarrow> db \<times> nat list" where
  "promote_due_scheduled_changes env now nonce d =
    promote_all env now nonce
      (take 50 (map fst (rev (tsel (\<lambda>_ c. due now c) (changes d))))) d"

definition schedule_or_make_dispatchable ::
    "wf_env \<Rightarrow> timestamp \<Rightarrow> string \<Rightarrow> audit_actor option \<Rightarrow> nat \<Rightarrow> db \<Rightarrow> db result" where
  "schedule_or_make_dispatchable env now nonce actor k d =
    (case tget (changes d) k of
       None \<Rightarrow> Inl (NotFound ''change'')
     | Some c \<Rightarrow>
        if ch_status c \<noteq> ChApproved
          then Inl (Domain InvalidStateTransitionError ''invalid_state_transition'')
        else res_bind (validate_request_integrity d k) (\<lambda>_.
          case ch_scheduled_for c of
            Some t \<Rightarrow>
              if now < t then res_bind (transition_change now k ChScheduled actor []
                  [(''scheduled_for'', JStr (isoformat t))] d) (\<lambda>(d, _). Inr d)
              else make_dispatchable env now nonce actor k d
          | None \<Rightarrow> make_dispatchable env now nonce actor k d))"

definition handle_change_approval_decision ::
    "wf_env \<Rightarrow> timestamp \<Rightarrow> string \<Rightarrow> nat \<Rightarrow> decision \<Rightarrow> audit_actor option \<Rightarrow> db \<Rightarrow> db result" where
  "handle_change_approval_decision env now nonce a dec actor d =
    (case first_of (rev (tsel (\<lambda>_ c. ch_approval_request c = Some a) (changes d))) of
       None \<Rightarrow> Inl (Domain DomainValidationError ''change_approval_decision_orphaned'')
     | Some (k, c) \<Rightarrow>
        if ch_status c \<noteq> ChPendingApproval
          then Inl (Domain InvalidStateTransitionError ''change_approval_state_conflict'')
        else res_bind (validate_request_integrity d k) (\<lambda>_.
          case dec of
            Approved \<Rightarrow>
              res_bind (transition_change now k ChApproved actor [] [] d) (\<lambda>(d, _).
              schedule_or_make_dispatchable env now nonce actor k d)
          | Rejected \<Rightarrow>
              res_bind (transition_change now k ChRejected actor ''approval_rejected'' [] d)
                (\<lambda>(d, _). Inr d)
          | TimedOut \<Rightarrow>
              res_bind (transition_change now k ChExpired actor ''approval_timed_out'' [] d)
                (\<lambda>(d, _). Inr d)))"

section \<open>Locks and dispatch\<close>

lemma active_keys_tins: "lk_status l = LockActive \<Longrightarrow> active_keys (tins j l t) = active_keys t @ [lock_key l]"
  by (simp add: active_keys_def tins_def)

lemma active_keys_mem: "key \<in> set (active_keys t) \<longleftrightarrow>
    (\<exists>j l. (j, l) \<in> set t \<and> lk_status l = LockActive \<and> lock_key l = key)"
  by (force simp: active_keys_def)

lemma lock_taken_iff: "lock_taken l d \<longleftrightarrow> lock_key l \<in> set (active_keys (target_locks d))"
  by (auto simp: lock_taken_def tsel_def active_keys_mem filter_empty_conv lock_key_def)

text \<open>Locks are only added, are active, and are all new keys.\<close>

lemma create_locks_Inr:
  assumes "create_locks now org k e ts d = Inr (d', ls)"
  shows "map snd ls = map (new_lock now org k e) ts \<and> (locks_exclusive d \<longrightarrow> locks_exclusive d') \<and>
     (\<exists>n. d' = d\<lparr>next_id := n, target_locks := target_locks d @ ls\<rparr>)"
  using assms
proof (induction ts arbitrary: d d' ls)
  case (Cons it ts)
  let ?l = "new_lock now org k e it"
  let ?d = "d\<lparr>next_id := Suc (next_id d), target_locks := tins (next_id d) ?l (target_locks d)\<rparr>"
  from Cons.prems obtain ls' where free: "\<not> lock_taken ?l d"
    and r: "create_locks now org k e ts ?d = Inr (d', ls')" and ls: "ls = (next_id d, ?l) # ls'"
    by (auto simp: Let_def fresh_def res_simps split: if_splits)
  have "lk_status ?l = LockActive" by (simp add: new_lock_def split: prod.splits)
  with free have "locks_exclusive d \<longrightarrow> locks_exclusive ?d"
    by (simp add: locks_exclusive_def active_keys_tins lock_taken_iff)
  with Cons.IH [OF r] show ?case by (auto simp: ls tins_def)
next
  case Nil
  then show ?case by (auto intro: exI [of _ "next_id d"])
qed

lemma emits_within:
  assumes "res_fold (\<lambda>d (j, l). audit_emit now org a et ot j (md l) d) d ls = Inr d'"
  shows "change_progress d d' \<and> target_locks d' = target_locks d \<and> bindings d' = bindings d \<and>
     changes d' = changes d \<and> elig_checks d' = elig_checks d"
  using assms
proof (rule res_fold_induct)
  fix x t t'
  assume p: "change_progress d t \<and> target_locks t = target_locks d \<and> bindings t = bindings d \<and>
     changes t = changes d \<and> elig_checks t = elig_checks d"
    and e: "(\<lambda>d (j, l). audit_emit now org a et ot j (md l) d) t x = Inr t'"
  obtain j l where x: "x = (j, l)" by (cases x)
  from e x have em: "audit_emit now org a et ot j (md l) t = Inr t'" by simp
  with audit_emit_progress [OF em] p show "change_progress d t' \<and> target_locks t' = target_locks d \<and>
     bindings t' = bindings d \<and> changes t' = changes d \<and> elig_checks t' = elig_checks d"
    by (auto intro: progress.trans dest!: audit_emit_Inr)
qed (simp add: progress.refl)

lemma acquire_target_locks_Inr:
  assumes "acquire_target_locks now k c e a d = Inr d'"
  obtains ls where "target_locks d' = target_locks d @ ls"
    "map snd ls = map (new_lock now (ch_org c) k e) (targets_of d k)"
    "bindings d' = bindings d" "changes d' = changes d" "elig_checks d' = elig_checks d"
    "control_part d' = control_part d" "world_grows d d'"
proof -
  from assms obtain d1 ls where c: "create_locks now (ch_org c) k e (targets_of d k) d = Inr (d1, ls)"
    and em: "res_fold (\<lambda>d (j, l). audit_emit now (ch_org c) a ''change.target_lock_acquired''
        ''target_lock'' j [
          (''target_type'', JStr (lk_type l)),
          (''target_identifier'', JStr (lk_identifier l)),
          (''execution_id'', JStr (id_str e))] d) d1 ls = Inr d'"
    by (auto simp: acquire_target_locks_def res_simps)
  from create_locks_Inr [OF c] obtain n where l: "map snd ls = map (new_lock now (ch_org c) k e) (targets_of d k)"
      "locks_exclusive d \<longrightarrow> locks_exclusive d1"
    and d1: "d1 = d\<lparr>next_id := n, target_locks := target_locks d @ ls\<rparr>" by blast
  note w = emits_within [OF em]
  have "world_grows d d1"
    using l(2) by (simp add: world_grows_def d1 log_grows_same table_within_refl)
  with w have "world_grows d d'"
    by (auto intro: world.trans simp: change_progress_def)
  with l w show ?thesis
    by (intro that [of ls]) (simp_all add: change_progress_def d1 control_part_def)
qed

text \<open>Creating an execution touches only executions, steps, the log and the outbox.\<close>

lemma insert_steps_frame:
  "insert_steps ss d = d\<lparr>next_id := next_id (insert_steps ss d), exec_steps := exec_steps (insert_steps ss d)\<rparr>"
proof (induction ss arbitrary: d)
  case (Cons s ss)
  show ?case
    unfolding insert_steps.simps fresh_def Let_def prod.case
    by (subst Cons.IH) simp
qed simp

definition dispatch_tables where
  "dispatch_tables d = (changes d, bindings d, target_locks d, elig_checks d, change_targets d, op_profiles d, workflows d,
     cfg d)"

lemma create_execution_frame:
  assumes "create_execution env now w actor mode fc d = Inr (d', e)"
  shows "world_grows d d'" and "dispatch_tables d' = dispatch_tables d" and "e = next_id d"
    and "\<exists>x. executions d' = tins e x (executions d) \<and> ex_status x = ExQueued \<and> ex_workflow x = w \<and>
      (\<exists>wfl. tget (workflows d) w = Some wfl \<and> ex_org x = wf_org wfl)"
proof -
  have "world_grows d d' \<and> dispatch_tables d' = dispatch_tables d \<and> e = next_id d \<and>
      (\<exists>x. executions d' = tins e x (executions d) \<and> ex_status x = ExQueued \<and> ex_workflow x = w \<and>
      (\<exists>wfl. tget (workflows d) w = Some wfl \<and> ex_org x = wf_org wfl))"
    using assms
  proof (rule create_execution_parts)
    fix wfl d1
    assume wfl: "tget (workflows d) w = Some wfl" and i: "insert_execution now w wfl actor mode d = Inr (d1, e)"
      and d': "d' = send (Notify ''execution.created'' e) d1"
    let ?x = "new_execution now w wfl (compute_snapshot_hash (wf_definition wfl)) mode"
    let ?d = "d\<lparr>next_id := Suc (next_id d), executions := tins (next_id d) ?x (executions d)\<rparr>"
    from i obtain rows a md where e: "e = next_id d"
      and em: "audit_emit now (wf_org wfl) a ''execution.created'' ''execution'' e md
         (insert_steps rows ?d) = Inr d1"
      by (auto simp: insert_execution_def Let_def fresh_def res_bind_eq_Inr)
    obtain n t where st: "insert_steps rows ?d = ?d\<lparr>next_id := n, exec_steps := t\<rparr>"
      using insert_steps_frame by blast
    have "world_grows d (insert_steps rows ?d)"
      unfolding st by (rule world_same) (simp_all add: still_part_def approval_part_def)
    then have "world_grows d d1" using audit_emit_world [OF em] by (rule world.trans)
    moreover have "world_grows d1 d'"
      unfolding d' by (rule world_same) (simp_all add: still_part_def approval_part_def send_def)
    ultimately have "world_grows d d'" by (rule world.trans)
    moreover have "dispatch_tables d' = dispatch_tables d \<and> executions d' = tins e ?x (executions d)"
      using audit_emit_Inr [OF em] by (auto simp: d' st dispatch_tables_def send_def e)
    moreover have "ex_status ?x = ExQueued \<and> ex_workflow ?x = w \<and> ex_org ?x = wf_org wfl"
      by (simp add: new_execution_def)
    ultimately show ?thesis using e wfl by blast
  qed
  then show "world_grows d d'" "dispatch_tables d' = dispatch_tables d" "e = next_id d"
    "\<exists>x. executions d' = tins e x (executions d) \<and> ex_status x = ExQueued \<and> ex_workflow x = w \<and>
      (\<exists>wfl. tget (workflows d) w = Some wfl \<and> ex_org x = wf_org wfl)"
    by blast+
qed

lemma generate_token_stored:
  "generate_dispatch_token s (b\<lparr>bd_token_hash := h, bd_payload := q\<rparr>) = generate_dispatch_token s b"
  by (simp add: generate_dispatch_token_def Let_def cong: if_cong)

lemma reserve_binding_Inr:
  assumes "reserve_binding now nonce k c e p d = Inr (d', i)"
  obtains b tok where "i = next_id d" "change_progress d d'" "tget (bindings d') i = Some b"
    "bd_change b = k" "bd_exec b = e" "bd_bound_at b = None" "bd_expires_at b = now + secs (op_dispatch_ttl p)"
    "generate_dispatch_token (cfg d) b = Inr tok" "bd_token_hash b = hash_dispatch_token tok"
    "changes d' = changes d" "target_locks d' = target_locks d" "elig_checks d' = elig_checks d"
proof -
  let ?d = "d\<lparr>next_id := Suc (next_id d)\<rparr>"
  let ?b0 = "new_binding now nonce k c e p"
  from assms obtain tok d1 where i: "i = next_id d" and s1: "binding_save i ?b0 ?d = Inr d1"
    and tok: "generate_dispatch_token (cfg d1) ?b0 = Inr tok"
    and s2: "binding_save i (?b0\<lparr>bd_token_hash := hash_dispatch_token tok,
      bd_payload := runner_payload k ?b0\<rparr>) d1 = Inr d'"
    by (auto simp: reserve_binding_def Let_def fresh_def res_simps)
  have "change_progress d ?d" by (rule progress_same) (simp_all add: control_part_def still_part_def)
  then have p1: "change_progress d d1" using binding_save_progress [OF s1] by (rule progress.trans)
  then have pr: "change_progress d d'" using binding_save_progress [OF s2] by (rule progress.trans)
  from progress_control [OF p1] have cfg: "cfg d1 = cfg d" by (simp add: control_part_def)
  have keep: "changes t' = changes t \<and> target_locks t' = target_locks t \<and> elig_checks t' = elig_checks t"
    if "binding_save j q t = Inr t'" for j q t t'
    using that by (auto simp: binding_save_def res_simps split: option.splits if_splits)
  let ?b = "?b0\<lparr>bd_token_hash := hash_dispatch_token tok, bd_payload := runner_payload k ?b0\<rparr>"
  have "generate_dispatch_token (cfg d) ?b = Inr tok"
    using tok cfg by (simp add: generate_token_stored)
  with i pr binding_save_row(1) [OF s2] keep [OF s1] keep [OF s2] show ?thesis
    by (intro that [of ?b tok]) (simp_all add: new_binding_def)
qed

lemma control_executions: "control_part d' = control_part d \<Longrightarrow> executions d' = executions d"
  by (simp add: control_part_def)

lemma set_pool_frame:
  shows "world_grows d (set_pool key e d)" and "dispatch_tables (set_pool key e d) = dispatch_tables d"
    and "cfg (set_pool key e d) = cfg d"
    and "(e, x) \<in> set (executions d) \<Longrightarrow> \<exists>y. (e, y) \<in> set (executions (set_pool key e d)) \<and>
      ex_status y = ex_status x \<and> ex_workflow y = ex_workflow x"
  by (auto simp: set_pool_def upd_exec_def still_part_def approval_part_def dispatch_tables_def set_tupd
      intro!: world_same)

lemma transition_change_elig:
  "transition_change now k s a why x d = Inr (d', o') \<Longrightarrow> elig_checks d' = elig_checks d"
  by (erule transition_change_Inr) simp

text \<open>What the reservation leaves when it succeeds.\<close>

definition dispatched ::
    "nat \<Rightarrow> nat \<Rightarrow> nat \<Rightarrow> timestamp \<Rightarrow> change \<Rightarrow> change_target table \<Rightarrow> target_lock table \<Rightarrow> db \<Rightarrow> bool" where
  "dispatched k e i now c targets locks d \<longleftrightarrow>
     (\<exists>x. (e, x) \<in> set (executions d) \<and> ex_status x = ExQueued \<and> ex_workflow x = ch_workflow c) \<and>
     (\<exists>b tok. tget (bindings d) i = Some b \<and> bd_change b = k \<and> bd_exec b = e \<and> bd_bound_at b = None \<and>
        generate_dispatch_token (cfg d) b = Inr tok \<and> bd_token_hash b = hash_dispatch_token tok) \<and>
     (\<exists>ls. target_locks d = locks @ ls \<and> map snd ls = map (new_lock now (ch_org c) k e) targets)"

lemma reserve_execution_Inr:
  assumes "reserve_execution env now nonce actor k c ec d = Inr d'" and "tget (changes d) k = Some c"
  obtains c' i where "world_grows d d'" "tget (changes d') k = Some c'" "ch_status c' = ChDispatchable"
    "ch_status c \<in> {ChApproved, ChScheduled}" "frozen_request c' = frozen_request c"
    "dispatched k (next_id d) i now c (targets_of d k) (target_locks d) d'" "elig_checks d' = elig_checks d"
proof -
  from assms obtain p w where p: "tget (op_profiles d) (ch_profile c) = Some p"
    and w: "tget (workflows d) (ch_workflow c) = Some w"
    by (auto simp: reserve_execution_def Let_def split: option.splits)
  let ?pool = "set_pool (ec_pool_key ec)"
  from assms(1) p w obtain act e d1 d2 d3 i d4 o' et md where
      ce: "create_execution env now (ch_workflow c) (Some act) Live True d = Inr (d1, e)"
      and lk: "acquire_target_locks now k c e act (?pool e d1) = Inr d2"
      and rb: "reserve_binding now nonce k c e p d2 = Inr (d3, i)"
      and tr: "transition_change now k ChDispatchable actor [] [] d3 = Inr (d4, o')"
      and em: "audit_emit now (ch_org c) act et ''change_execution_binding'' i md d4 = Inr d'"
    unfolding reserve_execution_def Let_def
    by (auto simp: res_bind_eq_Inr split: if_splits)
  note f1 = create_execution_frame [OF ce] and f2 = set_pool_frame [where d = d1 and key = "ec_pool_key ec" and e = e]
  from f1(4) obtain x0 where "executions d1 = executions d @ [(e, x0)]" and x0: "ex_status x0 = ExQueued"
      "ex_workflow x0 = ch_workflow c"
    unfolding tins_def by blast
  then have "(e, x0) \<in> set (executions d1)" by simp
  with f2(4) x0 obtain x where x: "(e, x) \<in> set (executions (?pool e d1))" "ex_status x = ExQueued"
      "ex_workflow x = ch_workflow c" by metis
  from lk obtain ls where l: "target_locks d2 = target_locks (?pool e d1) @ ls"
      "map snd ls = map (new_lock now (ch_org c) k e) (targets_of (?pool e d1) k)"
      "bindings d2 = bindings (?pool e d1)" "changes d2 = changes (?pool e d1)"
      "elig_checks d2 = elig_checks (?pool e d1)"
      "control_part d2 = control_part (?pool e d1)" "world_grows (?pool e d1) d2"
    by (rule acquire_target_locks_Inr)
  from rb obtain b tok where b: "change_progress d2 d3" "tget (bindings d3) i = Some b"
    "bd_change b = k" "bd_exec b = e" "bd_bound_at b = None"
    "generate_dispatch_token (cfg d2) b = Inr tok" "bd_token_hash b = hash_dispatch_token tok"
    "changes d3 = changes d2" "target_locks d3 = target_locks d2" "elig_checks d3 = elig_checks d2"
    by (rule reserve_binding_Inr)
  have same: "changes d2 = changes d" "targets_of (?pool e d1) k = targets_of d k"
      "elig_checks (?pool e d1) = elig_checks d"
    using f1(2) f2(2) l(4) by (simp_all add: dispatch_tables_def targets_of_def)
  have c3: "tget (changes d3) k = Some c" using same(1) b(8) assms(2) by simp
  note t = transition_change_row [OF tr c3]
  from t(1) em obtain c' where c': "tget (changes d') k = Some c'" "ch_status c' = ChDispatchable"
      "frozen_request c' = frozen_request c" by (auto dest!: audit_emit_Inr)
  have ctl: "control_part d' = control_part (?pool e d1)"
    using l(6) progress_control [OF b(1)] t(6) audit_emit_tables [OF em] by simp
  have "world_grows d d'"
    using f1(1) f2(1) l(7) b(1) transition_change_progress [OF tr] audit_emit_world [OF em]
    unfolding change_progress_def by (meson world.trans)
  moreover have "ch_status c \<in> {ChApproved, ChScheduled}"
    using t(2) by (cases "ch_status c") auto
  moreover have "dispatched k (next_id d) i now c (targets_of d k) (target_locks d) d'"
    unfolding dispatched_def f1(3) [symmetric]
  proof (intro conjI)
    show "\<exists>x. (e, x) \<in> set (executions d') \<and> ex_status x = ExQueued \<and> ex_workflow x = ch_workflow c"
      using x control_executions [OF ctl] by auto
    show "\<exists>b tok. tget (bindings d') i = Some b \<and> bd_change b = k \<and> bd_exec b = e \<and> bd_bound_at b = None \<and>
        generate_dispatch_token (cfg d') b = Inr tok \<and> bd_token_hash b = hash_dispatch_token tok"
      using b(2-7) l(6) t(3) audit_emit_tables [OF em] ctl by (auto simp: control_part_def)
    have "target_locks d' = target_locks d @ ls"
      using l(1) b(9) t(4) audit_emit_tables [OF em] f1(2) f2(2) by (simp add: dispatch_tables_def)
    then show "\<exists>ls. target_locks d' = target_locks d @ ls \<and>
        map snd ls = map (new_lock now (ch_org c) k e) (targets_of d k)"
      using l(2) unfolding same(2) by blast
  qed
  moreover have "elig_checks d' = elig_checks d"
    using same(3) l(5) b(10) transition_change_elig [OF tr] audit_emit_Inr [OF em] by auto
  ultimately show thesis using c' by (intro that)
qed

text \<open>Ensuring the plan leaves the changes, their targets and the dispatch checks alone.\<close>

definition plan_rest where
  "plan_rest d = (changes d, elig_checks d, change_targets d, target_locks d, op_profiles d)"

lemma create_checks_rest: "plan_rest (create_checks i k n is d) = plan_rest d"
  by (induction "is" arbitrary: n d) (auto simp: fresh_def plan_rest_def)

lemma emit_plan_audit_rest: "emit_plan_audit now i et a x d = Inr d' \<Longrightarrow> plan_rest d' = plan_rest d"
  by (auto simp: emit_plan_audit_def plan_rest_def split: option.splits dest!: audit_emit_Inr)

lemma generate_plan_rest:
  assumes "generate_plan now k c p a d = Inr (d', i)"
  shows "plan_rest d' = plan_rest d"
proof -
  from assms obtain items d1 x where e: "emit_plan_audit now i ''change.verification_plan_generated'' a x
      (create_checks i k 1 items d1) = Inr d'" and "plan_rest d1 = plan_rest d"
    by (auto simp: generate_plan_def Let_def fresh_def res_simps plan_rest_def split: if_splits)
  with emit_plan_audit_rest [OF e] show ?thesis by (simp add: create_checks_rest)
qed

lemma activate_plan_rest:
  assumes "activate_plan now i a d = Inr d'"
  shows "plan_rest d' = plan_rest d"
proof -
  from assms obtain d1 x where "emit_plan_audit now i ''change.verification_plan_activated'' a x d1 = Inr d'"
      "plan_rest d1 = plan_rest d"
    by (auto simp: activate_plan_def res_simps plan_rest_def split: option.splits)
  then show ?thesis using emit_plan_audit_rest by metis
qed

lemma ensure_plan_rest:
  assumes "ensure_verification_plan now k a act d = Inr (d', i)"
  shows "plan_rest d' = plan_rest d"
proof -
  obtain c p where c: "tget (changes d) k = Some c" and p: "tget (op_profiles d) (ch_profile c) = Some p"
    using assms by (auto simp: ensure_verification_plan_def split: option.splits)
  show ?thesis
  proof (cases "op_verification_required p \<and> ch_status c \<notin> {ChDraft, ChClosed, ChRejected, ChCanceled, ChExpired}")
    case False
    with assms c p show ?thesis by (auto simp: ensure_verification_plan_def split: if_splits)
  next
    case True
    with assms c p obtain d1 j where
        f: "(case plan_of_change d k of Some (i, _) \<Rightarrow> Inr (d, i)
      | None \<Rightarrow> if ch_status c \<in> {ChDispatchable, ChRunning, ChVerificationPending,
                   ChVerificationFailed, ChVerified}
              then Inl (Domain DomainConflictError ''verification_plan_missing'')
              else generate_plan now k c p a d) = Inr (d1, j)"
      and t: "(case tget (ver_plans d1) j of None \<Rightarrow> Inl (NotFound ''verification_plan'')
      | Some vp \<Rightarrow> res_bind (validate_existing_plan d1 j vp c) (\<lambda>_.
           res_bind (if act \<and> vp_status vp = VpGenerated then activate_plan now j a d1 else Inr d1)
             (\<lambda>d. Inr (d, Some j)))) = Inr (d', i)"
      unfolding ensure_verification_plan_def
      by (simp only: option.case if_False not_True_eq_False simp_thms) (auto simp: res_bind_eq_Inr)
    from t have "activate_plan now j a d1 = Inr d' \<or> d1 = d'"
      by (auto simp: res_bind_eq_Inr split: option.splits if_splits)
    moreover from f have "plan_rest d1 = plan_rest d"
      by (auto split: option.splits if_splits dest: generate_plan_rest)
    ultimately show ?thesis using activate_plan_rest by metis
  qed
qed

lemma passed_preflight_Inr:
  assumes "passed_preflight now k act d = Inr (d', ec)"
  obtains "d' = d" "\<exists>j. (j, ec) \<in> set (elig_checks d)" "ec_change ec = k" "ec_passed ec"
      "now < ec_expires_at ec"
  | c p j where "world_grows d d'" "tget (changes d) k = Some c"
      "tget (op_profiles d) (ch_profile c) = Some p" "gates_clear now k c p d" "ec_passed ec"
      "ec_change ec = k" "now < ec_expires_at ec" "(j, ec) \<in> set (elig_checks d')"
      "changes d' = changes d" "change_targets d' = change_targets d" "target_locks d' = target_locks d"
      "control_part d' = control_part d"
proof (cases "get_fresh_passed_preflight now k d")
  case (Some jx)
  obtain j x where jx: "jx = (j, x)" by (cases jx)
  with Some have "(j, x) \<in> set (elig_checks d) \<and> ec_change x = k \<and> ec_passed x \<and> now < ec_expires_at x"
    using sort_first_min by (fastforce simp: get_fresh_passed_preflight_def)
  with assms Some jx show ?thesis by (intro that(1)) (auto simp: passed_preflight_def)
next
  case None
  with assms obtain i where r: "run_dispatch_preflight now k (Some act) d = (d', Inr (i, ec))"
    and ok: "ec_passed ec"
    by (auto simp: passed_preflight_def res_bind_eq_Inr atomic_Inr split: if_splits)
  from r obtain c p d1 ev where x: "tget (changes d) k = Some c" "tget (op_profiles d) (ch_profile c) = Some p"
    "gate_frame d d1"
    "d' = d1\<lparr>next_id := Suc (next_id d1), elig_checks := tins i ec (elig_checks d1),
       audit_log := audit_log d1 @ [ev]\<rparr>"
    "ec_change ec = k" "ec_expires_at ec = now + secs 300"
    "ec_passed ec \<longrightarrow> gates_clear now k c p d \<and> Some act \<noteq> None" "world_grows d d'"
    by (rule run_preflight_Inr)
  with x ok show ?thesis
    by (intro that(2) [of c p i]) (simp_all add: secs_def tins_def gate_frame_def gate_tables_def control_part_def)
qed

section \<open>Properties\<close>

text \<open>The stages of a dispatch, and what they leave of the tables the next ones read.\<close>

lemma make_dispatchable_stages:
  assumes "make_dispatchable env now nonce actor k d = Inr d'"
  obtains c t1 t2 t3 ec where "tget (changes d) k = Some c" "ch_status c \<in> {ChApproved, ChScheduled}"
    "dispatch_guard now c = Inr ()" "gate_frame d t1" "validate_request_integrity t1 k = Inr ()"
    "world_grows d t2" "elig_checks t2 = elig_checks d"
    "ec_passed ec" "ec_change ec = k" "now < ec_expires_at ec"
    "(\<exists>j. (j, ec) \<in> set (elig_checks d)) \<or> (\<exists>p. gates_clear now k c p t2)"
    "world_grows d t3" "changes t3 = changes d" "target_locks t3 = target_locks d"
    "targets_of t3 k = targets_of d k" "reserve_execution env now nonce actor k c ec t3 = Inr d'"
proof -
  from assms obtain c where c: "tget (changes d) k = Some c" "ch_status c \<in> {ChApproved, ChScheduled}"
    by (auto simp: make_dispatchable_def Let_def split: option.splits if_splits)
  with assms obtain act t1 t2 x t3 ec where e: "enforce_emergency_expiry_for_change now k d = (t1, Inr ())"
    and g: "dispatch_guard now c = Inr ()" and i: "validate_request_integrity t1 k = Inr ()"
    and pl: "ensure_verification_plan now k act True t1 = Inr (t2, x)"
    and pf: "passed_preflight now k act t2 = Inr (t3, ec)"
    and r: "reserve_execution env now nonce actor k c ec t3 = Inr d'"
    unfolding make_dispatchable_def Let_def by (auto simp: res_bind_eq_Inr atomic_Inr split: if_splits)
  note f = enforce_expiry_frame [OF e] and q = ensure_plan_rest [OF pl]
  then have w2: "world_grows d t2"
    using ensure_verification_plan_progress [OF pl]
    by (auto simp: gate_frame_def change_progress_def intro: world.trans)
  have t2: "changes t2 = changes d" "change_targets t2 = change_targets d" "elig_checks t2 = elig_checks d"
      "target_locks t2 = target_locks d"
    using f q by (simp_all add: gate_frame_def gate_tables_def plan_rest_def)
  from pf have "changes t3 = changes d \<and> target_locks t3 = target_locks d \<and>
      targets_of t3 k = targets_of d k \<and> world_grows t2 t3 \<and> ec_passed ec \<and> ec_change ec = k \<and>
      now < ec_expires_at ec \<and>
      ((\<exists>j. (j, ec) \<in> set (elig_checks d)) \<or> (\<exists>p. gates_clear now k c p t2))"
    by (rule passed_preflight_Inr) (use c(1) in \<open>auto simp: t2 targets_of_def intro: world.refl\<close>)
  with that [OF c g f i w2 t2(3)] r show thesis
    using world.trans [OF w2] by blast
qed

lemma make_dispatchable_world:
  assumes "make_dispatchable env now nonce actor k d = Inr d'"
  shows "world_grows d d'"
  using assms
proof (rule make_dispatchable_stages)
  fix c t3 ec
  assume "tget (changes d) k = Some c" "world_grows d t3" "changes t3 = changes d"
    and r: "reserve_execution env now nonce actor k c ec t3 = Inr d'"
  then have "tget (changes t3) k = Some c" by simp
  with r have "world_grows t3 d'" by (rule reserve_execution_Inr)
  with \<open>world_grows d t3\<close> show ?thesis by (rule world.trans)
qed


text \<open>
  C6: dispatching never puts two active locks on one target, whatever changes compete for it; if a target
  is already locked, by whichever change, the dispatch fails.
\<close>

theorem dispatch_excludes:
  assumes "make_dispatchable env now nonce actor k d = Inr d'" and "locks_exclusive d"
  shows "locks_exclusive d' \<and> (\<exists>c. tget (changes d) k = Some c \<and> (\<forall>it \<in> set (targets_of d k).
     (ch_org c, tg_type (snd it), tg_normalized (snd it)) \<in> set (active_keys (target_locks d')) -
       set (active_keys (target_locks d))))"
proof -
  have w: "world_grows d d'" by (rule make_dispatchable_world [OF assms(1)])
  from assms(1) obtain c t3 ec where c: "tget (changes d) k = Some c" and t3: "changes t3 = changes d"
      "target_locks t3 = target_locks d" "targets_of t3 k = targets_of d k"
    and r: "reserve_execution env now nonce actor k c ec t3 = Inr d'"
    by (rule make_dispatchable_stages)
  from t3 c have "tget (changes t3) k = Some c" by simp
  with r obtain i where dp: "dispatched k (next_id t3) i now c (targets_of t3 k) (target_locks t3) d'"
    by (rule reserve_execution_Inr)
  from w assms(2) have ex: "locks_exclusive d'" by (simp add: world_grows_def)
  from dp obtain ls where ls: "target_locks d' = target_locks d @ ls"
    "map snd ls = map (new_lock now (ch_org c) k (next_id t3)) (targets_of d k)"
    unfolding dispatched_def t3 by blast
  have "active_keys ls = map lock_key (map snd (filter (\<lambda>il. lk_status (snd il) = LockActive) ls))"
    by (simp add: active_keys_def)
  also have "\<dots> = map lock_key (filter (\<lambda>l. lk_status l = LockActive) (map snd ls))"
    by (simp add: filter_map comp_def)
  also have "\<dots> = map (\<lambda>it. (ch_org c, tg_type (snd it), tg_normalized (snd it))) (targets_of d k)"
    by (simp add: ls(2) filter_map comp_def new_lock_def lock_key_def case_prod_beta)
  finally have keys: "active_keys ls =
      map (\<lambda>it. (ch_org c, tg_type (snd it), tg_normalized (snd it))) (targets_of d k)" .
  have "active_keys (target_locks d') = active_keys (target_locks d) @ active_keys ls"
    by (simp add: ls(1) active_keys_def)
  with ex have "set (active_keys (target_locks d)) \<inter> set (active_keys ls) = {}"
    "set (active_keys ls) \<subseteq> set (active_keys (target_locks d'))"
    by (auto simp: locks_exclusive_def)
  then show ?thesis using ex c unfolding keys by auto
qed

lemma transition_change_upd:
  assumes "transition_change now k s a why x d = Inr (d', o')"
  obtains c c' where "tget (changes d) k = Some c" "changes d' = tupd k (\<lambda>_. c') (changes d)"
    "ch_status c' = s" "frozen_request c' = frozen_request c" "change_targets d' = change_targets d"
    "s \<in> set (ALLOWED_STATUS_TRANSITIONS (ch_status c))" "ch_scheduled_for c' = ch_scheduled_for c"
  using assms
  by (rule transition_change_Inr)
    (auto simp: transition_fields_def frozen_request_def split: if_splits)

lemma reserve_execution_row:
  assumes "reserve_execution env now nonce actor k c ec d = Inr d'" and "tget (changes d) k = Some c"
  obtains c' where "ch_status c' = ChDispatchable" "frozen_request c' = frozen_request c"
    "changes d' = tupd k (\<lambda>_. c') (changes d)"
proof -
  from assms obtain p act e d1 d2 d3 i d4 o' et md where
      ce: "create_execution env now (ch_workflow c) (Some act) Live True d = Inr (d1, e)"
      and lk: "acquire_target_locks now k c e act (set_pool (ec_pool_key ec) e d1) = Inr d2"
      and rb: "reserve_binding now nonce k c e p d2 = Inr (d3, i)"
      and tr: "transition_change now k ChDispatchable actor [] [] d3 = Inr (d4, o')"
      and em: "audit_emit now (ch_org c) act et ''change_execution_binding'' i md d4 = Inr d'"
    unfolding reserve_execution_def Let_def
    by (auto simp: res_bind_eq_Inr split: if_splits option.splits)
  have "changes d1 = changes d" using create_execution_frame(2) [OF ce]
    by (simp add: dispatch_tables_def)
  moreover have "changes (set_pool (ec_pool_key ec) e d1) = changes d1"
    by (simp add: set_pool_def upd_exec_def)
  moreover from lk have "changes d2 = changes (set_pool (ec_pool_key ec) e d1)"
    by (rule acquire_target_locks_Inr)
  moreover from rb have "changes d3 = changes d2" by (rule reserve_binding_Inr)
  ultimately have same: "changes d3 = changes d" by simp
  from tr obtain b b' where "tget (changes d3) k = Some b" "changes d4 = tupd k (\<lambda>_. b') (changes d3)"
      "ch_status b' = ChDispatchable" "frozen_request b' = frozen_request b"
    by (rule transition_change_upd)
  with same assms(2) audit_emit_Inr [OF em] show thesis by (intro that [of b']) auto
qed

lemma make_dispatchable_row:
  assumes "make_dispatchable env now nonce actor k d = Inr d'"
  obtains c c' where "tget (changes d) k = Some c" "ch_status c' = ChDispatchable"
    "frozen_request c' = frozen_request c" "changes d' = tupd k (\<lambda>_. c') (changes d)"
  using assms
proof (rule make_dispatchable_stages)
  fix c t3 ec
  assume c: "tget (changes d) k = Some c" and t3: "changes t3 = changes d"
    and r: "reserve_execution env now nonce actor k c ec t3 = Inr d'"
  from t3 c have c3: "tget (changes t3) k = Some c" by simp
  from r c3 obtain c' where "ch_status c' = ChDispatchable" "frozen_request c' = frozen_request c"
      "changes d' = tupd k (\<lambda>_. c') (changes t3)"
    by (rule reserve_execution_row)
  with c show thesis unfolding t3 by (rule that)
qed

lemma promote_all_Inr:
  assumes "promote_all env now nonce ks d = (d', ps)"
  shows "world_grows d d' \<and> distinct ps \<and> set ps \<subseteq> set ks \<and>
     (\<forall>k \<in> set ps. \<exists>c c'. tget (changes d) k = Some c \<and> due now c \<and>
        tget (changes d') k = Some c' \<and> ch_status c' = ChDispatchable) \<and>
     (\<forall>k. k \<notin> set ps \<longrightarrow> tget (changes d') k = tget (changes d) k)"
  using assms
proof (induction ks arbitrary: d ps)
  case (Cons k ks)
  show ?case
  proof (cases "\<exists>c d1. tget (changes d) k = Some c \<and> due now c \<and>
      make_dispatchable env now (nonce k) None k d = Inr d1")
    case False
    with Cons.prems have "promote_all env now nonce ks d = (d', ps)"
      by (auto split: option.splits if_splits sum.splits)
    from Cons.IH [OF this] show ?thesis by auto
  next
    case True
    then obtain c d1 qs where c: "tget (changes d) k = Some c" "due now c"
      and m: "make_dispatchable env now (nonce k) None k d = Inr d1"
      and q: "promote_all env now nonce ks d1 = (d', qs)" and ps: "ps = k # qs"
      using Cons.prems by (auto split: prod.splits)
    from m c(1) obtain c' where c': "ch_status c' = ChDispatchable"
        "changes d1 = tupd k (\<lambda>_. c') (changes d)"
      by (auto elim!: make_dispatchable_row)
    note ih = Cons.IH [OF q]
    have k1: "tget (changes d1) k = Some c'" using c c' by (simp add: table_simps)
    have fresh: "k \<notin> set qs"
      using ih k1 c'(1) by (auto simp: due_def)
    have "world_grows d d'"
      using make_dispatchable_world [OF m] ih by (blast intro: world.trans)
    moreover have "tget (changes d1) j = tget (changes d) j" if "j \<noteq> k" for j
      using that c'(2) by (simp add: table_simps)
    moreover have "tget (changes d') k = Some c'" using ih fresh k1 by simp
    ultimately show ?thesis using ih fresh c c'(1) unfolding ps by fastforce
  qed
qed (auto intro: world.refl)

text \<open>
  C14: promoting scheduled changes never fails: at most fifty changes are promoted, each once, each
  scheduled and due before and dispatchable after, and no other change is touched.
\<close>

theorem promotion_promotes_due:
  assumes "promote_due_scheduled_changes env now nonce d = (d', ps)"
  shows "length ps \<le> 50 \<and> distinct ps \<and> world_grows d d' \<and>
     (\<forall>k \<in> set ps. \<exists>c c'. tget (changes d) k = Some c \<and> due now c \<and>
        tget (changes d') k = Some c' \<and> ch_status c' = ChDispatchable) \<and>
     (\<forall>k. k \<notin> set ps \<longrightarrow> tget (changes d') k = tget (changes d) k)"
proof -
  let ?ks = "take 50 (map fst (rev (tsel (\<lambda>_ c. due now c) (changes d))))"
  from assms have p: "promote_all env now nonce ?ks d = (d', ps)"
    by (simp add: promote_due_scheduled_changes_def)
  note f = promote_all_Inr [OF p]
  then have "length ps = card (set ps)" "set ps \<subseteq> set ?ks" by (simp_all add: distinct_card)
  then have "length ps \<le> card (set ?ks)" by (simp add: card_mono)
  also have "\<dots> \<le> length ?ks" by (rule card_length)
  finally show ?thesis using f by simp
qed

lemma decision_parts:
  assumes "handle_change_approval_decision env now nonce a dec actor d = Inr d'" and "twf (changes d)"
  obtains k c where "tget (changes d) k = Some c" "ch_approval_request c = Some a"
    "ch_status c = ChPendingApproval" "validate_request_integrity d k = Inr ()"
    "(case dec of
            Approved \<Rightarrow> res_bind (transition_change now k ChApproved actor [] [] d) (\<lambda>(d, _).
              schedule_or_make_dispatchable env now nonce actor k d)
          | Rejected \<Rightarrow> res_bind (transition_change now k ChRejected actor ''approval_rejected'' [] d)
                (\<lambda>(d, _). Inr d)
          | TimedOut \<Rightarrow> res_bind (transition_change now k ChExpired actor ''approval_timed_out'' [] d)
                (\<lambda>(d, _). Inr d)) = Inr d'"
proof -
  from assms obtain k c where f: "first_of (rev (tsel (\<lambda>_ c. ch_approval_request c = Some a) (changes d))) = Some (k, c)"
    unfolding handle_change_approval_decision_def by (cases "first_of (rev (tsel (\<lambda>_ c. ch_approval_request c = Some a) (changes d)))") auto
  have "(k, c) \<in> set (changes d) \<and> ch_approval_request c = Some a"
    using first_of_SomeD [OF f] by (auto simp: tsel_def)
  with tget_unique [OF assms(2)] have c: "tget (changes d) k = Some c" "ch_approval_request c = Some a"
    by simp_all
  from assms(1) f show thesis
    by (intro that [OF c]) (auto simp: handle_change_approval_decision_def res_bind_eq_Inr split: if_splits)
qed

lemma schedule_row:
  assumes "schedule_or_make_dispatchable env now nonce actor k d = Inr d'" and "tget (changes d) k = Some c"
  shows "\<exists>c'. tget (changes d') k = Some c' \<and> frozen_request c' = frozen_request c \<and> world_grows d d' \<and>
     ch_status c' = (case ch_scheduled_for c of
           Some t \<Rightarrow> if now < t then ChScheduled else ChDispatchable | None \<Rightarrow> ChDispatchable)"
proof (cases "\<exists>t. ch_scheduled_for c = Some t \<and> now < t")
  case True
  with assms obtain t o' where "transition_change now k ChScheduled actor []
      [(''scheduled_for'', JStr (isoformat t))] d = Inr (d', o')"
    by (auto simp: schedule_or_make_dispatchable_def res_bind_eq_Inr split: if_splits)
  note t = this transition_change_row(1) [OF this assms(2)] transition_change_progress [OF this]
  with True show ?thesis by (auto simp: change_progress_def)
next
  case False
  with assms have m: "make_dispatchable env now nonce actor k d = Inr d'"
    by (auto simp: schedule_or_make_dispatchable_def res_bind_eq_Inr split: if_splits option.splits)
  from m obtain c' where "ch_status c' = ChDispatchable" "frozen_request c' = frozen_request c"
      "tget (changes d') k = Some c'"
    by (rule make_dispatchable_row) (use assms(2) in \<open>auto simp: table_simps\<close>)
  with make_dispatchable_world [OF m] False show ?thesis by (auto split: option.splits)
qed

text \<open>
  A decided change approval ends the pending state of its change as decided: a rejection or a timeout
  rejects or expires it; an approval schedules it, or dispatches it at once.
\<close>

theorem decision_moves_change:
  assumes "handle_change_approval_decision env now nonce a dec actor d = Inr d'" and "twf (changes d)"
  shows "\<exists>k c c'. tget (changes d) k = Some c \<and> ch_approval_request c = Some a \<and>
     ch_status c = ChPendingApproval \<and> validate_request_integrity d k = Inr () \<and>
     tget (changes d') k = Some c' \<and> frozen_request c' = frozen_request c \<and> world_grows d d' \<and>
     ch_status c' = (case dec of Rejected \<Rightarrow> ChRejected | TimedOut \<Rightarrow> ChExpired
       | Approved \<Rightarrow> (case ch_scheduled_for c of
           Some t \<Rightarrow> if now < t then ChScheduled else ChDispatchable | None \<Rightarrow> ChDispatchable))"
proof -
  from assms obtain k c where c: "tget (changes d) k = Some c" "ch_approval_request c = Some a"
      "ch_status c = ChPendingApproval" and ok: "validate_request_integrity d k = Inr ()"
    and m: "(case dec of
            Approved \<Rightarrow> res_bind (transition_change now k ChApproved actor [] [] d) (\<lambda>(d, _).
              schedule_or_make_dispatchable env now nonce actor k d)
          | Rejected \<Rightarrow> res_bind (transition_change now k ChRejected actor ''approval_rejected'' [] d)
                (\<lambda>(d, _). Inr d)
          | TimedOut \<Rightarrow> res_bind (transition_change now k ChExpired actor ''approval_timed_out'' [] d)
                (\<lambda>(d, _). Inr d)) = Inr d'"
    by (rule decision_parts)
  from m obtain s why d1 o' where t: "transition_change now k s actor why [] d = Inr (d1, o')"
    and s: "s = (case dec of Approved \<Rightarrow> ChApproved | Rejected \<Rightarrow> ChRejected | TimedOut \<Rightarrow> ChExpired)"
    and rest: "if dec = Approved then schedule_or_make_dispatchable env now nonce actor k d1 = Inr d'
      else d' = d1"
    by (cases dec) (auto simp: res_bind_eq_Inr)
  from t obtain c1 where c1: "tget (changes d1) k = Some c1" "ch_status c1 = s"
      "frozen_request c1 = frozen_request c" "ch_scheduled_for c1 = ch_scheduled_for c"
    by (rule transition_change_upd) (use c(1) in \<open>auto simp: table_simps\<close>)
  have w: "world_grows d d1"
    using transition_change_progress [OF t] by (simp add: change_progress_def)
  show ?thesis
  proof (cases "dec = Approved")
    case False
    with rest c1 w c ok s show ?thesis by (cases dec) auto
  next
    case True
    with rest have "schedule_or_make_dispatchable env now nonce actor k d1 = Inr d'" by simp
    from schedule_row [OF this c1(1)] c1 w c ok True show ?thesis
      by (auto intro: world.trans)
  qed
qed

section \<open>Witnesses\<close>

lemma ready_binding:
  assumes "changes d = [(30, (ready_change s))]" and "cfg d = sample_secret" and "bindings d = []"
    and "tget (executions d) e = Some x" and "ex_org x = 1"
  shows "\<exists>d'. reserve_binding 9 ''n0'' 30 (ready_change s) e sample_profile d = Inr (d', next_id d) \<and>
     changes d' = changes d \<and> op_profiles d' = op_profiles d \<and> workflows d' = workflows d"
proof -
  let ?b = "new_binding 9 ''n0'' 30 (ready_change s) e sample_profile"
  let ?d = "d\<lparr>next_id := Suc (next_id d)\<rparr>"
  let ?d1 = "?d\<lparr>bindings := [(next_id d, ?b)]\<rparr>"
  have f: "bd_change ?b = 30" "bd_exec ?b = e" "bd_org ?b = 1"
    by (simp_all add: new_binding_def)
  have s1: "binding_save (next_id d) ?b ?d = Inr ?d1"
    using assms f by (simp add: binding_save_def binding_clean_def tget_def binding_of_change_def
        binding_of_exec_def tsel_def tins_def)
  have "lower ''k3y'' \<notin> set INSECURE_SECRET_PLACEHOLDERS" by code_simp
  then obtain tok where t: "generate_dispatch_token sample_secret ?b = Inr tok"
    by (auto simp: generate_dispatch_token_def Let_def sample_secret_def)
  have s2: "\<exists>d2. binding_save (next_id d) (?b\<lparr>bd_token_hash := hash_dispatch_token tok,
      bd_payload := runner_payload 30 ?b\<rparr>) ?d1 = Inr d2 \<and> changes d2 = changes d \<and>
      op_profiles d2 = op_profiles d \<and> workflows d2 = workflows d"
    using assms f by (simp add: binding_save_def binding_clean_def tget_def)
  then show ?thesis
    using s1 t assms(2) by (auto simp: reserve_binding_def fresh_def Let_def)
qed

lemma ready_locks:
  assumes "change_targets d = [(35, sample_target 1 ''web-1'')]" and "target_locks d = []"
  shows "\<exists>d'. acquire_target_locks 9 30 (ready_change s) 101 a d = Inr d' \<and> changes d' = changes d \<and>
     bindings d' = bindings d \<and> op_profiles d' = op_profiles d \<and> workflows d' = workflows d \<and>
     executions d' = executions d \<and> cfg d' = cfg d"
proof -
  let ?l = "new_lock 9 1 30 101 (35, sample_target 1 ''web-1'')"
  let ?d = "d\<lparr>next_id := Suc (next_id d), target_locks := [(next_id d, ?l)]\<rparr>"
  have "targets_of d 30 = [(35, sample_target 1 ''web-1'')]"
    using assms(1) by (simp add: targets_of_def tsel_def sample_target_def)
  then have c: "create_locks 9 1 30 101 (targets_of d 30) d = Inr (?d, [(next_id d, ?l)])"
    using assms(2) by (simp add: lock_taken_def tsel_def fresh_def tins_def Let_def)
  have "\<exists>ev. audit_emit 9 1 a ''change.target_lock_acquired'' ''target_lock'' i [
      (''target_type'', JStr (lk_type ?l)), (''target_identifier'', JStr (lk_identifier ?l)),
      (''execution_id'', JStr (id_str 101))] d = Inr (d\<lparr>audit_log := audit_log d @ [ev]\<rparr>)" for i d
    using length_id_str [of 101]
    by (intro audit_emit_succeeds) (simp_all add: sample_event_simps new_lock_def sample_target_def)
  then obtain ev where "audit_emit 9 1 a ''change.target_lock_acquired'' ''target_lock'' (next_id d) [
      (''target_type'', JStr (lk_type ?l)), (''target_identifier'', JStr (lk_identifier ?l)),
      (''execution_id'', JStr (id_str 101))] ?d = Inr (?d\<lparr>audit_log := audit_log ?d @ [ev]\<rparr>)"
    by blast
  then show ?thesis
    using c by (simp add: acquire_target_locks_def)
qed

lemma ready_hash_length: "length (inputs_hash (ready_change s)) = 64"
  using sha256_canonical_ne [of "JObj []"]
  by (simp add: inputs_hash_def ready_change_def sample_change_def sha256_canonical_json_def Let_def)

lemma ready_dispatch:
  assumes s: "s \<in> {ChApproved, ChScheduled}"
  shows "\<exists>d'. make_dispatchable sample_env 9 ''n0'' None 30 (ready_db s) = Inr d'"
proof -
  let ?a = "system_actor ''Change service''"
  obtain ev ec where pf: "run_dispatch_preflight 9 30 (Some ?a) (ready_db s) =
      ((ready_db s)\<lparr>next_id := 101, elig_checks := [(100, ec)], audit_log := audit_log (ready_db s) @ [ev]\<rparr>, Inr (100, ec))"
    and ok: "ec_passed ec" and key: "ec_pool_key ec = []" by (rule ready_preflight [OF s])
  let ?d1 = "(ready_db s)\<lparr>next_id := 101, elig_checks := [(100, ec)], audit_log := audit_log (ready_db s) @ [ev]\<rparr>"
  have "\<not> isl (res_bind (raw_steps (wf_schema_version sample_workflow)
     (items_of (fget (fields_of (wf_definition sample_workflow)) ''steps'' JNull))) (step_rows 101))"
    by code_simp
  from sample_create_execution [OF _ _ this, of ?d1 9 "Some ?a"]
  obtain d2 where ce: "create_execution sample_env 9 20 (Some ?a) Live True ?d1 = Inr (d2, 101)" by auto
  note f2 = create_execution_frame(2,4) [OF ce]
  from f2(2) obtain x where x: "executions d2 = [(101, x)]" "ex_workflow x = 20" "ex_org x = 1"
    by (auto simp: tins_def tget_def sample_workflow_def)
  from f2(1) have t2: "changes d2 = [(30, (ready_change s))]" "bindings d2 = []" "target_locks d2 = []"
      "change_targets d2 = [(35, sample_target 1 ''web-1'')]" "op_profiles d2 = [(10, sample_profile)]"
      "workflows d2 = [(20, sample_workflow)]"
    and cfg: "cfg d2 = sample_secret"
    by (simp_all add: dispatch_tables_def)
  obtain d3 where lk: "acquire_target_locks 9 30 (ready_change s) 101 ?a d2 = Inr d3"
    and t3: "changes d3 = changes d2" "bindings d3 = bindings d2" "op_profiles d3 = op_profiles d2"
      "workflows d3 = workflows d2" "executions d3 = executions d2" "cfg d3 = cfg d2"
    using ready_locks [OF t2(4,3)] by blast
  obtain d4 i where rb: "reserve_binding 9 ''n0'' 30 (ready_change s) 101 sample_profile d3 = Inr (d4, i)"
    and t4: "changes d4 = changes d3" "op_profiles d4 = op_profiles d3" "workflows d4 = workflows d3"
    using ready_binding [of d3 s 101 x] t2 t3 cfg x by (auto simp: tget_def)
  obtain d5 where tr: "transition_change 9 30 ChDispatchable None [] [] d4 = Inr (d5, s)"
    using sample_transition_of [of d4 "ready_change s" s ChDispatchable 9 None "[]" "[]"]
      sample_event_moved [of "[]" 9] ready_snapshot_eq t2 t3 t4 s by auto
  have "\<exists>ev. audit_emit 9 1 ?a ''change.execution_binding_reserved'' ''change_execution_binding'' i [
      (''change_record_id'', JStr (id_str 30)), (''execution_id'', JStr (id_str 101)),
      (''operation_profile_key'', JStr (op_key sample_profile)),
      (''requested_inputs_sha256'', JStr (inputs_hash (ready_change s)))] d5 =
      Inr (d5\<lparr>audit_log := audit_log d5 @ [ev]\<rparr>)"
    using length_id_str [of 30] length_id_str [of 101] ready_hash_length
    by (intro audit_emit_succeeds) (simp_all add: sample_event_simps sample_profile_def)
  then obtain d6 where em: "audit_emit 9 1 ?a ''change.execution_binding_reserved'' ''change_execution_binding'' i [
      (''change_record_id'', JStr (id_str 30)), (''execution_id'', JStr (id_str 101)),
      (''operation_profile_key'', JStr (op_key sample_profile)),
      (''requested_inputs_sha256'', JStr (inputs_hash (ready_change s)))] d5 = Inr d6" by blast
  have "op_org sample_profile = 1" "wf_org sample_workflow = 1"
    by (simp_all add: sample_profile_def sample_workflow_def)
  then have rv: "reserve_execution sample_env 9 ''n0'' None 30 (ready_change s) ec ?d1 = Inr d6"
    using ce lk rb tr em by (simp add: reserve_execution_def tget_def key set_pool_def)
  have "enforce_emergency_expiry_for_change 9 30 (ready_db s) = ((ready_db s), Inr ())"
    by (simp add: enforce_emergency_expiry_for_change_def expire_exceptions_def expire_breakglass_sessions_def tsel_def)
  moreover have "ensure_verification_plan 9 30 ?a True (ready_db s) = Inr ((ready_db s), None)"
    by (simp add: ensure_verification_plan_def tget_def sample_profile_def)
  moreover have "passed_preflight 9 30 ?a (ready_db s) = Inr (?d1, ec)"
    by (simp add: passed_preflight_def get_fresh_passed_preflight_def tsel_def pf atomic_def ok)
  ultimately show ?thesis
    using rv ready_intact s by (auto simp: make_dispatchable_def tget_def dispatch_guard_def atomic_def)
qed


theorem dispatch_excludes_witness:
  "\<exists>d'. make_dispatchable sample_env 9 ''n0'' None 30 (ready_db ChApproved) = Inr d' \<and> locks_exclusive d' \<and>
     (1, ''host'', ''web-1'') \<in> set (active_keys (target_locks d'))"
proof -
  obtain d' where r: "make_dispatchable sample_env 9 ''n0'' None 30 (ready_db ChApproved) = Inr d'"
    using ready_dispatch [of ChApproved] by auto
  have "locks_exclusive (ready_db ChApproved)" by (simp add: locks_exclusive_def active_keys_def)
  from dispatch_excludes [OF r this] r show ?thesis
    by (auto simp: tget_def sample_target_def)
qed

theorem promotion_promotes_due_witness:
  "\<exists>d' c'. promote_due_scheduled_changes sample_env 9 (\<lambda>_. ''n0'') (ready_db ChScheduled) = (d', [30]) \<and>
     tget (changes d') 30 = Some c' \<and> ch_status c' = ChDispatchable"
proof -
  obtain d' where r: "make_dispatchable sample_env 9 ''n0'' None 30 (ready_db ChScheduled) = Inr d'"
    using ready_dispatch [of ChScheduled] by auto
  then have p: "promote_due_scheduled_changes sample_env 9 (\<lambda>_. ''n0'') (ready_db ChScheduled) = (d', [30])"
    by (simp add: promote_due_scheduled_changes_def tsel_def due_def tget_def)
  from promotion_promotes_due [OF p] p show ?thesis by auto
qed

theorem decision_moves_change_witness:
  "\<exists>d' c'. handle_change_approval_decision sample_env 9 ''n0'' 50 Rejected None (ready_db ChPendingApproval) = Inr d' \<and>
     tget (changes d') 30 = Some c' \<and> ch_status c' = ChRejected"
proof -
  let ?d = "ready_db ChPendingApproval"
  obtain d' where "transition_change 9 30 ChRejected None ''approval_rejected'' [] ?d = Inr (d', ChPendingApproval)"
    using sample_transition_of [of ?d "ready_change ChPendingApproval" ChPendingApproval ChRejected 9 None
        "''approval_rejected''" "[]"]
      sample_event_moved [of "''approval_rejected''" 9] ready_snapshot_eq by auto
  then have h: "handle_change_approval_decision sample_env 9 ''n0'' 50 Rejected None ?d = Inr d'"
    by (simp add: handle_change_approval_decision_def tsel_def ready_intact)
  from decision_moves_change [OF h] h show ?thesis
    by (auto simp: twf_def tkeys_def tget_def split: if_splits)
qed

end
