(* ===== verification/Execution_World.thy ===== *)
theory Execution_World
  imports Change_Exceptions Change_Dispatch
begin

text \<open>
  The operations on executions, on dispatch and on change approvals stay within \<open>world_grows\<close>:
  whatever a runner, a watchdog or an approver does, the audit log only grows, target locks stay
  exclusive, changes move along their table and decided approvals stay as they are. The rules of the
  first section say that the tables of executions, steps and leases and the outbox do not matter.
\<close>

section \<open>Tables outside the invariant\<close>

lemma world_runtime [intro]:
  assumes "world_grows d d1"
  shows "world_grows d (upd_exec e f d1)" and "world_grows d (upd_step i g d1)"
    and "world_grows d (send m d1)" and "world_grows d (send_all ms d1)"
    and "world_grows d (expire_leases now e st why d1)" and "world_grows d (d1\<lparr>exec_steps := t\<rparr>)"
  by (rule world.trans [OF assms], rule world_same;
      simp add: still_part_def approval_part_def store_defs send_all_def expire_leases_def)+

lemma world_emit:
  assumes "audit_emit now org a et ot oid md d1 = Inr d'" and "world_grows d d1"
  shows "world_grows d d'"
  using assms(2) audit_emit_world [OF assms(1)] by (rule world.trans)

lemma world_of_progress: "change_progress d1 d' \<Longrightarrow> world_grows d d1 \<Longrightarrow> world_grows d d'"
  by (blast intro: world.trans progress_world)

lemma completion_hook_world: "world_grows d d1 \<Longrightarrow> world_grows d (completion_hook_logged now e s d1)"
  unfolding completion_hook_logged_def
  by (auto split: sum.splits dest: handle_bound_execution_completed_progress intro: world_of_progress)

section \<open>Executions\<close>

lemma create_execution_world [world_rules]:
  "create_execution env now w actor mode fc d = Inr (d', e) \<Longrightarrow> world_grows d d'"
  by (rule create_execution_frame(1))

lemma cancel_execution_world [world_rules]:
  assumes "cancel_execution now e actor d = Inr d'"
  shows "world_grows d d'"
  using assms unfolding cancel_execution_def Let_def
  by (auto simp: res_bind_eq_Inr split: option.splits if_splits
      intro!: world_runtime world.refl dest!: world_emit [where d = d])

lemma recover_one_world:
  assumes "recover_one now th sb e d = Inr (d', b)"
  shows "world_grows d d'"
  using assms unfolding recover_one_def Let_def
  by (auto simp: res_bind_eq_Inr split: option.splits if_splits
      intro!: world_runtime world.refl completion_hook_world dest!: world_emit [where d = d])

lemma recover_all_world:
  "recover_all now th sb es rec d = (d', r) \<Longrightarrow> world_grows d d'"
proof (induction es arbitrary: rec d)
  case (Cons e es)
  show ?case
  proof (cases "recover_one now th sb e d")
    case (Inr p)
    then obtain d1 b where p: "recover_one now th sb e d = Inr (d1, b)" by (cases p) auto
    with Cons.prems have "recover_all now th sb es (if b then rec @ [e] else rec) d1 = (d', r)" by simp
    from Cons.IH [OF this] recover_one_world [OF p] show ?thesis by (blast intro: world.trans)
  qed (use Cons.prems in \<open>auto intro: world.refl\<close>)
qed (auto intro: world.refl)

lemma recover_stuck_world [world_rules]:
  "recover_stuck_executions now th d = (d', r) \<Longrightarrow> world_grows d d'"
  by (auto simp: recover_stuck_executions_def Let_def intro: recover_all_world)

lemma approval_timeout_tx_world:
  assumes "approval_timeout_tx now e x i s a req d = Inr d'"
  shows "world_grows d d'"
  using assms unfolding approval_timeout_tx_def Let_def
  by (auto simp: res_bind_eq_Inr intro!: world_runtime world.refl elim!: world_emit)

lemma fail_for_approval_timeout_world [world_rules]:
  assumes "fail_execution_for_approval_timeout now e i a req d = Inr (d', b)"
  shows "world_grows d d'"
  using assms unfolding fail_execution_for_approval_timeout_def
  by (auto simp: res_bind_eq_Inr split: option.splits if_splits
      intro!: world.refl completion_hook_world world_runtime dest!: approval_timeout_tx_world)

lemma heartbeat_execution_world [world_rules]:
  assumes "heartbeat_execution now e rid tok d = (d', r)"
  shows "world_grows d d'"
  using assms unfolding heartbeat_execution_def
  by (auto simp: then_do_eq split: option.splits if_splits sum.splits
      intro!: world_runtime world.refl
      dest!: progress_world [OF enforce_emergency_expiry_for_execution_progress])

lemma emit_step_transition_world:
  assumes "emit_step_transition_audit now e x i s rid p n er d1 = Inr d'" and "world_grows d d1"
  shows "world_grows d d'"
  using assms unfolding emit_step_transition_audit_def
  by (auto simp: res_bind_eq_Inr split: option.splits elim!: world_emit)

lemma update_execution_step_world [world_rules]:
  assumes "update_execution_step now e i rid tok new rep allow d = Inr d'"
  shows "world_grows d d'"
  using assms unfolding update_execution_step_def Let_def
  by (auto simp: res_bind_eq_Inr split: option.splits if_splits
      intro!: world_runtime world.refl dest!: emit_step_transition_world [where d = d])

lemma complete_execution_world [world_rules]:
  assumes "complete_execution now e rid tok out d = (d', r)"
  shows "world_grows d d'"
proof -
  have tx: "world_grows d d1" if "complete_tx now e rid tok out d = Inr d1" for d1
    using that unfolding complete_tx_def Let_def
    by (auto simp: res_bind_eq_Inr atomic_Inr split: option.splits if_splits
        intro!: world_runtime elim!: world_emit dest!: progress_world [OF assert_binding_ready_progress])
  from assms show ?thesis
    unfolding complete_execution_def Let_def
    by (auto split: sum.splits intro!: world.refl world_runtime
        dest!: handle_bound_execution_completed_progress tx elim!: world_of_progress)
qed

lemma expire_unbound_world [world_rules]:
  assumes "expire_unbound_dispatch_for_execution now e d = Inr (d', skip)"
  shows "world_grows d d'"
  using assms
proof (cases rule: expire_unbound_cases)
  case (2 k d1)
  from 2(1) have "world_grows d d1" by (intro progress_world expire_dispatchable_change_progress)
  with 2(2) show ?thesis
    unfolding cancel_undispatched_def
    by (auto split: option.splits if_splits intro!: world_runtime elim!: world_emit)
qed (auto intro: world.refl)

section \<open>Change approvals\<close>

lemma schedule_or_make_dispatchable_world [world_rules]:
  assumes "schedule_or_make_dispatchable env now nonce actor k d = Inr d'"
  shows "world_grows d d'"
  using assms unfolding schedule_or_make_dispatchable_def
  by (auto simp: res_bind_eq_Inr split: option.splits if_splits
      intro: make_dispatchable_world progress_world [OF transition_change_progress])

lemma handle_change_approval_decision_world [world_rules]:
  assumes "handle_change_approval_decision env now nonce a dec actor d = Inr d'"
  shows "world_grows d d'"
  using assms unfolding handle_change_approval_decision_def
  by (auto simp: res_bind_eq_Inr split: option.splits if_splits decision.splits
      dest!: progress_world [OF transition_change_progress] schedule_or_make_dispatchable_world
      intro: world.trans)

lemma promote_due_world [world_rules]:
  "promote_due_scheduled_changes env now nonce d = (d', ps) \<Longrightarrow> world_grows d d'"
  by (simp add: promote_due_scheduled_changes_def promote_all_Inr)

end
