(* ===== verification/Approvals.thy ===== *)
theory Approvals
  imports Execution_World
begin

text \<open>
  \<open>apps/approvals/services.py\<close>: approval requests for changes, steps and exceptions; reading a
  request (which times it out), the watchdog that times out expired requests, and the decision.
  \<open>decide_approval\<close> and the watchdog run at the outermost level, so what their transaction
  commits stays, and the callbacks registered with \<open>transaction.on_commit\<close> run after it in
  autocommit mode. The payload of an integration notification is not modelled.
\<close>

section \<open>Requests for changes\<close>

definition create_change_approval_request ::
    "timestamp \<Rightarrow> nat \<Rightarrow> change \<Rightarrow> nat \<Rightarrow> int option \<Rightarrow> audit_actor option \<Rightarrow> db \<Rightarrow> (db \<times> nat) result" where
  "create_change_approval_request now k c org ttl actor d =
    (if org \<noteq> ch_org c
       then Inl (Domain DomainValidationError ''approval_change_organization_mismatch'')
     else let expires = map_option (\<lambda>t. now + secs t) ttl;
              (a, d) = fresh d;
              d = d\<lparr>approval_reqs := tins a
                \<lparr>ar_org = org, ar_subject_type = SubjChange, ar_subject_id = Some k, ar_exec = None,
                 ar_step = None, ar_status = ArPending, ar_runner = [], ar_requested_at = now,
                 ar_timeout = ttl, ar_expires_at = expires, ar_resolved_at = None\<rparr>
                (approval_reqs d)\<rparr>
       in res_bind (audit_emit now org (or_system actor) ''approval.requested'' ''approval_request'' a [
            (''approval_request_id'', JStr (id_str a)),
            (''subject_type'', JStr (subject_type_str SubjChange)),
            (''subject_id'', JStr (id_str k)),
            (''change_record_id'', JStr (id_str k)),
            (''timeout_seconds'', opt_json JInt ttl),
            (''expires_at'', iso_json expires)] d) (\<lambda>d.
          Inr (send (Notify ''approval.requested'' a) d, a)))"

section \<open>Requests for steps\<close>

text \<open>\<open>int(v)\<close>: a float is cut at its point (one printed with an exponent is not accepted).\<close>

fun json_to_int :: "json \<Rightarrow> int result" where
  "json_to_int (JInt i) = Inr i"
| "json_to_int (JBool b) = Inr (if b then 1 else 0)"
| "json_to_int (JStr s) =
    (case py_int s of None \<Rightarrow> Inl (PyError ''ValueError'') | Some i \<Rightarrow> Inr i)"
| "json_to_int (JFloat s) =
    (case split_on (CHR ''.'') s of
       [a, _] \<Rightarrow> (case py_int a of None \<Rightarrow> Inl (PyError ''OverflowError'') | Some i \<Rightarrow> Inr i)
     | _ \<Rightarrow> Inl (PyError ''OverflowError''))"
| "json_to_int _ = Inl (PyError ''TypeError'')"

definition check_runner_ownership :: "execution \<Rightarrow> string \<Rightarrow> string \<Rightarrow> unit result" where
  "check_runner_ownership x runner_id claim_token =
    (if ex_runner x \<noteq> runner_id
       then Inl (Domain InvalidStateTransitionError ''runner_ownership_mismatch'')
     else if token_text (ex_claim_token x) \<noteq> claim_token
       then Inl (Domain InvalidStateTransitionError ''claim_token_mismatch'')
     else Inr ())"

definition step_timeout :: "timestamp \<Rightarrow> exec_step \<Rightarrow> (int option \<times> timestamp option) result" where
  "step_timeout now s =
    res_bind (py_get (st_snapshot s) ''approvalTimeoutSeconds'' JNull) (\<lambda>v.
    if v = JNull then Inr (None, None)
    else res_bind (json_to_int v) (\<lambda>t. Inr (Some t, Some (now + secs t))))"

definition create_step_request ::
    "timestamp \<Rightarrow> nat \<Rightarrow> execution \<Rightarrow> nat \<Rightarrow> exec_step \<Rightarrow> string \<Rightarrow> nat option \<Rightarrow> db \<Rightarrow> (db \<times> nat) result" where
  "create_step_request now e x i s runner_id evaluation d =
    res_bind (step_timeout now s) (\<lambda>(timeout, expires).
      let s' = s\<lparr>st_status := StWaiting\<rparr>;
          d = upd_step i (\<lambda>s. s\<lparr>st_status := StWaiting\<rparr>) d;
          (a, d) = fresh d;
          d = d\<lparr>approval_reqs := tins a
            \<lparr>ar_org = ex_org x, ar_subject_type = SubjStep, ar_subject_id = Some i, ar_exec = Some e,
             ar_step = Some i, ar_status = ArPending, ar_runner = runner_id, ar_requested_at = now,
             ar_timeout = timeout, ar_expires_at = expires, ar_resolved_at = None\<rparr>
            (approval_reqs d)\<rparr>
      in res_bind (emit_step_transition_audit now e x i s' runner_id (st_status s) StWaiting [] d) (\<lambda>d.
         res_bind (audit_emit now (ex_org x) (actor_from_runner runner_id) ''approval.requested''
            ''approval_request'' a [
              (''execution_id'', JStr (id_str e)),
              (''step_id'', JStr (id_str i)),
              (''policy_evaluation_id'', JStr (case evaluation of None \<Rightarrow> [] | Some p \<Rightarrow> id_str p)),
              (''timeout_seconds'', opt_json JInt timeout),
              (''expires_at'', iso_json expires)] d) (\<lambda>d.
         Inr (send_all [step_event e i s', Notify ''approval.requested'' a] d, a))))"

text \<open>The boolean says whether the request was created by this call.\<close>

definition request_step_approval ::
    "timestamp \<Rightarrow> nat \<Rightarrow> nat \<Rightarrow> string \<Rightarrow> string \<Rightarrow> bool \<Rightarrow> nat option \<Rightarrow> db \<Rightarrow> (db \<times> nat \<times> bool) result" where
  "request_step_approval now e i runner_id claim_token policy_driven evaluation d =
    (case (tget (executions d) e, tget (exec_steps d) i) of
       (Some x, Some s) \<Rightarrow>
         if st_exec s \<noteq> e
           then Inl (Domain InvalidStateTransitionError ''step_execution_mismatch'')
         else res_bind (check_runner_ownership x runner_id claim_token) (\<lambda>_.
           case (if st_status s = StWaiting
                 then first_of (tsel (\<lambda>_ r. ar_step r = Some i) (approval_reqs d)) else None) of
             Some (a, _) \<Rightarrow> Inr (d, a, False)
           | None \<Rightarrow>
              if st_status s \<noteq> StPending
                then Inl (Domain InvalidStateTransitionError ''invalid_state_transition'')
              else if \<not> st_requires_approval s \<and> \<not> policy_driven
                then Inl (Domain InvalidStateTransitionError ''approval_not_required_for_step'')
              else if tsel (\<lambda>_ r. ar_step r = Some i) (approval_reqs d) \<noteq> []
                then Inl (IntegrityErr ''approval_request_step'')
              else res_bind (create_step_request now e x i s runner_id evaluation d) (\<lambda>(d, a).
                Inr (d, a, True)))
     | (None, _) \<Rightarrow> Inl (NotFound ''execution'')
     | (_, None) \<Rightarrow> Inl (NotFound ''execution_step''))"

section \<open>Decisions\<close>

definition decision_event :: "decision \<Rightarrow> string" where
  "decision_event dec = (case dec of
     Approved \<Rightarrow> ''approval.approved'' | Rejected \<Rightarrow> ''approval.rejected''
   | TimedOut \<Rightarrow> ''approval.timed_out'')"

definition opt_field :: "string \<Rightarrow> nat option \<Rightarrow> jdict" where
  "opt_field name x = (case x of None \<Rightarrow> [] | Some n \<Rightarrow> [(name, JStr (id_str n))])"

definition emit_approval_decision_audit ::
    "timestamp \<Rightarrow> nat \<Rightarrow> approval_request \<Rightarrow> nat \<Rightarrow> approval_decision \<Rightarrow> audit_actor \<Rightarrow> db \<Rightarrow> db result" where
  "emit_approval_decision_audit now a req j ad actor d =
    audit_emit now (ar_org req) actor (decision_event (ad_decision ad)) ''approval_decision'' j ([
      (''approval_request_id'', JStr (id_str a)),
      (''subject_type'', JStr (subject_type_str (ar_subject_type req))),
      (''decision'', JStr (decision_str (ad_decision ad))),
      (''notes_present'', JBool (ad_notes ad \<noteq> []))] @
      opt_field ''execution_id'' (ar_exec req) @ opt_field ''step_id'' (ar_step req) @
      opt_field ''subject_id'' (ar_subject_id req)) d"

definition resolve_request :: "timestamp \<Rightarrow> nat \<Rightarrow> approval_status \<Rightarrow> db \<Rightarrow> db" where
  "resolve_request now a st d =
    d\<lparr>approval_reqs := tupd a (\<lambda>r. r\<lparr>ar_status := st, ar_resolved_at := Some now\<rparr>) (approval_reqs d)\<rparr>"

definition timeout_decision :: "timestamp \<Rightarrow> nat \<Rightarrow> approval_decision" where
  "timeout_decision now a =
    \<lparr>ad_request = a, ad_decision = TimedOut, ad_source = System, ad_user = None,
     ad_label = ''system'', ad_label_source = ''system'', ad_notes = [], ad_decided_at = now\<rparr>"

text \<open>A decision on a change moves the change, in the same transaction.\<close>

definition notify_change ::
    "wf_env \<Rightarrow> timestamp \<Rightarrow> string \<Rightarrow> nat \<Rightarrow> approval_request \<Rightarrow> decision \<Rightarrow> audit_actor \<Rightarrow> db \<Rightarrow> db result" where
  "notify_change env now nonce a req dec actor d =
    (if ar_subject_type req = SubjChange
     then handle_change_approval_decision env now nonce a dec (Some actor) d else Inr d)"

text \<open>\<open>ApprovalDecision.objects.get_or_create\<close>; the boolean says whether it was created.\<close>

definition get_or_create_timeout :: "timestamp \<Rightarrow> nat \<Rightarrow> db \<Rightarrow> (db \<times> nat \<times> approval_decision \<times> bool) result" where
  "get_or_create_timeout now a d =
    (case first_of (tsel (\<lambda>_ e. ad_request e = a) (approval_decs d)) of
       Some (j, ad) \<Rightarrow> Inr (d, j, ad, False)
     | None \<Rightarrow> res_bind (insert_decision (timeout_decision now a) d) (\<lambda>(d, j).
         Inr (d, j, timeout_decision now a, True)))"

definition expired_request :: "timestamp \<Rightarrow> approval_request \<Rightarrow> bool" where
  "expired_request now r \<longleftrightarrow> ar_status r = ArPending \<and>
     (case ar_expires_at r of None \<Rightarrow> False | Some t \<Rightarrow> t \<le> now)"

text \<open>Reading a request resolves its timeout.\<close>

definition get_approval_status ::
    "wf_env \<Rightarrow> timestamp \<Rightarrow> nat \<Rightarrow> db \<Rightarrow> db result" where
  "get_approval_status env now a d =
    (case tget (approval_reqs d) a of
       None \<Rightarrow> Inl (NotFound ''approval_request'')
     | Some r \<Rightarrow>
        if \<not> expired_request now r then Inr d
        else res_bind (get_or_create_timeout now a (resolve_request now a ArTimedOut d)) (\<lambda>(d, j, ad, created).
          let r' = r\<lparr>ar_status := ArTimedOut, ar_resolved_at := Some now\<rparr>
          in res_bind (if created
               then emit_approval_decision_audit now a r' j ad (system_actor ''Django system'') d
               else Inr d) (\<lambda>d.
             notify_change env now [] a r' TimedOut (system_actor ''Django system'') d)))"

section \<open>The watchdog\<close>

definition timeout_metadata :: "nat \<Rightarrow> approval_request \<Rightarrow> jdict" where
  "timeout_metadata a r =
    [(''approval_request_id'', JStr (id_str a)),
     (''subject_type'', JStr (subject_type_str (ar_subject_type r))),
     (''expires_at'', iso_json (ar_expires_at r)),
     (''resolved_at'', iso_json (ar_resolved_at r)),
     (''reason'', JStr ''watchdog_approval_timeout''),
     (''recovery_source'', JStr ''watchdog'')] @
    opt_field ''execution_id'' (ar_exec r) @ opt_field ''step_id'' (ar_step r) @
    opt_field ''subject_id'' (ar_subject_id r)"

text \<open>The transaction of \<open>_recover_expired_approval\<close>; the boolean is whether it recovered.\<close>

definition recover_approval_tx :: "wf_env \<Rightarrow> timestamp \<Rightarrow> nat \<Rightarrow> db \<Rightarrow> (db \<times> bool) result" where
  "recover_approval_tx env now a d =
    (case tget (approval_reqs d) a of
       None \<Rightarrow> Inr (d, False)
     | Some r \<Rightarrow>
        if \<not> expired_request now r then Inr (d, False)
        else res_bind (get_or_create_timeout now a (resolve_request now a ArTimedOut d)) (\<lambda>(d, j, ad, created).
          if \<not> created then Inr (d, False)
          else let r' = r\<lparr>ar_status := ArTimedOut, ar_resolved_at := Some now\<rparr>;
                   sys = system_actor ''Django system''
            in res_bind (emit_approval_decision_audit now a r' j ad sys d) (\<lambda>d.
               res_bind (audit_emit now (ar_org r) sys ''approval.timeout'' ''approval_request'' a
                 (timeout_metadata a r') d) (\<lambda>d.
               if ar_subject_type r = SubjChange
                 then res_bind (notify_change env now [] a r' TimedOut sys d) (\<lambda>d. Inr (d, True))
               else (case (ar_exec r, ar_step r) of
                   (Some e, Some i) \<Rightarrow>
                     res_bind (fail_execution_for_approval_timeout now e i a r' d) (\<lambda>(d, _). Inr (d, True))
                 | _ \<Rightarrow> Inr (d, True))))))"

definition recover_expired_approval :: "wf_env \<Rightarrow> timestamp \<Rightarrow> nat \<Rightarrow> db \<Rightarrow> bool outcome" where
  "recover_expired_approval env now a d =
    (case recover_approval_tx env now a d of
       Inl e \<Rightarrow> (d, Inl e)
     | Inr (d', ok) \<Rightarrow>
        (if ok \<and> map_option ar_subject_type (tget (approval_reqs d) a) \<noteq> Some SubjChange
         then send (Notify ''approval.timeout'' a) d' else d', Inr ok))"

fun recover_approvals :: "wf_env \<Rightarrow> timestamp \<Rightarrow> nat list \<Rightarrow> nat list \<Rightarrow> db \<Rightarrow> nat list outcome" where
  "recover_approvals env now [] done d = (d, Inr done)"
| "recover_approvals env now (a # as) done d =
    then_do (recover_expired_approval env now a d) (\<lambda>d ok.
      recover_approvals env now as (if ok then done @ [a] else done) d)"

text \<open>The oldest deadlines first; requests with the same deadline are taken in row order.\<close>

definition recover_expired_approvals :: "wf_env \<Rightarrow> timestamp \<Rightarrow> int \<Rightarrow> db \<Rightarrow> nat list outcome" where
  "recover_expired_approvals env now batch d =
    (if batch < 1 then (d, Inr [])
     else recover_approvals env now
       (take (nat batch) (map fst (sort_key (\<lambda>(_, r). case ar_expires_at r of None \<Rightarrow> 0 | Some t \<Rightarrow> t)
          (tsel (\<lambda>_ r. expired_request now r) (approval_reqs d))))) [] d)"

section \<open>The decision\<close>

definition human_decision ::
    "timestamp \<Rightarrow> nat \<Rightarrow> decision \<Rightarrow> audit_actor \<Rightarrow> string \<Rightarrow> approval_decision" where
  "human_decision now a dec actor notes =
    \<lparr>ad_request = a, ad_decision = dec, ad_source = Human,
     ad_user = (if actor_type actor = ActorUser then Some (actor_id actor) else None),
     ad_label = actor_label actor,
     ad_label_source = (if actor_type actor = ActorUser then ''authenticated_user''
       else ''unverified_pre_auth''),
     ad_notes = notes, ad_decided_at = now\<rparr>"

text \<open>
  The transaction of \<open>decide_approval\<close>. The result is the decision's id, the exception whose
  review is to be created after the commit, and whether the call ends with the transaction.
\<close>

definition decide_tx ::
    "wf_env \<Rightarrow> timestamp \<Rightarrow> string \<Rightarrow> nat \<Rightarrow> decision \<Rightarrow> string \<Rightarrow> audit_actor \<Rightarrow> string option \<Rightarrow> db
      \<Rightarrow> (db \<times> nat \<times> nat option \<times> bool) result" where
  "decide_tx env now nonce a dec notes actor user d =
    (case tget (approval_reqs d) a of
       None \<Rightarrow> Inl (NotFound ''approval_request'')
     | Some r \<Rightarrow>
        if expired_request now r
        then res_bind (insert_decision (timeout_decision now a) (resolve_request now a ArTimedOut d)) (\<lambda>(d, j).
          let r' = r\<lparr>ar_status := ArTimedOut, ar_resolved_at := Some now\<rparr>;
              sys = system_actor ''Django system''
          in res_bind (emit_approval_decision_audit now a r' j (timeout_decision now a) sys d) (\<lambda>d.
             res_bind (notify_change env now nonce a r' TimedOut sys d) (\<lambda>d.
             Inr (d, j, None, True))))
        else if ar_status r \<noteq> ArPending
          then Inl (Domain DomainConflictError ''approval_request_not_pending'')
        else res_bind (if ar_subject_type r = SubjException
               then apply_exception_approval_decision now a dec actor user d else Inr (d, None)) (\<lambda>(d, hook).
          res_bind (insert_decision (human_decision now a dec actor notes)
              (resolve_request now a (decision_status dec) d)) (\<lambda>(d, j).
          let r' = r\<lparr>ar_status := decision_status dec, ar_resolved_at := Some now\<rparr>
          in res_bind (emit_approval_decision_audit now a r' j (human_decision now a dec actor notes) actor d) (\<lambda>d.
             res_bind (notify_change env now nonce a r' dec actor d) (\<lambda>d.
             Inr (d, j, hook, ar_subject_type r = SubjChange))))))"

text \<open>The callback of the exception runs when the transaction has committed: none is open then.\<close>

definition decide_approval ::
    "wf_env \<Rightarrow> timestamp \<Rightarrow> string \<Rightarrow> nat \<Rightarrow> decision \<Rightarrow> string \<Rightarrow> audit_actor option \<Rightarrow> string \<Rightarrow> string option
      \<Rightarrow> db \<Rightarrow> nat outcome" where
  "decide_approval env now nonce a dec notes actor label user d =
    (let act = (case actor of Some x \<Rightarrow> x | None \<Rightarrow>
         \<lparr>actor_type = ActorUnknown, actor_id = [],
          actor_label = (if label \<noteq> [] then label else ''Unauthenticated public API'')\<rparr>)
     in case decide_tx env now nonce a dec notes act user d of
          Inl e \<Rightarrow> (d, Inl e)
        | Inr (d, j, hook, finished) \<Rightarrow>
            then_do (case hook of None \<Rightarrow> (d, Inr None)
                     | Some i \<Rightarrow> ensure_retro_review_for_exception False now i d) (\<lambda>d _.
            (if finished then d else send (Notify ''approval.decided'' a) d, Inr j)))"

section \<open>The inbox\<close>

definition list_approvals ::
    "nat \<Rightarrow> string option \<Rightarrow> nat option \<Rightarrow> db \<Rightarrow> approval_request table" where
  "list_approvals org status execution_id d =
    sort_key (\<lambda>(_, r). - ar_requested_at r)
      (tsel (\<lambda>_ r. ar_org r = org \<and>
         (case status of
            Some s \<Rightarrow> if s = [] then ar_status r = ArPending
                      else s = ''all'' \<or> approval_status_str (ar_status r) = s
          | None \<Rightarrow> ar_status r = ArPending) \<and>
         (case execution_id of None \<Rightarrow> True | Some e \<Rightarrow> ar_exec r = Some e))
       (approval_reqs d))"

section \<open>What these operations may change\<close>

lemma world_new_request:
  assumes "world_grows d d1"
  shows "world_grows d (d1\<lparr>next_id := n, approval_reqs := tins a r (approval_reqs d1)\<rparr>)"
  by (rule world.trans [OF assms], rule world_requests)
    (simp_all add: still_part_def table_within_refl table_within_tins)

lemma create_change_approval_request_world [world_rules]:
  assumes "create_change_approval_request now k c org ttl actor d = Inr (d', a)"
  shows "world_grows d d'"
  using assms unfolding create_change_approval_request_def Let_def fresh_def
  by (auto simp: res_bind_eq_Inr split: if_splits
      intro!: world_runtime world_new_request world.refl elim!: world_emit)

lemma create_step_request_world:
  assumes "create_step_request now e x i s rid ev d = Inr (d', a)"
  shows "world_grows d d'"
proof -
  from assms obtain t ex where "step_timeout now s = Inr (t, ex)"
    unfolding create_step_request_def by (auto simp: res_bind_eq_Inr)
  with assms show ?thesis
    unfolding create_step_request_def Let_def fresh_def
    by (auto simp: res_bind_eq_Inr intro!: world_runtime world_new_request world.refl
        elim!: world_emit emit_step_transition_world)
qed

lemma request_step_approval_world [world_rules]:
  assumes "request_step_approval now e i rid tok driven ev d = Inr (d', a, created)"
  shows "world_grows d d'"
  using assms unfolding request_step_approval_def
  by (auto simp: res_bind_eq_Inr split: option.splits if_splits
      intro: world.refl dest!: create_step_request_world)

lemma resolve_request_world:
  "tget (approval_reqs d) a = Some r \<Longrightarrow> ar_status r = ArPending \<Longrightarrow> world_grows d (resolve_request now a st d)"
  unfolding resolve_request_def by (rule decide_request_world)

lemma get_or_create_timeout_world:
  "get_or_create_timeout now a d = Inr (d', j, ad, created) \<Longrightarrow> world_grows d d'"
  unfolding get_or_create_timeout_def
  by (auto simp: res_bind_eq_Inr split: option.splits intro: world.refl insert_decision_world)

lemma emit_approval_decision_world:
  "emit_approval_decision_audit now a r j ad actor d = Inr d' \<Longrightarrow> world_grows d d'"
  unfolding emit_approval_decision_audit_def by (rule audit_emit_world)

lemma notify_change_world:
  "notify_change env now nonce a r dec actor d = Inr d' \<Longrightarrow> world_grows d d'"
  unfolding notify_change_def
  by (auto split: if_splits intro: world.refl handle_change_approval_decision_world)

lemma expired_pending: "expired_request now r \<Longrightarrow> ar_status r = ArPending"
  by (simp add: expired_request_def)

lemmas approval_worlds = resolve_request_world [OF _ expired_pending] get_or_create_timeout_world
  insert_decision_world emit_approval_decision_world notify_change_world

lemma get_approval_status_world [world_rules]:
  assumes "get_approval_status env now a d = Inr d'"
  shows "world_grows d d'"
proof (cases "tget (approval_reqs d) a")
  case (Some r)
  show ?thesis
  proof (cases "expired_request now r")
    case True
    note first = resolve_request_world [OF Some expired_pending [OF True], of now ArTimedOut]
    from assms Some True show ?thesis
      unfolding get_approval_status_def Let_def
      by (auto simp: res_bind_eq_Inr split: if_splits
          dest!: get_or_create_timeout_world emit_approval_decision_world notify_change_world
          intro: world.trans [OF first] world.trans [OF world.trans [OF first]]
            world.trans [OF world.trans [OF world.trans [OF first]]])
  qed (use assms Some in \<open>simp add: get_approval_status_def world.refl\<close>)
qed (use assms in \<open>simp add: get_approval_status_def\<close>)

text \<open>What a recovery went through.\<close>

lemma recover_approval_tx_Inr:
  assumes "recover_approval_tx env now a d = Inr (d', ok)"
  obtains (skip) "d' = d" "\<not> ok" "\<And>r. tget (approval_reqs d) a = Some r \<Longrightarrow> \<not> expired_request now r"
  | (kept) r j ad where "tget (approval_reqs d) a = Some r" "expired_request now r" "\<not> ok"
      "get_or_create_timeout now a (resolve_request now a ArTimedOut d) = Inr (d', j, ad, False)"
  | (timed) r d1 j ad d2 d3 where "tget (approval_reqs d) a = Some r" "expired_request now r" ok
      "get_or_create_timeout now a (resolve_request now a ArTimedOut d) = Inr (d1, j, ad, True)"
      "\<exists>r' ac. emit_approval_decision_audit now a r' j ad ac d1 = Inr d2"
      "\<exists>ac md. audit_emit now (ar_org r) ac ''approval.timeout'' ''approval_request'' a md d2 = Inr d3"
      "d' = d3 \<or> (\<exists>r' ac. notify_change env now [] a r' TimedOut ac d3 = Inr d') \<or>
         (\<exists>e i r' b. fail_execution_for_approval_timeout now e i a r' d3 = Inr (d', b))"
proof (cases "tget (approval_reqs d) a")
  case None
  with assms show thesis by (intro skip) (auto simp: recover_approval_tx_def)
next
  case (Some r)
  show thesis
  proof (cases "expired_request now r")
    case False
    with assms Some show thesis by (intro skip) (auto simp: recover_approval_tx_def)
  next
    case True
    with assms Some obtain d1 j ad b where g:
      "get_or_create_timeout now a (resolve_request now a ArTimedOut d) = Inr (d1, j, ad, b)"
      unfolding recover_approval_tx_def by (auto simp: res_bind_eq_Inr)
    note red = assms [unfolded recover_approval_tx_def, unfolded Some option.case g res_bind_Inr prod.case Let_def]
    show thesis
    proof (cases b)
      case False
      with red True have "d' = d1" "\<not> ok" by auto
      with g Some True False show thesis by (intro kept) auto
    next
      case b: True
      from red True b obtain d2 d3 where
        "\<exists>r' ac. emit_approval_decision_audit now a r' j ad ac d1 = Inr d2"
        "\<exists>ac md. audit_emit now (ar_org r) ac ''approval.timeout'' ''approval_request'' a md d2 = Inr d3"
        "ok \<and> (d' = d3 \<or> (\<exists>r' ac. notify_change env now [] a r' TimedOut ac d3 = Inr d') \<or>
         (\<exists>e i r' b. fail_execution_for_approval_timeout now e i a r' d3 = Inr (d', b)))"
        by (auto simp: res_bind_eq_Inr split: if_splits option.splits) blast+
      with g Some True b show thesis by (intro timed) auto
    qed
  qed
qed

lemma recover_approval_tx_world:
  assumes "recover_approval_tx env now a d = Inr (d', ok)"
  shows "world_grows d d'"
  using assms
proof (cases rule: recover_approval_tx_Inr)
  case (kept r j ad)
  show ?thesis
    by (rule world.trans [OF resolve_request_world [OF kept(1) expired_pending [OF kept(2)]]
          get_or_create_timeout_world [OF kept(4)]])
next
  case (timed r d1 j ad d2 d3)
  have "world_grows d d1"
    by (rule world.trans [OF resolve_request_world [OF timed(1) expired_pending [OF timed(2)]]
          get_or_create_timeout_world [OF timed(4)]])
  moreover have "world_grows d1 d2" using timed(5) emit_approval_decision_world by blast
  moreover have "world_grows d2 d3" using timed(6) audit_emit_world by blast
  moreover have "world_grows d3 d'"
    using timed(7) by (auto intro: world.refl notify_change_world fail_for_approval_timeout_world)
  ultimately show ?thesis by (meson world.trans)
qed (simp add: world.refl)

lemma recover_expired_approval_world:
  assumes "recover_expired_approval env now a d = (d', r)"
  shows "world_grows d d'"
  using assms unfolding recover_expired_approval_def
  by (auto split: sum.splits prod.splits if_splits
      intro!: world.refl world_runtime dest!: recover_approval_tx_world)

lemma recover_approvals_world:
  "recover_approvals env now as done d = (d', r) \<Longrightarrow> world_grows d d'"
proof (induction as arbitrary: "done" d)
  case (Cons a as)
  from Cons.prems show ?case
    by (auto simp: then_do_eq dest!: recover_expired_approval_world Cons.IH intro: world.trans)
qed (simp add: world.refl)

lemma recover_expired_approvals_world [world_rules]:
  "recover_expired_approvals env now batch d = (d', r) \<Longrightarrow> world_grows d d'"
  unfolding recover_expired_approvals_def
  by (auto split: if_splits intro: world.refl recover_approvals_world)

text \<open>What a decision went through: the timeout of a late request, or the decision itself.\<close>

lemma decide_tx_Inr:
  assumes "decide_tx env now nonce a dec notes actor user d = Inr (d', j, hook, fin)"
  obtains (late) r d1 d2 where "tget (approval_reqs d) a = Some r" "expired_request now r" "hook = None"
      "insert_decision (timeout_decision now a) (resolve_request now a ArTimedOut d) = Inr (d1, j)"
      "\<exists>r' ad ac. emit_approval_decision_audit now a r' j ad ac d1 = Inr d2"
      "\<exists>r' ac. notify_change env now nonce a r' TimedOut ac d2 = Inr d'"
  | (decided) r d0 d1 d2 where "tget (approval_reqs d) a = Some r" "\<not> expired_request now r" "ar_status r = ArPending"
      "if ar_subject_type r = SubjException
       then apply_exception_approval_decision now a dec actor user d = Inr (d0, hook) else d0 = d \<and> hook = None"
      "insert_decision (human_decision now a dec actor notes) (resolve_request now a (decision_status dec) d0) = Inr (d1, j)"
      "\<exists>r' ad ac. emit_approval_decision_audit now a r' j ad ac d1 = Inr d2"
      "notify_change env now nonce a (r\<lparr>ar_status := decision_status dec, ar_resolved_at := Some now\<rparr>) dec actor d2 = Inr d'"
proof (cases "tget (approval_reqs d) a")
  case None
  with assms show thesis by (simp add: decide_tx_def)
next
  case (Some r)
  show thesis
  proof (cases "expired_request now r")
    case True
    with assms Some show thesis
      unfolding decide_tx_def Let_def by (auto simp: res_bind_eq_Inr intro!: late [OF Some True])
  next
    case False
    with assms Some have p: "ar_status r = ArPending"
      unfolding decide_tx_def by (auto split: if_splits)
    with assms Some False obtain d0 where
      x: "if ar_subject_type r = SubjException
       then apply_exception_approval_decision now a dec actor user d = Inr (d0, hook) else d0 = d \<and> hook = None"
      and rest: "res_bind (insert_decision (human_decision now a dec actor notes)
              (resolve_request now a (decision_status dec) d0)) (\<lambda>(d, j).
          let r' = r\<lparr>ar_status := decision_status dec, ar_resolved_at := Some now\<rparr>
          in res_bind (emit_approval_decision_audit now a r' j (human_decision now a dec actor notes) actor d) (\<lambda>d.
             res_bind (notify_change env now nonce a r' dec actor d) (\<lambda>d.
             Inr (d, j, hook, ar_subject_type r = SubjChange)))) = Inr (d', j, hook, fin)"
      unfolding decide_tx_def by (auto simp: res_bind_eq_Inr Let_def split: if_splits)
    from rest show thesis
      unfolding Let_def by (auto simp: res_bind_eq_Inr intro: decided [OF Some False p x])
  qed
qed

text \<open>A decided request stays as it is.\<close>

lemma decided_stays:
  assumes "world_grows d d'" and "tget (approval_reqs d) a = Some r" and "ar_status r \<noteq> ArPending"
  shows "tget (approval_reqs d') a = Some r"
  using assms unfolding world_grows_def table_within_def request_row_ok_def by blast

lemma request_row:
  assumes "world_grows d d'" and "tget (approval_reqs d) a = Some r"
  shows "\<exists>r'. tget (approval_reqs d') a = Some r' \<and> request_row_ok r r'"
  using assms unfolding world_grows_def table_within_def by blast

lemma resolved_row:
  "tget (approval_reqs d) a = Some r \<Longrightarrow>
     tget (approval_reqs (resolve_request now a st d)) a = Some (r\<lparr>ar_status := st, ar_resolved_at := Some now\<rparr>)"
  by (simp add: resolve_request_def table_simps)

lemma decision_status_not_pending [simp]: "decision_status dec \<noteq> ArPending"
  by (cases dec) simp_all

text \<open>The request keeps its row until it is resolved, and the decision is the last word.\<close>

lemma decide_tx_row:
  assumes "decide_tx env now nonce a dec notes actor user d = Inr (d', j, hook, fin)"
  shows "world_grows d d' \<and> (\<exists>r r'. tget (approval_reqs d) a = Some r \<and> ar_status r = ArPending \<and>
    tget (approval_reqs d') a = Some r' \<and> ar_resolved_at r' = Some now \<and>
    ar_status r' = (if expired_request now r then ArTimedOut else decision_status dec))"
  using assms
proof (cases rule: decide_tx_Inr)
  case (late r d1 d2)
  let ?d = "resolve_request now a ArTimedOut d"
  have w: "world_grows ?d d'"
    using insert_decision_world [OF late(4)] late(5,6) emit_approval_decision_world notify_change_world
    by (meson world.trans)
  from decided_stays [OF w resolved_row [OF late(1)]] have
    "tget (approval_reqs d') a = Some (r\<lparr>ar_status := ArTimedOut, ar_resolved_at := Some now\<rparr>)" by simp
  moreover have "world_grows d d'"
    using resolve_request_world [OF late(1) expired_pending [OF late(2)]] w by (rule world.trans)
  ultimately show ?thesis using late(1,2) expired_pending [OF late(2)] by auto
next
  case (decided r d0 d1 d2)
  have w0: "world_grows d d0" and r0: "tget (approval_reqs d0) a = Some r"
  proof -
    have "change_progress d d0"
      using decided(4) by (auto split: if_splits intro: progress.refl apply_exception_decision_progress)
    then show "world_grows d d0" "tget (approval_reqs d0) a = Some r"
      using decided(1) by (auto simp: change_progress_def control_part_def)
  qed
  let ?d = "resolve_request now a (decision_status dec) d0"
  have w: "world_grows ?d d'"
    using insert_decision_world [OF decided(5)] decided(6,7) emit_approval_decision_world notify_change_world
    by (meson world.trans)
  from decided_stays [OF w resolved_row [OF r0]] have
    "tget (approval_reqs d') a = Some (r\<lparr>ar_status := decision_status dec, ar_resolved_at := Some now\<rparr>)" by simp
  moreover have "world_grows d d'"
    using world.trans [OF w0 resolve_request_world [OF r0 decided(3)]] w by (rule world.trans)
  ultimately show ?thesis using decided(1,2,3) by auto
qed

lemma decide_approval_cases:
  assumes "decide_approval env now nonce a dec notes actor label user d = (d', res)"
  obtains (refused) e act where "decide_tx env now nonce a dec notes act user d = Inl e" "res = Inl e" "d' = d"
  | (committed) act d1 j hook fin where "decide_tx env now nonce a dec notes act user d = Inr (d1, j, hook, fin)"
      "change_progress d1 d' \<or> (\<exists>d2. change_progress d1 d2 \<and> d' = send (Notify ''approval.decided'' a) d2)"
      "res = Inr j \<or> (\<exists>e. res = Inl e)"
proof -
  obtain act where act: "act = (case actor of Some x \<Rightarrow> x | None \<Rightarrow>
         \<lparr>actor_type = ActorUnknown, actor_id = [],
          actor_label = (if label \<noteq> [] then label else ''Unauthenticated public API'')\<rparr>)" by simp
  show thesis
  proof (cases "decide_tx env now nonce a dec notes act user d")
    case (Inl e)
    with assms show thesis
      by (intro refused) (auto simp: decide_approval_def Let_def act)
  next
    case (Inr p)
    obtain d1 j hook fin where p: "p = (d1, j, hook, fin)" by (cases p)
    from assms Inr [unfolded p] show thesis
      unfolding decide_approval_def Let_def
      by (intro committed [OF Inr [unfolded p]])
        (auto simp: then_do_eq act [symmetric] split: option.splits if_splits
          intro: progress.refl ensure_retro_review_progress)
  qed
qed

lemma decide_approval_world [world_rules]:
  assumes "decide_approval env now nonce a dec notes actor label user d = (d', res)"
  shows "world_grows d d'"
  using assms
proof (cases rule: decide_approval_cases)
  case (committed act d1 j hook fin)
  then show ?thesis
    using decide_tx_row [OF committed(1)] by (auto intro: world_of_progress world_runtime)
qed (simp add: world.refl)

section \<open>Properties\<close>

text \<open>
  C31: a request is decided once: deciding a request that is not pending is refused with a conflict and
  changes nothing. A decision that succeeds resolves the request as decided, or as timed out when
  its deadline has passed, whatever the user wanted; decided requests, decisions and the log
  are otherwise kept.
\<close>

theorem decision_is_final:
  assumes "decide_approval env now nonce a dec notes actor label user d = (d', res)"
    and "tget (approval_reqs d) a = Some r"
  shows "(ar_status r \<noteq> ArPending \<longrightarrow>
       res = Inl (Domain DomainConflictError ''approval_request_not_pending'') \<and> d' = d) \<and>
     (\<forall>j. res = Inr j \<longrightarrow> (\<exists>r'. tget (approval_reqs d') a = Some r' \<and> ar_resolved_at r' = Some now \<and>
        ar_status r' = (if expired_request now r then ArTimedOut else decision_status dec))) \<and>
     world_grows d d'"
  using assms(1)
proof (cases rule: decide_approval_cases)
  case (refused e act)
  then show ?thesis using assms(2)
    by (auto simp: decide_tx_def expired_request_def world.refl split: if_splits)
next
  case (committed act d1 j hook fin)
  from decide_tx_row [OF committed(1)] assms(2) obtain r' where r': "ar_status r = ArPending"
    "tget (approval_reqs d1) a = Some r'" "ar_resolved_at r' = Some now"
    "ar_status r' = (if expired_request now r then ArTimedOut else decision_status dec)" by auto
  from committed(2) have "world_grows d1 d'"
    by (auto intro: progress_world world_runtime)
  from decided_stays [OF this r'(2)] r'(4) have "tget (approval_reqs d') a = Some r'"
    by (auto split: if_splits)
  then show ?thesis using r' decide_approval_world [OF assms(1)] by auto
qed

lemma expire_exceptions_reviews:
  assumes "expire_exceptions now k d = (d', r)"
  shows "retro_reviews d' = retro_reviews d"
  using assms unfolding expire_exceptions_def
proof (rule each_keeps)
  fix p t t' q
  assume "expire_exception now t p = (t', q)"
  then show "retro_reviews t' = retro_reviews t"
    by (cases p) (auto simp: expire_exception_def commit_result_def Let_def
        split: sum.splits dest!: audit_emit_Inr)
qed

lemma apply_decision_reviews:
  assumes "apply_exception_approval_decision now a Approved actor (Some u) d = Inr (d', hook)"
  shows "retro_reviews d' = retro_reviews d"
  using assms
proof (rule apply_exception_decision_Inr)
  fix i x d1 y
  assume p: "pending_exception now i x d = Inr (d1, y)"
    and ap: "Approved = Approved \<Longrightarrow> \<exists>d2 d3 md. assert_exception_approver_allowed now i y actor (Some u) d1 = (d2, Inr ()) \<and>
       save_exception i (y\<lparr>xc_status := XcApproved, xc_approved_by := Some u, xc_approved_at := Some now\<rparr>) d2 = Inr d3 \<and>
       audit_emit now (xc_org y) actor ''change_exception.approved'' ''change_exception'' i md
         (mark_review_required y d3) = Inr d' \<and>
       hook = (if xc_type y \<in> set EXCEPTION_RETRO_REVIEW_REQUIRED_TYPES then Some i else None)"
  from ap expire_exceptions_reviews [OF pending_exception_Inr(1) [OF p]] show ?thesis
    by (auto simp: mark_review_required_def upd_change_def
        dest!: approver_allowed_Inr(1) save_exception_Inr audit_emit_Inr)
qed

lemma later_tables:
  assumes "insert_decision ad (resolve_request now a st d0) = Inr (d1, j)"
    and "\<exists>r' ad ac. emit_approval_decision_audit now a r' j ad ac d1 = Inr d2"
  shows "retro_reviews d2 = retro_reviews d0" and "change_exceptions d2 = change_exceptions d0"
    and "changes d2 = changes d0"
  using insert_decision_Inr(1) [OF assms(1)] assms(2)
  by (auto simp: emit_approval_decision_audit_def resolve_request_def dest!: audit_emit_Inr)

text \<open>
  When the approval of a severe exception commits, the callback that should create its review
  fails, because it locks the change outside a transaction: the caller sees an error although the
  exception is approved and the request decided, and no review exists. A change without other
  reviews then passes the closure gate, although a review was required of it.
\<close>

theorem severe_exception_left_without_review:
  assumes "decide_tx env now nonce a Approved notes act (Some u) d = Inr (d1, j, hook, fin)"
    and "tget (approval_reqs d) a = Some r" and "ar_subject_type r = SubjException" and "ar_expires_at r = None"
    and "tget (change_exceptions d) i = Some x" and "xc_approval x = Some a"
    and "xc_type x = ''policy_override'' \<or> xc_type x = ''missing_artifact''"
    and "twf (change_exceptions d)"
    and "\<forall>i' x'. tget (change_exceptions d) i' = Some x' \<longrightarrow> xc_approval x' = Some a \<longrightarrow> i' = i"
    and "tsel (\<lambda>_ v. rr_exception v = Some i) (retro_reviews d) = []"
  shows "\<exists>x'. decide_approval env now nonce a Approved notes (Some act) label (Some u) d =
       (d1, Inl (PyError ''TransactionManagementError'')) \<and>
     map_option ar_status (tget (approval_reqs d1) a) = Some ArApproved \<and>
     tget (change_exceptions d1) i = Some x' \<and> xc_status x' = XcApproved \<and>
     retro_reviews d1 = retro_reviews d \<and>
     (reviews_of d (xc_change x) = [] \<longrightarrow>
        (\<forall>t c. assert_retro_reviews_allow_closure t (xc_change x) c d1 = (d1, Inr ())))"
proof -
  have live: "\<not> expired_request now r" by (simp add: expired_request_def assms(4))
  from assms(1) obtain d0 d2 d3 where x: "apply_exception_approval_decision now a Approved act (Some u) d = Inr (d0, hook)"
    and i: "insert_decision (human_decision now a Approved act notes) (resolve_request now a ArApproved d0) = Inr (d2, j)"
    and e: "\<exists>r' ad ac. emit_approval_decision_audit now a r' j ad ac d2 = Inr d3" and n: "d1 = d3"
    by (cases rule: decide_tx_Inr) (use assms(2,3) live in \<open>auto simp: notify_change_def\<close>)
  note t = later_tables [OF i e]
  from exception_approval_effect [OF x assms(8)] obtain i0 x0 where
    f: "tget (change_exceptions d) i0 = Some x0" "xc_approval x0 = Some a"
      "tget (change_exceptions d0) i0 =
         Some (x0\<lparr>xc_status := XcApproved, xc_approved_by := Some u, xc_approved_at := Some now\<rparr>)"
      "xc_type x0 \<in> {''policy_override'', ''missing_artifact''} \<longrightarrow> hook = Some i0" by auto
  from assms(9) f(1,2) assms(5) have "i0 = i" "x0 = x" by simp_all
  with f assms(7) have f': "hook = Some i" "tget (change_exceptions d1) i =
      Some (x\<lparr>xc_status := XcApproved, xc_approved_by := Some u, xc_approved_at := Some now\<rparr>)"
    by (auto simp: n t)
  have rr: "retro_reviews d1 = retro_reviews d" by (simp add: n t apply_decision_reviews [OF x])
  have hook: "ensure_retro_review_for_exception False now i d1 = (d1, Inl (PyError ''TransactionManagementError''))"
    using assms(7,10) by (auto simp: ensure_retro_review_for_exception_def f'(2) rr
        EXCEPTION_RETRO_REVIEW_REQUIRED_TYPES_def)
  have dec: "decide_approval env now nonce a Approved notes (Some act) label (Some u) d =
      (d1, Inl (PyError ''TransactionManagementError''))"
    by (simp add: decide_approval_def Let_def assms(1) f'(1) hook)
  have st: "map_option ar_status (tget (approval_reqs d1) a) = Some ArApproved"
    using decide_tx_row [OF assms(1)] assms(2) live by auto
  have "assert_retro_reviews_allow_closure t (xc_change x) c d1 = (d1, Inr ())" if "reviews_of d (xc_change x) = []" for t c
    using that by (simp add: assert_retro_reviews_allow_closure_def reviews_of_def rr Let_def)
  with dec st f'(2) rr show ?thesis by auto
qed

lemma expired_stays:
  assumes "request_row_ok r r'" and "expired_request now r'"
  shows "expired_request now r"
  using assms by (auto simp: request_row_ok_def expired_request_def)

lemma recover_expired_approval_row:
  assumes "recover_expired_approval env now a d = (d', Inr ok)" and "tget (approval_reqs d) a = Some r"
  shows "if expired_request now r
    then map_option ar_status (tget (approval_reqs d') a) = Some ArTimedOut else \<not> ok \<and> d' = d"
proof -
  from assms(1) obtain d1 where tx: "recover_approval_tx env now a d = Inr (d1, ok)"
    and d': "approval_reqs d' = approval_reqs d1" "\<not> ok \<Longrightarrow> d' = d1"
    unfolding recover_expired_approval_def
    by (auto simp: send_def split: sum.splits prod.splits if_splits)
  show ?thesis
    using tx
  proof (cases rule: recover_approval_tx_Inr)
    case skip
    then show ?thesis using assms(2) d' by auto
  next
    case (kept r' j ad)
    from decided_stays [OF get_or_create_timeout_world [OF kept(4)] resolved_row [OF kept(1)]]
    show ?thesis using kept(1,2) assms(2) d' by simp
  next
    case (timed r' d2 j ad d3 d4)
    have "world_grows d2 d3" using timed(5) emit_approval_decision_world by blast
    moreover have "world_grows d3 d4" using timed(6) audit_emit_world by blast
    moreover have "world_grows d4 d1"
      using timed(7) by (auto intro: world.refl notify_change_world fail_for_approval_timeout_world)
    ultimately have "world_grows (resolve_request now a ArTimedOut d) d1"
      using get_or_create_timeout_world [OF timed(4)] by (meson world.trans)
    from decided_stays [OF this resolved_row [OF timed(1)]] show ?thesis
      using timed(1,2) assms(2) d' by simp
  qed
qed

lemma recover_approvals_row:
  assumes "recover_approvals env now as ids d = (d', Inr ids')" and "tget (approval_reqs d) a = Some r"
  shows "(a \<in> set as \<longrightarrow> (\<exists>r'. tget (approval_reqs d') a = Some r' \<and> \<not> expired_request now r')) \<and>
    (a \<in> set ids' \<longrightarrow> a \<in> set ids \<or> expired_request now r \<and>
       map_option ar_status (tget (approval_reqs d') a) = Some ArTimedOut)"
  using assms
proof (induction as arbitrary: ids d r)
  case (Cons b as)
  from Cons.prems(1) obtain d1 ok where one: "recover_expired_approval env now b d = (d1, Inr ok)"
    and rest: "recover_approvals env now as (if ok then ids @ [b] else ids) d1 = (d', Inr ids')"
    by (auto simp: then_do_eq)
  note w1 = recover_expired_approval_world [OF one] and w2 = recover_approvals_world [OF rest]
  from request_row [OF w1 Cons.prems(2)] obtain r1 where r1: "tget (approval_reqs d1) a = Some r1" "request_row_ok r r1" by blast
  from request_row [OF w2 r1(1)] obtain r2 where r2: "tget (approval_reqs d') a = Some r2" "request_row_ok r1 r2" by blast
  note ih = Cons.IH [OF rest r1(1)]
  show ?case
  proof (cases "a = b")
    case False
    with ih expired_stays [OF r1(2)] show ?thesis by (auto split: if_splits)
  next
    case True
    note row = recover_expired_approval_row [OF one, folded True, OF Cons.prems(2)]
    have "\<not> expired_request now r1"
      using row r1(1) Cons.prems(2) by (auto simp: expired_request_def split: if_splits)
    then have late: "\<not> expired_request now r2" using expired_stays [OF r2(2)] by blast
    have "expired_request now r \<and> map_option ar_status (tget (approval_reqs d') a) = Some ArTimedOut" if ok
    proof -
      from row that have e: "expired_request now r" "ar_status r1 = ArTimedOut"
        using r1(1) by (auto split: if_splits)
      from decided_stays [OF w2 r1(1)] e show ?thesis by simp
    qed
    with ih late r2(1) expired_stays [OF r1(2)] show ?thesis by (auto split: if_splits)
  qed
qed simp

text \<open>
  C33: a run of the watchdog that returns has timed out every pending request whose deadline had
  passed, if they fit the batch: none of them is still pending and expired. It reports only requests
  that had expired, and these are timed out.
\<close>

theorem watchdog_times_out_requests:
  assumes "recover_expired_approvals env now batch d = (d', Inr ids)"
    and "length (tsel (\<lambda>_ r. expired_request now r) (approval_reqs d)) \<le> nat batch"
    and "tget (approval_reqs d) a = Some r"
  shows "\<exists>r'. tget (approval_reqs d') a = Some r' \<and> \<not> (1 \<le> batch \<and> expired_request now r') \<and>
     (a \<in> set ids \<longrightarrow> expired_request now r \<and> ar_status r' = ArTimedOut) \<and>
     (ar_status r \<noteq> ArPending \<longrightarrow> r' = r) \<and> world_grows d d'"
proof (cases "batch < 1")
  case True
  with assms show ?thesis by (auto simp: recover_expired_approvals_def world.refl)
next
  case False
  let ?sel = "sort_key (\<lambda>(_, r). case ar_expires_at r of None \<Rightarrow> 0 | Some t \<Rightarrow> t)
          (tsel (\<lambda>_ r. expired_request now r) (approval_reqs d))"
  from assms(2) have "take (nat batch) (map fst ?sel) = map fst ?sel" by simp
  with assms(1) False have run: "recover_approvals env now (map fst ?sel) [] d = (d', Inr ids)"
    by (simp add: recover_expired_approvals_def)
  note w = recover_approvals_world [OF run] and row = recover_approvals_row [OF run assms(3)]
  from request_row [OF w assms(3)] obtain r' where r': "tget (approval_reqs d') a = Some r'" "request_row_ok r r'" by blast
  have "\<not> expired_request now r'"
  proof
    assume e: "expired_request now r'"
    with tget_SomeD [OF assms(3)] expired_stays [OF r'(2)] have
      "(a, r) \<in> set (tsel (\<lambda>_ r. expired_request now r) (approval_reqs d))" by simp
    from imageI [OF this, of fst] have "a \<in> set (map fst ?sel)" by simp
    with row r'(1) e show False by auto
  qed
  with r' row w False show ?thesis by (auto simp: request_row_ok_def)
qed

section \<open>Witnesses\<close>

lemma approval_keys:
  "\<not> sensitive ''notes_present''" "\<not> sensitive ''resolved_at''" "\<not> sensitive ''timeout_seconds''"
  by (simp_all add: sensitive_def lower_def lower_char_def code_point_def REJECTED_METADATA_KEYS_def
      FORBIDDEN_METADATA_KEYS_def)

lemma sample_decision_audit:
  assumes "ar_exec r \<in> {None, Some 40}" and "ar_step r \<in> {None, Some 45}"
    and "ar_subject_id r \<in> {None, Some 45, Some 70}"
  shows "\<exists>ev. emit_approval_decision_audit 9 71 r 100 ad actor d = Inr (d\<lparr>audit_log := audit_log d @ [ev]\<rparr>)"
proof -
  have st: "length (subject_type_str t) \<le> 16" "length (decision_str dec) \<le> 9" for t dec
    by (cases t; simp) (cases dec; simp)
  have ev: "strip (decision_event dec) \<noteq> [] \<and> length (decision_event dec) \<le> 128" for dec
    by (cases dec) (simp_all add: decision_event_def strip_def lstrip_def is_space_def code_point_def)
  show ?thesis
    unfolding emit_approval_decision_audit_def
    using assms st(1) [of "ar_subject_type r"] st(2) [of "ad_decision ad"]
      length_id_str [of 71] length_id_str [of 40] length_id_str [of 45] length_id_str [of 70]
    by (intro audit_emit_succeeds ev)
      (auto simp add: sample_event_simps approval_keys opt_field_def split: option.splits)
qed

definition sample_step_request :: "timestamp option \<Rightarrow> approval_request" where
  "sample_step_request deadline = \<lparr>ar_org = 1, ar_subject_type = SubjStep, ar_subject_id = Some 45, ar_exec = Some 40,
     ar_step = Some 45, ar_status = ArPending, ar_runner = ''r1'', ar_requested_at = 1,
     ar_timeout = None, ar_expires_at = deadline, ar_resolved_at = None\<rparr>"

definition step_request_db :: "timestamp option \<Rightarrow> db" where
  "step_request_db deadline = (running_db ExSucceeded StWaiting)\<lparr>next_id := 100,
     approval_reqs := [(71, sample_step_request deadline)]\<rparr>"

lemma step_request_rows:
  "approval_reqs (step_request_db t) = [(71, sample_step_request t)]" "approval_decs (step_request_db t) = []"
  "next_id (step_request_db t) = 100"
  by (simp_all add: step_request_db_def running_db_def sample_db_def empty_db_def)

lemma sample_insert:
  assumes "approval_decs d = []" and "next_id d = 100"
  shows "insert_decision ad d = Inr (d\<lparr>next_id := 101, approval_decs := [(100, ad)]\<rparr>, 100)"
  using assms by (simp add: insert_decision_def tsel_def fresh_def tins_def)

lemma sample_decide_tx:
  "\<exists>d'. decide_tx env 9 [] 71 Rejected [] actor None (step_request_db None) = Inr (d', 100, None, False)"
proof -
  let ?d = "(resolve_request 9 71 ArRejected (step_request_db None))\<lparr>next_id := 101,
     approval_decs := [(100, human_decision 9 71 Rejected actor [])]\<rparr>"
  have i: "insert_decision (human_decision 9 71 Rejected actor []) (resolve_request 9 71 ArRejected (step_request_db None)) =
      Inr (?d, 100)"
    by (rule sample_insert) (simp_all add: resolve_request_def step_request_rows)
  have "\<exists>ev. emit_approval_decision_audit 9 71 ((sample_step_request None)\<lparr>ar_status := ArRejected, ar_resolved_at := Some 9\<rparr>)
      100 ad actor ?d = Inr (?d\<lparr>audit_log := audit_log ?d @ [ev]\<rparr>)" for ad
    by (rule sample_decision_audit) (simp_all add: sample_step_request_def)
  then obtain ev where ev: "emit_approval_decision_audit 9 71 ((sample_step_request None)\<lparr>ar_status := ArRejected, ar_resolved_at := Some 9\<rparr>)
      100 (human_decision 9 71 Rejected actor []) actor ?d = Inr (?d\<lparr>audit_log := audit_log ?d @ [ev]\<rparr>)" by blast
  have r: "\<not> expired_request 9 (sample_step_request None)" "ar_status (sample_step_request None) = ArPending"
    "ar_subject_type (sample_step_request None) = SubjStep"
    by (simp_all add: expired_request_def sample_step_request_def)
  show ?thesis
    by (simp add: decide_tx_def step_request_rows tget_def r i ev Let_def notify_change_def)
qed

theorem decision_is_final_witness:
  "\<exists>d' r. decide_approval sample_env 9 [] 71 Rejected [] (Some (system_actor ''s'')) [] None (step_request_db None) = (d', Inr 100) \<and>
     tget (approval_reqs d') 71 = Some r \<and> ar_status r = ArRejected"
proof -
  obtain d1 where "decide_tx sample_env 9 [] 71 Rejected [] (system_actor ''s'') None (step_request_db None) = Inr (d1, 100, None, False)"
    using sample_decide_tx by blast
  then have d: "decide_approval sample_env 9 [] 71 Rejected [] (Some (system_actor ''s'')) [] None (step_request_db None) =
      (send (Notify ''approval.decided'' 71) d1, Inr 100)"
    by (simp add: decide_approval_def)
  have r: "tget (approval_reqs (step_request_db None)) 71 = Some (sample_step_request None)"
    by (simp add: step_request_rows tget_def)
  have "\<not> expired_request 9 (sample_step_request None)" by (simp add: expired_request_def sample_step_request_def)
  with decision_is_final [OF d r] d show ?thesis by auto
qed

theorem severe_exception_left_without_review_witness:
  "\<exists>d1. decide_approval sample_env 9 [] 71 Approved [] (Some (system_actor ''ann'')) [] (Some ''ann'') override_db =
      (d1, Inl (PyError ''TransactionManagementError'')) \<and>
    assert_retro_reviews_allow_closure 9 30 (sample_change ChVerified) d1 = (d1, Inr ())"
proof -
  let ?act = "system_actor ''ann''"
  obtain ev where x: "apply_exception_approval_decision 9 71 Approved ?act (Some ''ann'') override_db =
     Inr ((mark_review_required pending_override (override_db\<lparr>change_exceptions := [(70, approved_override)]\<rparr>))
       \<lparr>audit_log := audit_log override_db @ [ev]\<rparr>, Some 70)"
    using sample_exception_decision by blast
  obtain d0 where d0: "d0 = (mark_review_required pending_override (override_db\<lparr>change_exceptions := [(70, approved_override)]\<rparr>))
       \<lparr>audit_log := audit_log override_db @ [ev]\<rparr>" by simp
  let ?d = "(resolve_request 9 71 ArApproved d0)\<lparr>next_id := 101,
     approval_decs := [(100, human_decision 9 71 Approved ?act [])]\<rparr>"
  have i: "insert_decision (human_decision 9 71 Approved ?act []) (resolve_request 9 71 ArApproved d0) = Inr (?d, 100)"
    by (rule sample_insert)
      (simp_all add: resolve_request_def d0 mark_review_required_def upd_change_def override_rows)
  let ?r = "(exception_request 5 1 70)\<lparr>ar_status := ArApproved, ar_resolved_at := Some 9\<rparr>"
  have "\<exists>ev. emit_approval_decision_audit 9 71 ?r 100 (human_decision 9 71 Approved ?act []) ?act ?d =
      Inr (?d\<lparr>audit_log := audit_log ?d @ [ev]\<rparr>)"
    by (rule sample_decision_audit) (simp_all add: exception_request_def)
  then obtain ev2 where em: "emit_approval_decision_audit 9 71 ?r 100 (human_decision 9 71 Approved ?act []) ?act ?d =
      Inr (?d\<lparr>audit_log := audit_log ?d @ [ev2]\<rparr>)" by blast
  have r: "tget (approval_reqs override_db) 71 = Some (exception_request 5 1 70)"
    by (simp add: override_rows tget_def)
  have rf: "ar_subject_type (exception_request 5 1 70) = SubjException" "ar_expires_at (exception_request 5 1 70) = None"
    "ar_status (exception_request 5 1 70) = ArPending" "\<not> expired_request 9 (exception_request 5 1 70)"
    by (simp_all add: exception_request_def expired_request_def)
  have tx: "\<exists>d1. decide_tx sample_env 9 [] 71 Approved [] ?act (Some ''ann'') override_db = Inr (d1, 100, Some 70, False)"
    using em by (simp add: decide_tx_def r rf [simplified] x [folded d0] i Let_def notify_change_def)
  then obtain d1 where tx: "decide_tx sample_env 9 [] 71 Approved [] ?act (Some ''ann'') override_db = Inr (d1, 100, Some 70, False)"
    by blast
  have rows: "tget (change_exceptions override_db) 70 = Some pending_override" "twf (change_exceptions override_db)"
    "\<forall>i' x'. tget (change_exceptions override_db) i' = Some x' \<longrightarrow> xc_approval x' = Some 71 \<longrightarrow> i' = 70"
    "tsel (\<lambda>_ v. rr_exception v = Some 70) (retro_reviews override_db) = []" "reviews_of override_db 30 = []"
    by (auto simp: override_rows tget_def twf_def tsel_def reviews_of_def split: if_splits)
  show ?thesis
    using severe_exception_left_without_review [OF tx r rf(1,2) rows(1) _ _ rows(2-4), where label = "[]"] rows(5)
    by (auto simp: pending_override_fields)
qed

lemma sample_recovery:
  "\<exists>d'. recover_expired_approvals sample_env 9 100 (step_request_db (Some 5)) = (d', Inr [71])"
proof -
  let ?r = "(sample_step_request (Some 5))\<lparr>ar_status := ArTimedOut, ar_resolved_at := Some 9\<rparr>"
  let ?d = "(resolve_request 9 71 ArTimedOut (step_request_db (Some 5)))\<lparr>next_id := 101,
     approval_decs := [(100, timeout_decision 9 71)]\<rparr>"
  have e: "expired_request 9 (sample_step_request (Some 5))" by (simp add: expired_request_def sample_step_request_def)
  have i: "insert_decision (timeout_decision 9 71) (resolve_request 9 71 ArTimedOut (step_request_db (Some 5))) = Inr (?d, 100)"
    by (rule sample_insert) (simp_all add: resolve_request_def step_request_rows)
  have decs: "approval_decs (resolve_request 9 71 ArTimedOut (step_request_db (Some 5))) = []"
    by (simp add: resolve_request_def step_request_rows)
  have g: "get_or_create_timeout 9 71 (resolve_request 9 71 ArTimedOut (step_request_db (Some 5))) =
      Inr (?d, 100, timeout_decision 9 71, True)"
    using decs by (simp add: get_or_create_timeout_def tsel_def i)
  have "\<exists>ev. emit_approval_decision_audit 9 71 ?r 100 (timeout_decision 9 71) (system_actor ''Django system'') ?d =
      Inr (?d\<lparr>audit_log := audit_log ?d @ [ev]\<rparr>)"
    by (rule sample_decision_audit) (simp_all add: sample_step_request_def)
  then obtain ev where em: "emit_approval_decision_audit 9 71 ?r 100 (timeout_decision 9 71) (system_actor ''Django system'') ?d =
      Inr (?d\<lparr>audit_log := audit_log ?d @ [ev]\<rparr>)" by blast
  let ?d2 = "?d\<lparr>audit_log := audit_log ?d @ [ev]\<rparr>"
  have iso: "length (isoformat 9) \<le> 32" "length (isoformat 5) \<le> 32"
    by (rule length_isoformat; simp)+
  have "\<exists>ev. audit_emit 9 1 (system_actor ''Django system'') ''approval.timeout'' ''approval_request'' 71
      (timeout_metadata 71 ?r) d = Inr (d\<lparr>audit_log := audit_log d @ [ev]\<rparr>)" for d
    using iso length_id_str [of 71] length_id_str [of 40] length_id_str [of 45]
    by (intro audit_emit_succeeds)
      (simp_all add: sample_event_simps approval_keys timeout_metadata_def opt_field_def sample_step_request_def)
  then obtain ev2 where em2: "audit_emit 9 1 (system_actor ''Django system'') ''approval.timeout'' ''approval_request'' 71
      (timeout_metadata 71 ?r) ?d2 = Inr (?d2\<lparr>audit_log := audit_log ?d2 @ [ev2]\<rparr>)" by blast
  have f: "fail_execution_for_approval_timeout 9 40 45 71 ?r (?d2\<lparr>audit_log := audit_log ?d2 @ [ev2]\<rparr>) =
      Inr (?d2\<lparr>audit_log := audit_log ?d2 @ [ev2]\<rparr>, False)"
    by (simp add: fail_execution_for_approval_timeout_def resolve_request_def step_request_db_def running_db_def
        tget_def sample_step_def sample_execution_def)
  have tx: "recover_approval_tx sample_env 9 71 (step_request_db (Some 5)) =
      Inr (?d2\<lparr>audit_log := audit_log ?d2 @ [ev2]\<rparr>, True)"
    using e g em em2 f
    by (simp add: recover_approval_tx_def step_request_rows tget_def Let_def) (simp add: sample_step_request_def)
  show ?thesis
    by (simp add: recover_expired_approvals_def step_request_rows tsel_def e recover_expired_approval_def tx)
qed

theorem watchdog_times_out_requests_witness:
  "\<exists>d' r'. recover_expired_approvals sample_env 9 100 (step_request_db (Some 5)) = (d', Inr [71]) \<and>
     tget (approval_reqs d') 71 = Some r' \<and> ar_status r' = ArTimedOut"
proof -
  obtain d' where d: "recover_expired_approvals sample_env 9 100 (step_request_db (Some 5)) = (d', Inr [71])"
    using sample_recovery by blast
  have "length (tsel (\<lambda>_ r. expired_request 9 r) (approval_reqs (step_request_db (Some 5)))) \<le> nat 100"
    by (simp add: step_request_rows tsel_def)
  moreover have "tget (approval_reqs (step_request_db (Some 5))) 71 = Some (sample_step_request (Some 5))"
    by (simp add: step_request_rows tget_def)
  ultimately show ?thesis using watchdog_times_out_requests [OF d] d by fastforce
qed

end
