(* ===== verification/Change_Calendar.thy ===== *)
theory Change_Calendar
  imports Approvals
begin

text \<open>
  The calendar of a change (\<open>apps/changes/services.py\<close>): the maintenance window of a change and
  the freeze rules of an organization. Rescheduling an approved change voids its approval. The
  functions on freeze rules are not transactional: a rule is saved before its event is emitted.
\<close>

section \<open>Windows\<close>

definition WINDOW_ALLOWED_STATUSES :: "change_status list" where
  "WINDOW_ALLOWED_STATUSES = [ChDraft, ChPendingApproval, ChApproved, ChScheduled]"

definition WINDOW_INVALIDATION_STATUSES :: "change_status list" where
  "WINDOW_INVALIDATION_STATUSES = [ChApproved, ChScheduled]"

text \<open>The actor of an operation of the change service, and the user id it is recorded under.\<close>

definition or_service :: "audit_actor option \<Rightarrow> audit_actor" where
  "or_service actor = (case actor of None \<Rightarrow> system_actor ''Change service'' | Some a \<Rightarrow> a)"

definition user_of :: "audit_actor \<Rightarrow> string option" where
  "user_of a = (if actor_type a = ActorUser then Some (actor_id a) else None)"

definition invalidate_change_approval ::
    "timestamp \<Rightarrow> nat \<Rightarrow> change \<Rightarrow> audit_actor \<Rightarrow> db \<Rightarrow> db result" where
  "invalidate_change_approval now k c actor d =
    res_bind (change_save k (c\<lparr>ch_status := ChPendingApproval,
        ch_stamps := AList.delete ''approved_at'' (ch_stamps c)\<rparr>) d) (\<lambda>d.
    audit_emit now (ch_org c) actor ''change.approval_invalidated'' ''change_record'' k [
      (''previous_status'', JStr (change_status_str (ch_status c))),
      (''reason'', JStr ''window_updated'')] d)"

text \<open>The approval is voided when the change had one.\<close>

definition void_approval ::
    "timestamp \<Rightarrow> nat \<Rightarrow> change \<Rightarrow> audit_actor \<Rightarrow> db \<Rightarrow> (db \<times> bool) result" where
  "void_approval now k c actor d =
    (if ch_status c \<in> set WINDOW_INVALIDATION_STATUSES
     then (case tget (op_profiles d) (ch_profile c) of
        None \<Rightarrow> Inl (NotFound ''operation_profile'')
      | Some p \<Rightarrow>
          if op_requires_approval p
            then res_bind (invalidate_change_approval now k c actor d) (\<lambda>d. Inr (d, True))
          else Inr (d, False))
     else Inr (d, False))"

text \<open>The window row of the change \<open>k\<close>: updated, or created when there is none.\<close>

definition put_window ::
    "nat \<Rightarrow> change \<Rightarrow> timestamp \<Rightarrow> timestamp \<Rightarrow> string \<Rightarrow> string \<Rightarrow> window_status \<Rightarrow> string option \<Rightarrow> db
      \<Rightarrow> db \<times> nat" where
  "put_window k c starts ends tz reason st by d =
    (case window_of d k of
       Some (i, w) \<Rightarrow>
         (d\<lparr>windows := tupd i (\<lambda>w. w\<lparr>wn_starts_at := starts, wn_ends_at := ends, wn_timezone := tz,
            wn_reason := reason, wn_status := st, wn_updated_by := by\<rparr>) (windows d)\<rparr>, i)
     | None \<Rightarrow>
         let (i, d) = fresh d in
         (d\<lparr>windows := tins i \<lparr>wn_org = ch_org c, wn_change = k, wn_starts_at = starts,
            wn_ends_at = ends, wn_status = st, wn_overrun_at = None, wn_closed_at = None,
            wn_timezone = tz, wn_reason = reason, wn_updated_by = by\<rparr> (windows d)\<rparr>, i))"

text \<open>
  \<open>create_or_update_change_window\<close>; \<open>seen\<close> is the status of the caller's copy of the change,
  checked before the transaction locks the row and checks again.
\<close>

definition update_window_tx ::
    "timestamp \<Rightarrow> nat \<Rightarrow> timestamp \<Rightarrow> timestamp \<Rightarrow> string \<Rightarrow> string \<Rightarrow> audit_actor \<Rightarrow> db
      \<Rightarrow> (db \<times> nat) result" where
  "update_window_tx now k starts ends tz reason actor d =
    (case tget (changes d) k of
       None \<Rightarrow> Inl (NotFound ''change'')
     | Some c \<Rightarrow>
        if ch_status c \<notin> set WINDOW_ALLOWED_STATUSES
          then Inl (Domain InvalidStateTransitionError ''window_update_not_allowed'')
        else res_bind (void_approval now k c actor d) (\<lambda>(d, voided).
          let st = window_status_from_time starts ends now;
              (d, i) = put_window k c starts ends tz reason st (user_of actor) d
          in res_bind (audit_emit now (ch_org c) actor ''change.window_updated'' ''change_window'' i [
               (''change_record_id'', JStr (id_str k)),
               (''starts_at'', JStr (isoformat starts)),
               (''ends_at'', JStr (isoformat ends)),
               (''window_status'', JStr (window_status_str st)),
               (''approval_invalidated'', JBool voided)] d) (\<lambda>d. Inr (d, i))))"

definition create_or_update_change_window ::
    "timestamp \<Rightarrow> nat \<Rightarrow> change_status \<Rightarrow> timestamp \<Rightarrow> timestamp \<Rightarrow> string \<Rightarrow> string \<Rightarrow> audit_actor option
      \<Rightarrow> db \<Rightarrow> (db \<times> nat) result" where
  "create_or_update_change_window now k seen starts ends tz reason actor d =
    (if seen \<notin> set WINDOW_ALLOWED_STATUSES
       then Inl (Domain InvalidStateTransitionError ''window_update_not_allowed'')
     else if ends \<le> starts then Inl (Domain DomainValidationError ''window_ends_before_starts'')
     else update_window_tx now k starts ends tz reason (or_service actor) d)"

section \<open>Freeze rules\<close>

definition emit_freeze_rule_audit ::
    "timestamp \<Rightarrow> nat \<Rightarrow> freeze_rule \<Rightarrow> string \<Rightarrow> audit_actor option \<Rightarrow> jdict \<Rightarrow> db \<Rightarrow> db result" where
  "emit_freeze_rule_audit now i r et actor extra d =
    audit_emit now (fz_org r) (or_service actor) et ''freeze_rule'' i
      (dict_merge [
        (''name'', JStr (fz_name r)),
        (''behavior'', JStr (freeze_behavior_str (fz_behavior r))),
        (''scope_type'', JStr (freeze_scope_str (fz_scope r))),
        (''is_active'', JBool (fz_is_active r))] extra) d"

definition freeze_behavior_of :: "string \<Rightarrow> freeze_behavior option" where
  "freeze_behavior_of s =
    (if s = ''block'' then Some FreezeBlock
     else if s = ''allow_with_exception'' then Some FreezeAllowWithException else None)"

definition freeze_scope_of :: "string \<Rightarrow> freeze_scope option" where
  "freeze_scope_of s =
    (if s = ''all_production'' then Some ScopeAllProduction
     else if s = ''target_type'' then Some ScopeTargetType
     else if s = ''target_identifier'' then Some ScopeTargetIdentifier else None)"

text \<open>The checks creation and update share, on the rule as it would be saved.\<close>

definition check_freeze_fields ::
    "timestamp \<Rightarrow> timestamp \<Rightarrow> freeze_behavior \<Rightarrow> bool \<Rightarrow> freeze_scope option \<Rightarrow> string \<Rightarrow> string
      \<Rightarrow> unit result" where
  "check_freeze_fields starts ends behavior requires_ref scope ttype tident =
    (if ends \<le> starts then Inl (Domain DomainValidationError ''invalid_time_range'')
     else if behavior = FreezeAllowWithException \<and> \<not> requires_ref
       then Inl (Domain DomainValidationError ''exception_behavior_requires_ref'')
     else if scope = Some ScopeTargetType \<and> ttype = []
       then Inl (Domain DomainValidationError ''target_type_required'')
     else if scope = Some ScopeTargetIdentifier \<and> tident = []
       then Inl (Domain DomainValidationError ''target_identifier_required'')
     else Inr ())"

definition create_freeze_rule ::
    "timestamp \<Rightarrow> nat \<Rightarrow> string \<Rightarrow> string \<Rightarrow> timestamp \<Rightarrow> timestamp \<Rightarrow> string \<Rightarrow> string \<Rightarrow> string \<Rightarrow> string \<Rightarrow> bool
      \<Rightarrow> audit_actor option \<Rightarrow> db \<Rightarrow> nat outcome" where
  "create_freeze_rule now org name behavior starts ends scope description ttype tident requires_ref actor d =
    (case freeze_behavior_of behavior of
       None \<Rightarrow> (d, Inl (Domain DomainValidationError ''invalid_behavior''))
     | Some b \<Rightarrow>
       (case freeze_scope_of scope of
          None \<Rightarrow> (d, Inl (Domain DomainValidationError ''invalid_scope_type''))
        | Some s \<Rightarrow>
          (case check_freeze_fields starts ends b requires_ref (Some s) ttype tident of
             Inl e \<Rightarrow> (d, Inl e)
           | Inr _ \<Rightarrow>
              let act = or_service actor;
                  r = \<lparr>fz_org = org, fz_name = name, fz_is_active = True, fz_behavior = b,
                    fz_starts_at = starts, fz_ends_at = ends, fz_scope = s, fz_target_type = ttype,
                    fz_target_identifier = tident,
                    fz_normalized = (if tident \<noteq> [] then normalize_target_identifier tident else []),
                    fz_requires_ref = requires_ref, fz_description = description,
                    fz_created_by = user_of act, fz_updated_by = user_of act\<rparr>;
                  (i, d) = fresh d;
                  d = d\<lparr>freeze_rules := tins i r (freeze_rules d)\<rparr>
              in then_do (commit_result d (emit_freeze_rule_audit now i r ''freeze_rule.created''
                    (Some act) [] d)) (\<lambda>d _. (d, Inr i)))))"

text \<open>
  The optional arguments of \<open>update_freeze_rule\<close>. The scope type is not checked against the known
  ones there: an unknown one violates the check constraint of the table when the rule is saved.
\<close>

record freeze_patch =
  fp_name :: "string option"
  fp_description :: "string option"
  fp_behavior :: "string option"
  fp_starts_at :: "timestamp option"
  fp_ends_at :: "timestamp option"
  fp_scope :: "string option"
  fp_target_type :: "string option"
  fp_target_identifier :: "string option"
  fp_requires_ref :: "bool option"

definition keep_or :: "'a \<Rightarrow> 'a option \<Rightarrow> 'a" where
  "keep_or x new = (case new of None \<Rightarrow> x | Some y \<Rightarrow> y)"

definition patched_rule :: "freeze_patch \<Rightarrow> freeze_behavior \<Rightarrow> freeze_scope \<Rightarrow> audit_actor \<Rightarrow> freeze_rule \<Rightarrow> freeze_rule" where
  "patched_rule p b s actor r = r\<lparr>
     fz_name := keep_or (fz_name r) (fp_name p),
     fz_description := keep_or (fz_description r) (fp_description p),
     fz_behavior := b,
     fz_starts_at := keep_or (fz_starts_at r) (fp_starts_at p),
     fz_ends_at := keep_or (fz_ends_at r) (fp_ends_at p),
     fz_scope := s,
     fz_target_type := keep_or (fz_target_type r) (fp_target_type p),
     fz_target_identifier := keep_or (fz_target_identifier r) (fp_target_identifier p),
     fz_normalized := (case fp_target_identifier p of
        None \<Rightarrow> fz_normalized r | Some t \<Rightarrow> normalize_target_identifier t),
     fz_requires_ref := keep_or (fz_requires_ref r) (fp_requires_ref p),
     fz_updated_by := (if actor_type actor = ActorUser then Some (actor_id actor) else fz_updated_by r)\<rparr>"

definition update_freeze_rule ::
    "timestamp \<Rightarrow> nat \<Rightarrow> freeze_patch \<Rightarrow> audit_actor option \<Rightarrow> db \<Rightarrow> unit outcome" where
  "update_freeze_rule now i p actor d =
    (case tget (freeze_rules d) i of
       None \<Rightarrow> (d, Inl (NotFound ''freeze_rule''))
     | Some r \<Rightarrow>
        if \<not> fz_is_active r then (d, Inl (Domain DomainValidationError ''freeze_rule_inactive''))
        else (case freeze_behavior_of (keep_or (freeze_behavior_str (fz_behavior r)) (fp_behavior p)) of
           None \<Rightarrow> (d, Inl (Domain DomainValidationError ''invalid_behavior''))
         | Some b \<Rightarrow>
            let scope = freeze_scope_of (keep_or (freeze_scope_str (fz_scope r)) (fp_scope p)) in
            (case check_freeze_fields (keep_or (fz_starts_at r) (fp_starts_at p))
                  (keep_or (fz_ends_at r) (fp_ends_at p)) b
                  (keep_or (fz_requires_ref r) (fp_requires_ref p)) scope
                  (keep_or (fz_target_type r) (fp_target_type p))
                  (keep_or (fz_target_identifier r) (fp_target_identifier p)) of
               Inl e \<Rightarrow> (d, Inl e)
             | Inr _ \<Rightarrow>
               (case scope of
                  None \<Rightarrow> (d, Inl (IntegrityErr ''freeze_rule_scope_type_valid_chk''))
                | Some s \<Rightarrow>
                   let act = or_service actor; r' = patched_rule p b s act r;
                       d = d\<lparr>freeze_rules := tupd i (\<lambda>_. r') (freeze_rules d)\<rparr>
                   in commit_result d (emit_freeze_rule_audit now i r' ''freeze_rule.updated''
                        (Some act) [] d)))))"

definition deactivate_freeze_rule :: "timestamp \<Rightarrow> nat \<Rightarrow> audit_actor option \<Rightarrow> db \<Rightarrow> unit outcome" where
  "deactivate_freeze_rule now i actor d =
    (case tget (freeze_rules d) i of
       None \<Rightarrow> (d, Inl (NotFound ''freeze_rule''))
     | Some r \<Rightarrow>
        if \<not> fz_is_active r then (d, Inr ())
        else let act = or_service actor;
                 r' = r\<lparr>fz_is_active := False,
                   fz_updated_by := (if actor_type act = ActorUser then Some (actor_id act) else fz_updated_by r)\<rparr>;
                 d = d\<lparr>freeze_rules := tupd i (\<lambda>_. r') (freeze_rules d)\<rparr>
             in commit_result d (emit_freeze_rule_audit now i r' ''freeze_rule.deactivated'' (Some act) [] d))"

section \<open>Facts\<close>

lemma invalidate_Inr:
  assumes "invalidate_change_approval now k c actor d = Inr d'" and "tget (changes d) k = Some c"
  obtains ev where "d' = d\<lparr>changes := tupd k (\<lambda>_. c\<lparr>ch_status := ChPendingApproval,
      ch_stamps := AList.delete ''approved_at'' (ch_stamps c)\<rparr>) (changes d), audit_log := audit_log d @ [ev]\<rparr>"
    and "ae_type ev = ''change.approval_invalidated''"
  using assms unfolding invalidate_change_approval_def
  by (auto simp: res_bind_eq_Inr store_defs dest!: change_save_Inr(1) audit_emit_Inr)

lemma invalidate_world:
  assumes "invalidate_change_approval now k c actor d = Inr d'" and "tget (changes d) k = Some c"
    and "ch_status c \<in> {ChApproved, ChScheduled}"
  shows "world_grows d d'"
proof -
  let ?c = "c\<lparr>ch_status := ChPendingApproval, ch_stamps := AList.delete ''approved_at'' (ch_stamps c)\<rparr>"
  have "change_row_ok c ?c"
    using assms(3) by (auto simp: change_row_ok_def change_step_def frozen_request_def intro!: r_into_rtranclp)
  with assms(1,2) show ?thesis
    unfolding invalidate_change_approval_def
    by (auto simp: res_bind_eq_Inr intro: world_emit progress_world dest: change_save_progress)
qed

lemma put_window_frame:
  assumes "put_window k c starts ends tz reason st by d = (d', i)"
  shows "still_part d' = still_part d" and "approval_part d' = approval_part d" and "changes d' = changes d"
    and "op_profiles d' = op_profiles d" and "control_part d' = control_part d"
  using assms by (auto simp: put_window_def Let_def fresh_def still_part_def approval_part_def control_part_def
      split: option.splits)

text \<open>The stages of a successful update.\<close>

lemma window_update_stages:
  assumes "create_or_update_change_window now k seen starts ends tz reason actor d = Inr (d', i)"
  obtains c d1 voided d2 ev where "tget (changes d) k = Some c" and "ch_status c \<in> set WINDOW_ALLOWED_STATUSES"
    and "starts < ends" and "void_approval now k c (or_service actor) d = Inr (d1, voided)"
    and "put_window k c starts ends tz reason (window_status_from_time starts ends now)
           (user_of (or_service actor)) d1 = (d2, i)"
    and "d' = d2\<lparr>audit_log := audit_log d2 @ [ev]\<rparr>" and "world_grows d2 d'"
proof -
  from assms obtain c d1 voided where c: "tget (changes d) k = Some c" "ch_status c \<in> set WINDOW_ALLOWED_STATUSES"
      "starts < ends" "void_approval now k c (or_service actor) d = Inr (d1, voided)"
    and u: "update_window_tx now k starts ends tz reason (or_service actor) d = Inr (d', i)"
    by (auto simp: create_or_update_change_window_def update_window_tx_def res_bind_eq_Inr
        split: if_splits option.splits)
  obtain d2 j where p: "put_window k c starts ends tz reason (window_status_from_time starts ends now)
      (user_of (or_service actor)) d1 = (d2, j)" by fastforce
  from u obtain md where e: "audit_emit now (ch_org c) (or_service actor) ''change.window_updated''
      ''change_window'' j md d2 = Inr d'" and j: "j = i"
    using c(1,2,4) p by (auto simp: update_window_tx_def res_bind_eq_Inr split: if_splits)
  from audit_emit_Inr [OF e] obtain ev where "d' = d2\<lparr>audit_log := audit_log d2 @ [ev]\<rparr>" by blast
  with c p j audit_emit_world [OF e] that show thesis by blast
qed

lemma create_or_update_change_window_world [world_rules]:
  assumes "create_or_update_change_window now k seen starts ends tz reason actor d = Inr (d', i)"
  shows "world_grows d d'"
  using assms
proof (rule window_update_stages)
  fix c d1 voided d2
  assume c: "tget (changes d) k = Some c" and v: "void_approval now k c (or_service actor) d = Inr (d1, voided)"
    and p: "put_window k c starts ends tz reason (window_status_from_time starts ends now)
           (user_of (or_service actor)) d1 = (d2, i)" and w: "world_grows d2 d'"
  from v c have "world_grows d d1"
    unfolding void_approval_def WINDOW_INVALIDATION_STATUSES_def
    by (auto simp: res_bind_eq_Inr intro: world.refl invalidate_world split: if_splits option.splits)
  moreover from put_window_frame [OF p] have "world_grows d1 d2" by (intro world_same)
  ultimately show ?thesis using w by (meson world.trans)
qed

lemma freeze_emit_frame:
  assumes "commit_result d (emit_freeze_rule_audit now i r et a x d) = (d', res)"
  shows "freeze_rules d' = freeze_rules d" and "world_grows d d'"
  using assms unfolding emit_freeze_rule_audit_def
  by (auto simp: commit_result_def intro: audit_emit_world world.refl split: sum.splits dest: audit_emit_Inr)

lemma freeze_rules_world: "world_grows d (d\<lparr>freeze_rules := t\<rparr>)" "world_grows d (d\<lparr>next_id := n, freeze_rules := t\<rparr>)"
  by (auto intro!: world_same simp: still_part_def approval_part_def)

lemma create_freeze_rule_world [world_rules]:
  "create_freeze_rule now org name b s e sc de tt ti rr actor d = (d', res) \<Longrightarrow> world_grows d d'"
  unfolding create_freeze_rule_def Let_def fresh_def
  by (auto simp: then_do_eq intro: world.refl split: option.splits sum.splits
      dest!: freeze_emit_frame(2) elim!: world.trans [OF freeze_rules_world(2)])

lemma update_freeze_rule_world [world_rules]:
  "update_freeze_rule now i p actor d = (d', res) \<Longrightarrow> world_grows d d'"
  unfolding update_freeze_rule_def Let_def
  by (auto intro: world.refl split: option.splits sum.splits if_splits
      dest!: freeze_emit_frame(2) elim!: world.trans [OF freeze_rules_world(1)])

lemma deactivate_freeze_rule_world [world_rules]:
  "deactivate_freeze_rule now i actor d = (d', res) \<Longrightarrow> world_grows d d'"
  unfolding deactivate_freeze_rule_def Let_def
  by (auto intro: world.refl split: option.splits if_splits
      dest!: freeze_emit_frame(2) elim!: world.trans [OF freeze_rules_world(1)])

section \<open>Well-formed rules\<close>

text \<open>What the check constraints of the table, and the checks of the services, make of every rule.\<close>

definition freeze_rule_ok :: "freeze_rule \<Rightarrow> bool" where
  "freeze_rule_ok r \<longleftrightarrow> fz_starts_at r < fz_ends_at r \<and>
     (fz_behavior r = FreezeAllowWithException \<longrightarrow> fz_requires_ref r) \<and>
     (fz_scope r = ScopeTargetType \<longrightarrow> fz_target_type r \<noteq> []) \<and>
     (fz_scope r = ScopeTargetIdentifier \<longrightarrow> fz_target_identifier r \<noteq> []) \<and>
     fz_normalized r = normalize_target_identifier (fz_target_identifier r)"

definition freeze_rules_ok :: "db \<Rightarrow> bool" where
  "freeze_rules_ok d \<longleftrightarrow> (\<forall>(i, r) \<in> set (freeze_rules d). freeze_rule_ok r)"

lemma freeze_rules_okD: "freeze_rules_ok d \<Longrightarrow> tget (freeze_rules d) i = Some r \<Longrightarrow> freeze_rule_ok r"
  by (auto simp: freeze_rules_ok_def dest: tget_SomeD)

lemma freeze_rules_ok_put:
  assumes "freeze_rules_ok d" and "freeze_rule_ok r"
    and "freeze_rules d' = tins i r (freeze_rules d) \<or> freeze_rules d' = tupd i (\<lambda>_. r) (freeze_rules d) \<or>
      freeze_rules d' = freeze_rules d"
  shows "freeze_rules_ok d'"
  using assms by (auto simp: freeze_rules_ok_def tins_def set_tupd split: if_splits)

lemmas freeze_rules_ok_upd = freeze_rules_ok_put [OF _ _ disjI2 [OF disjI1]]

lemma check_freeze_fields_Inr:
  "check_freeze_fields s e b rr sc tt ti = Inr u \<longleftrightarrow> s < e \<and> (b = FreezeAllowWithException \<longrightarrow> rr) \<and>
     (sc = Some ScopeTargetType \<longrightarrow> tt \<noteq> []) \<and> (sc = Some ScopeTargetIdentifier \<longrightarrow> ti \<noteq> [])"
  by (auto simp: check_freeze_fields_def)

lemma normalize_Nil [simp]: "normalize_target_identifier [] = []"
  by (simp add: normalize_target_identifier_def strip_def lstrip_def lower_def)

lemma freeze_rule_ok_inactive [simp]:
  "freeze_rule_ok (r\<lparr>fz_is_active := b\<rparr>) = freeze_rule_ok r"
  "freeze_rule_ok (r\<lparr>fz_is_active := b, fz_updated_by := u\<rparr>) = freeze_rule_ok r"
  by (simp_all add: freeze_rule_ok_def)

lemma freeze_strs [simp]: "freeze_behavior_of (freeze_behavior_str b) = Some b" "freeze_scope_of (freeze_scope_str s) = Some s"
  by (cases b, simp_all add: freeze_behavior_of_def) (cases s, simp_all add: freeze_scope_of_def)

lemma create_freeze_rule_ok:
  assumes "freeze_rules_ok d"
  shows "freeze_rules_ok (fst (create_freeze_rule now org name b st en sc de tt ti rr actor d))"
proof -
  obtain d' res where r: "create_freeze_rule now org name b st en sc de tt ti rr actor d = (d', res)" by fastforce
  show ?thesis
  proof (cases "freeze_rules d' = freeze_rules d")
    case True
    with r assms show ?thesis by (simp add: freeze_rules_ok_def)
  next
    case False
    with r obtain f where f: "freeze_rules d' = tins (next_id d) f (freeze_rules d)" "freeze_rule_ok f"
      unfolding create_freeze_rule_def Let_def fresh_def
      by (auto simp: then_do_eq check_freeze_fields_Inr freeze_rule_ok_def split: option.splits sum.splits
          dest!: freeze_emit_frame(1))
    from freeze_rules_ok_put [OF assms f(2) disjI1 [OF f(1)]] r show ?thesis by simp
  qed
qed

lemma update_freeze_rule_ok:
  assumes "freeze_rules_ok d"
  shows "freeze_rules_ok (fst (update_freeze_rule now i p actor d))"
proof -
  obtain d' res where r: "update_freeze_rule now i p actor d = (d', res)" by fastforce
  show ?thesis
  proof (cases "freeze_rules d' = freeze_rules d")
    case True
    with r assms show ?thesis by (simp add: freeze_rules_ok_def)
  next
    case False
    with r obtain f b s u where f: "tget (freeze_rules d) i = Some f"
      "check_freeze_fields (keep_or (fz_starts_at f) (fp_starts_at p)) (keep_or (fz_ends_at f) (fp_ends_at p)) b
         (keep_or (fz_requires_ref f) (fp_requires_ref p)) (Some s) (keep_or (fz_target_type f) (fp_target_type p))
         (keep_or (fz_target_identifier f) (fp_target_identifier p)) = Inr u"
      "freeze_rules d' = tupd i (\<lambda>_. patched_rule p b s (or_service actor) f) (freeze_rules d)"
      unfolding update_freeze_rule_def Let_def
      by (auto split: option.splits sum.splits if_splits dest!: freeze_emit_frame(1))
    from freeze_rules_okD [OF assms f(1)] f(2) have "freeze_rule_ok (patched_rule p b s (or_service actor) f)"
      by (auto simp: freeze_rule_ok_def check_freeze_fields_Inr patched_rule_def keep_or_def split: option.splits)
    from freeze_rules_ok_upd [OF assms this f(3)] r show ?thesis by simp
  qed
qed

lemma deactivate_freeze_rule_ok:
  assumes "freeze_rules_ok d"
  shows "freeze_rules_ok (fst (deactivate_freeze_rule now i actor d))"
proof -
  obtain d' res where r: "deactivate_freeze_rule now i actor d = (d', res)" by fastforce
  show ?thesis
  proof (cases "freeze_rules d' = freeze_rules d")
    case True
    with r assms show ?thesis by (simp add: freeze_rules_ok_def)
  next
    case False
    with r obtain f f' where f: "freeze_rules d' = tupd i (\<lambda>_. f') (freeze_rules d)" "freeze_rule_ok f'"
      unfolding deactivate_freeze_rule_def Let_def
      by (auto split: option.splits if_splits dest!: freeze_emit_frame(1) freeze_rules_okD [OF assms])
    from freeze_rules_ok_upd [OF assms f(2,1)] r show ?thesis by simp
  qed
qed

section \<open>Properties\<close>

text \<open>
  C34: every stored freeze rule is well formed, whatever the services on rules are called with: it
  ends after it starts, allows exceptions only with a reference, names what its scope asks for, and
  its normalized identifier is that of its identifier. The scope type an update passes unchecked
  cannot break this: the table refuses it.
\<close>

theorem freeze_rules_stay_well_formed:
  assumes "freeze_rules_ok d"
  shows "freeze_rules_ok (fst (create_freeze_rule now org name b st en sc de tt ti rr actor d)) \<and>
     freeze_rules_ok (fst (update_freeze_rule now i p actor d)) \<and>
     freeze_rules_ok (fst (deactivate_freeze_rule now i actor d))"
  using create_freeze_rule_ok [OF assms] update_freeze_rule_ok [OF assms] deactivate_freeze_rule_ok [OF assms]
  by simp

text \<open>
  Rescheduling the window of an approved or scheduled change that needs approval puts it back
  to pending approval and removes the time of its approval; its approval request stays as decided,
  no other change and no request is touched, and the window has the new times.
\<close>

theorem rescheduling_voids_approval:
  assumes "create_or_update_change_window now k seen starts ends tz reason actor d = Inr (d', i)"
    and "tget (changes d) k = Some c" and "tget (op_profiles d) (ch_profile c) = Some p" and "op_requires_approval p"
    and "ch_status c \<in> {ChApproved, ChScheduled}"
    and "twf (windows d)" and "tget (windows d) (next_id d) = None"
  shows "\<exists>c' w. tget (changes d') k = Some c' \<and> ch_status c' = ChPendingApproval \<and>
     map_of (ch_stamps c') ''approved_at'' = None \<and> ch_approval_request c' = ch_approval_request c \<and>
     frozen_request c' = frozen_request c \<and> (\<forall>j. j \<noteq> k \<longrightarrow> tget (changes d') j = tget (changes d) j) \<and>
     approval_part d' = approval_part d \<and>
     tget (windows d') i = Some w \<and> wn_change w = k \<and> wn_starts_at w = starts \<and> wn_ends_at w = ends \<and> starts < ends"
  using assms(1)
proof (rule window_update_stages)
  fix c0 d1 voided d2 ev
  assume c: "tget (changes d) k = Some c0" "starts < ends"
    and v: "void_approval now k c0 (or_service actor) d = Inr (d1, voided)"
    and pw: "put_window k c0 starts ends tz reason (window_status_from_time starts ends now)
           (user_of (or_service actor)) d1 = (d2, i)"
    and d': "d' = d2\<lparr>audit_log := audit_log d2 @ [ev]\<rparr>"
  from c assms(2) have c0: "c0 = c" by simp
  from v assms(3-5) obtain ev1 where d1: "d1 = d\<lparr>changes := tupd k (\<lambda>_. c\<lparr>ch_status := ChPendingApproval,
      ch_stamps := AList.delete ''approved_at'' (ch_stamps c)\<rparr>) (changes d), audit_log := audit_log d @ [ev1]\<rparr>"
    by (auto simp: c0 void_approval_def WINDOW_INVALIDATION_STATUSES_def res_bind_eq_Inr
        elim!: invalidate_Inr [OF _ assms(2)])
  from pw assms(6,7) have "\<exists>w. tget (windows d2) i = Some w \<and> wn_change w = k \<and> wn_starts_at w = starts \<and> wn_ends_at w = ends"
    by (auto simp: put_window_def d1 window_of_def fresh_def Let_def table_simps split: option.splits
        dest!: first_of_SomeD tget_unique [OF assms(6)])
  moreover note f = put_window_frame(2,3) [OF pw]
  ultimately show ?thesis
    using assms(2) by (auto simp: d' f d1 table_simps delete_conv' frozen_request_def approval_part_def c(2))
qed

section \<open>Witnesses\<close>

theorem freeze_rules_stay_well_formed_witness:
  "freeze_rules_ok (fst (create_freeze_rule 3 1 ''peak'' ''block'' 5 9 ''target_type'' [] ''host'' [] False None
     (frozen_db\<lparr>freeze_rules := [(73, sample_freeze\<lparr>fz_requires_ref := True\<rparr>)]\<rparr>)))"
proof -
  have "freeze_rules_ok (frozen_db\<lparr>freeze_rules := [(73, sample_freeze\<lparr>fz_requires_ref := True\<rparr>)]\<rparr>)"
    by (simp add: frozen_db_def freeze_rules_ok_def normalize_Nil freeze_rule_ok_def sample_freeze_def)
  from freeze_rules_stay_well_formed [OF this] show ?thesis by blast
qed

lemma calendar_keys:
  "\<not> sensitive ''starts_at''" "\<not> sensitive ''ends_at''" "\<not> sensitive ''window_status''"
  "\<not> sensitive ''approval_invalidated''"
  by (simp_all add: sensitive_def lower_def lower_char_def code_point_def REJECTED_METADATA_KEYS_def
      FORBIDDEN_METADATA_KEYS_def)

text \<open>The events of a rescheduled window are accepted.\<close>

lemma void_event_ok:
  "\<exists>ev. audit_emit now org a ''change.approval_invalidated'' ''change_record'' 30
      [(''previous_status'', JStr ''approved''), (''reason'', JStr ''window_updated'')] d =
    Inr (d\<lparr>audit_log := audit_log d @ [ev]\<rparr>)"
  by (intro audit_emit_succeeds) (simp_all add: sample_event_simps)

lemma window_event_ok:
  "\<exists>ev. audit_emit now org a ''change.window_updated'' ''change_window'' 100
      [(''change_record_id'', JStr (id_str 30)), (''starts_at'', JStr (isoformat 100)), (''ends_at'', JStr (isoformat 200)),
       (''window_status'', JStr ''scheduled''), (''approval_invalidated'', JBool True)] d =
    Inr (d\<lparr>audit_log := audit_log d @ [ev]\<rparr>)"
  using length_id_str [of 30] length_isoformat [of 100] length_isoformat [of 200]
  by (intro audit_emit_succeeds) (simp_all add: sample_event_simps calendar_keys)

lemma rescheduled_sample:
  "\<exists>d'. create_or_update_change_window 9 30 ChApproved 100 200 [] [] None (sample_db ChApproved) = Inr (d', 100)"
proof -
  let ?c = "(sample_change ChApproved)\<lparr>ch_status := ChPendingApproval, ch_stamps := []\<rparr>"
  have sv: "change_save 30 ?c (sample_db ChApproved) = Inr ((sample_db ChApproved)\<lparr>changes := [(30, ?c)]\<rparr>)"
    by (simp add: change_save_def change_clean_def immutable_fields_equal_def upd_change_def tupd_def sample_db_def
        sample_change_def sample_profile_def sample_workflow_def empty_db_def tget_def)
  obtain e1 where e1: "audit_emit 9 1 (system_actor ''Change service'') ''change.approval_invalidated'' ''change_record'' 30
      [(''previous_status'', JStr ''approved''), (''reason'', JStr ''window_updated'')]
      ((sample_db ChApproved)\<lparr>changes := [(30, ?c)]\<rparr>) =
      Inr ((sample_db ChApproved)\<lparr>changes := [(30, ?c)], audit_log := [e1]\<rparr>)"
    using void_event_ok [of 9 1 "system_actor ''Change service''" "(sample_db ChApproved)\<lparr>changes := [(30, ?c)]\<rparr>"]
    by (auto simp: sample_db_def empty_db_def)
  have st: "tget (changes (sample_db ChApproved)) 30 = Some (sample_change ChApproved)"
    "tget (op_profiles (sample_db ChApproved)) 10 = Some sample_profile"
    "op_requires_approval sample_profile" "ch_status (sample_change ChApproved) = ChApproved"
    "ch_profile (sample_change ChApproved) = 10" "ch_org (sample_change ChApproved) = 1"
    "ch_stamps (sample_change ChApproved) = []" "windows (sample_db ChApproved) = []" "next_id (sample_db ChApproved) = 100"
    by (simp_all add: sample_db_def sample_change_def sample_profile_def empty_db_def tget_def)
  have v: "void_approval 9 30 (sample_change ChApproved) (system_actor ''Change service'') (sample_db ChApproved) =
      Inr ((sample_db ChApproved)\<lparr>changes := [(30, ?c)], audit_log := [e1]\<rparr>, True)"
    using sv e1 by (simp add: void_approval_def invalidate_change_approval_def st WINDOW_INVALIDATION_STATUSES_def)
  obtain d2 where pw: "put_window 30 (sample_change ChApproved) 100 200 [] [] WnScheduled (user_of (system_actor ''Change service''))
      ((sample_db ChApproved)\<lparr>changes := [(30, ?c)], audit_log := [e1]\<rparr>) = (d2, 100)"
    by (simp add: put_window_def window_of_def tsel_def fresh_def st)
  show ?thesis
    unfolding create_or_update_change_window_def update_window_tx_def
    using window_event_ok [of 9 1 "system_actor ''Change service''" d2]
    by (auto simp: st v pw WINDOW_ALLOWED_STATUSES_def or_service_def window_status_from_time_def)
qed

theorem rescheduling_voids_approval_witness:
  "\<exists>d' c'. create_or_update_change_window 9 30 ChApproved 100 200 [] [] None (sample_db ChApproved) = Inr (d', 100) \<and>
     tget (changes d') 30 = Some c' \<and> ch_status c' = ChPendingApproval"
proof -
  obtain d' where r: "create_or_update_change_window 9 30 ChApproved 100 200 [] [] None (sample_db ChApproved) = Inr (d', 100)"
    using rescheduled_sample by blast
  have s: "tget (changes (sample_db ChApproved)) 30 = Some (sample_change ChApproved)"
    "tget (op_profiles (sample_db ChApproved)) (ch_profile (sample_change ChApproved)) = Some sample_profile"
    "op_requires_approval sample_profile" "ch_status (sample_change ChApproved) \<in> {ChApproved, ChScheduled}"
    "twf (windows (sample_db ChApproved))" "tget (windows (sample_db ChApproved)) (next_id (sample_db ChApproved)) = None"
    by (simp_all add: sample_db_def sample_change_def sample_profile_def empty_db_def tget_def twf_def)
  from rescheduling_voids_approval [OF r s] r show ?thesis by blast
qed

end
