(* ===== verification/Change_Requests.thy ===== *)
theory Change_Requests
  imports Change_Calendar
begin

text \<open>
  How a change request comes to be (\<open>apps/changes/services.py\<close>): the operation profiles that say
  what may be requested, the creation of a draft, and its submission. The signal handlers of
  \<open>apps/changes/apps.py\<close> emit an event for every saved profile and every change of its workflows.
\<close>

section \<open>Operation profiles\<close>

definition RISK_LEVELS :: "string list" where
  "RISK_LEVELS = [''high'', ''critical'']"

definition emit_operation_profile_audit ::
    "timestamp \<Rightarrow> nat \<Rightarrow> op_profile \<Rightarrow> string \<Rightarrow> audit_actor option \<Rightarrow> jdict \<Rightarrow> db \<Rightarrow> db result" where
  "emit_operation_profile_audit now i p et actor extra d =
    audit_emit now (op_org p) (or_service actor) et ''operation_profile'' i
      (dict_merge [
        (''operation_profile_key'', JStr (op_key p)),
        (''is_active'', JBool (op_is_active p)),
        (''risk_level'', JStr (op_risk_level p))] extra) d"

text \<open>Saving a profile with the actor it carries: the row is stored, then the signal handler runs.\<close>

definition save_profile :: "timestamp \<Rightarrow> nat \<Rightarrow> op_profile \<Rightarrow> audit_actor \<Rightarrow> db \<Rightarrow> unit outcome" where
  "save_profile now i p actor d =
    (let event = (case tget (op_profiles d) i of
           None \<Rightarrow> ''operation_profile.created''
         | Some old \<Rightarrow> if op_is_active old \<and> \<not> op_is_active p then ''operation_profile.deactivated''
                       else ''operation_profile.updated'')
     in if \<exists>(j, q) \<in> set (op_profiles d). j \<noteq> i \<and> op_org q = op_org p \<and> op_key q = op_key p
          then (d, Inl (IntegrityErr ''op_profile_org_key_unique''))
        else if op_risk_level p \<notin> set RISK_LEVELS
          then (d, Inl (IntegrityErr ''op_profile_risk_level_valid_chk''))
        else let d = d\<lparr>op_profiles := (if tget (op_profiles d) i = None then tins i p (op_profiles d)
                 else tupd i (\<lambda>_. p) (op_profiles d))\<rparr>
             in commit_result d (emit_operation_profile_audit now i p event (Some actor) [] d))"

definition validate_operation_profile_workflows :: "op_profile \<Rightarrow> nat list option \<Rightarrow> db \<Rightarrow> unit result" where
  "validate_operation_profile_workflows p ids d =
    (if \<exists>(i, w) \<in> set (workflows d).
          i \<in> set (case ids of None \<Rightarrow> op_allowed_workflows p | Some xs \<Rightarrow> xs) \<and> wf_org w \<noteq> op_org p
       then Inl (Domain DomainValidationError ''operation_profile_workflow_org_mismatch'')
     else Inr ())"

text \<open>
  \<open>profile.allowed_workflows.set(...)\<close>: in one transaction, the workflows that are no longer
  listed are removed and the new ones added, each with its event; the handler of \<open>pre_add\<close>
  refuses workflows of another organization.
\<close>

definition set_allowed_workflows :: "timestamp \<Rightarrow> nat \<Rightarrow> nat list \<Rightarrow> audit_actor \<Rightarrow> db \<Rightarrow> db result" where
  "set_allowed_workflows now i new actor d =
    (case tget (op_profiles d) i of
       None \<Rightarrow> Inl (NotFound ''operation_profile'')
     | Some p \<Rightarrow>
        let old = op_allowed_workflows p;
            added = filter (\<lambda>w. w \<notin> set old) new;
            kept = filter (\<lambda>w. w \<in> set new) old;
            changed = [(''allowed_workflows_changed'', JBool True)];
            emit = emit_operation_profile_audit now i p ''operation_profile.updated'' (Some actor) changed
        in res_bind (if kept = old then Inr d else emit d) (\<lambda>d.
           res_bind (if \<exists>(j, w) \<in> set (workflows d). j \<in> set added \<and> wf_org w \<noteq> op_org p
             then Inl (DjangoValidation ''allowed_workflows'') else Inr ()) (\<lambda>_.
           let d = d\<lparr>op_profiles := tupd i (\<lambda>p. p\<lparr>op_allowed_workflows := kept @ added\<rparr>) (op_profiles d)\<rparr>
           in if added = [] then Inr d else emit d)))"

text \<open>The ids of the existing workflows of the organization among those asked for.\<close>

definition org_workflows :: "nat \<Rightarrow> nat list \<Rightarrow> db \<Rightarrow> nat list" where
  "org_workflows org ids d = map fst (tsel (\<lambda>i w. i \<in> set ids \<and> wf_org w = org) (workflows d))"

definition assign_workflows :: "timestamp \<Rightarrow> nat \<Rightarrow> op_profile \<Rightarrow> nat list \<Rightarrow> audit_actor \<Rightarrow> db \<Rightarrow> unit outcome" where
  "assign_workflows now i p ids actor d =
    (case validate_operation_profile_workflows p (Some ids) d of
       Inl e \<Rightarrow> (d, Inl e)
     | Inr _ \<Rightarrow> commit_result d (set_allowed_workflows now i (org_workflows (op_org p) ids d) actor d))"

definition create_operation_profile ::
    "timestamp \<Rightarrow> nat \<Rightarrow> string \<Rightarrow> string \<Rightarrow> string \<Rightarrow> string \<Rightarrow> bool \<Rightarrow> bool \<Rightarrow> int option \<Rightarrow> int \<Rightarrow> json \<Rightarrow> json
      \<Rightarrow> json \<Rightarrow> nat list \<Rightarrow> audit_actor option \<Rightarrow> db \<Rightarrow> nat outcome" where
  "create_operation_profile now org key name description risk approval verification ttl dispatch_ttl
      target_types inputs_schema target_schema wfs actor d =
    (if risk \<notin> set RISK_LEVELS then (d, Inl (Domain DomainValidationError ''invalid_risk_level''))
     else
       let act = or_service actor;
           p = \<lparr>op_org = org, op_key = key, op_name = name, op_is_active = True, op_risk_level = risk,
             op_requires_approval = approval, op_verification_required = verification,
             op_verification_mode = VmMixed, op_approval_ttl = ttl, op_dispatch_ttl = dispatch_ttl,
             op_allowed_target_types = py_or target_types (JArr []),
             op_inputs_schema = py_or inputs_schema (JObj []),
             op_target_schema = py_or target_schema (JObj []), op_allowed_workflows = [],
             op_required_capabilities = JArr [], op_allow_emergency = False, op_plan_template = JObj [],
             op_max_breakglass = None, op_retro_sla = None, op_description = description,
             op_independent_reviewer = True, op_created_by = user_of act, op_updated_by = user_of act\<rparr>;
           (i, d) = fresh d
       in then_do (save_profile now i p act d) (\<lambda>d _.
          if wfs = [] then (d, Inr i)
          else then_do (assign_workflows now i p wfs act d) (\<lambda>d _. (d, Inr i))))"

text \<open>The optional arguments of \<open>update_operation_profile\<close>; the TTL may be set to none.\<close>

record profile_patch =
  pp_name :: "string option"
  pp_description :: "string option"
  pp_risk_level :: "string option"
  pp_requires_approval :: "bool option"
  pp_verification_required :: "bool option"
  pp_approval_ttl :: "int option option"
  pp_dispatch_ttl :: "int option"
  pp_allowed_target_types :: "json option"
  pp_inputs_schema :: "json option"
  pp_target_schema :: "json option"

definition patched_profile :: "profile_patch \<Rightarrow> audit_actor \<Rightarrow> op_profile \<Rightarrow> op_profile" where
  "patched_profile u actor p = p\<lparr>
     op_name := keep_or (op_name p) (pp_name u),
     op_description := keep_or (op_description p) (pp_description u),
     op_risk_level := keep_or (op_risk_level p) (pp_risk_level u),
     op_requires_approval := keep_or (op_requires_approval p) (pp_requires_approval u),
     op_verification_required := keep_or (op_verification_required p) (pp_verification_required u),
     op_approval_ttl := keep_or (op_approval_ttl p) (pp_approval_ttl u),
     op_dispatch_ttl := keep_or (op_dispatch_ttl p) (pp_dispatch_ttl u),
     op_allowed_target_types := keep_or (op_allowed_target_types p) (pp_allowed_target_types u),
     op_inputs_schema := keep_or (op_inputs_schema p) (pp_inputs_schema u),
     op_target_schema := keep_or (op_target_schema p) (pp_target_schema u),
     op_updated_by := (if actor_type actor = ActorUser then Some (actor_id actor) else op_updated_by p)\<rparr>"

definition update_operation_profile ::
    "timestamp \<Rightarrow> nat \<Rightarrow> profile_patch \<Rightarrow> nat list option \<Rightarrow> audit_actor option \<Rightarrow> db \<Rightarrow> unit outcome" where
  "update_operation_profile now i u wfs actor d =
    (case tget (op_profiles d) i of
       None \<Rightarrow> (d, Inl (NotFound ''operation_profile''))
     | Some p \<Rightarrow>
        if (case pp_risk_level u of None \<Rightarrow> False | Some r \<Rightarrow> r \<notin> set RISK_LEVELS)
          then (d, Inl (Domain DomainValidationError ''invalid_risk_level''))
        else let act = or_service actor; p' = patched_profile u act p
             in then_do (save_profile now i p' act d) (\<lambda>d _.
                case wfs of None \<Rightarrow> (d, Inr ()) | Some ids \<Rightarrow> assign_workflows now i p' ids act d))"

definition deactivate_operation_profile ::
    "timestamp \<Rightarrow> nat \<Rightarrow> audit_actor option \<Rightarrow> db \<Rightarrow> unit outcome" where
  "deactivate_operation_profile now i actor d =
    (case tget (op_profiles d) i of
       None \<Rightarrow> (d, Inl (NotFound ''operation_profile''))
     | Some p \<Rightarrow>
        if \<not> op_is_active p then (d, Inr ())
        else let act = or_service actor
             in save_profile now i (p\<lparr>op_is_active := False,
               op_updated_by := (if actor_type act = ActorUser then Some (actor_id act) else op_updated_by p)\<rparr>) act d)"

section \<open>Requested inputs\<close>

definition inputs_invalid :: err where
  "inputs_invalid = Domain DomainValidationError ''requested_inputs_invalid''"

definition inputs_schema_invalid :: err where
  "inputs_schema_invalid = Domain DomainValidationError ''requested_inputs_schema_invalid''"

fun json_type_matches :: "json \<Rightarrow> json \<Rightarrow> bool" where
  "json_type_matches v (JStr t) =
    (if t = ''string'' then is_str v
     else if t = ''integer'' then (case v of JInt _ \<Rightarrow> True | _ \<Rightarrow> False)
     else if t = ''number'' then (case v of JInt _ \<Rightarrow> True | JFloat _ \<Rightarrow> True | _ \<Rightarrow> False)
     else if t = ''boolean'' then (case v of JBool _ \<Rightarrow> True | _ \<Rightarrow> False)
     else if t = ''object'' then is_obj v
     else if t = ''array'' then (case v of JArr _ \<Rightarrow> True | _ \<Rightarrow> False)
     else if t = ''null'' then v = JNull
     else True)"
| "json_type_matches v _ = True"

fun require_keys :: "jdict \<Rightarrow> json list \<Rightarrow> unit result" where
  "require_keys ins [] = Inr ()"
| "require_keys ins (key # keys) =
    (if \<not> py_hashable key then Inl (PyError ''TypeError'')
     else if key \<notin> (JStr \<circ> fst) ` set ins then Inl inputs_invalid
     else require_keys ins keys)"

fun check_properties :: "jdict \<Rightarrow> jdict \<Rightarrow> unit result" where
  "check_properties ins [] = Inr ()"
| "check_properties ins ((key, rules) # props) =
    (case (map_of ins key, rules) of
       (Some v, JObj rs) \<Rightarrow>
          let expected = fget rs ''type'' JNull
          in if truthy expected \<and> \<not> json_type_matches v expected then Inl inputs_invalid
             else check_properties ins props
     | _ \<Rightarrow> check_properties ins props)"

definition validate_requested_inputs :: "json \<Rightarrow> op_profile \<Rightarrow> unit result" where
  "validate_requested_inputs inputs p =
    (case inputs of
       JObj ins \<Rightarrow>
        (if \<not> truthy (op_inputs_schema p) then Inr ()
         else case op_inputs_schema p of
           JObj schema \<Rightarrow>
            (case fget schema ''required'' (JArr []) of
               JArr required \<Rightarrow>
                res_bind (require_keys ins required) (\<lambda>_.
                case (case fget schema ''properties'' (JObj []) of JNull \<Rightarrow> JObj [] | v \<Rightarrow> v) of
                  JObj props \<Rightarrow>
                    if fget schema ''additionalProperties'' JNull = JBool False \<and>
                       \<not> fst ` set ins \<subseteq> fst ` set props then Inl inputs_invalid
                    else check_properties ins props
                | _ \<Rightarrow> Inl inputs_schema_invalid)
             | _ \<Rightarrow> Inl inputs_schema_invalid)
         | _ \<Rightarrow> Inl inputs_schema_invalid)
     | _ \<Rightarrow> Inl inputs_invalid)"

section \<open>Requested targets\<close>

text \<open>A target of the request, as the serializer hands it on: its text fields are strings.\<close>

record target_input =
  ti_environment :: string
  ti_type :: string
  ti_identifier :: string
  ti_display_name :: string
  ti_metadata :: json

text \<open>\<open>s in v\<close> for a string and a JSON value.\<close>

fun json_member :: "string \<Rightarrow> json \<Rightarrow> bool result" where
  "json_member s (JArr xs) = Inr (JStr s \<in> set xs)"
| "json_member s (JObj kvs) = Inr (s \<in> fst ` set kvs)"
| "json_member s (JStr t) = Inr (contains_str s t)"
| "json_member s _ = Inl (PyError ''TypeError'')"

definition validate_target_metadata :: "json \<Rightarrow> unit result" where
  "validate_target_metadata v =
    (case v of
       JNull \<Rightarrow> Inr ()
     | JObj _ \<Rightarrow> reject_sensitive_keys v ''target_metadata_forbidden_key''
     | _ \<Rightarrow> Inl (Domain DomainValidationError ''target_metadata_invalid''))"

definition target_allowed :: "op_profile \<Rightarrow> string \<Rightarrow> bool result" where
  "target_allowed p t = (if \<not> truthy (op_allowed_target_types p) then Inr False
     else json_member t (op_allowed_target_types p))"

fun check_targets :: "op_profile \<Rightarrow> (string \<times> string) list \<Rightarrow> target_input list \<Rightarrow> unit result" where
  "check_targets p seen [] = Inr ()"
| "check_targets p seen (t # ts) =
    (let key = (ti_type t, normalize_target_identifier (ti_identifier t)) in
     if ti_environment t \<noteq> ''production''
       then Inl (Domain DomainValidationError ''non_production_target'')
     else res_bind (target_allowed p (ti_type t)) (\<lambda>ok.
       if \<not> ok then Inl (Domain DomainValidationError ''target_type_not_allowed'')
       else if snd key = [] then Inl (Domain DomainValidationError ''target_identifier_required'')
       else res_bind (validate_target_metadata (ti_metadata t)) (\<lambda>_.
         if key \<in> set seen then Inl (Domain DomainValidationError ''duplicate_change_target'')
         else check_targets p (key # seen) ts)))"

definition validate_targets :: "target_input list \<Rightarrow> op_profile \<Rightarrow> unit result" where
  "validate_targets ts p =
    res_bind (py_get (op_target_schema p) ''allow_empty_targets'' (JBool False)) (\<lambda>allow.
      if ts = [] \<and> \<not> truthy allow then Inl (Domain DomainValidationError ''change_requires_targets'')
      else check_targets p [] ts)"

section \<open>Creating a draft\<close>

definition change_emit ::
    "timestamp \<Rightarrow> nat \<Rightarrow> change \<Rightarrow> string \<Rightarrow> audit_actor \<Rightarrow> jdict \<Rightarrow> db \<Rightarrow> db result" where
  "change_emit now k c et actor md d = audit_emit now (ch_org c) actor et ''change_record'' k md d"

text \<open>The arguments of \<open>create_change_record\<close> besides the organization and the actor.\<close>

record change_input =
  rq_profile_key :: string
  rq_workflow :: nat
  rq_title :: string
  rq_summary :: string
  rq_justification :: string
  rq_inputs :: json
  rq_scheduled_for :: "timestamp option"
  rq_targets :: "target_input list"
  rq_is_emergency :: bool
  rq_emergency_reason :: string

text \<open>The profile the request names, if the request is admissible under it.\<close>

definition profile_checks :: "op_profile \<Rightarrow> change_input \<Rightarrow> unit result" where
  "profile_checks p ci =
    (if \<not> op_is_active p then Inl (Domain DomainConflictError ''change_profile_inactive'')
     else if op_risk_level p \<notin> set RISK_LEVELS
       then Inl (Domain DomainValidationError ''invalid_operation_profile'')
     else if rq_is_emergency ci \<and> \<not> op_allow_emergency p
       then Inl (Domain DomainValidationError ''emergency_changes_not_allowed'')
     else if rq_is_emergency ci \<and> strip (rq_emergency_reason ci) = []
       then Inl (Domain DomainValidationError ''emergency_reason_required'')
     else Inr ())"

definition admit_request :: "nat \<Rightarrow> change_input \<Rightarrow> db \<Rightarrow> (nat \<times> op_profile) result" where
  "admit_request org ci d =
    (case first_of (tsel (\<lambda>_ p. op_org p = org \<and> op_key p = rq_profile_key ci) (op_profiles d)) of
       None \<Rightarrow> Inl (Domain DomainValidationError ''invalid_operation_profile'')
     | Some (i, p) \<Rightarrow>
        res_bind (profile_checks p ci) (\<lambda>_.
        case tget (workflows d) (rq_workflow ci) of
          None \<Rightarrow> Inl (Domain DomainValidationError ''workflow_not_found'')
        | Some w \<Rightarrow>
           if wf_org w \<noteq> org then Inl (Domain DomainValidationError ''workflow_not_found'')
           else if rq_workflow ci \<notin> set (op_allowed_workflows p)
             then Inl (Domain DomainValidationError ''workflow_not_allowlisted_for_profile'')
           else if wf_status w \<noteq> WfPublished
             then Inl (Domain DomainValidationError ''workflow_not_published'')
           else res_bind (validate_requested_inputs (py_or (rq_inputs ci) (JObj [])) p) (\<lambda>_.
             res_bind (validate_targets (rq_targets ci) p) (\<lambda>_. Inr (i, p)))))"

definition draft_change :: "timestamp \<Rightarrow> nat \<Rightarrow> nat \<Rightarrow> change_input \<Rightarrow> string option \<Rightarrow> change" where
  "draft_change now org i ci user = \<lparr>ch_org = org, ch_profile = i, ch_workflow = rq_workflow ci,
     ch_requested_by = user, ch_submitted_by = None, ch_title = rq_title ci,
     ch_summary = rq_summary ci, ch_justification = rq_justification ci, ch_status = ChDraft,
     ch_inputs = py_or (rq_inputs ci) (JObj []), ch_inputs_sha = [], ch_snapshot = JObj [],
     ch_snapshot_sha = [], ch_profile_key_snap = [], ch_workflow_version_snap = None,
     ch_workflow_def_sha = [], ch_approval_request = None, ch_policy_evaluation = None,
     ch_policy_snapshot = JObj [], ch_scheduled_for = rq_scheduled_for ci, ch_submitted_at = None,
     ch_stamps = [], ch_terminal_reason = [], ch_is_emergency = rq_is_emergency ci,
     ch_emergency_reason = (if rq_is_emergency ci then rq_emergency_reason ci else []),
     ch_emergency_by = (if rq_is_emergency ci then user else None),
     ch_emergency_at = (if rq_is_emergency ci then Some now else None),
     ch_retro_required = False, ch_retro_due = None, ch_retro_blocking = []\<rparr>"

definition new_target :: "nat \<Rightarrow> nat \<Rightarrow> nat \<times> target_input \<Rightarrow> change_target" where
  "new_target k org pt =
    (case pt of (n, t) \<Rightarrow> \<lparr>tg_change = k, tg_org = org, tg_position = n, tg_type = ti_type t,
       tg_identifier = ti_identifier t, tg_normalized = normalize_target_identifier (ti_identifier t),
       tg_display_name = ti_display_name t, tg_environment = ti_environment t,
       tg_metadata = ti_metadata t\<rparr>)"

definition create_target :: "nat \<Rightarrow> nat \<Rightarrow> db \<Rightarrow> nat \<times> target_input \<Rightarrow> db result" where
  "create_target k org d pt = (let (i, d) = fresh d in target_save i (new_target k org pt) d)"

definition create_change_record ::
    "timestamp \<Rightarrow> nat \<Rightarrow> change_input \<Rightarrow> audit_actor option \<Rightarrow> db \<Rightarrow> (db \<times> nat) result" where
  "create_change_record now org ci actor d =
    res_bind (admit_request org ci d) (\<lambda>(i, p).
    let user = (case actor of None \<Rightarrow> None | Some a \<Rightarrow> user_of a);
        (k, d) = fresh d;
        c = draft_change now org i ci user
    in res_bind (change_save k c d) (\<lambda>d.
       res_bind (res_fold (create_target k org) d (enumerate 1 (rq_targets ci))) (\<lambda>d.
       res_bind (change_emit now k c ''change.created'' (or_service actor) [
         (''operation_profile_key'', JStr (op_key p)),
         (''workflow_id'', JStr (id_str (rq_workflow ci))),
         (''target_count'', JInt (int (length (rq_targets ci))))] d) (\<lambda>d. Inr (d, k)))))"

section \<open>Submitting a draft\<close>

definition stored_target :: "change_target \<Rightarrow> target_input" where
  "stored_target t = \<lparr>ti_environment = tg_environment t, ti_type = tg_type t,
     ti_identifier = tg_identifier t, ti_display_name = tg_display_name t, ti_metadata = tg_metadata t\<rparr>"

definition submit_checks :: "change \<Rightarrow> op_profile \<Rightarrow> workflow \<Rightarrow> change_target list \<Rightarrow> unit result" where
  "submit_checks c p w targets =
    (if wf_org w \<noteq> ch_org c then Inl (Domain DomainValidationError ''workflow_organization_mismatch'')
     else if op_org p \<noteq> ch_org c
       then Inl (Domain DomainValidationError ''operation_profile_organization_mismatch'')
     else if ch_workflow c \<notin> set (op_allowed_workflows p)
       then Inl (Domain DomainValidationError ''workflow_not_allowlisted_for_profile'')
     else if wf_status w \<noteq> WfPublished then Inl (Domain DomainValidationError ''workflow_not_published'')
     else if strip (ch_justification c) = []
       then Inl (Domain DomainValidationError ''change_requires_justification'')
     else res_bind (validate_requested_inputs (py_or (ch_inputs c) (JObj [])) p) (\<lambda>_.
       validate_targets (map stored_target targets) p))"

text \<open>The draft with the frozen request: its snapshot, the hashes, and who submitted it when.\<close>

definition submitted_fields ::
    "timestamp \<Rightarrow> op_profile \<Rightarrow> workflow \<Rightarrow> jdict \<Rightarrow> audit_actor option \<Rightarrow> change \<Rightarrow> change" where
  "submitted_fields now p w snap actor c = c\<lparr>
     ch_inputs_sha := sha256_canonical_json (ch_inputs c),
     ch_snapshot := JObj snap,
     ch_snapshot_sha := sha256_canonical_json (JObj snap),
     ch_profile_key_snap := op_key p,
     ch_workflow_version_snap := Some (wf_version w),
     ch_workflow_def_sha := sha256_canonical_json (py_or (wf_definition w) (JObj [])),
     ch_submitted_at := Some now,
     ch_submitted_by := (case actor of None \<Rightarrow> ch_submitted_by c
       | Some a \<Rightarrow> if actor_type a = ActorUser then Some (actor_id a) else ch_submitted_by c)\<rparr>"

text \<open>The request goes to approval, or straight to the schedule when the profile asks for none.\<close>

definition submit_for_approval ::
    "timestamp \<Rightarrow> nat \<Rightarrow> change \<Rightarrow> op_profile \<Rightarrow> audit_actor option \<Rightarrow> db \<Rightarrow> db result" where
  "submit_for_approval now k c p actor d =
    res_bind (create_change_approval_request now k c (ch_org c) (op_approval_ttl p) actor d) (\<lambda>(d, a).
    res_bind (transition_unsaved now k (c\<lparr>ch_approval_request := Some a\<rparr>) ChPendingApproval actor [] [] d) (\<lambda>(d, c).
    res_bind (change_save k c d) (\<lambda>d.
    change_emit now k c ''change.approval_bound'' (or_service actor)
      [(''approval_request_id'', JStr (id_str a))] d)))"

definition submit_approved ::
    "wf_env \<Rightarrow> timestamp \<Rightarrow> string \<Rightarrow> nat \<Rightarrow> change \<Rightarrow> audit_actor option \<Rightarrow> db \<Rightarrow> db result" where
  "submit_approved env now nonce k c actor d =
    res_bind (transition_unsaved now k c ChApproved actor [] [] d) (\<lambda>(d, c).
    res_bind (change_save k c d) (\<lambda>d.
    schedule_or_make_dispatchable env now nonce actor k d))"

definition submit_change_record ::
    "wf_env \<Rightarrow> timestamp \<Rightarrow> string \<Rightarrow> nat \<Rightarrow> audit_actor option \<Rightarrow> db \<Rightarrow> db result" where
  "submit_change_record env now nonce k actor d =
    (case tget (changes d) k of
       None \<Rightarrow> Inl (NotFound ''change'')
     | Some c \<Rightarrow>
        if ch_status c \<noteq> ChDraft
          then Inl (Domain InvalidStateTransitionError ''invalid_state_transition'')
        else (case tget (op_profiles d) (ch_profile c) of
          None \<Rightarrow> Inl (NotFound ''operation_profile'')
        | Some p \<Rightarrow>
           if \<not> op_is_active p then Inl (Domain DomainConflictError ''change_profile_inactive'')
           else (case tget (workflows d) (ch_workflow c) of
             None \<Rightarrow> Inl (NotFound ''workflow'')
           | Some w \<Rightarrow>
              let targets = map snd (targets_of d k) in
              res_bind (submit_checks c p w targets) (\<lambda>_.
              res_bind (build_request_snapshot k c targets now (Some (ch_profile c, p)) (Some (ch_workflow c, w))) (\<lambda>snap.
              let c = submitted_fields now p w snap actor c in
              res_bind (change_emit now k c ''change.submitted'' (or_service actor) [
                (''operation_profile_key'', JStr (op_key p)),
                (''workflow_id'', JStr (id_str (ch_workflow c))),
                (''workflow_version'', JInt (int (wf_version w))),
                (''requested_inputs_sha256'', JStr (ch_inputs_sha c)),
                (''request_snapshot_sha256'', JStr (ch_snapshot_sha c)),
                (''target_count'', JInt (int (length targets)))] d) (\<lambda>d.
              if op_requires_approval p then submit_for_approval now k c p actor d
              else submit_approved env now nonce k c actor d))))))"

section \<open>Profiles stay outside the world invariant\<close>

lemma profiles_world: "world_grows d (d\<lparr>op_profiles := t\<rparr>)" "world_grows d (d\<lparr>next_id := n\<rparr>)"
  by (auto intro!: world_same simp: still_part_def approval_part_def)

lemma save_profile_world:
  assumes "save_profile now i p actor d = (d', r)"
  shows "world_grows d d'"
  using assms unfolding save_profile_def emit_operation_profile_audit_def Let_def
  by (auto simp: commit_result_def intro: world.refl world.trans [OF profiles_world(1)] audit_emit_world
      profiles_world(1) split: if_splits sum.splits)

lemma assign_workflows_world:
  assumes "assign_workflows now i p ids actor d = (d', r)"
  shows "world_grows d d'"
proof -
  have "world_grows d d1" if "set_allowed_workflows now i ws actor d = Inr d1" for ws d1
    using that unfolding set_allowed_workflows_def emit_operation_profile_audit_def Let_def
    by (auto simp: res_bind_eq_Inr intro: world.refl profiles_world(1) split: option.splits if_splits
        dest!: audit_emit_world world.trans [OF profiles_world(1)] intro: world.trans [OF _ profiles_world(1)] world.trans)
  then show ?thesis
    using assms unfolding assign_workflows_def
    by (auto intro: world.refl dest!: commit_world split: sum.splits)
qed

lemma create_operation_profile_world [world_rules]:
  assumes "create_operation_profile now org key name de ri ap ve ttl dttl tt is ts wfs actor d = (d', r)"
  shows "world_grows d d'"
  using assms unfolding create_operation_profile_def Let_def fresh_def
  by (auto simp: then_do_eq intro: world.refl split: if_splits
      dest!: save_profile_world assign_workflows_world intro: world.trans world.trans [OF profiles_world(2)])

lemma update_operation_profile_world [world_rules]:
  assumes "update_operation_profile now i u wfs actor d = (d', r)"
  shows "world_grows d d'"
  using assms unfolding update_operation_profile_def Let_def
  by (auto simp: then_do_eq intro: world.refl split: if_splits option.splits
      dest!: save_profile_world assign_workflows_world intro: world.trans)

lemma deactivate_operation_profile_world [world_rules]:
  assumes "deactivate_operation_profile now i actor d = (d', r)"
  shows "world_grows d d'"
  using assms unfolding deactivate_operation_profile_def Let_def
  by (auto intro: world.refl split: if_splits option.splits dest!: save_profile_world)

section \<open>Drafts and submissions stay within it\<close>

lemma target_save_frame:
  assumes "target_save i t d = Inr d'"
  shows "d' = d\<lparr>change_targets := (if tget (change_targets d) i = None then tins i t (change_targets d)
      else tupd i (\<lambda>_. t) (change_targets d))\<rparr>"
  using assms by (auto simp: target_save_def split: option.splits if_splits)

lemma create_target_world:
  assumes "create_target k org d pt = Inr d'"
  shows "world_grows d d'" and "changes d' = changes d"
  using assms unfolding create_target_def fresh_def Let_def
  by (auto dest!: target_save_frame intro!: world_same simp: still_part_def approval_part_def)

lemma create_targets_world:
  assumes "res_fold (create_target k org) d pts = Inr d'"
  shows "world_grows d d'" and "changes d' = changes d"
  using assms by (auto intro: world.fold_within create_target_world
      elim: res_fold_induct [where P = "\<lambda>t. changes t = changes d"] simp: create_target_world)

lemma change_insert_world:
  assumes "change_save k c d = Inr d'" and "tget (changes d) k = None"
  shows "world_grows d d'" and "d' = d\<lparr>changes := tins k c (changes d)\<rparr>"
  using assms
  by (auto simp: change_save_def res_bind_eq_Inr world_grows_def locks_exclusive_def log_grows_def
      intro!: table_within_refl table_within_tins)

text \<open>The stages of a successful creation.\<close>

lemma create_change_stages:
  assumes "create_change_record now org rq actor d = Inr (d', k)"
  obtains i p d1 d2 ev where "admit_request org rq d = Inr (i, p)" and "k = next_id d"
    and "change_save k (draft_change now org i rq (case actor of None \<Rightarrow> None | Some a \<Rightarrow> user_of a))
           (d\<lparr>next_id := Suc (next_id d)\<rparr>) = Inr d1"
    and "res_fold (create_target k org) d1 (enumerate 1 (rq_targets rq)) = Inr d2"
    and "d' = d2\<lparr>audit_log := audit_log d2 @ [ev]\<rparr>" and "world_grows d2 d'"
  using assms unfolding create_change_record_def change_emit_def fresh_def Let_def
  by (auto simp: res_bind_eq_Inr split: prod.splits) (metis audit_emit_Inr audit_emit_world)

lemma create_change_record_world [world_rules]:
  assumes "create_change_record now org rq actor d = Inr (d', k)" and "tget (changes d) (next_id d) = None"
  shows "world_grows d d'"
  using assms(1)
proof (rule create_change_stages)
  fix i p d1 d2 assume k: "k = next_id d"
    and s: "change_save k (draft_change now org i rq (case actor of None \<Rightarrow> None | Some a \<Rightarrow> user_of a))
           (d\<lparr>next_id := Suc (next_id d)\<rparr>) = Inr d1"
    and t: "res_fold (create_target k org) d1 (enumerate 1 (rq_targets rq)) = Inr d2" and w: "world_grows d2 d'"
  from change_insert_world(1) [OF s] assms(2) k have "world_grows (d\<lparr>next_id := Suc (next_id d)\<rparr>) d1" by simp
  with profiles_world(2) create_targets_world(1) [OF t] w show ?thesis by (meson world.trans)
qed

lemma transition_unsaved_Inr:
  assumes "transition_unsaved now k c s actor reason extra d = Inr (d', c')"
  obtains ev where "transition_fields now s reason c = Inr c'" and "d' = d\<lparr>audit_log := audit_log d @ [ev]\<rparr>"
    and "world_grows d d'"
  using assms unfolding transition_unsaved_def
  by (auto simp: res_bind_eq_Inr) (metis audit_emit_Inr audit_emit_world)

lemma submitted_fields_keep [simp]:
  "ch_status (submitted_fields now p w snap actor c) = ch_status c"
  "ch_org (submitted_fields now p w snap actor c) = ch_org c"
  "ch_profile (submitted_fields now p w snap actor c) = ch_profile c"
  "ch_workflow (submitted_fields now p w snap actor c) = ch_workflow c"
  by (simp_all add: submitted_fields_def)

text \<open>Saving a submitted draft moves it along the table.\<close>

lemma submit_save_world:
  assumes "tget (changes d) k = Some c" and "ch_status c = ChDraft" and "ch_status c1 = ChDraft" and "ch_org c1 = ch_org c"
    and "transition_fields now s reason c1 = Inr c2" and "change_save k c2 d = Inr d'"
  shows "world_grows d d'" and "d' = upd_change k (\<lambda>_. c2) d" and "ch_status c2 = s" and "frozen_request c2 = frozen_request c1"
proof -
  from transition_fields_Inr [OF assms(5)] assms(2-4) have "change_row_ok c c2" "ch_status c2 = s"
    by (auto simp: change_row_ok_def change_step_def change_lc.moves_def intro!: r_into_rtranclp)
  then show "world_grows d d'" "ch_status c2 = s" using change_save_progress [OF assms(6,1)] by (auto intro: progress_world)
  show "d' = upd_change k (\<lambda>_. c2) d" by (rule change_save_Inr(1) [OF assms(6,1)])
  show "frozen_request c2 = frozen_request c1"
    using assms(5) by (auto simp: transition_fields_def frozen_request_def split: if_splits)
qed

lemma create_change_approval_request_Inr:
  assumes "create_change_approval_request now k c org ttl actor d = Inr (d', a)"
  obtains r ev where "a = next_id d" and "approval_reqs d' = tins a r (approval_reqs d)" and "ar_status r = ArPending"
    and "ar_subject_type r = SubjChange" and "ar_subject_id r = Some k" and "ar_org r = ch_org c"
    and "ar_expires_at r = map_option (\<lambda>t. now + secs t) ttl"
    and "changes d' = changes d" and "op_profiles d' = op_profiles d" and "workflows d' = workflows d"
    and "change_targets d' = change_targets d"
  using assms unfolding create_change_approval_request_def Let_def fresh_def send_def
  by (auto simp: res_bind_eq_Inr split: if_splits dest!: audit_emit_Inr)

lemma submit_for_approval_stages:
  assumes "submit_for_approval now k c1 p actor d = Inr d'" and "tget (changes d) k = Some c"
    and "ch_status c = ChDraft" and "ch_status c1 = ChDraft" and "ch_org c1 = ch_org c"
  obtains a r c2 where "approval_reqs d' = tins (next_id d) r (approval_reqs d)" and "ar_status r = ArPending"
    and "ar_subject_type r = SubjChange" and "ar_subject_id r = Some k"
    and "changes d' = tupd k (\<lambda>_. c2) (changes d)" and "ch_status c2 = ChPendingApproval"
    and "c2 = c1\<lparr>ch_approval_request := Some (next_id d), ch_status := ChPendingApproval\<rparr>"
    and "op_profiles d' = op_profiles d" and "workflows d' = workflows d" and "change_targets d' = change_targets d"
    and "world_grows d d'"
proof -
  from assms(1) obtain d1 a d2 c2 d3 et md where
      r: "create_change_approval_request now k c1 (ch_org c1) (op_approval_ttl p) actor d = Inr (d1, a)"
    and t: "transition_unsaved now k (c1\<lparr>ch_approval_request := Some a\<rparr>) ChPendingApproval actor [] [] d1 = Inr (d2, c2)"
    and s: "change_save k c2 d2 = Inr d3"
    and e: "audit_emit now (ch_org c2) (or_service actor) et ''change_record'' k md d3 = Inr d'"
    by (auto simp: submit_for_approval_def res_bind_eq_Inr change_emit_def)
  note w1 = create_change_approval_request_world [OF r]
  from r obtain row where row: "a = next_id d" "approval_reqs d1 = tins a row (approval_reqs d)" "ar_status row = ArPending"
    "ar_subject_type row = SubjChange" "ar_subject_id row = Some k" "changes d1 = changes d"
    "op_profiles d1 = op_profiles d" "workflows d1 = workflows d" "change_targets d1 = change_targets d"
    by (rule create_change_approval_request_Inr)
  from t obtain ev where t': "transition_fields now ChPendingApproval [] (c1\<lparr>ch_approval_request := Some a\<rparr>) = Inr c2"
    "d2 = d1\<lparr>audit_log := audit_log d1 @ [ev]\<rparr>" "world_grows d1 d2" by (rule transition_unsaved_Inr)
  have c2: "tget (changes d2) k = Some c" using assms(2) row(6) t'(2) by simp
  note sv = submit_save_world [OF c2 assms(3) _ _ t'(1) s]
  have s3: "world_grows d2 d3" "d3 = upd_change k (\<lambda>_. c2) d2" "ch_status c2 = ChPendingApproval"
    using sv assms(4,5) by simp_all
  from t'(1) have eq: "c2 = c1\<lparr>ch_approval_request := Some (next_id d), ch_status := ChPendingApproval\<rparr>"
    by (auto simp: transition_fields_def row(1) split: if_splits)
  from audit_emit_Inr [OF e] obtain ev2 where d': "d' = d3\<lparr>audit_log := audit_log d3 @ [ev2]\<rparr>" by blast
  have "world_grows d d'" using w1 t'(3) s3(1) audit_emit_world [OF e] by (meson world.trans)
  then show thesis
    by (intro that [of row c2]) (use row t'(2) s3 eq d' in \<open>simp_all add: store_defs\<close>)
qed

lemma submit_approved_stages:
  assumes "submit_approved env now nonce k c1 actor d = Inr d'" and "tget (changes d) k = Some c"
    and "ch_status c = ChDraft" and "ch_status c1 = ChDraft" and "ch_org c1 = ch_org c"
  obtains c2 d2 where "tget (changes d2) k = Some c2" and "ch_status c2 = ChApproved"
    and "frozen_request c2 = frozen_request c1" and "schedule_or_make_dispatchable env now nonce actor k d2 = Inr d'"
    and "world_grows d d2"
proof -
  from assms(1) obtain d1 c2 d2 where
      t: "transition_unsaved now k c1 ChApproved actor [] [] d = Inr (d1, c2)"
    and s: "change_save k c2 d1 = Inr d2" and m: "schedule_or_make_dispatchable env now nonce actor k d2 = Inr d'"
    by (auto simp: submit_approved_def res_bind_eq_Inr)
  from t obtain ev where t': "transition_fields now ChApproved [] c1 = Inr c2"
    "d1 = d\<lparr>audit_log := audit_log d @ [ev]\<rparr>" "world_grows d d1" by (rule transition_unsaved_Inr)
  have c2: "tget (changes d1) k = Some c" using assms(2) t'(2) by simp
  note sv = submit_save_world [OF c2 assms(3,4,5) t'(1) s]
  show thesis
    by (rule that [OF _ sv(3,4) m]) (use c2 sv(1,2) t'(3) in \<open>auto simp: upd_change_def table_simps intro: world.trans\<close>)
qed

text \<open>The stages of a successful submission.\<close>

lemma submit_stages:
  assumes "submit_change_record env now nonce k actor d = Inr d'"
  obtains c p w snap c1 d1 ev where "tget (changes d) k = Some c" and "ch_status c = ChDraft"
    and "tget (op_profiles d) (ch_profile c) = Some p" and "op_is_active p" and "tget (workflows d) (ch_workflow c) = Some w"
    and "submit_checks c p w (map snd (targets_of d k)) = Inr ()"
    and "build_request_snapshot k c (map snd (targets_of d k)) now (Some (ch_profile c, p)) (Some (ch_workflow c, w)) = Inr snap"
    and "c1 = submitted_fields now p w snap actor c" and "d1 = d\<lparr>audit_log := audit_log d @ [ev]\<rparr>" and "world_grows d d1"
    and "if op_requires_approval p then submit_for_approval now k c1 p actor d1 = Inr d'
         else submit_approved env now nonce k c1 actor d1 = Inr d'"
proof -
  from assms obtain c p w where c: "tget (changes d) k = Some c" "ch_status c = ChDraft"
      "tget (op_profiles d) (ch_profile c) = Some p" "op_is_active p" "tget (workflows d) (ch_workflow c) = Some w"
    by (auto simp: submit_change_record_def split: option.splits if_splits)
  with assms obtain snap d1 et md where s: "submit_checks c p w (map snd (targets_of d k)) = Inr ()"
    "build_request_snapshot k c (map snd (targets_of d k)) now (Some (ch_profile c, p)) (Some (ch_workflow c, w)) = Inr snap"
    and e: "audit_emit now (ch_org c) (or_service actor) et ''change_record'' k md d = Inr d1"
    and b: "if op_requires_approval p then submit_for_approval now k (submitted_fields now p w snap actor c) p actor d1 = Inr d'
         else submit_approved env now nonce k (submitted_fields now p w snap actor c) actor d1 = Inr d'"
    by (auto simp: submit_change_record_def res_bind_eq_Inr change_emit_def Let_def split: if_splits)
  from audit_emit_Inr [OF e] obtain ev where "d1 = d\<lparr>audit_log := audit_log d @ [ev]\<rparr>" by blast
  with c s b audit_emit_world [OF e] that show thesis by blast
qed

lemma submit_change_record_world [world_rules]:
  assumes "submit_change_record env now nonce k actor d = Inr d'"
  shows "world_grows d d'"
  using assms
proof (rule submit_stages)
  fix c p w snap c1 d1 ev
  assume c: "tget (changes d) k = Some c" "ch_status c = ChDraft" and c1: "c1 = submitted_fields now p w snap actor c"
    and d1: "d1 = d\<lparr>audit_log := audit_log d @ [ev]\<rparr>" "world_grows d d1"
    and b: "if op_requires_approval p then submit_for_approval now k c1 p actor d1 = Inr d'
         else submit_approved env now nonce k c1 actor d1 = Inr d'"
  have k: "tget (changes d1) k = Some c" "ch_status c1 = ChDraft" "ch_org c1 = ch_org c"
    using c c1 d1(1) by simp_all
  have "world_grows d1 d'"
  proof (cases "op_requires_approval p")
    case True
    with b have "submit_for_approval now k c1 p actor d1 = Inr d'" by simp
    then show ?thesis using k(1) c(2) k(2,3) by (rule submit_for_approval_stages)
  next
    case False
    with b have "submit_approved env now nonce k c1 actor d1 = Inr d'" by simp
    then show ?thesis using k(1) c(2) k(2,3)
      by (rule submit_approved_stages) (blast intro: world.trans schedule_or_make_dispatchable_world)
  qed
  with d1(2) show ?thesis by (rule world.trans)
qed

section \<open>A submitted request passes the integrity check\<close>

text \<open>A value as the JSON parser builds it: no dictionary has a key twice.\<close>

fun json_wf :: "json \<Rightarrow> bool" and fields_wf :: "jdict \<Rightarrow> bool" and items_wf :: "json list \<Rightarrow> bool" where
  "json_wf (JObj d) = (distinct (map fst d) \<and> fields_wf d)"
| "json_wf (JArr xs) = items_wf xs"
| "json_wf JNull = True"
| "json_wf (JBool b) = True"
| "json_wf (JInt i) = True"
| "json_wf (JFloat s) = True"
| "json_wf (JStr s) = True"
| "fields_wf [] = True"
| "fields_wf ((k, v) # d) = (json_wf v \<and> fields_wf d)"
| "items_wf [] = True"
| "items_wf (x # xs) = (json_wf x \<and> items_wf xs)"

lemma py_eq_refl_all:
  "json_wf v \<Longrightarrow> py_eq v v"
  "fields_wf a \<Longrightarrow> (\<forall>(k, v) \<in> set a. map_of b k = Some v) \<Longrightarrow> py_eq_fields a b"
  "items_wf xs \<Longrightarrow> py_eq_items xs xs"
proof (induction v and a and xs arbitrary: and b and rule: json_wf_fields_wf_items_wf.induct)
  case (6 s)
  then show ?case by (simp split: option.split)
qed auto

lemmas py_eq_refl = py_eq_refl_all(1)

lemma items_wf_iff: "items_wf xs \<longleftrightarrow> (\<forall>x \<in> set xs. json_wf x)"
  by (induction xs) auto

lemma opt_json_wf: "(\<And>x. json_wf (f x)) \<Longrightarrow> json_wf (opt_json f y)"
  by (cases y) (simp_all add: opt_json_def)

lemma snapshot_keys_distinct:
  "distinct [''change_record_id'', ''title'', ''summary'', ''justification'', ''operation_profile_id'',
     ''operation_profile_key'', ''operation_profile_snapshot'', ''workflow_id'', ''workflow_version'', ''workflow_snapshot'',
     ''requested_inputs_sha256'', ''requested_input_keys'', ''requested_inputs_representation'', ''scheduled_for'',
     ''targets'', ''submitted_at'']"
  by code_simp

lemma snapshot_wf:
  assumes "build_request_snapshot k c ts t p w = Inr snap" and "\<forall>t \<in> set ts. json_wf (tg_metadata t)"
  shows "json_wf (JObj snap)"
proof -
  have t: "json_wf (target_snapshot t)" if "t \<in> set ts" for t
    using assms(2) that by (simp add: target_snapshot_def py_or_def)
  have o: "json_wf (opt_json (\<lambda>(i, p). JStr (op_key p)) p)" "json_wf (opt_json (\<lambda>(i, w). JInt (int (wf_version w))) w)"
    "json_wf (iso_json u)" for u
    by (auto intro!: opt_json_wf simp: iso_json_def split: prod.splits)
  have pw: "json_wf (profile_snapshot p)" "json_wf (workflow_snapshot w)"
    by (auto simp: profile_snapshot_def workflow_snapshot_def split: option.split)
  have "map fst snap = [''change_record_id'', ''title'', ''summary'', ''justification'', ''operation_profile_id'',
     ''operation_profile_key'', ''operation_profile_snapshot'', ''workflow_id'', ''workflow_version'', ''workflow_snapshot'',
     ''requested_inputs_sha256'', ''requested_input_keys'', ''requested_inputs_representation'', ''scheduled_for'',
     ''targets'', ''submitted_at'']"
    using assms(1) by (auto simp: build_request_snapshot_def Let_def split: if_split_asm)
  then have "distinct (map fst snap)" by (simp only: snapshot_keys_distinct)
  moreover have "fields_wf snap"
    using assms(1) t o pw by (auto simp: build_request_snapshot_def Let_def items_wf_iff split: if_split_asm nat.split option.split)
  ultimately show ?thesis by simp
qed

text \<open>The live snapshot of a submitted change is the one stored when it was submitted.\<close>

lemma live_snapshot_of_submitted:
  assumes "build_request_snapshot k c (map snd (targets_of d k)) now (Some (ch_profile c, p)) (Some (ch_workflow c, w)) = Inr snap"
    and "tget (op_profiles d') (ch_profile c) = Some p" and "tget (workflows d') (ch_workflow c) = Some w"
    and "targets_of d' k = targets_of d k"
    and "ch_profile_key_snap c = []" and "ch_workflow_version_snap c = None"
    and "c2 = (submitted_fields now p w snap actor c)\<lparr>ch_approval_request := a, ch_status := s\<rparr>"
  shows "build_live_submitted_request_snapshot d' k c2 = Inr snap"
  using assms
  by (auto simp: build_live_submitted_request_snapshot_def submitted_fields_def build_request_snapshot_def Let_def
      opt_json_def dict_set_def split: if_splits nat.splits)


section \<open>Drafts\<close>

text \<open>What the checks on the targets of a request establish.\<close>

lemma check_targets_Inr:
  assumes "check_targets p seen ts = Inr ()"
  shows "(\<forall>t \<in> set ts. ti_environment t = ''production'' \<and> target_allowed p (ti_type t) = Inr True \<and>
      normalize_target_identifier (ti_identifier t) \<noteq> [] \<and> \<not> has_sensitive_key (ti_metadata t)) \<and>
    distinct (map (\<lambda>t. (ti_type t, normalize_target_identifier (ti_identifier t))) ts) \<and>
    (\<forall>t \<in> set ts. (ti_type t, normalize_target_identifier (ti_identifier t)) \<notin> set seen)"
  using assms
proof (induction ts arbitrary: seen)
  case (Cons t ts)
  let ?key = "(ti_type t, normalize_target_identifier (ti_identifier t))"
  from Cons.prems have h: "ti_environment t = ''production''" "target_allowed p (ti_type t) = Inr True"
      "snd ?key \<noteq> []" "validate_target_metadata (ti_metadata t) = Inr ()" "?key \<notin> set seen"
      "check_targets p (?key # seen) ts = Inr ()"
    by (auto simp: res_bind_eq_Inr Let_def split: if_splits)
  have "\<not> has_sensitive_key (ti_metadata t)"
    using h(4) by (cases "ti_metadata t") (auto simp: validate_target_metadata_def reject_sensitive_keys_def split: if_splits)
  with Cons.IH [OF h(6)] h show ?case by auto
qed simp

lemma admit_request_Inr:
  assumes "admit_request org rq d = Inr (i, p)"
  obtains w where "(i, p) \<in> set (op_profiles d)" and "op_org p = org" and "op_key p = rq_profile_key rq" and "op_is_active p"
    and "rq_is_emergency rq \<longrightarrow> op_allow_emergency p" and "tget (workflows d) (rq_workflow rq) = Some w" and "wf_org w = org"
    and "rq_workflow rq \<in> set (op_allowed_workflows p)" and "wf_status w = WfPublished"
    and "validate_requested_inputs (py_or (rq_inputs rq) (JObj [])) p = Inr ()" and "validate_targets (rq_targets rq) p = Inr ()"
proof -
  from assms obtain w where "first_of (tsel (\<lambda>_ p. op_org p = org \<and> op_key p = rq_profile_key rq) (op_profiles d)) = Some (i, p)"
    "profile_checks p rq = Inr ()" "tget (workflows d) (rq_workflow rq) = Some w" "wf_org w = org"
    "rq_workflow rq \<in> set (op_allowed_workflows p)" "wf_status w = WfPublished"
    "validate_requested_inputs (py_or (rq_inputs rq) (JObj [])) p = Inr ()" "validate_targets (rq_targets rq) p = Inr ()"
    by (auto simp: admit_request_def res_bind_eq_Inr split: option.splits if_splits)
  then show thesis
    by (intro that [of w]) (auto simp: profile_checks_def dest!: first_of_SomeD split: if_splits)
qed

text \<open>The rows the loop over the targets adds: one for each, at its position.\<close>

lemma create_targets_rows:
  assumes "res_fold (create_target k org) d pts = Inr d'" and "\<forall>i \<ge> next_id d. tget (change_targets d) i = None"
  shows "\<exists>ids. change_targets d' = change_targets d @ zip ids (map (new_target k org) pts) \<and>
     length ids = length pts \<and> (\<forall>i \<ge> next_id d'. tget (change_targets d') i = None)"
  using assms
proof (induction pts arbitrary: d)
  case (Cons pt pts)
  let ?t = "new_target k org pt" and ?d = "d\<lparr>next_id := Suc (next_id d)\<rparr>"
  from Cons.prems(1) obtain d1 where "create_target k org d pt = Inr d1"
      and r: "res_fold (create_target k org) d1 pts = Inr d'"
    by (auto simp: res_bind_eq_Inr)
  then have d1: "target_save (next_id d) ?t ?d = Inr d1" by (simp add: create_target_def fresh_def)
  have eq: "d1 = ?d\<lparr>change_targets := tins (next_id d) ?t (change_targets d)\<rparr>"
    using target_save_frame [OF d1] Cons.prems(2) by simp
  have "\<forall>i \<ge> next_id d1. tget (change_targets d1) i = None"
    using Cons.prems(2) by (auto simp: eq table_simps split: option.splits)
  from Cons.IH [OF r this] obtain ids where
    "change_targets d' = change_targets d1 @ zip ids (map (new_target k org) pts)" "length ids = length pts"
    "\<forall>i \<ge> next_id d'. tget (change_targets d') i = None" by blast
  then show ?case by (intro exI [of _ "next_id d # ids"]) (simp add: eq tins_def)
qed simp

lemma zip_targets_sorted:
  assumes "length ids = length ts"
  shows "sort_key (\<lambda>(i, t). tg_position t) (zip ids (map (new_target k org) (enumerate n ts))) =
    zip ids (map (new_target k org) (enumerate n ts))"
proof (rule sort_key_id_if_sorted)
  have "map (\<lambda>(i, t). tg_position t) (zip ids (map (new_target k org) (enumerate n ts))) = [n..<n + length ts]"
    using assms by (intro nth_equalityI) (auto simp: new_target_def nth_enumerate_eq)
  then show "sorted (map (\<lambda>(i, t). tg_position t) (zip ids (map (new_target k org) (enumerate n ts))))"
    by (simp only: sorted_upt)
qed

text \<open>
  A created change is a draft as requested, under an active profile of the organization that
  allows its published workflow; its targets are the requested ones in order, at positions 1, 2, ...,
  all in production, of allowed types, with different normalized identifiers and no secrets in
  their metadata. Nothing else of the changes or targets changes.
\<close>

theorem created_draft:
  assumes "create_change_record now org rq actor d = Inr (d', k)"
    and "tget (changes d) (next_id d) = None" and "\<forall>i \<ge> next_id d. tget (change_targets d) i = None"
    and "\<forall>(i, t) \<in> set (change_targets d). tg_change t \<noteq> next_id d"
  shows "\<exists>i p w. (i, p) \<in> set (op_profiles d) \<and> op_org p = org \<and> op_key p = rq_profile_key rq \<and> op_is_active p \<and>
     tget (workflows d) (rq_workflow rq) = Some w \<and> wf_status w = WfPublished \<and>
     rq_workflow rq \<in> set (op_allowed_workflows p) \<and>
     changes d' = tins k (draft_change now org i rq (case actor of None \<Rightarrow> None | Some a \<Rightarrow> user_of a)) (changes d) \<and>
     map snd (targets_of d' k) = map (new_target k org) (enumerate 1 (rq_targets rq)) \<and>
     (\<forall>j. j \<noteq> k \<longrightarrow> targets_of d' j = targets_of d j) \<and>
     (\<forall>t \<in> set (rq_targets rq). ti_environment t = ''production'' \<and> target_allowed p (ti_type t) = Inr True \<and>
        normalize_target_identifier (ti_identifier t) \<noteq> [] \<and> \<not> has_sensitive_key (ti_metadata t)) \<and>
     distinct (map (\<lambda>t. (ti_type t, normalize_target_identifier (ti_identifier t))) (rq_targets rq))"
  using assms(1)
proof (rule create_change_stages)
  fix i p d1 d2 ev
  let ?c = "draft_change now org i rq (case actor of None \<Rightarrow> None | Some a \<Rightarrow> user_of a)"
  let ?ts = "map (new_target k org) (enumerate 1 (rq_targets rq))"
  assume a: "admit_request org rq d = Inr (i, p)" and k: "k = next_id d"
    and s: "change_save k ?c (d\<lparr>next_id := Suc (next_id d)\<rparr>) = Inr d1"
    and t: "res_fold (create_target k org) d1 (enumerate 1 (rq_targets rq)) = Inr d2"
    and d': "d' = d2\<lparr>audit_log := audit_log d2 @ [ev]\<rparr>"
  from change_insert_world(2) [OF s] assms(2) k have d1: "d1 = d\<lparr>next_id := Suc (next_id d), changes := tins k ?c (changes d)\<rparr>"
    by simp
  from create_targets_rows [OF t] assms(3) obtain ids where
    ids: "change_targets d2 = change_targets d @ zip ids ?ts" "length ids = length (rq_targets rq)"
    by (auto simp: d1)
  have new: "tg_change x = k" if "x \<in> set ?ts" for x
  proof -
    from that obtain pt where "x = new_target k org pt" by auto
    then show ?thesis by (simp add: new_target_def split: prod.splits)
  qed
  have zips: "\<forall>ix \<in> set (zip ids ?ts). tg_change (snd ix) = k"
  proof
    fix ix assume "ix \<in> set (zip ids ?ts)"
    then have "(fst ix, snd ix) \<in> set (zip ids ?ts)" by simp
    then have "snd ix \<in> set ?ts" by (rule set_zip_rightD)
    then show "tg_change (snd ix) = k" by (rule new)
  qed
  have "tsel (\<lambda>_ x. tg_change x = k) (change_targets d) = []"
    using assms(4) by (auto simp: tsel_def k filter_empty_conv)
  moreover have "tsel (\<lambda>_ x. tg_change x = k) (zip ids ?ts) = zip ids ?ts"
    unfolding tsel_def using zips by (intro filter_True) (simp add: case_prod_beta)
  ultimately have "targets_of d' k = sort_key (\<lambda>(i, t). tg_position t) (zip ids ?ts)"
    by (simp add: targets_of_def d' ids(1)) (simp add: tsel_def)
  then have mine: "map snd (targets_of d' k) = ?ts" using ids(2) by (simp add: zip_targets_sorted)
  have "tsel (\<lambda>_ x. tg_change x = j) (zip ids ?ts) = []" if "j \<noteq> k" for j
    unfolding tsel_def using zips that by (intro filter_False) (simp add: case_prod_beta)
  then have "targets_of d' j = targets_of d j" if "j \<noteq> k" for j
    using that by (simp add: targets_of_def d' ids(1) tsel_def)
  moreover have "changes d' = tins k ?c (changes d)"
    using create_targets_world(2) [OF t] by (simp add: d' d1)
  moreover from a have "check_targets p [] (rq_targets rq) = Inr ()"
    by (rule admit_request_Inr) (auto simp: validate_targets_def res_bind_eq_Inr split: if_splits)
  moreover from a obtain w where "(i, p) \<in> set (op_profiles d)" "op_org p = org" "op_key p = rq_profile_key rq"
    "op_is_active p" "tget (workflows d) (rq_workflow rq) = Some w" "wf_status w = WfPublished"
    "rq_workflow rq \<in> set (op_allowed_workflows p)" by (rule admit_request_Inr)
  ultimately show ?thesis using mine check_targets_Inr by blast
qed

section \<open>Witnesses\<close>

definition open_profile :: op_profile where
  "open_profile = sample_profile\<lparr>op_allowed_target_types := JArr [JStr ''host'']\<rparr>"

definition restart_request :: change_input where
  "restart_request = \<lparr>rq_profile_key = ''restart'', rq_workflow = 20, rq_title = ''T'', rq_summary = [],
     rq_justification = ''j'', rq_inputs = JNull, rq_scheduled_for = None,
     rq_targets = [\<lparr>ti_environment = ''production'', ti_type = ''host'', ti_identifier = '' DB-1 '',
       ti_display_name = [], ti_metadata = JObj []\<rparr>],
     rq_is_emergency = False, rq_emergency_reason = []\<rparr>"

definition request_db :: db where
  "request_db = empty_db\<lparr>next_id := 100, op_profiles := [(10, open_profile)], workflows := [(20, sample_workflow)]\<rparr>"

lemma request_rows:
  "next_id request_db = 100" "op_profiles request_db = [(10, open_profile)]" "workflows request_db = [(20, sample_workflow)]"
  "changes request_db = []" "change_targets request_db = []" "approval_reqs request_db = []"
  by (simp_all add: request_db_def empty_db_def)

lemma request_keys: "\<not> sensitive ''target_count''" "\<not> sensitive ''request_snapshot_sha256''" "\<not> sensitive ''timeout_seconds''"
  by (simp_all add: sensitive_def lower_def lower_char_def code_point_def REJECTED_METADATA_KEYS_def
      FORBIDDEN_METADATA_KEYS_def)

lemma created_event_ok:
  "\<exists>ev. audit_emit now org a ''change.created'' ''change_record'' 100
      [(''operation_profile_key'', JStr ''restart''), (''workflow_id'', JStr (id_str 20)), (''target_count'', JInt 1)] d =
    Inr (d\<lparr>audit_log := audit_log d @ [ev]\<rparr>)"
  using length_id_str [of 20]
  by (intro audit_emit_succeeds) (simp_all add: sample_event_simps request_keys int_str_def)

lemma sample_admitted: "admit_request 1 restart_request request_db = Inr (10, open_profile)"
  by code_simp

lemma sample_created:
  "\<exists>d'. create_change_record 5 1 restart_request None request_db = Inr (d', 100)"
proof -
  let ?c = "draft_change 5 1 10 restart_request None"
  let ?d = "request_db\<lparr>next_id := 101, changes := [(100, ?c)]\<rparr>"
  have s: "change_save 100 ?c (request_db\<lparr>next_id := 101\<rparr>) = Inr ?d"
    by (simp add: change_save_def change_clean_def request_rows draft_change_def restart_request_def tget_def tins_def
        open_profile_def sample_profile_def sample_workflow_def)
  have t: "rq_targets restart_request \<noteq> [] \<and> tl (rq_targets restart_request) = []"
    "ti_environment (hd (rq_targets restart_request)) = ''production''" "length (rq_targets restart_request) = 1"
    by (simp_all add: restart_request_def)
  have "\<exists>d2. res_fold (create_target 100 1) ?d (enumerate 1 (rq_targets restart_request)) = Inr d2"
    using t by (cases "rq_targets restart_request")
      (auto simp: create_target_def fresh_def target_save_def new_target_def tget_def request_rows draft_change_def)
  moreover have "op_key open_profile = ''restart''" "rq_workflow restart_request = 20" "ch_org ?c = 1"
    by (simp_all add: open_profile_def sample_profile_def restart_request_def draft_change_def)
  moreover obtain f where "\<And>d. audit_emit 5 1 (or_service None) ''change.created'' ''change_record'' 100
      [(''operation_profile_key'', JStr ''restart''), (''workflow_id'', JStr (id_str 20)), (''target_count'', JInt 1)] d =
      Inr (d\<lparr>audit_log := audit_log d @ [f d]\<rparr>)"
    using created_event_ok [of 5 1 "or_service None"] by metis
  ultimately show ?thesis
    by (auto simp: create_change_record_def sample_admitted [unfolded One_nat_def] fresh_def request_rows
        s [unfolded One_nat_def] change_emit_def t(3) Let_def)
qed

theorem created_draft_witness:
  "\<exists>d'. create_change_record 5 1 restart_request None request_db = Inr (d', 100) \<and>
     map snd (targets_of d' 100) = map (new_target 100 1) (enumerate 1 (rq_targets restart_request))"
proof -
  obtain d' where r: "create_change_record 5 1 restart_request None request_db = Inr (d', 100)"
    using sample_created by blast
  have f: "tget (changes request_db) (next_id request_db) = None"
    "\<forall>i \<ge> next_id request_db. tget (change_targets request_db) i = None"
    "\<forall>(i, t) \<in> set (change_targets request_db). tg_change t \<noteq> next_id request_db"
    by (simp_all add: request_rows tget_def)
  from created_draft [OF r f] r show ?thesis by blast
qed

definition draft_db :: db where
  "draft_db = request_db\<lparr>changes := [(30, draft_change 5 1 10 restart_request (Some ''ann''))],
     change_targets := [(35, new_target 30 1 (1, hd (rq_targets restart_request)))]\<rparr>"

lemma draft_rows:
  "next_id draft_db = 100" "op_profiles draft_db = [(10, open_profile)]" "workflows draft_db = [(20, sample_workflow)]"
  "changes draft_db = [(30, draft_change 5 1 10 restart_request (Some ''ann''))]" "approval_reqs draft_db = []"
  "targets_of draft_db 30 = [(35, new_target 30 1 (1, hd (rq_targets restart_request)))]"
  by (simp_all add: draft_db_def request_rows targets_of_def tsel_def new_target_def)

lemma draft_fields:
  "ch_org (draft_change t org i restart_request u) = org" "ch_profile (draft_change t org i restart_request u) = i"
  "ch_workflow (draft_change t org i restart_request u) = 20" "ch_status (draft_change t org i restart_request u) = ChDraft"
  "ch_inputs (draft_change t org i restart_request u) = JObj []" "ch_profile_key_snap (draft_change t org i restart_request u) = []"
  "ch_workflow_version_snap (draft_change t org i restart_request u) = None"
  by (simp_all add: draft_change_def restart_request_def py_or_def)

lemma profile_fields:
  "op_is_active open_profile" "op_requires_approval open_profile" "op_key open_profile = ''restart''"
  "op_approval_ttl open_profile = None" "op_org open_profile = 1" "wf_version sample_workflow = 3" "wf_org sample_workflow = 1"
  by (simp_all add: open_profile_def sample_profile_def sample_workflow_def)

lemma submitted_event_ok:
  assumes "length s1 = 64" and "length s2 = 64"
  shows "\<exists>ev. audit_emit now org a ''change.submitted'' ''change_record'' 30 [
      (''operation_profile_key'', JStr ''restart''), (''workflow_id'', JStr (id_str 20)), (''workflow_version'', JInt 3),
      (''requested_inputs_sha256'', JStr s1), (''request_snapshot_sha256'', JStr s2), (''target_count'', JInt 1)] d =
    Inr (d\<lparr>audit_log := audit_log d @ [ev]\<rparr>)"
  using length_id_str [of 20] assms
  by (intro audit_emit_succeeds) (simp_all add: sample_event_simps request_keys int_str_def)

lemma requested_event_ok:
  "\<exists>ev. audit_emit now org a ''approval.requested'' ''approval_request'' 100 [
      (''approval_request_id'', JStr (id_str 100)), (''subject_type'', JStr ''change_record''),
      (''subject_id'', JStr (id_str 30)), (''change_record_id'', JStr (id_str 30)),
      (''timeout_seconds'', JNull), (''expires_at'', JNull)] d =
    Inr (d\<lparr>audit_log := audit_log d @ [ev]\<rparr>)"
  using length_id_str [of 30] length_id_str [of 100]
  by (intro audit_emit_succeeds) (simp_all add: sample_event_simps request_keys)

lemma pending_event_ok:
  "\<exists>ev. audit_emit now org a ''change.status_changed'' ''change_record'' 30
      (transition_metadata ChDraft ChPendingApproval [] []) d = Inr (d\<lparr>audit_log := audit_log d @ [ev]\<rparr>)"
  by (intro audit_emit_succeeds) (simp_all add: sample_event_simps transition_metadata_def)

lemma bound_event_ok:
  "\<exists>ev. audit_emit now org a ''change.approval_bound'' ''change_record'' 30
      [(''approval_request_id'', JStr (id_str 100))] d = Inr (d\<lparr>audit_log := audit_log d @ [ev]\<rparr>)"
  using length_id_str [of 100] by (intro audit_emit_succeeds) (simp_all add: sample_event_simps)

lemma sample_submit_checks:
  "submit_checks (draft_change 5 1 10 restart_request (Some ''ann'')) open_profile sample_workflow
     [new_target 30 1 (1, hd (rq_targets restart_request))] = Inr ()"
  by code_simp

lemma length_sha256_canonical: "length (sha256_canonical_json v) = 64"
  by (simp add: sha256_canonical_json_def)

lemma sample_submitted: "\<exists>d'. submit_change_record env 9 nonce 30 None draft_db = Inr d'"
proof -
  let ?c = "draft_change 5 1 10 restart_request (Some ''ann'')"
  let ?ts = "[new_target 30 1 (1, hd (rq_targets restart_request))]"
  let ?act = "system_actor ''Change service''"
  obtain snap where b: "build_request_snapshot 30 ?c ?ts 9 (Some (10, open_profile)) (Some (20, sample_workflow)) = Inr snap"
    by (simp add: build_request_snapshot_def draft_fields py_or_def)
  let ?c1 = "submitted_fields 9 open_profile sample_workflow snap None ?c"
  obtain e1 where e1: "audit_emit 9 1 ?act ''change.submitted'' ''change_record'' 30 [
      (''operation_profile_key'', JStr ''restart''), (''workflow_id'', JStr (id_str 20)), (''workflow_version'', JInt 3),
      (''requested_inputs_sha256'', JStr (ch_inputs_sha ?c1)), (''request_snapshot_sha256'', JStr (ch_snapshot_sha ?c1)),
      (''target_count'', JInt 1)] draft_db = Inr (draft_db\<lparr>audit_log := audit_log draft_db @ [e1]\<rparr>)"
    using submitted_event_ok [of "ch_inputs_sha ?c1" "ch_snapshot_sha ?c1" 9 1 ?act draft_db]
    by (auto simp: submitted_fields_def length_sha256_canonical)
  let ?d1 = "draft_db\<lparr>audit_log := audit_log draft_db @ [e1]\<rparr>"
  obtain f where "\<And>d. audit_emit 9 1 (or_system None) ''approval.requested'' ''approval_request'' 100 [
      (''approval_request_id'', JStr (id_str 100)), (''subject_type'', JStr ''change_record''),
      (''subject_id'', JStr (id_str 30)), (''change_record_id'', JStr (id_str 30)),
      (''timeout_seconds'', JNull), (''expires_at'', JNull)] d = Inr (d\<lparr>audit_log := audit_log d @ [f d]\<rparr>)"
    using requested_event_ok [of 9 1 "or_system None"] by metis
  then obtain d2 where d2: "create_change_approval_request 9 30 ?c1 1 None None ?d1 = Inr (d2, 100)"
      "changes d2 = [(30, ?c)]" "op_profiles d2 = [(10, open_profile)]" "workflows d2 = [(20, sample_workflow)]"
    by (auto simp: create_change_approval_request_def fresh_def draft_rows draft_fields send_def opt_json_def iso_json_def)
  let ?c2 = "?c1\<lparr>ch_approval_request := Some 100\<rparr>"
  let ?c3 = "?c2\<lparr>ch_status := ChPendingApproval\<rparr>"
  obtain e2 where t: "transition_unsaved 9 30 ?c2 ChPendingApproval None [] [] d2 = Inr (d2\<lparr>audit_log := audit_log d2 @ [e2]\<rparr>, ?c3)"
    using pending_event_ok [of 9 1 ?act d2]
    by (auto simp: transition_unsaved_def transition_fields_def draft_fields)
  have sv: "\<exists>d3. change_save 30 ?c3 (d2\<lparr>audit_log := audit_log d2 @ [e2]\<rparr>) = Inr d3"
    by (simp add: change_save_def change_clean_def d2(2-4) tget_def draft_fields profile_fields)
  have "submit_for_approval 9 30 ?c1 open_profile None ?d1 = Inr d' \<longleftrightarrow>
      res_bind (change_save 30 ?c3 (d2\<lparr>audit_log := audit_log d2 @ [e2]\<rparr>)) (\<lambda>d.
        change_emit 9 30 ?c3 ''change.approval_bound'' (or_service None) [(''approval_request_id'', JStr (id_str 100))] d) = Inr d'" for d'
    by (simp add: submit_for_approval_def d2(1) [unfolded One_nat_def] draft_fields profile_fields t [unfolded One_nat_def])
  with sv obtain d' where "submit_for_approval 9 30 ?c1 open_profile None ?d1 = Inr d'"
    using bound_event_ok by (fastforce simp: change_emit_def)
  then have "submit_change_record env 9 nonce 30 None draft_db = Inr d'"
    using b e1
    by (simp add: submit_change_record_def draft_rows tget_def draft_fields profile_fields change_emit_def or_service_def
        sample_submit_checks [unfolded One_nat_def] b [unfolded One_nat_def])
  then show ?thesis by blast
qed


end
