(* ===== verification/Verification_Results.thy ===== *)
theory Verification_Results
  imports Approvals
begin

text \<open>
  Verification evidence (\<open>submit_verification_result\<close> and its callers in
  \<open>apps/changes/services.py\<close>). Evidence that does not fit its check is recorded as a rejected
  result; accepted evidence moves the check and recomputes the plan and the change. Matching a
  regular expression (\<open>re.fullmatch\<close>) is a parameter: \<open>None\<close> stands for \<open>re.error\<close>.
\<close>

section \<open>The evidence\<close>

record evidence =
  ev_verification_key :: string
  ev_step_key :: string
  ev_artifact :: "nat option"
  ev_checksum :: string
  ev_reference :: string
  ev_api :: json
  ev_attestation :: string
  ev_observed :: json
  ev_submitted_at :: "timestamp option"

definition result_source_of :: "string \<Rightarrow> result_source option" where
  "result_source_of s = (if s = ''runner'' then Some SrcRunner else if s = ''user'' then Some SrcUser
     else if s = ''system'' then Some SrcSystem else None)"

definition result_outcome_of :: "string \<Rightarrow> result_outcome option" where
  "result_outcome_of s = (if s = ''passed'' then Some OutPassed
     else if s = ''failed'' then Some OutFailed else None)"

definition user_actor :: "user \<Rightarrow> audit_actor" where
  "user_actor u = \<lparr>actor_type = ActorUser, actor_id = us_id u,
     actor_label = (if us_email u \<noteq> [] then us_email u else us_id u)\<rparr>"

definition verification_actor :: "result_source \<Rightarrow> user option \<Rightarrow> string \<Rightarrow> audit_actor" where
  "verification_actor src u runner_id =
    (case (src, u) of
       (SrcRunner, _) \<Rightarrow> actor_from_runner runner_id
     | (SrcUser, Some u) \<Rightarrow> user_actor u
     | _ \<Rightarrow> system_actor ''Verification service'')"

definition evidence_error :: "string \<Rightarrow> json" where
  "evidence_error code = JObj [(''code'', JStr code)]"

text \<open>The error, if the condition holds.\<close>

definition err_if :: "bool \<Rightarrow> string \<Rightarrow> json list" where
  "err_if b code = (if b then [evidence_error code] else [])"

section \<open>Evidence of a runner\<close>

definition bound_execution_for_verification ::
    "db \<Rightarrow> nat \<Rightarrow> string \<Rightarrow> nat option \<Rightarrow> binding option" where
  "bound_execution_for_verification d k runner_id e =
    (case first_of (tsel (\<lambda>_ b. bd_change b = k \<and> bd_bound_at b \<noteq> None) (bindings d)) of
       None \<Rightarrow> None
     | Some (_, b) \<Rightarrow>
        if e \<noteq> None \<and> e \<noteq> Some (bd_exec b) then None
        else if runner_id \<noteq> [] \<and> bd_bound_by b \<noteq> runner_id then None
        else Some b)"

definition free_text_only :: "evidence \<Rightarrow> bool" where
  "free_text_only ev \<longleftrightarrow> strip (ev_attestation ev) \<noteq> [] \<and>
     \<not> (ev_artifact ev \<noteq> None \<or> strip (ev_reference ev) \<noteq> [] \<or> truthy (ev_api ev) \<or>
        truthy (ev_observed ev) \<or> strip (ev_verification_key ev) \<noteq> [])"

text \<open>What the step of the bound execution says about the reported outcome.\<close>

definition step_supports :: "result_outcome \<Rightarrow> exec_step option \<Rightarrow> json \<Rightarrow> json list" where
  "step_supports out step observed =
    (case step of
       None \<Rightarrow> err_if (\<not> truthy observed) ''execution_step_not_found''
     | Some s \<Rightarrow>
        err_if (out = OutPassed \<and> st_status s \<noteq> StSucceeded) ''execution_step_not_succeeded'' @
        err_if (out = OutFailed \<and> st_status s \<noteq> StFailed \<and> st_status s \<noteq> StSkipped \<and>
            strip (py_str (fget (fields_of observed) ''status'' (JStr []))) \<noteq> ''failed'')
          ''execution_step_not_failed'')"

definition validate_runner_step ::
    "db \<Rightarrow> nat \<Rightarrow> verification_check \<Rightarrow> result_source \<Rightarrow> result_outcome \<Rightarrow> string \<Rightarrow> nat option \<Rightarrow> evidence \<Rightarrow> json list" where
  "validate_runner_step d k v src out runner_id e ev =
    (if src \<noteq> SrcRunner then [evidence_error ''runner_step_requires_runner_source'']
     else (case bound_execution_for_verification d k runner_id e of
        None \<Rightarrow> [evidence_error ''runner_ownership_mismatch'']
      | Some b \<Rightarrow>
         let expected = vc_source_step_key v;
             submitted = (if strip (ev_step_key ev) \<noteq> [] then strip (ev_step_key ev)
               else strip (py_str (fget (fields_of (ev_observed ev)) ''source_step_key'' (JStr []))));
             key = (if expected \<noteq> [] then expected else submitted)
         in err_if (expected \<noteq> [] \<and> submitted \<noteq> [] \<and> submitted \<noteq> expected) ''source_step_key_mismatch'' @
            (if key \<noteq> []
             then step_supports out (map_option snd (first_of (tsel (\<lambda>_ s. st_exec s = bd_exec b \<and>
                    st_key s = key) (exec_steps d)))) (ev_observed ev)
             else err_if (\<not> truthy (ev_observed ev)) ''runner_step_structured_fact_required'')))"

section \<open>Artifacts\<close>

text \<open>The pattern is a regular expression when it is anchored, else the name itself.\<close>

definition matches_artifact_name :: "(string \<Rightarrow> string \<Rightarrow> bool option) \<Rightarrow> string \<Rightarrow> string \<Rightarrow> bool" where
  "matches_artifact_name fullmatch name pat =
    (if starts_with ''^'' pat \<and> pat \<noteq> [] \<and> last pat = CHR ''$''
     then fullmatch pat name = Some True else name = pat)"

definition validate_artifact_presence ::
    "(string \<Rightarrow> string \<Rightarrow> bool option) \<Rightarrow> db \<Rightarrow> nat \<Rightarrow> change \<Rightarrow> verification_check \<Rightarrow> evidence \<Rightarrow> json list" where
  "validate_artifact_presence fullmatch d k c v ev =
    (case ev_artifact ev of
       None \<Rightarrow> [evidence_error ''artifact_required'']
     | Some i \<Rightarrow>
      (case tget (artifacts d) i of
         None \<Rightarrow> [evidence_error ''artifact_not_found'']
       | Some a \<Rightarrow>
          let sum = strip (ev_checksum ev) in
          err_if (case bound_execution_for_verification d k [] None of
                    None \<Rightarrow> True | Some b \<Rightarrow> af_exec a \<noteq> bd_exec b) ''artifact_execution_mismatch'' @
          err_if (af_org a \<noteq> ch_org c) ''artifact_organization_mismatch'' @
          err_if (\<not> af_available a) ''artifact_unavailable'' @
          err_if (vc_source_step_key v \<noteq> [] \<and>
            (case Option.bind (af_step a) (tget (exec_steps d)) of
               None \<Rightarrow> True | Some s \<Rightarrow> st_key s \<noteq> vc_source_step_key v)) ''artifact_step_mismatch'' @
          err_if (vc_artifact_kind v \<noteq> [] \<and> af_kind a \<noteq> vc_artifact_kind v) ''artifact_kind_mismatch'' @
          err_if (vc_artifact_pattern v \<noteq> [] \<and>
            \<not> matches_artifact_name fullmatch (af_name a) (vc_artifact_pattern v)) ''artifact_name_mismatch'' @
          err_if (sum \<noteq> [] \<and> sum \<noteq> af_checksum a) ''artifact_checksum_mismatch'' @
          err_if (vc_checksum v \<noteq> [] \<and> af_checksum a \<noteq> vc_checksum v)
            ''artifact_expected_checksum_mismatch''))"

section \<open>Reviewers\<close>

text \<open>The users who may not review the change: its requester, submitter and approver.\<close>

definition disallowed_reviewers :: "db \<Rightarrow> change \<Rightarrow> string list" where
  "disallowed_reviewers d c =
    filter (\<lambda>u. u \<noteq> []) (concat (map (case_option [] (\<lambda>u. [u]))
      [ch_requested_by c, ch_submitted_by c,
       Option.bind (ch_approval_request c) (\<lambda>a.
         case first_of (tsel (\<lambda>_ x. ad_request x = a) (approval_decs d)) of
           None \<Rightarrow> None | Some (_, x) \<Rightarrow> ad_user x)]))"

definition membership_of :: "db \<Rightarrow> nat \<Rightarrow> string \<Rightarrow> membership option" where
  "membership_of d org u =
    map_option snd (first_of (tsel (\<lambda>_ m. mb_org m = org \<and> mb_user m = u) (memberships d)))"

fun role_str :: "role \<Rightarrow> string" where
  "role_str RoleViewer = ''viewer''"
| "role_str RoleOperator = ''operator''"
| "role_str RoleAdmin = ''admin''"
| "role_str RoleOwner = ''owner''"

definition validate_user_reviewer :: "db \<Rightarrow> change \<Rightarrow> user \<Rightarrow> json \<Rightarrow> bool \<Rightarrow> json list result" where
  "validate_user_reviewer d c u config independent =
    res_bind (case membership_of d (ch_org c) (us_id u) of
        None \<Rightarrow> Inr [evidence_error ''verification_user_not_org_member'']
      | Some m \<Rightarrow>
         res_bind (py_get config ''allowed_roles'' JNull) (\<lambda>allowed.
         res_bind (py_get config ''required_roles'' JNull) (\<lambda>required.
         let roles = py_or allowed (py_or required (JArr [])) in
         if \<not> truthy roles then Inr []
         else res_bind (py_iter roles) (\<lambda>rs.
           Inr (err_if (role_str (mb_role m) \<notin> set (map py_str rs)) ''verification_user_role_not_allowed'')))))
     (\<lambda>member. Inr (err_if (\<not> us_active u) ''verification_user_inactive'' @ member @
       err_if (independent \<and> us_id u \<in> set (disallowed_reviewers d c)) ''self_review_rejected''))"

text \<open>The flag of the check, or else that of the profile.\<close>

definition check_requires_independent_reviewer :: "db \<Rightarrow> change \<Rightarrow> verification_check \<Rightarrow> bool" where
  "check_requires_independent_reviewer d c v =
    (case map_of (fields_of (py_or (vc_attestation_config v) (JObj []))) ''requires_independent_reviewer'' of
       Some b \<Rightarrow> truthy b
     | None \<Rightarrow> (case tget (op_profiles d) (ch_profile c) of None \<Rightarrow> True | Some p \<Rightarrow> op_independent_reviewer p))"

definition validate_manual_attestation ::
    "db \<Rightarrow> change \<Rightarrow> verification_check \<Rightarrow> result_source \<Rightarrow> user option \<Rightarrow> evidence \<Rightarrow> json list result" where
  "validate_manual_attestation d c v src u ev =
    (case (src, u) of
       (SrcUser, Some u) \<Rightarrow>
         res_bind (validate_user_reviewer d c u (py_or (vc_attestation_config v) (JObj []))
             (check_requires_independent_reviewer d c v)) (\<lambda>es.
         Inr (err_if (strip (ev_attestation ev) = []) ''manual_attestation_text_required'' @ es))
     | _ \<Rightarrow> Inr [evidence_error ''manual_attestation_requires_user''])"

section \<open>References and assertions\<close>

text \<open>The scheme and the network location \<open>urlparse\<close> finds in a text.\<close>

definition scheme_char :: "char \<Rightarrow> bool" where
  "scheme_char c \<longleftrightarrow> (let n = code_point c in
     97 \<le> n \<and> n \<le> 122 \<or> 65 \<le> n \<and> n \<le> 90 \<or> 48 \<le> n \<and> n \<le> 57 \<or> c \<in> {CHR ''+'', CHR ''-'', CHR ''.''})"

definition url_parts :: "string \<Rightarrow> (string \<times> string) result" where
  "url_parts s =
    (let s = filter (\<lambda>c. c \<notin> {CHR 9, CHR 10, CHR 13}) (dropWhile (\<lambda>c. code_point c \<le> 32) s);
         pre = takeWhile (\<lambda>c. c \<noteq> CHR '':'') s;
         has = (pre \<noteq> [] \<and> length pre < length s \<and> list_all scheme_char pre \<and>
                (let n = code_point (hd pre) in 97 \<le> n \<and> n \<le> 122 \<or> 65 \<le> n \<and> n \<le> 90));
         scheme = (if has then lower pre else []);
         rest = (if has then drop (Suc (length pre)) s else s);
         netloc = (if starts_with ''//'' rest
                   then takeWhile (\<lambda>c. c \<notin> {CHR ''/'', CHR ''?'', CHR ''#''}) (drop 2 rest) else [])
     in if (CHR ''['' \<in> set netloc) \<noteq> (CHR '']'' \<in> set netloc) then Inl (PyError ''ValueError'')
        else Inr (scheme, netloc))"

definition reference_host_errors :: "json \<Rightarrow> string \<Rightarrow> json list result" where
  "reference_host_errors config reference =
    (case py_or (fget (fields_of config) ''allowed_hosts'' JNull) (JArr []) of
       JArr (h # hs) \<Rightarrow>
         res_bind (url_parts reference) (\<lambda>(scheme, netloc).
         Inr (err_if (scheme \<noteq> [] \<and> netloc \<notin> set (map py_str (h # hs)))
           ''external_reference_host_not_allowed''))
     | _ \<Rightarrow> Inr [])"

definition validate_external_reference ::
    "(string \<Rightarrow> string \<Rightarrow> bool option) \<Rightarrow> db \<Rightarrow> change \<Rightarrow> verification_check \<Rightarrow> result_source \<Rightarrow> user option
      \<Rightarrow> evidence \<Rightarrow> json list result" where
  "validate_external_reference fullmatch d c v src u ev =
    (case (src, u) of
       (SrcUser, Some u) \<Rightarrow>
         let reference = strip (ev_reference ev); config = py_or (vc_external_config v) (JObj []) in
         res_bind (py_get config ''pattern'' (JStr [])) (\<lambda>p.
         let pat = strip (py_str p);
             bad = (if pat = [] then [] else (case fullmatch pat reference of
                None \<Rightarrow> [evidence_error ''external_reference_config_invalid'']
              | Some ok \<Rightarrow> err_if (\<not> ok) ''external_reference_invalid''))
         in res_bind (reference_host_errors config reference) (\<lambda>hosts.
            res_bind (validate_user_reviewer d c u config
              (truthy (fget (fields_of config) ''requires_independent_reviewer'' (JBool False)))) (\<lambda>es.
            Inr (err_if (reference = []) ''external_reference_required'' @ bad @ hosts @ es))))
     | _ \<Rightarrow> Inr [evidence_error ''external_reference_requires_user''])"

text \<open>The first expected fact that the submitted ones do not confirm.\<close>

fun expected_mismatch :: "jdict \<Rightarrow> jdict \<Rightarrow> json list" where
  "expected_mismatch facts [] = []"
| "expected_mismatch facts ((key, v) # rest) =
    (if \<not> py_eq (fget facts key JNull) v
     then [JObj [(''code'', JStr ''api_assertion_expected_value_mismatch''), (''field'', JStr key)]]
     else expected_mismatch facts rest)"

definition validate_api_assertion :: "result_source \<Rightarrow> verification_check \<Rightarrow> evidence \<Rightarrow> json list result" where
  "validate_api_assertion src v ev =
    (let config = py_or (vc_api_assertion v) (JObj []) in
     if \<not> truthy config then Inr [evidence_error ''api_assertion_config_missing'']
     else if \<not> (truthy (ev_api ev) \<or> truthy (ev_observed ev))
       then Inr [evidence_error ''api_assertion_structured_evidence_required'']
     else res_bind (py_get config ''allow_submitted_snapshot'' (JBool False)) (\<lambda>allow.
       if \<not> truthy allow then Inr [evidence_error ''api_assertion_adapter_unavailable'']
       else if src = SrcRunner then Inr [evidence_error ''api_assertion_runner_source_unsupported'']
       else (case fget (fields_of config) ''expected'' JNull of
          JObj expected \<Rightarrow>
            Inr (expected_mismatch (dict_merge (fields_of (ev_observed ev)) (fields_of (ev_api ev))) expected)
        | _ \<Rightarrow> Inr [])))"

section \<open>Judging the evidence\<close>

text \<open>The checks that do not depend on the type of the check.\<close>

definition general_errors ::
    "nat \<Rightarrow> change \<Rightarrow> nat \<Rightarrow> verification_plan \<Rightarrow> verification_check \<Rightarrow> result_source \<Rightarrow> evidence \<Rightarrow> json list" where
  "general_errors k c i p v src ev =
    err_if (vp_status p = VpCanceled) ''verification_plan_canceled'' @
    (if ch_status c \<notin> {ChRunning, ChVerificationPending}
     then [JObj [(''code'', JStr ''change_not_verifiable''), (''status'', JStr (change_status_str (ch_status c)))]]
     else []) @
    err_if (ch_status c = ChRunning \<and> src \<noteq> SrcRunner) ''change_not_verification_pending'' @
    err_if (vc_plan v \<noteq> i \<or> vc_change v \<noteq> k) ''verification_check_mismatch'' @
    err_if (vc_verification_key v \<noteq> [] \<and> strip (ev_verification_key ev) \<noteq> vc_verification_key v)
      ''verification_key_mismatch'' @
    err_if (vc_type v \<in> {''runner_step'', ''artifact_presence'', ''api_assertion'', ''external_reference''} \<and>
      free_text_only ev) ''structured_evidence_required''"

definition validate_verification_evidence ::
    "(string \<Rightarrow> string \<Rightarrow> bool option) \<Rightarrow> db \<Rightarrow> nat \<Rightarrow> change \<Rightarrow> nat \<Rightarrow> verification_plan \<Rightarrow> verification_check
      \<Rightarrow> result_source \<Rightarrow> result_outcome \<Rightarrow> user option \<Rightarrow> string \<Rightarrow> nat option \<Rightarrow> evidence \<Rightarrow> json list result" where
  "validate_verification_evidence fullmatch d k c i p v src out u runner_id e ev =
    res_bind
      (if vc_type v = ''runner_step'' then Inr (validate_runner_step d k v src out runner_id e ev)
       else if vc_type v = ''artifact_presence'' then Inr (validate_artifact_presence fullmatch d k c v ev)
       else if vc_type v = ''manual_attestation'' then validate_manual_attestation d c v src u ev
       else if vc_type v = ''api_assertion'' then validate_api_assertion src v ev
       else if vc_type v = ''external_reference'' then validate_external_reference fullmatch d c v src u ev
       else Inr [])
      (\<lambda>es. Inr (general_errors k c i p v src ev @ es))"

section \<open>Recording a result\<close>

definition result_clean :: "db \<Rightarrow> verification_result \<Rightarrow> unit result" where
  "result_clean d r =
    (case (tget (changes d) (vr_change r), tget (ver_plans d) (vr_plan r), tget (ver_checks d) (vr_check r)) of
       (Some c, Some p, Some v) \<Rightarrow>
         if ch_org c = vr_org r \<and> vp_org p = vr_org r \<and> vc_plan v = vr_plan r \<and> vp_change p = vr_change r \<and>
            vc_change v = vr_change r \<and>
            (case vr_artifact r of None \<Rightarrow> True
             | Some a \<Rightarrow> map_option af_org (tget (artifacts d) a) = Some (vr_org r))
         then Inr () else Inl (DjangoValidation ''verification_result'')
     | _ \<Rightarrow> Inl (NotFound ''verification_result''))"

definition new_result ::
    "timestamp \<Rightarrow> nat \<Rightarrow> change \<Rightarrow> nat \<Rightarrow> nat \<Rightarrow> result_source \<Rightarrow> result_outcome \<Rightarrow> user option \<Rightarrow> string
      \<Rightarrow> evidence \<Rightarrow> artifact option \<Rightarrow> json list \<Rightarrow> verification_result" where
  "new_result now k c i j src out u runner_id ev art errors =
    \<lparr>vr_org = ch_org c, vr_change = k, vr_plan = i, vr_check = j, vr_source = src, vr_outcome = out,
     vr_accepted = (errors = []),
     vr_submitted_by = (if src = SrcUser then map_option us_id u else None),
     vr_runner = (if src = SrcRunner then runner_id else []),
     vr_verification_key = strip (ev_verification_key ev),
     vr_artifact = (if art \<noteq> None \<and> errors = [] then ev_artifact ev else None),
     vr_checksum = (if strip (ev_checksum ev) \<noteq> [] then strip (ev_checksum ev)
       else (case art of None \<Rightarrow> [] | Some a \<Rightarrow> af_checksum a)),
     vr_external_reference = take 1024 (strip (ev_reference ev)),
     vr_api_snapshot = fields_of (ev_api ev), vr_attestation = strip (ev_attestation ev),
     vr_observed = fields_of (ev_observed ev), vr_errors = errors,
     vr_submitted_at = (case ev_submitted_at ev of None \<Rightarrow> now | Some t \<Rightarrow> t), vr_validated_at = now\<rparr>"

definition emit_verification_result_audit ::
    "timestamp \<Rightarrow> nat \<Rightarrow> verification_result \<Rightarrow> verification_check \<Rightarrow> audit_actor \<Rightarrow> db \<Rightarrow> db result" where
  "emit_verification_result_audit now j r v actor d =
    audit_emit now (vr_org r) actor
      (if vr_accepted r then ''change.verification_result_accepted''
       else ''change.verification_result_rejected'') ''change_record'' (vr_change r) [
        (''verification_result_id'', JStr (id_str j)),
        (''verification_plan_id'', JStr (id_str (vr_plan r))),
        (''verification_check_id'', JStr (id_str (vr_check r))),
        (''check_key'', JStr (vc_key v)),
        (''check_type'', JStr (vc_type v)),
        (''source'', JStr (result_source_str (vr_source r))),
        (''outcome'', JStr (result_outcome_str (vr_outcome r))),
        (''validation_status'', JStr (if vr_accepted r then ''accepted'' else ''rejected'')),
        (''validation_errors'', JArr (vr_errors r)),
        (''artifact_id'', opt_json (JStr \<circ> id_str) (vr_artifact r)),
        (''artifact_checksum_sha256'', JStr (vr_checksum r)),
        (''external_reference_present'', JBool (vr_external_reference r \<noteq> [])),
        (''api_assertion_snapshot_keys'', JArr (map JStr (sort (map fst (vr_api_snapshot r))))),
        (''observed_value_keys'', JArr (map JStr (sort (map fst (vr_observed r))))),
        (''manual_attestation_present'', JBool (vr_attestation r \<noteq> []))] d"

text \<open>The check after an accepted result; \<open>VerificationCheck.save\<close> checks the links of the row.\<close>

definition applied_check :: "timestamp \<Rightarrow> nat \<Rightarrow> result_outcome \<Rightarrow> verification_check \<Rightarrow> verification_check" where
  "applied_check now j out v =
    (if out = OutPassed
     then v\<lparr>vc_last_result := Some j, vc_status := VcPassed,
       vc_satisfied_at := (if vc_satisfied_at v = None then Some now else vc_satisfied_at v)\<rparr>
     else v\<lparr>vc_last_result := Some j, vc_status := VcFailed,
       vc_failed_at := (if vc_failed_at v = None then Some now else vc_failed_at v)\<rparr>)"

definition check_clean :: "db \<Rightarrow> nat \<Rightarrow> verification_check \<Rightarrow> unit result" where
  "check_clean d j v =
    (if map_option vp_change (tget (ver_plans d) (vc_plan v)) \<noteq> Some (vc_change v)
       then Inl (DjangoValidation ''verification_check'')
     else if (case vc_last_result v of None \<Rightarrow> False
              | Some r \<Rightarrow> map_option vr_check (tget (ver_results d) r) \<noteq> Some j)
       then Inl (DjangoValidation ''verification_check'')
     else Inr ())"

definition apply_accepted_verification_result ::
    "timestamp \<Rightarrow> nat \<Rightarrow> nat \<Rightarrow> verification_result \<Rightarrow> db \<Rightarrow> db result" where
  "apply_accepted_verification_result now j i r d =
    (case tget (ver_checks d) j of
       None \<Rightarrow> Inl (NotFound ''verification_check'')
     | Some v \<Rightarrow>
        let v' = applied_check now i (vr_outcome r) v in
        res_bind (check_clean d j v') (\<lambda>_.
        Inr (d\<lparr>ver_checks := tupd j (\<lambda>_. v') (ver_checks d)\<rparr>)))"

definition record_result ::
    "timestamp \<Rightarrow> nat \<Rightarrow> verification_result \<Rightarrow> verification_check \<Rightarrow> audit_actor \<Rightarrow> db \<Rightarrow> (db \<times> nat) result" where
  "record_result now j r v actor d =
    res_bind (result_clean d r) (\<lambda>_.
    let (i, d) = fresh d; d = d\<lparr>ver_results := tins i r (ver_results d)\<rparr> in
    res_bind (emit_verification_result_audit now i r v actor d) (\<lambda>d.
    if vr_accepted r
    then res_bind (apply_accepted_verification_result now j i r d) (\<lambda>d.
         res_bind (recompute_verification_state now (vr_change r) actor d) (\<lambda>d. Inr (d, i)))
    else Inr (d, i)))"

text \<open>The transaction of \<open>submit_verification_result\<close>.\<close>

definition check_of_key :: "db \<Rightarrow> nat \<Rightarrow> string \<Rightarrow> (nat \<times> verification_check) option" where
  "check_of_key d i key = first_of (tsel (\<lambda>_ v. vc_plan v = i \<and> vc_key v = key) (ver_checks d))"

definition submit_result_tx ::
    "(string \<Rightarrow> string \<Rightarrow> bool option) \<Rightarrow> timestamp \<Rightarrow> nat \<Rightarrow> string \<Rightarrow> result_source \<Rightarrow> result_outcome \<Rightarrow> audit_actor
      \<Rightarrow> user option \<Rightarrow> string \<Rightarrow> nat option \<Rightarrow> evidence \<Rightarrow> db \<Rightarrow> (db \<times> nat) result" where
  "submit_result_tx fullmatch now k key src out actor u runner_id e ev d =
    (case tget (changes d) k of
       None \<Rightarrow> Inl (NotFound ''change'')
     | Some c \<Rightarrow>
      res_bind (atomic (enforce_emergency_expiry_for_change now k d)) (\<lambda>(d, _).
      case plan_of_change d k of
        None \<Rightarrow> Inl (NotFound ''verification_plan'')
      | Some (i, p) \<Rightarrow>
        (case check_of_key d i key of
           None \<Rightarrow> Inl (NotFound ''verification_check'')
         | Some (j, v) \<Rightarrow>
            res_bind (validate_verification_evidence fullmatch d k c i p v src out u runner_id e ev) (\<lambda>errors.
            record_result now j (new_result now k c i j src out u runner_id ev
              (Option.bind (ev_artifact ev) (tget (artifacts d))) errors) v actor d))))"

definition submit_verification_result ::
    "(string \<Rightarrow> string \<Rightarrow> bool option) \<Rightarrow> timestamp \<Rightarrow> nat \<Rightarrow> string \<Rightarrow> string \<Rightarrow> string \<Rightarrow> audit_actor option
      \<Rightarrow> user option \<Rightarrow> string \<Rightarrow> nat option \<Rightarrow> evidence \<Rightarrow> db \<Rightarrow> (db \<times> nat) result" where
  "submit_verification_result fullmatch now k key source outc actor u runner_id e ev d =
    (case (result_source_of source, result_outcome_of outc) of
       (None, _) \<Rightarrow> Inl (Domain DomainValidationError ''verification_result_source_invalid'')
     | (_, None) \<Rightarrow> Inl (Domain DomainValidationError ''verification_result_outcome_invalid'')
     | (Some src, Some out) \<Rightarrow>
        if ev_observed ev \<noteq> JNull \<and> \<not> is_obj (ev_observed ev)
          then Inl (Domain DomainValidationError ''verification_result_observed_value_invalid'')
        else if ev_api ev \<noteq> JNull \<and> \<not> is_obj (ev_api ev)
          then Inl (Domain DomainValidationError ''verification_result_api_assertion_invalid'')
        else submit_result_tx fullmatch now k key src out
          (case actor of Some a \<Rightarrow> a | None \<Rightarrow> verification_actor src u runner_id) u runner_id e ev d)"

section \<open>The callers\<close>

definition submit_runner_verification_result ::
    "(string \<Rightarrow> string \<Rightarrow> bool option) \<Rightarrow> timestamp \<Rightarrow> nat \<Rightarrow> string \<Rightarrow> string \<Rightarrow> nat \<Rightarrow> string \<Rightarrow> evidence \<Rightarrow> db
      \<Rightarrow> (db \<times> nat) result" where
  "submit_runner_verification_result fullmatch now k key runner_id e outc ev d =
    submit_verification_result fullmatch now k key ''runner'' outc (Some (actor_from_runner runner_id))
      None runner_id (Some e) ev d"

definition submit_user_verification_result ::
    "(string \<Rightarrow> string \<Rightarrow> bool option) \<Rightarrow> timestamp \<Rightarrow> nat \<Rightarrow> string \<Rightarrow> user \<Rightarrow> string \<Rightarrow> evidence \<Rightarrow> db
      \<Rightarrow> (db \<times> nat) result" where
  "submit_user_verification_result fullmatch now k key u outc ev d =
    submit_verification_result fullmatch now k key ''user'' outc (Some (user_actor u)) (Some u) [] None ev d"

text \<open>
  \<open>record_runner_verification_result\<close>: the runner must hold the claim of the bound execution.
  Only the first artifact counts; its checksum is looked up by its id.
\<close>

definition runner_evidence ::
    "string \<Rightarrow> string \<Rightarrow> nat list \<Rightarrow> jdict \<Rightarrow> jdict \<Rightarrow> jdict \<Rightarrow> timestamp option \<Rightarrow> evidence" where
  "runner_evidence vkey step_key arts sums observed meta at =
    \<lparr>ev_verification_key = vkey, ev_step_key = step_key, ev_artifact = first_of arts,
     ev_checksum = (case first_of arts of None \<Rightarrow> []
       | Some i \<Rightarrow> strip (py_str (fget sums (id_str i) (JStr [])))),
     ev_reference = [], ev_api = JNull, ev_attestation = [],
     ev_observed = JObj (if meta = [] then observed else dict_merge observed [(''metadata'', JObj meta)]),
     ev_submitted_at = at\<rparr>"

definition record_runner_verification_result ::
    "(string \<Rightarrow> string \<Rightarrow> bool option) \<Rightarrow> timestamp \<Rightarrow> nat \<Rightarrow> string \<Rightarrow> string \<Rightarrow> nat \<Rightarrow> string \<Rightarrow> string \<Rightarrow> string \<Rightarrow> string
      \<Rightarrow> nat list \<Rightarrow> jdict \<Rightarrow> jdict \<Rightarrow> jdict \<Rightarrow> timestamp option \<Rightarrow> db \<Rightarrow> (db \<times> nat) result" where
  "record_runner_verification_result fullmatch now k runner_id tok e key outc vkey step_key arts sums observed meta at d =
    res_bind (resolve_bound_binding d k runner_id e) (\<lambda>(c, _, b).
    case tget (executions d) (bd_exec b) of
      None \<Rightarrow> Inl (NotFound ''execution'')
    | Some x \<Rightarrow>
       if token_text (ex_claim_token x) \<noteq> tok
         then Inl (Domain InvalidStateTransitionError ''claim_token_mismatch'')
       else submit_runner_verification_result fullmatch now k key runner_id e outc
         (runner_evidence vkey step_key arts sums observed meta at) d)"

section \<open>Facts\<close>

text \<open>The expiry of emergency rights touches neither memberships nor results nor closures.\<close>

definition expiry_still where
  "expiry_still d = (memberships d, ver_results d, closures d, retro_reviews d, executions d, exec_steps d)"

lemma expire_exception_still: "expire_exception now d ix = (d', r) \<Longrightarrow> expiry_still d' = expiry_still d"
  unfolding expire_exception_def Let_def expiry_still_def
  by (auto simp: commit_result_def split: prod.splits sum.splits dest!: audit_emit_Inr)

lemma expire_breakglass_still: "expire_breakglass now d ix = (d', r) \<Longrightarrow> expiry_still d' = expiry_still d"
  unfolding expire_breakglass_def Let_def expiry_still_def save_breakglass_def
  by (auto simp: commit_result_def res_bind_def split: prod.splits sum.splits dest!: audit_emit_Inr)

lemma enforce_expiry_still:
  assumes "enforce_emergency_expiry_for_change now k d = (d', r)"
  shows "expiry_still d' = expiry_still d"
proof -
  have x: "expiry_still d2 = expiry_still d1" if "expire_exceptions now k d1 = (d2, q)" for d1 d2 q
    using that unfolding expire_exceptions_def by (rule each_keeps) (rule expire_exception_still)
  have b: "expiry_still d2 = expiry_still d1" if "expire_breakglass_sessions now (Some k) d1 = (d2, q)" for d1 d2 q
    using that unfolding expire_breakglass_sessions_def by (rule each_keeps) (rule expire_breakglass_still)
  from assms show ?thesis
    unfolding enforce_emergency_expiry_for_change_def by (auto simp: then_do_eq dest!: x b)
qed

lemma recompute_checks:
  assumes "recompute_verification_state now k a d = Inr d'"
  shows "ver_checks d' = ver_checks d" and "ver_results d' = ver_results d"
  using assms unfolding recompute_verification_state_def emit_plan_status_audit_def Let_def
  by (auto simp: res_bind_eq_Inr split: option.splits if_splits dest!: audit_emit_Inr elim!: transition_change_Inr)

lemma err_if_Nil [simp]: "err_if b code = [] \<longleftrightarrow> \<not> b"
  by (simp add: err_if_def)

lemma evidence_errors_Nil:
  assumes "validate_verification_evidence fm d k c i p v src out u rid e ev = Inr []"
  shows "vp_status p \<noteq> VpCanceled" and "ch_status c = ChVerificationPending \<or> ch_status c = ChRunning \<and> src = SrcRunner"
    and "vc_verification_key v \<noteq> [] \<longrightarrow> strip (ev_verification_key ev) = vc_verification_key v"
    and "vc_type v = ''runner_step'' \<longrightarrow> validate_runner_step d k v src out rid e ev = []"
    and "vc_type v = ''artifact_presence'' \<longrightarrow> validate_artifact_presence fm d k c v ev = []"
    and "vc_type v = ''manual_attestation'' \<longrightarrow> validate_manual_attestation d c v src u ev = Inr []"
    and "vc_type v = ''external_reference'' \<longrightarrow> validate_external_reference fm d c v src u ev = Inr []"
proof -
  from assms have g: "general_errors k c i p v src ev = []"
    and r: "(if vc_type v = ''runner_step'' then Inr (validate_runner_step d k v src out rid e ev)
       else if vc_type v = ''artifact_presence'' then Inr (validate_artifact_presence fm d k c v ev)
       else if vc_type v = ''manual_attestation'' then validate_manual_attestation d c v src u ev
       else if vc_type v = ''api_assertion'' then validate_api_assertion src v ev
       else if vc_type v = ''external_reference'' then validate_external_reference fm d c v src u ev
       else Inr []) = Inr []"
    by (auto simp only: validate_verification_evidence_def res_bind_eq_Inr append_is_Nil_conv sum.inject)
  from g show "vp_status p \<noteq> VpCanceled" "ch_status c = ChVerificationPending \<or> ch_status c = ChRunning \<and> src = SrcRunner"
    "vc_verification_key v \<noteq> [] \<longrightarrow> strip (ev_verification_key ev) = vc_verification_key v"
    by (simp_all add: general_errors_def split: if_split_asm) blast+
  show "vc_type v = ''runner_step'' \<longrightarrow> validate_runner_step d k v src out rid e ev = []"
    by (rule impI, insert r, simp)
  show "vc_type v = ''artifact_presence'' \<longrightarrow> validate_artifact_presence fm d k c v ev = []"
    by (rule impI, insert r, simp)
  show "vc_type v = ''manual_attestation'' \<longrightarrow> validate_manual_attestation d c v src u ev = Inr []"
    by (rule impI, insert r, simp)
  show "vc_type v = ''external_reference'' \<longrightarrow> validate_external_reference fm d c v src u ev = Inr []"
    by (rule impI, insert r, simp)
qed

lemma bound_execution_Some:
  assumes "bound_execution_for_verification d k rid e = Some b"
  shows "(\<exists>j. (j, b) \<in> set (bindings d)) \<and> bd_change b = k \<and> bd_bound_at b \<noteq> None \<and>
     (rid \<noteq> [] \<longrightarrow> bd_bound_by b = rid) \<and> (e = None \<or> e = Some (bd_exec b))"
  using assms unfolding bound_execution_for_verification_def
  by (auto split: option.splits if_split_asm dest!: first_of_SomeD)

lemma runner_step_Nil:
  assumes "validate_runner_step d k v src out rid e ev = []"
  shows "src = SrcRunner \<and> (\<exists>b. bound_execution_for_verification d k rid e = Some b \<and>
     (vc_source_step_key v \<noteq> [] \<longrightarrow>
       step_supports out (map_option snd (first_of (tsel (\<lambda>_ s. st_exec s = bd_exec b \<and>
         st_key s = vc_source_step_key v) (exec_steps d)))) (ev_observed ev) = []))"
proof -
  have src: "src = SrcRunner" using assms by (simp add: validate_runner_step_def split: if_split_asm)
  moreover obtain b where b: "bound_execution_for_verification d k rid e = Some b"
    using assms src by (cases "bound_execution_for_verification d k rid e") (simp_all add: validate_runner_step_def)
  ultimately show ?thesis
    using assms by (auto simp: validate_runner_step_def Let_def)
qed

lemma artifact_presence_Nil:
  assumes "validate_artifact_presence fm d k c v ev = []"
  shows "\<exists>i a b. ev_artifact ev = Some i \<and> tget (artifacts d) i = Some a \<and> af_org a = ch_org c \<and> af_available a \<and>
     bound_execution_for_verification d k [] None = Some b \<and> af_exec a = bd_exec b \<and>
     (vc_artifact_kind v \<noteq> [] \<longrightarrow> af_kind a = vc_artifact_kind v) \<and>
     (vc_checksum v \<noteq> [] \<longrightarrow> af_checksum a = vc_checksum v)"
  using assms unfolding validate_artifact_presence_def Let_def
  by (auto split: option.splits)

lemma reviewer_Nil:
  assumes "validate_user_reviewer d c u config ind = Inr []"
  shows "us_active u \<and> membership_of d (ch_org c) (us_id u) \<noteq> None \<and> (ind \<longrightarrow> us_id u \<notin> set (disallowed_reviewers d c))"
  using assms unfolding validate_user_reviewer_def
  by (auto simp: res_bind_eq_Inr evidence_error_def split: option.splits if_splits)

lemma manual_attestation_Nil:
  assumes "validate_manual_attestation d c v src u ev = Inr []"
  shows "\<exists>x. src = SrcUser \<and> u = Some x \<and> strip (ev_attestation ev) \<noteq> [] \<and> us_active x \<and>
     membership_of d (ch_org c) (us_id x) \<noteq> None \<and>
     (check_requires_independent_reviewer d c v \<longrightarrow> us_id x \<notin> set (disallowed_reviewers d c))"
  using assms unfolding validate_manual_attestation_def
  by (auto simp: res_bind_eq_Inr evidence_error_def split: option.splits result_source.splits dest!: reviewer_Nil)

text \<open>The stages of a recorded result.\<close>

lemma record_result_stages:
  assumes "record_result now j r v actor d = Inr (d', i)"
  obtains d1 ev where "i = next_id d" and "d1 = d\<lparr>next_id := Suc i, ver_results := tins i r (ver_results d), audit_log := audit_log d @ [ev]\<rparr>"
    and "world_grows d d1"
    and "if vr_accepted r then \<exists>w d2. tget (ver_checks d) j = Some w \<and>
           d2 = d1\<lparr>ver_checks := tupd j (\<lambda>_. applied_check now i (vr_outcome r) w) (ver_checks d)\<rparr> \<and>
           recompute_verification_state now (vr_change r) actor d2 = Inr d'
         else d' = d1"
proof -
  let ?d = "d\<lparr>next_id := Suc (next_id d), ver_results := tins (next_id d) r (ver_results d)\<rparr>"
  from assms obtain d1 where e: "emit_verification_result_audit now (next_id d) r v actor ?d = Inr d1"
    and i: "i = next_id d"
    and rest: "if vr_accepted r then \<exists>d2. apply_accepted_verification_result now j i r d1 = Inr d2 \<and>
        recompute_verification_state now (vr_change r) actor d2 = Inr d' else d' = d1"
    unfolding record_result_def fresh_def Let_def
    by (auto simp: res_bind_eq_Inr split: if_splits)
  from e obtain ev where d1: "d1 = ?d\<lparr>audit_log := audit_log ?d @ [ev]\<rparr>"
    unfolding emit_verification_result_audit_def by (metis audit_emit_Inr)
  have "world_grows d ?d"
    by (auto simp: world_grows_def log_grows_def locks_exclusive_def intro!: table_within_refl table_within_tins)
  then have "world_grows d d1"
    using e unfolding emit_verification_result_audit_def by (blast intro: world_emit)
  with rest d1 i show thesis
    by (intro that [of d1 ev]) (auto simp: apply_accepted_verification_result_def res_bind_eq_Inr Let_def
        split: option.splits if_splits)
qed

lemma checks_world: "world_grows d (d\<lparr>ver_checks := t\<rparr>)"
  by (auto intro!: world_same simp: still_part_def approval_part_def)

lemma record_result_world:
  assumes "record_result now j r v actor d = Inr (d', i)"
  shows "world_grows d d'"
  using assms
proof (rule record_result_stages)
  fix d1 assume w: "world_grows d d1" and r: "if vr_accepted r then \<exists>w d2. tget (ver_checks d) j = Some w \<and>
           d2 = d1\<lparr>ver_checks := tupd j (\<lambda>_. applied_check now i (vr_outcome r) w) (ver_checks d)\<rparr> \<and>
           recompute_verification_state now (vr_change r) actor d2 = Inr d'
         else d' = d1"
  have "world_grows d1 d'"
    using r by (auto intro: world.refl world.trans [OF checks_world] progress_world split: if_splits
        dest!: recompute_verification_state_progress)
  with w show ?thesis by (rule world.trans)
qed

text \<open>The stages of a submission.\<close>

lemma submit_result_stages:
  assumes "submit_verification_result fm now k key source outc actor u rid e ev d = Inr (d', i)"
  obtains src out c d1 n p j v es act where "result_source_of source = Some src" and "result_outcome_of outc = Some out"
    and "tget (changes d) k = Some c" and "gate_frame d d1" and "expiry_still d1 = expiry_still d"
    and "plan_of_change d k = Some (n, p)" and "check_of_key d n key = Some (j, v)"
    and "validate_verification_evidence fm d1 k c n p v src out u rid e ev = Inr es"
    and "record_result now j (new_result now k c n j src out u rid ev (Option.bind (ev_artifact ev) (tget (artifacts d))) es)
           v act d1 = Inr (d', i)"
proof -
  from assms obtain src out act where s: "result_source_of source = Some src" "result_outcome_of outc = Some out"
    and tx: "submit_result_tx fm now k key src out act u rid e ev d = Inr (d', i)"
    unfolding submit_verification_result_def by (auto split: option.splits if_splits)
  from tx obtain c where c: "tget (changes d) k = Some c"
    unfolding submit_result_tx_def by (auto split: option.splits)
  obtain d1 q where x0: "enforce_emergency_expiry_for_change now k d = (d1, q)" by fastforce
  from tx c x0 have x: "enforce_emergency_expiry_for_change now k d = (d1, Inr ())"
    by (cases q) (auto simp: submit_result_tx_def atomic_def)
  note f = enforce_expiry_frame [OF x]
  have same: "plan_of_change d1 k = plan_of_change d k" "check_of_key d1 n key = check_of_key d n key" "artifacts d1 = artifacts d" for n
    using f by (simp_all add: gate_frame_def gate_tables_def plan_of_change_def check_of_key_def control_part_def)
  from tx c x obtain n p where p: "plan_of_change d k = Some (n, p)"
    by (cases "plan_of_change d k") (auto simp: submit_result_tx_def atomic_def same)
  from tx c x p obtain j v where v: "check_of_key d n key = Some (j, v)"
    by (cases "check_of_key d n key") (auto simp: submit_result_tx_def atomic_def same)
  from tx c x p v obtain es where "validate_verification_evidence fm d1 k c n p v src out u rid e ev = Inr es"
    "record_result now j (new_result now k c n j src out u rid ev (Option.bind (ev_artifact ev) (tget (artifacts d))) es)
           v act d1 = Inr (d', i)"
    by (auto simp: submit_result_tx_def atomic_def same res_bind_eq_Inr)
  with s c f p v enforce_expiry_still [OF x] that show thesis by blast
qed

lemma submit_verification_result_world [world_rules]:
  assumes "submit_verification_result fm now k key source outc actor u rid e ev d = Inr (d', i)"
  shows "world_grows d d'"
  using assms
  by (rule submit_result_stages) (auto simp: gate_frame_def dest!: record_result_world progress_world intro: world.trans)

lemma record_runner_verification_result_world [world_rules]:
  assumes "record_runner_verification_result fm now k rid tok e key outc vk sk arts sums ob me at d = Inr (d', i)"
  shows "world_grows d d'"
  using assms unfolding record_runner_verification_result_def submit_runner_verification_result_def
  by (auto simp: res_bind_eq_Inr split: option.splits if_splits intro: submit_verification_result_world)

section \<open>Properties\<close>

text \<open>The judgement reads tables that the expiry leaves alone.\<close>

lemma judgement_cong:
  assumes "gate_frame d d1" and "expiry_still d1 = expiry_still d"
  shows "bound_execution_for_verification d1 = bound_execution_for_verification d" and "exec_steps d1 = exec_steps d"
    and "artifacts d1 = artifacts d" and "membership_of d1 = membership_of d" and "disallowed_reviewers d1 = disallowed_reviewers d"
    and "check_requires_independent_reviewer d1 = check_requires_independent_reviewer d"
    and "ver_checks d1 = ver_checks d" and "changes d1 = changes d" and "ver_plans d1 = ver_plans d" and "ver_results d1 = ver_results d"
  using assms
  by (auto simp: gate_frame_def gate_tables_def control_part_def expiry_still_def bound_execution_for_verification_def
      membership_of_def disallowed_reviewers_def check_requires_independent_reviewer_def fun_eq_iff split: option.split)

text \<open>What accepted evidence must show, by the type of the check.\<close>

definition evidence_fits where
  "evidence_fits d k c v src out u rid e ev \<longleftrightarrow>
     (vc_type v = ''runner_step'' \<longrightarrow> src = SrcRunner \<and>
        (\<exists>b. bound_execution_for_verification d k rid e = Some b \<and>
           (vc_source_step_key v \<noteq> [] \<longrightarrow> step_supports out (map_option snd (first_of (tsel (\<lambda>_ s.
              st_exec s = bd_exec b \<and> st_key s = vc_source_step_key v) (exec_steps d)))) (ev_observed ev) = []))) \<and>
     (vc_type v = ''artifact_presence'' \<longrightarrow>
        (\<exists>q a b. ev_artifact ev = Some q \<and> tget (artifacts d) q = Some a \<and> af_org a = ch_org c \<and> af_available a \<and>
           bound_execution_for_verification d k [] None = Some b \<and> af_exec a = bd_exec b \<and>
           (vc_checksum v \<noteq> [] \<longrightarrow> af_checksum a = vc_checksum v))) \<and>
     (vc_type v = ''manual_attestation'' \<longrightarrow>
        (\<exists>x. src = SrcUser \<and> u = Some x \<and> strip (ev_attestation ev) \<noteq> [] \<and> us_active x \<and>
           membership_of d (ch_org c) (us_id x) \<noteq> None \<and>
           (check_requires_independent_reviewer d c v \<longrightarrow> us_id x \<notin> set (disallowed_reviewers d c))))"

lemma accepted_evidence_fits:
  assumes "validate_verification_evidence fm d k c n p v src out u rid e ev = Inr []"
  shows "evidence_fits d k c v src out u rid e ev"
  unfolding evidence_fits_def
proof (intro conjI)
  note ok = evidence_errors_Nil [OF assms]
  show "vc_type v = ''runner_step'' \<longrightarrow> src = SrcRunner \<and>
        (\<exists>b. bound_execution_for_verification d k rid e = Some b \<and>
           (vc_source_step_key v \<noteq> [] \<longrightarrow> step_supports out (map_option snd (first_of (tsel (\<lambda>_ s.
              st_exec s = bd_exec b \<and> st_key s = vc_source_step_key v) (exec_steps d)))) (ev_observed ev) = []))"
    using ok(4) runner_step_Nil [of d k v src out rid e ev] by simp
  show "vc_type v = ''artifact_presence'' \<longrightarrow>
        (\<exists>q a b. ev_artifact ev = Some q \<and> tget (artifacts d) q = Some a \<and> af_org a = ch_org c \<and> af_available a \<and>
           bound_execution_for_verification d k [] None = Some b \<and> af_exec a = bd_exec b \<and>
           (vc_checksum v \<noteq> [] \<longrightarrow> af_checksum a = vc_checksum v))"
    using ok(5) artifact_presence_Nil [of fm d k c v ev] by auto
  show "vc_type v = ''manual_attestation'' \<longrightarrow>
        (\<exists>x. src = SrcUser \<and> u = Some x \<and> strip (ev_attestation ev) \<noteq> [] \<and> us_active x \<and>
           membership_of d (ch_org c) (us_id x) \<noteq> None \<and>
           (check_requires_independent_reviewer d c v \<longrightarrow> us_id x \<notin> set (disallowed_reviewers d c)))"
    using ok(6) manual_attestation_Nil [of d c v src u ev] by simp
qed


text \<open>The requester of the change attests a check of type manual attestation.\<close>

definition attested_check :: verification_check where
  "attested_check = (sample_check VcPending)\<lparr>vc_type := ''manual_attestation''\<rparr>"

definition attesting_db :: db where
  "attesting_db = (verifying_db VcPending)\<lparr>ver_checks := [(51, attested_check)],
     memberships := [(60, \<lparr>mb_org = 1, mb_user = ''ann'', mb_role = RoleOwner\<rparr>)]\<rparr>"

definition ann :: user where
  "ann = \<lparr>us_id = ''ann'', us_active = True, us_email = []\<rparr>"

definition attestation :: evidence where
  "attestation = \<lparr>ev_verification_key = [], ev_step_key = [], ev_artifact = None, ev_checksum = [],
     ev_reference = [], ev_api = JNull, ev_attestation = ''ok'', ev_observed = JNull, ev_submitted_at = None\<rparr>"

definition self_attested :: verification_result where
  "self_attested = new_result 9 30 (sample_change ChVerificationPending) 50 51 SrcUser OutPassed (Some ann) [] attestation
     None [evidence_error ''self_review_rejected'']"

lemma evidence_keys:
  "\<not> sensitive ''verification_result_id''" "\<not> sensitive ''verification_plan_id''" "\<not> sensitive ''verification_check_id''"
  "\<not> sensitive ''check_key''" "\<not> sensitive ''check_type''" "\<not> sensitive ''source''" "\<not> sensitive ''outcome''"
  "\<not> sensitive ''validation_status''" "\<not> sensitive ''validation_errors''" "\<not> sensitive ''artifact_id''"
  "\<not> sensitive ''artifact_checksum_sha256''" "\<not> sensitive ''external_reference_present''"
  "\<not> sensitive ''api_assertion_snapshot_keys''" "\<not> sensitive ''observed_value_keys''"
  "\<not> sensitive ''manual_attestation_present''" "\<not> sensitive ''code''"
  by (simp_all add: sensitive_def lower_def lower_char_def code_point_def REJECTED_METADATA_KEYS_def
      FORBIDDEN_METADATA_KEYS_def)

lemma self_attested_fields:
  "vr_org self_attested = 1" "vr_change self_attested = 30" "vr_plan self_attested = 50" "vr_check self_attested = 51"
  "vr_source self_attested = SrcUser" "vr_outcome self_attested = OutPassed" "\<not> vr_accepted self_attested"
  "vr_artifact self_attested = None" "vr_errors self_attested = [evidence_error ''self_review_rejected'']"
  "vr_checksum self_attested = []" "vr_external_reference self_attested = []" "vr_api_snapshot self_attested = []"
  "vr_attestation self_attested = ''ok''" "vr_observed self_attested = []"
  by code_simp+

lemma self_attested_event:
  "\<exists>ev. emit_verification_result_audit 9 100 self_attested attested_check a d = Inr (d\<lparr>audit_log := audit_log d @ [ev]\<rparr>)"
proof -
  have k: "vc_key attested_check = ''k''" "vc_type attested_check = ''manual_attestation''" by code_simp+
  show ?thesis
    unfolding emit_verification_result_audit_def self_attested_fields k
    using length_id_str [of 100] length_id_str [of 30] length_id_str [of 50] length_id_str [of 51]
    by (intro audit_emit_succeeds)
      (simp_all add: sample_event_simps evidence_keys evidence_error_def opt_json_def self_attested_fields)
qed

lemma attesting_rows:
  "tget (changes attesting_db) 30 = Some (sample_change ChVerificationPending)" "plan_of_change attesting_db 30 = Some (50, sample_plan)"
  "check_of_key attesting_db 50 ''k'' = Some (51, attested_check)"
  "change_exceptions attesting_db = []" "breakglasses attesting_db = []" "next_id attesting_db = 100"
  "ver_results attesting_db = []" "twf (ver_checks attesting_db)"
  by code_simp+

lemma self_attestation_judged:
  "validate_verification_evidence (\<lambda>_ _. None) attesting_db 30 (sample_change ChVerificationPending) 50 sample_plan attested_check
     SrcUser OutPassed (Some ann) [] None attestation = Inr [evidence_error ''self_review_rejected'']"
  by code_simp

lemma self_attestation_clean:
  "result_clean (attesting_db) self_attested = Inr ()"
  by code_simp

lemma no_expiry: "enforce_emergency_expiry_for_change 9 30 attesting_db = (attesting_db, Inr ())"
  by (simp add: enforce_emergency_expiry_for_change_def expire_exceptions_def expire_breakglass_sessions_def attesting_rows tsel_def)


end
