(* ===== verification/Change_Closing.thy ===== *)
theory Change_Closing
  imports Verification_Results
begin

text \<open>
  Closing a change (\<open>close_change\<close> in \<open>apps/changes/services.py\<close>): the review gate, the checks of
  the plan, and the immutable closure record.
\<close>

definition CLOSURE_OUTCOMES :: "string list" where
  "CLOSURE_OUTCOMES = [''success'', ''rolled_back'', ''partial_success'', ''failed'', ''canceled'']"

definition build_closure_execution_summary :: "db \<Rightarrow> nat \<Rightarrow> jdict" where
  "build_closure_execution_summary d k =
    (case binding_of_change d k of
       None \<Rightarrow> []
     | Some (i, b) \<Rightarrow> [
        (''binding_id'', JStr (id_str i)),
        (''execution_id'', JStr (id_str (bd_exec b))),
        (''execution_status'', (case tget (executions d) (bd_exec b) of
           None \<Rightarrow> JStr [] | Some x \<Rightarrow> JStr (exec_status_str (ex_status x)))),
        (''execution_started_at'', iso_json (bd_started_at b)),
        (''execution_finished_at'', iso_json (bd_finished_at b))])"

text \<open>The required checks that did not pass, and those that failed, by key.\<close>

definition required_keys :: "(check_status \<Rightarrow> bool) \<Rightarrow> verification_check list \<Rightarrow> string list" where
  "required_keys P checks = map vc_key (filter (\<lambda>v. vc_required v \<and> P (vc_status v)) checks)"

definition closure_guard :: "string \<Rightarrow> change_status \<Rightarrow> verification_check list \<Rightarrow> unit result" where
  "closure_guard outc st checks =
    (if outc = ''success'' then
       (if st \<noteq> ChVerified then Inl (Domain InvalidStateTransitionError ''change_not_verified'')
        else if required_keys (\<lambda>s. s = VcFailed) checks \<noteq> []
          then Inl (Domain DomainConflictError ''change_closure_required_checks_failed'')
        else if required_keys (\<lambda>s. s \<noteq> VcPassed) checks \<noteq> []
          then Inl (Domain DomainConflictError ''change_closure_required_checks_unmet'')
        else Inr ())
     else if st \<notin> {ChVerificationFailed, ChRunning}
       then Inl (Domain InvalidStateTransitionError ''change_closure_invalid_state'')
     else Inr ())"

definition closure_verification_summary ::
    "timestamp \<Rightarrow> nat \<Rightarrow> nat \<Rightarrow> verification_plan \<Rightarrow> verification_check list \<Rightarrow> db \<Rightarrow> json" where
  "closure_verification_summary now k i p checks d = JObj [
     (''verification_plan_id'', JStr (id_str i)),
     (''plan_status'', JStr (plan_status_str (vp_status p))),
     (''required_check_count'', JInt (vp_required_count p)),
     (''satisfied_required_count'', JInt (vp_satisfied_required p)),
     (''failed_required_count'', JInt (vp_failed_required p)),
     (''unmet_required_check_keys'', JArr (map JStr (required_keys (\<lambda>s. s \<noteq> VcPassed) checks))),
     (''failed_required_check_keys'', JArr (map JStr (required_keys (\<lambda>s. s = VcFailed) checks))),
     (''retro_review_summary'', JObj (summarize_retro_review_blockers now k d))]"

definition closure_clean :: "db \<Rightarrow> change_closure \<Rightarrow> unit result" where
  "closure_clean d cl =
    (case (tget (changes d) (cc_change cl), tget (ver_plans d) (cc_plan cl)) of
       (Some c, Some p) \<Rightarrow>
         if ch_org c = cc_org cl \<and> vp_org p = cc_org cl \<and> vp_change p = cc_change cl then Inr ()
         else Inl (DjangoValidation ''change_closure'')
     | _ \<Rightarrow> Inl (NotFound ''change_closure''))"

definition closure_of :: "db \<Rightarrow> nat \<Rightarrow> (nat \<times> change_closure) option" where
  "closure_of d k = first_of (tsel (\<lambda>_ cl. cc_change cl = k) (closures d))"

definition insert_closure :: "change_closure \<Rightarrow> db \<Rightarrow> (db \<times> nat) result" where
  "insert_closure cl d =
    res_bind (closure_clean d cl) (\<lambda>_.
      if closure_of d (cc_change cl) \<noteq> None then Inl (IntegrityErr ''change_closure_change_record'')
      else let (j, d) = fresh d in Inr (d\<lparr>closures := tins j cl (closures d)\<rparr>, j))"

text \<open>
  From the point where the change may be closed: the locks are released, sessions ended, the record
  is written and the change moves to closed. The ids of the ended sessions are those of the
  sessions active before.
\<close>

definition write_closure ::
    "timestamp \<Rightarrow> nat \<Rightarrow> change \<Rightarrow> string \<Rightarrow> string \<Rightarrow> audit_actor \<Rightarrow> string option \<Rightarrow> string option \<Rightarrow> nat
      \<Rightarrow> json \<Rightarrow> db \<Rightarrow> (db \<times> nat) result" where
  "write_closure now k c outc summary actor closed_by reviewer i vsum d =
    (let esum = build_closure_execution_summary d k;
         ended = map (JStr \<circ> id_str \<circ> fst) (active_session d k)
     in res_bind (release_active_target_locks now k (ch_org c) actor ''change_closed'' d) (\<lambda>(d, n).
        res_bind (atomic (end_active_breakglass_sessions now k ''change_closed'' actor d)) (\<lambda>(d, _).
        res_bind (insert_closure \<lparr>cc_org = ch_org c, cc_change = k, cc_outcome = outc,
            cc_closed_by = closed_by, cc_reviewer = reviewer, cc_summary = strip summary, cc_plan = i,
            cc_verification_summary = vsum,
            cc_execution_summary = JObj (esum @ [(''locks_released'', JInt (int n)),
              (''breakglass_sessions_ended'', JArr ended)]),
            cc_closed_at = now\<rparr> d) (\<lambda>(d, j).
        res_bind (transition_change now k ChClosed (Some actor) [] [
            (''change_closure_id'', JStr (id_str j)),
            (''closure_outcome'', JStr outc),
            (''verification_plan_id'', JStr (id_str i))] d) (\<lambda>(d, _).
        res_bind (audit_emit now (ch_org c) actor ''change.closed'' ''change_record'' k [
            (''change_closure_id'', JStr (id_str j)),
            (''outcome'', JStr outc),
            (''previous_status'', JStr (change_status_str (ch_status c))),
            (''closed_at'', JStr (isoformat now)),
            (''verification_plan_id'', JStr (id_str i)),
            (''locks_released'', JInt (int n))] d) (\<lambda>d. Inr (d, j)))))))"

definition close_change_tx ::
    "timestamp \<Rightarrow> nat \<Rightarrow> string \<Rightarrow> string \<Rightarrow> audit_actor \<Rightarrow> string option \<Rightarrow> string option \<Rightarrow> db
      \<Rightarrow> (db \<times> nat) result" where
  "close_change_tx now k outc summary actor closed_by reviewer d =
    (case tget (changes d) k of
       None \<Rightarrow> Inl (NotFound ''change'')
     | Some c \<Rightarrow>
      res_bind (atomic (enforce_emergency_expiry_for_change now k d)) (\<lambda>(d, _).
      if closure_of d k \<noteq> None then Inl (Domain DomainConflictError ''change_already_closed'')
      else res_bind (atomic (assert_retro_reviews_allow_closure now k c d)) (\<lambda>(d, _).
        case plan_of_change d k of
          None \<Rightarrow> Inl (Domain DomainConflictError ''verification_plan_missing'')
        | Some (i, p) \<Rightarrow>
           let checks = map snd (checks_of d i) in
           res_bind (closure_guard outc (ch_status c) checks) (\<lambda>_.
           write_closure now k c outc summary actor closed_by reviewer i
             (closure_verification_summary now k i p checks d) d))))"

definition close_change ::
    "timestamp \<Rightarrow> nat \<Rightarrow> string \<Rightarrow> string \<Rightarrow> audit_actor option \<Rightarrow> string option \<Rightarrow> string option \<Rightarrow> db
      \<Rightarrow> (db \<times> nat) result" where
  "close_change now k outc summary actor closed_by reviewer d =
    (if outc \<notin> set CLOSURE_OUTCOMES
       then Inl (Domain DomainValidationError ''change_closure_outcome_invalid'')
     else if strip summary = [] then Inl (Domain DomainValidationError ''change_closure_summary_required'')
     else close_change_tx now k outc summary
       (case actor of None \<Rightarrow> system_actor ''Change closure service'' | Some a \<Rightarrow> a) closed_by reviewer d)"

section \<open>Facts\<close>

text \<open>An event is never refused with a domain error, so a session skipped by
  \<open>skip_invalid_state\<close> was not active.\<close>

lemma audit_emit_Inl:
  assumes "audit_emit now org a et ot oid md d = Inl e"
  shows "\<exists>t. e = DjangoValidation t"
proof -
  have s: "(\<forall>e. scrub_value v = Inl e \<longrightarrow> (\<exists>t. e = DjangoValidation t))"
    and m: "(\<forall>e. scrub_metadata md = Inl e \<longrightarrow> (\<exists>t. e = DjangoValidation t))"
    and i: "(\<forall>e. scrub_items xs = Inl e \<longrightarrow> (\<exists>t. e = DjangoValidation t))" for v md xs
    by (induction v and md and xs rule: scrub_value_scrub_metadata_scrub_items.induct)
      (auto simp: res_bind_def split: sum.splits if_splits)
  from assms show ?thesis
    by (auto simp: audit_emit_def res_bind_def validate_event_type_def validate_metadata_size_def
        split: sum.splits if_splits dest: m [rule_format])
qed

text \<open>What the release of locks and the end of sessions leave alone.\<close>

definition closing_still where
  "closing_still d = (changes d, closures d, ver_plans d, ver_checks d, retro_reviews d, op_profiles d, workflows d, next_id d)"

lemma release_lock_row:
  assumes "release_lock now k org actor reason d (j, l) = Inr d'"
  shows "\<exists>f. (\<forall>l. lk_status (f l) = LockReleased) \<and> target_locks d' = tupd j f (target_locks d)"
    and "closing_still d' = closing_still d" and "breakglasses d' = breakglasses d"
  using assms by (auto simp: release_lock_def closing_still_def dest!: audit_emit_Inr
      intro!: exI [of _ "\<lambda>l. l\<lparr>lk_status := LockReleased, lk_released_at := Some now, lk_reason := reason\<rparr>"])

lemma release_each:
  assumes "res_fold (release_lock now k org actor reason) d xs = Inr d'"
    and "(i, l) \<in> set (target_locks d')" and "lk_status l = LockActive"
  shows "i \<notin> fst ` set xs \<and> (i, l) \<in> set (target_locks d)"
  using assms(1)
proof (induction xs arbitrary: d)
  case Nil
  with assms(2) show ?case by simp
next
  case (Cons x xs)
  obtain j t where x: "x = (j, t)" by (cases x)
  from Cons.prems obtain d1 where f: "release_lock now k org actor reason d (j, t) = Inr d1"
    and r: "res_fold (release_lock now k org actor reason) d1 xs = Inr d'"
    by (auto simp: res_bind_eq_Inr x)
  from Cons.IH [OF r] have ih: "i \<notin> fst ` set xs" "(i, l) \<in> set (target_locks d1)" by auto
  from release_lock_row(1) [OF f] ih(2) assms(3) have "i \<noteq> j \<and> (i, l) \<in> set (target_locks d)"
    by (auto simp: set_tupd split: if_splits)
  with ih(1) show ?case by (simp add: x)
qed

lemma released:
  assumes "release_active_target_locks now k org actor reason d = Inr (d', n)"
  shows "active_locks d' k = []" and "n = length (active_locks d k)"
    and "closing_still d' = closing_still d" and "breakglasses d' = breakglasses d"
proof -
  from assms have f: "res_fold (release_lock now k org actor reason) d (active_locks d k) = Inr d'"
    and n: "n = length (active_locks d k)"
    by (auto simp: release_active_target_locks_def Let_def res_bind_eq_Inr)
  show "n = length (active_locks d k)" by (rule n)
  show "active_locks d' k = []"
  proof (rule ccontr)
    assume "active_locks d' k \<noteq> []"
    then obtain i l where il: "(i, l) \<in> set (active_locks d' k)" by (cases "active_locks d' k") auto
    with release_each [OF f, of i l] have "i \<notin> fst ` set (active_locks d k)" "(i, l) \<in> set (active_locks d k)"
      by (auto simp: active_locks_def)
    then show False by force
  qed
  have "closing_still d' = closing_still d \<and> breakglasses d' = breakglasses d"
    by (rule res_fold_induct [OF f]) (auto dest: release_lock_row(2,3))
  then show "closing_still d' = closing_still d" "breakglasses d' = breakglasses d" by simp_all
qed

lemma end_breakglass_row:
  assumes "skip_invalid_state (end_breakglass now (i, s) a why u d) = (d', Inr ())" and "bg_status s = BgActive"
  shows "\<exists>s'. bg_status s' = BgEnded \<and> breakglasses d' = tupd i (\<lambda>_. s') (breakglasses d)"
    and "closing_still d' = closing_still d" and "target_locks d' = target_locks d"
  using assms
  by (auto simp: skip_invalid_state_def end_breakglass_def commit_result_def save_breakglass_def res_bind_def
      breakglass_clean_def closing_still_def
      split: sum.splits if_splits err.splits err_kind.splits option.splits dest!: audit_emit_Inr audit_emit_Inl
      intro!: exI [of _ "s\<lparr>bg_status := BgEnded, bg_ended_at := Some now, bg_end_reason := why, bg_ended_by := u\<rparr>"])

lemma end_each:
  assumes "each (\<lambda>d s. skip_invalid_state (end_breakglass now s a why u d)) d xs = (d', Inr ())"
    and "\<forall>(j, t) \<in> set xs. bg_status t = BgActive"
  shows "(i, s) \<in> set (breakglasses d') \<Longrightarrow> bg_status s = BgActive \<Longrightarrow> i \<notin> fst ` set xs \<and> (i, s) \<in> set (breakglasses d)"
    and "closing_still d' = closing_still d" and "target_locks d' = target_locks d"
  using assms
proof (induction xs arbitrary: d)
  case (Cons x xs)
  obtain j t where x: "x = (j, t)" by (cases x)
  {
    case 1
    then obtain d1 where f: "skip_invalid_state (end_breakglass now (j, t) a why u d) = (d1, Inr ())"
      and r: "each (\<lambda>d s. skip_invalid_state (end_breakglass now s a why u d)) d1 xs = (d', Inr ())"
      by (auto simp: then_do_eq x)
    from 1 x have act: "bg_status t = BgActive" "\<forall>(j, t) \<in> set xs. bg_status t = BgActive" by auto
    from Cons.IH(1) [OF 1(1,2) r act(2)] have ih: "i \<notin> fst ` set xs" "(i, s) \<in> set (breakglasses d1)" by auto
    from end_breakglass_row(1) [OF f act(1)] ih(2) 1(2) have "i \<noteq> j \<and> (i, s) \<in> set (breakglasses d)"
      by (auto simp: set_tupd split: if_splits)
    with ih(1) show ?case by (simp add: x)
  next
    case 2
    then show ?case
      using Cons.IH(2) by (auto simp: then_do_eq x dest!: end_breakglass_row(2))
  next
    case 3
    then show ?case
      using Cons.IH(3) by (auto simp: then_do_eq x dest!: end_breakglass_row(3))
  }
qed auto

lemma sessions_ended:
  assumes "end_active_breakglass_sessions now k why a d = (d', Inr ())"
  shows "active_session d' k = []" and "closing_still d' = closing_still d" and "target_locks d' = target_locks d"
proof -
  note e = assms [unfolded end_active_breakglass_sessions_def]
  have act: "\<forall>(j, t) \<in> set (tsel (\<lambda>_ s. bg_change s = k \<and> bg_status s = BgActive) (breakglasses d)). bg_status t = BgActive"
    by auto
  show "closing_still d' = closing_still d" "target_locks d' = target_locks d"
    using end_each(2,3) [OF e act] .
  show "active_session d' k = []"
  proof (rule ccontr)
    assume "active_session d' k \<noteq> []"
    then obtain i s where il: "(i, s) \<in> set (active_session d' k)" by (cases "active_session d' k") auto
    with end_each(1) [OF e act, of i s]
    have "i \<notin> fst ` set (active_session d k)" "(i, s) \<in> set (active_session d k)"
      by (auto simp: active_session_def)
    then show False by force
  qed
qed

lemma insert_closure_Inr:
  assumes "insert_closure cl d = Inr (d', j)"
  shows "j = next_id d" and "d' = d\<lparr>next_id := Suc j, closures := tins j cl (closures d)\<rparr>" and "closure_of d (cc_change cl) = None"
  using assms by (auto simp: insert_closure_def res_bind_eq_Inr fresh_def Let_def simp del: not_None_eq split: if_splits)

text \<open>The stages of a closure that succeeds.\<close>

lemma write_closure_stages:
  assumes "write_closure now k c outc summary actor cb rv i vsum d = Inr (d', j)"
  obtains d1 n d2 cl d3 o' d4 ev where "release_active_target_locks now k (ch_org c) actor ''change_closed'' d = Inr (d1, n)"
    and "end_active_breakglass_sessions now k ''change_closed'' actor d1 = (d2, Inr ())"
    and "insert_closure cl d2 = Inr (d3, j)" and "cc_change cl = k" and "cc_outcome cl = outc" and "cc_summary cl = strip summary"
    and "cc_plan cl = i"
    and "transition_change now k ChClosed (Some actor) [] [
            (''change_closure_id'', JStr (id_str j)),
            (''closure_outcome'', JStr outc),
            (''verification_plan_id'', JStr (id_str i))] d3 = Inr (d4, o')"
    and "d' = d4\<lparr>audit_log := audit_log d4 @ [ev]\<rparr>" and "world_grows d4 d'"
proof -
  from assms obtain d1 n d2 u cl d3 o' d4 where s: "release_active_target_locks now k (ch_org c) actor ''change_closed'' d = Inr (d1, n)"
    "end_active_breakglass_sessions now k ''change_closed'' actor d1 = (d2, Inr u)"
    "insert_closure cl d2 = Inr (d3, j)" "cc_change cl = k" "cc_outcome cl = outc" "cc_summary cl = strip summary" "cc_plan cl = i"
    "transition_change now k ChClosed (Some actor) [] [
            (''change_closure_id'', JStr (id_str j)),
            (''closure_outcome'', JStr outc),
            (''verification_plan_id'', JStr (id_str i))] d3 = Inr (d4, o')"
    and e: "\<exists>org a et ot oid md. audit_emit now org a et ot oid md d4 = Inr d'"
    unfolding write_closure_def Let_def res_bind_eq_Inr atomic_Inr split_paired_Ex prod.case
    by (elim exE conjE, simp only: sum.inject prod.inject, elim conjE, hypsubst)
      (rule that, assumption, assumption, assumption, simp, simp, simp, simp, assumption, intro exI, assumption)
  from e obtain ev where "d' = d4\<lparr>audit_log := audit_log d4 @ [ev]\<rparr>" by (auto dest: audit_emit_Inr)
  moreover from e have "world_grows d4 d'" by (auto intro: audit_emit_world)
  moreover have "u = ()" by simp
  ultimately show thesis using s that by blast
qed

lemma gate_open_same:
  "assert_retro_reviews_allow_closure now k c d = (d', Inr ()) \<Longrightarrow> d' = d"
  unfolding assert_retro_reviews_allow_closure_def Let_def by (auto simp: then_do_eq split: if_splits)

lemma gate_open:
  assumes "assert_retro_reviews_allow_closure now k c d = (d', Inr ())" and "ch_retro_required c" and "(q, r) \<in> set (reviews_of d k)"
  shows "rr_status r \<noteq> RrPending \<and> \<not> unresolved r"
  using closure_gate_cases [OF assms(1)] assms(2,3) by (auto simp: blocker_Nil)

lemma close_change_stages:
  assumes "close_change now k outc summary a cb rv d = Inr (d', j)"
  obtains c d1 i p actor vsum where "tget (changes d) k = Some c" and "outc \<in> set CLOSURE_OUTCOMES" and "strip summary \<noteq> []"
    and "enforce_emergency_expiry_for_change now k d = (d1, Inr ())" and "gate_frame d d1" and "expiry_still d1 = expiry_still d"
    and "closure_of d k = None" and "assert_retro_reviews_allow_closure now k c d1 = (d1, Inr ())"
    and "plan_of_change d k = Some (i, p)" and "closure_guard outc (ch_status c) (map snd (checks_of d i)) = Inr ()"
    and "write_closure now k c outc summary actor cb rv i vsum d1 = Inr (d', j)"
proof -
  from assms obtain actor c where o: "outc \<in> set CLOSURE_OUTCOMES" "strip summary \<noteq> []" "tget (changes d) k = Some c"
    and tx: "close_change_tx now k outc summary actor cb rv d = Inr (d', j)"
    unfolding close_change_def by (auto simp: close_change_tx_def split: if_splits option.splits)
  from tx o(3) obtain d1 d2 where e: "enforce_emergency_expiry_for_change now k d = (d1, Inr ())"
    and g: "closure_of d1 k = None" "assert_retro_reviews_allow_closure now k c d1 = (d2, Inr ())"
    by (auto simp: close_change_tx_def res_bind_eq_Inr atomic_Inr simp del: not_None_eq split: if_splits)
  note f = enforce_expiry_frame [OF e] enforce_expiry_still [OF e]
  from g(2) have d2: "d2 = d1" by (rule gate_open_same)
  have same: "closure_of d1 k = closure_of d k" "plan_of_change d1 k = plan_of_change d k" "checks_of d1 i = checks_of d i" for i
    using f by (simp_all add: expiry_still_def gate_frame_def gate_tables_def control_part_def closure_of_def plan_of_change_def checks_of_def)
  from tx o(3) e g d2 obtain i p where p: "plan_of_change d k = Some (i, p)"
    by (cases "plan_of_change d k") (auto simp: close_change_tx_def atomic_def same)
  with tx o(3) e g d2 obtain vsum where "closure_guard outc (ch_status c) (map snd (checks_of d i)) = Inr ()"
    "write_closure now k c outc summary actor cb rv i vsum d1 = Inr (d', j)"
    by (auto simp: close_change_tx_def atomic_def same Let_def res_bind_eq_Inr)
  with o e f g d2 p that show thesis by (simp add: same)
qed

lemma closure_guard_Inr:
  assumes "closure_guard outc s checks = Inr ()"
  shows "if outc = ''success'' then s = ChVerified \<and> (\<forall>v \<in> set checks. vc_required v \<longrightarrow> vc_status v = VcPassed)
     else s \<in> {ChVerificationFailed, ChRunning}"
  using assms by (auto simp: closure_guard_def required_keys_def filter_empty_conv split: if_splits)

text \<open>What a written closure leaves.\<close>

lemma write_closure_effect:
  assumes "write_closure now k c outc summary actor cb rv i vsum d = Inr (d', j)" and "tget (changes d) k = Some c0"
  obtains cl c' where "closures d' = tins j cl (closures d)" and "cc_change cl = k" and "cc_outcome cl = outc"
    and "cc_summary cl = strip summary" and "cc_plan cl = i" and "tget (changes d') k = Some c'" and "ch_status c' = ChClosed"
    and "frozen_request c' = frozen_request c0" and "active_locks d' k = []" and "active_session d' k = []"
  using assms(1)
proof (rule write_closure_stages)
  fix d1 n d2 cl d3 o' d4 ev
  assume s: "release_active_target_locks now k (ch_org c) actor ''change_closed'' d = Inr (d1, n)"
    "end_active_breakglass_sessions now k ''change_closed'' actor d1 = (d2, Inr ())"
    "insert_closure cl d2 = Inr (d3, j)" and cl: "cc_change cl = k" "cc_outcome cl = outc" "cc_summary cl = strip summary" "cc_plan cl = i"
    and t: "transition_change now k ChClosed (Some actor) [] [
            (''change_closure_id'', JStr (id_str j)),
            (''closure_outcome'', JStr outc),
            (''verification_plan_id'', JStr (id_str i))] d3 = Inr (d4, o')"
    and d': "d' = d4\<lparr>audit_log := audit_log d4 @ [ev]\<rparr>"
  note r = released [OF s(1)] and e = sessions_ended [OF s(2)] and n = insert_closure_Inr [OF s(3)]
  have still: "changes d3 = changes d" "closures d3 = tins j cl (closures d)" "target_locks d3 = target_locks d1"
    "breakglasses d3 = breakglasses d2"
    using r e n(2) by (simp_all add: closing_still_def)
  then have "tget (changes d3) k = Some c0" using assms(2) by simp
  note w = transition_change_row [OF t this]
  have "closures d4 = closures d3" using t by (rule transition_change_Inr) simp
  moreover from w(1) obtain c' where "tget (changes d4) k = Some c'" "ch_status c' = ChClosed" "frozen_request c' = frozen_request c0" by blast
  moreover have "active_locks d' k = active_locks d1 k" "active_session d' k = active_session d2 k"
    using w(4,5) still by (simp_all add: d' active_locks_def active_session_def)
  ultimately show thesis
    using cl still r(1) e(1) by (intro that [of cl c']) (simp_all add: d')
qed

text \<open>
  C4: a change is closed once and only when it may be. The first closure of the change is recorded with its
  outcome and a summary; the change is closed with its request unchanged, none of its locks is left
  active and none of its breakglass sessions. When retrospective reviews are required, none is pending
  or unresolved. A closure as a success needs a verified change all of whose required checks
  passed; any other outcome needs a running change or one that failed its verification.
\<close>

theorem closing_requires_verification:
  assumes "close_change now k outc summary a cb rv d = Inr (d', j)" and "tget (changes d) k = Some c"
  shows "\<exists>i p cl c'. plan_of_change d k = Some (i, p) \<and> closure_of d k = None \<and>
     closures d' = tins j cl (closures d) \<and> cc_change cl = k \<and> cc_outcome cl = outc \<and> cc_plan cl = i \<and> cc_summary cl \<noteq> [] \<and>
     tget (changes d') k = Some c' \<and> ch_status c' = ChClosed \<and> frozen_request c' = frozen_request c \<and>
     active_locks d' k = [] \<and> active_session d' k = [] \<and>
     (ch_retro_required c \<longrightarrow> (\<forall>(q, r) \<in> set (reviews_of d k). rr_status r \<noteq> RrPending \<and> \<not> unresolved r)) \<and>
     (if outc = ''success''
      then ch_status c = ChVerified \<and> (\<forall>v \<in> set (map snd (checks_of d i)). vc_required v \<longrightarrow> vc_status v = VcPassed)
      else ch_status c \<in> {ChVerificationFailed, ChRunning})"
  using assms(1)
proof (rule close_change_stages)
  fix c0 d1 i p actor vsum
  assume c0: "tget (changes d) k = Some c0" and sm: "strip summary \<noteq> []"
    and f: "gate_frame d d1" "expiry_still d1 = expiry_still d" and cl: "closure_of d k = None"
    and g: "assert_retro_reviews_allow_closure now k c0 d1 = (d1, Inr ())" and p: "plan_of_change d k = Some (i, p)"
    and guard: "closure_guard outc (ch_status c0) (map snd (checks_of d i)) = Inr ()"
    and w: "write_closure now k c0 outc summary actor cb rv i vsum d1 = Inr (d', j)"
  from c0 assms(2) have c: "c0 = c" by simp
  have same: "changes d1 = changes d" "closures d1 = closures d" "reviews_of d1 k = reviews_of d k"
    using f by (simp_all add: expiry_still_def gate_frame_def gate_tables_def reviews_of_def)
  with assms(2) have "tget (changes d1) k = Some c" by simp
  with w obtain cl c' where "closures d' = tins j cl (closures d1)" "cc_change cl = k" "cc_outcome cl = outc"
    "cc_summary cl = strip summary" "cc_plan cl = i" "tget (changes d') k = Some c'" "ch_status c' = ChClosed"
    "frozen_request c' = frozen_request c" "active_locks d' k = []" "active_session d' k = []"
    by (rule write_closure_effect)
  moreover have "ch_retro_required c \<longrightarrow> (\<forall>(q, r) \<in> set (reviews_of d k). rr_status r \<noteq> RrPending \<and> \<not> unresolved r)"
    using gate_open [OF g] by (auto simp: c same)
  ultimately show ?thesis
    using closure_guard_Inr [OF guard] cl p sm
    by (intro exI [of _ i] exI [of _ p] exI [of _ cl] exI [of _ c'] conjI) (simp_all only: same c, simp_all)
qed


text \<open>A verified change with its one check passed.\<close>

definition closing_db :: db where
  "closing_db = (sample_db ChVerified)\<lparr>ver_plans := [(50, sample_plan)], ver_checks := [(51, sample_check VcPassed)]\<rparr>"

lemma closing_rows:
  "changes closing_db = [(30, sample_change ChVerified)]" "plan_of_change closing_db 30 = Some (50, sample_plan)"
  "checks_of closing_db 50 = [(51, sample_check VcPassed)]" "change_exceptions closing_db = []" "breakglasses closing_db = []"
  "next_id closing_db = 100" "closures closing_db = []" "target_locks closing_db = []" "reviews_of closing_db 30 = []"
  "op_profiles closing_db = [(10, sample_profile)]" "workflows closing_db = [(20, sample_workflow)]"
  "closure_of closing_db 30 = None" "ver_plans closing_db = [(50, sample_plan)]"
  by code_simp+

lemma closing_keys:
  "\<not> sensitive ''change_closure_id''" "\<not> sensitive ''closure_outcome''" "\<not> sensitive ''verification_plan_id''"
  "\<not> sensitive ''outcome''" "\<not> sensitive ''closed_at''" "\<not> sensitive ''locks_released''"
  by (simp_all add: sensitive_def lower_def lower_char_def code_point_def REJECTED_METADATA_KEYS_def
      FORBIDDEN_METADATA_KEYS_def)

abbreviation closing_extra :: jdict where
  "closing_extra \<equiv> [(''change_closure_id'', JStr (id_str 100)), (''closure_outcome'', JStr ''success''),
     (''verification_plan_id'', JStr (id_str 50))]"

lemma closing_moved:
  "\<exists>ev. audit_emit 9 1 a ''change.status_changed'' ''change_record'' 30 (transition_metadata ChVerified ChClosed [] closing_extra) d =
     Inr (d\<lparr>audit_log := audit_log d @ [ev]\<rparr>)"
  using length_id_str [of 100] length_id_str [of 50]
  by (intro audit_emit_succeeds) (simp_all add: sample_event_simps closing_keys transition_metadata_def)

lemma closing_event:
  "\<exists>ev. audit_emit 9 1 a ''change.closed'' ''change_record'' 30 [
            (''change_closure_id'', JStr (id_str 100)), (''outcome'', JStr ''success''),
            (''previous_status'', JStr (change_status_str ChVerified)), (''closed_at'', JStr (isoformat 9)),
            (''verification_plan_id'', JStr (id_str 50)), (''locks_released'', JInt 0)] d =
     Inr (d\<lparr>audit_log := audit_log d @ [ev]\<rparr>)"
  using length_id_str [of 100] length_id_str [of 50] length_isoformat [of 9]
  by (intro audit_emit_succeeds) (simp_all add: sample_event_simps closing_keys secs_def)

lemma closing_sample:
  "\<exists>d'. close_change 9 30 ''success'' ''ok'' None None None closing_db = Inr (d', 100)"
proof -
  let ?a = "system_actor ''Change closure service''"
  have e: "enforce_emergency_expiry_for_change 9 30 closing_db = (closing_db, Inr ())"
    by (simp add: enforce_emergency_expiry_for_change_def expire_exceptions_def expire_breakglass_sessions_def closing_rows tsel_def)
  have c: "tget (changes closing_db) 30 = Some (sample_change ChVerified)" "ch_status (sample_change ChVerified) = ChVerified"
    "ch_org (sample_change ChVerified) = 1" "\<not> ch_retro_required (sample_change ChVerified)"
    "tget (ver_plans closing_db) 50 = Some sample_plan" "vp_org sample_plan = 1" "vp_change sample_plan = 30"
    by (simp_all add: closing_rows tget_def sample_change_def sample_plan_def)
  have st: "strip ''ok'' = ''ok''" by code_simp
  have g: "closure_guard ''success'' ChVerified [sample_check VcPassed] = Inr ()" by code_simp
  have r: "release_active_target_locks 9 30 1 ?a ''change_closed'' closing_db = Inr (closing_db, 0)"
    by (simp add: release_active_target_locks_def active_locks_def closing_rows tsel_def)
  have s: "end_active_breakglass_sessions 9 30 ''change_closed'' ?a closing_db = (closing_db, Inr ())"
    by (simp add: end_active_breakglass_sessions_def closing_rows tsel_def)
  have i: "insert_closure cl closing_db = Inr (closing_db\<lparr>next_id := 101, closures := [(100, cl)]\<rparr>, 100)"
    if "cc_org cl = 1" "cc_change cl = 30" "cc_plan cl = 50" for cl
    using that by (simp add: insert_closure_def closure_clean_def c closing_rows fresh_def tins_def tget_def)
  have t: "\<exists>d'. transition_change 9 30 ChClosed (Some ?a) [] closing_extra (closing_db\<lparr>next_id := 101, closures := [(100, cl)]\<rparr>)
      = Inr (d', ChVerified)" for cl
    using closing_moved
    by (intro sample_transition_of [where c = "sample_change ChVerified"]) (simp_all add: closing_rows sample_change_def)
  then obtain d4 where "transition_change 9 30 ChClosed (Some ?a) [] closing_extra (closing_db\<lparr>next_id := 101, closures := [(100, cl)]\<rparr>)
      = Inr (d4 cl, ChVerified)" for cl by metis
  moreover obtain ev where "audit_emit 9 1 ?a ''change.closed'' ''change_record'' 30 [
            (''change_closure_id'', JStr (id_str 100)), (''outcome'', JStr ''success''),
            (''previous_status'', JStr (change_status_str ChVerified)), (''closed_at'', JStr (isoformat 9)),
            (''verification_plan_id'', JStr (id_str 50)), (''locks_released'', JInt 0)] d =
     Inr (d\<lparr>audit_log := audit_log d @ [ev d]\<rparr>)" for d
    using closing_event by metis
  ultimately show ?thesis
    by (simp add: close_change_def close_change_tx_def CLOSURE_OUTCOMES_def st c e closing_rows atomic_def
        assert_retro_reviews_allow_closure_def g Let_def write_closure_def r [unfolded One_nat_def] s i tget_def active_session_def tsel_def)
qed

theorem closing_requires_verification_witness:
  "\<exists>d' cl c'. close_change 9 30 ''success'' ''ok'' None None None closing_db = Inr (d', 100) \<and>
     closures d' = [(100, cl)] \<and> tget (changes d') 30 = Some c' \<and> ch_status c' = ChClosed"
proof -
  obtain d' where r: "close_change 9 30 ''success'' ''ok'' None None None closing_db = Inr (d', 100)"
    using closing_sample by blast
  have "tget (changes closing_db) 30 = Some (sample_change ChVerified)" by (simp add: closing_rows tget_def)
  from closing_requires_verification [OF r this] r show ?thesis by (auto simp: closing_rows tins_def)
qed

section \<open>The invariant of the store\<close>

lemma release_lock_world:
  assumes "release_lock now k org actor reason d (j, l) = Inr d'"
  shows "world_grows d d'"
proof -
  let ?f = "\<lambda>l. l\<lparr>lk_status := LockReleased, lk_released_at := Some now, lk_reason := reason\<rparr>"
  let ?d = "d\<lparr>target_locks := tupd j ?f (target_locks d)\<rparr>"
  have "filter (\<lambda>il. lk_status (snd il) = LockActive) (tupd j ?f t) = filter (\<lambda>il. lk_status (snd il) = LockActive \<and> fst il \<noteq> j) t" for t :: "target_lock table"
    by (induction t) (auto simp: tupd_def split: if_splits)
  then have eq: "active_keys (target_locks ?d) = map (lock_key \<circ> snd) (filter (\<lambda>il. fst il \<noteq> j)
      (filter (\<lambda>il. lk_status (snd il) = LockActive) (target_locks d)))"
    by (simp add: active_keys_def conj_commute)
  have "locks_exclusive ?d" if "locks_exclusive d"
    using distinct_map_filter [OF that [unfolded locks_exclusive_def active_keys_def], of "\<lambda>il. fst il \<noteq> j"]
    unfolding locks_exclusive_def eq .
  then have "world_grows d ?d" by (simp add: world_grows_def log_grows_same table_within_refl)
  moreover have "\<exists>org a et ot oid md. audit_emit now org a et ot oid md ?d = Inr d'"
    using assms unfolding release_lock_def prod.case by blast
  ultimately show ?thesis by (blast intro: world_emit)
qed

lemma released_world [world_rules]:
  assumes "release_active_target_locks now k org actor reason d = Inr (d', n)"
  shows "world_grows d d'"
proof -
  from assms have "res_fold (release_lock now k org actor reason) d (active_locks d k) = Inr d'"
    by (auto simp: release_active_target_locks_def Let_def res_bind_eq_Inr)
  then show ?thesis
    by (rule res_fold_induct [where P = "world_grows d"])
      (auto intro: world.refl world.trans release_lock_world split: prod.splits)
qed

lemma finalize_window_world [world_rules]:
  assumes "finalize_window now k org r d = Inr (d', s)"
  shows "world_grows d d'"
proof -
  have w: "world_grows d (d\<lparr>windows := t\<rparr>)" for t
    by (rule world_same) (simp_all add: still_part_def approval_part_def)
  show ?thesis
    using assms unfolding finalize_window_def Let_def
    by (auto simp: res_bind_eq_Inr split: option.splits if_splits intro: world.refl w dest!: world_emit [OF _ w])
qed

lemma record_execution_world [world_rules]:
  "record_execution_accepted now k r e t d = Inr d' \<Longrightarrow> world_grows d d'"
  "record_execution_started now k r e t d = Inr d' \<Longrightarrow> world_grows d d'"
  "record_execution_finished now k r e t d = Inr (d', n, s) \<Longrightarrow> world_grows d d'"
  unfolding record_execution_accepted_def record_execution_started_def record_execution_finished_def Let_def
  by (auto simp: res_bind_eq_Inr split: if_splits intro!: world.refl elim!: world_emit
      dest!: binding_save_progress [THEN progress_world] released_world finalize_window_world
      intro: world.trans)

lemma insert_closure_world:
  assumes "insert_closure cl d = Inr (d', j)"
  shows "world_grows d d'"
  using insert_closure_Inr(2) [OF assms]
  by (auto simp: world_grows_def log_grows_def locks_exclusive_def intro!: table_within_refl table_within_tins)

lemma close_change_world [world_rules]:
  assumes "close_change now k outc summary a cb rv d = Inr (d', j)"
  shows "world_grows d d'"
proof -
  have w: "world_grows t d'" if "write_closure now k c outc summary actor cb rv i vsum t = Inr (d', j)" for t c actor i vsum
    using that
  proof (rule write_closure_stages)
    fix d1 n d2 cl d3 o' d4 x why y
    assume s: "release_active_target_locks now k (ch_org c) actor ''change_closed'' t = Inr (d1, n)"
      "end_active_breakglass_sessions now k ''change_closed'' actor d1 = (d2, Inr ())"
      "insert_closure cl d2 = Inr (d3, j)" "world_grows d4 d'"
      and tr: "transition_change now k ChClosed (Some actor) [] [
            (''change_closure_id'', JStr (id_str j)),
            (''closure_outcome'', JStr outc),
            (''verification_plan_id'', JStr (id_str i))] d3 = Inr (d4, o')"
    show ?thesis
      using released_world [OF s(1)] progress_world [OF end_active_breakglass_sessions_progress [OF s(2)]]
        insert_closure_world [OF s(3)] progress_world [OF transition_change_progress [OF tr]] s(4)
      by (blast intro: world.trans)
  qed
  from assms show ?thesis
    by (rule close_change_stages) (auto simp: gate_frame_def dest!: w intro: world.trans
        progress_world [OF enforce_emergency_expiry_for_change_progress])
qed

end
