(* ===== verification/Scheduling.thy ===== *)
theory Scheduling
  imports Execution_World
begin

text \<open>
  Claiming an execution: \<open>runners/scheduling.py\<close> for registered runners, with its concurrency
  limits, and \<open>claim_next_execution\<close> of \<open>executions/services.py\<close>. Rows locked by another transaction
  are skipped by the code; here operations run one after the other.
\<close>

section \<open>The program\<close>

definition execution_eligible_for_pool :: "db \<Rightarrow> nat \<Rightarrow> execution \<Rightarrow> runner_pool \<Rightarrow> bool" where
  "execution_eligible_for_pool d e x p =
    (if binding_of_exec d e \<noteq> None then ex_pool_key x = [] \<or> ex_pool_key x = pl_key p
     else if pl_default_non_change p then True
     else tsel (\<lambda>_ q. pl_org q = pl_org p \<and> pl_status q = PoolActive \<and> pl_default_non_change q)
            (runner_pools d) = [])"

definition active_leases :: "(exec_lease \<Rightarrow> bool) \<Rightarrow> db \<Rightarrow> nat" where
  "active_leases P d = length (tsel (\<lambda>_ l. ls_status l = LeaseActive \<and> P l) (leases d))"

text \<open>An error while a dispatch expires is logged and counts as not expired.\<close>

definition expire_unbound_if_needed :: "timestamp \<Rightarrow> nat \<Rightarrow> db \<Rightarrow> db \<times> bool" where
  "expire_unbound_if_needed now e d =
    (case expire_unbound_dispatch_for_execution now e d of Inl _ \<Rightarrow> (d, False) | Inr r \<Rightarrow> r)"

definition oldest_queued :: "(nat \<Rightarrow> execution \<Rightarrow> bool) \<Rightarrow> db \<Rightarrow> (nat \<times> execution) option" where
  "oldest_queued P d = first_of (sort_key (\<lambda>(_, x). ex_created_at x)
     (tsel (\<lambda>i x. ex_status x = ExQueued \<and> P i x) (executions d)))"

definition pool_has_capabilities :: "runner_pool \<Rightarrow> execution \<Rightarrow> bool result" where
  "pool_has_capabilities p x =
    res_bind (py_get (ex_snapshot x) ''requiredCapabilities'' (JArr [])) (\<lambda>required.
      if truthy required then covers (pl_capabilities p) required else Inr True)"

text \<open>The search loop: \<open>fuel\<close> iterations, with the ids found ineligible so far.\<close>

fun find_claimable ::
    "timestamp \<Rightarrow> nat \<Rightarrow> runner_pool \<Rightarrow> nat list \<Rightarrow> nat \<Rightarrow> db \<Rightarrow> (db \<times> (nat \<times> execution) option) result" where
  "find_claimable now org p excluded 0 d = Inr (d, None)"
| "find_claimable now org p excluded (Suc fuel) d =
    (case oldest_queued (\<lambda>i x. ex_org x = org \<and> i \<notin> set excluded) d of
       None \<Rightarrow> Inr (d, None)
     | Some (e, x) \<Rightarrow>
        (case expire_unbound_if_needed now e d of (d, expired) \<Rightarrow>
           if expired then find_claimable now org p excluded fuel d
           else if \<not> execution_eligible_for_pool d e x p
             then find_claimable now org p (e # excluded) fuel d
           else res_bind (pool_has_capabilities p x) (\<lambda>ok.
             if ok then Inr (d, Some (e, x))
             else find_claimable now org p (e # excluded) fuel d)))"

datatype claim_reply = Drain | Nothing | Claimed nat nat

text \<open>The claimed row; the save writes these columns only. The reply names the execution and its claim token.\<close>

definition claimed_at :: "timestamp \<Rightarrow> string \<Rightarrow> nat \<Rightarrow> string \<Rightarrow> execution \<Rightarrow> execution" where
  "claimed_at now runner_id tok pool_key x = x\<lparr>ex_status := ExClaimed, ex_runner := runner_id,
     ex_claim_token := Some tok, ex_claimed_at := Some now, ex_heartbeat_at := Some now, ex_pool_key := pool_key\<rparr>"

definition insert_lease :: "timestamp \<Rightarrow> nat \<Rightarrow> nat \<Rightarrow> runner \<Rightarrow> db \<Rightarrow> db result" where
  "insert_lease now e rid r d =
    (if tsel (\<lambda>_ l. ls_exec l = e) (leases d) \<noteq> [] then Inl (IntegrityErr ''execution_lease_execution'')
     else let (j, d) = fresh d in
       Inr (d\<lparr>leases := tins j \<lparr>ls_exec = e, ls_org = rn_org r, ls_runner = rid, ls_pool = rn_pool r,
         ls_status = LeaseActive, ls_claimed_at = now, ls_released_at = None, ls_reason = []\<rparr> (leases d)\<rparr>))"

definition within_limits :: "nat \<Rightarrow> runner \<Rightarrow> runner_pool \<Rightarrow> db \<Rightarrow> bool" where
  "within_limits rid r p d \<longleftrightarrow>
     active_leases (\<lambda>l. ls_runner l = rid) d < 1 \<and>
     active_leases (\<lambda>l. ls_pool l = rn_pool r) d < pl_max_concurrent p \<and>
     active_leases (\<lambda>l. ls_org l = rn_org r) d < cfg_org_max_concurrent (cfg d)"

definition claim_row :: "timestamp \<Rightarrow> nat \<Rightarrow> runner \<Rightarrow> runner_pool \<Rightarrow> nat \<Rightarrow> db \<Rightarrow> (db \<times> claim_reply) result" where
  "claim_row now rid r p e d =
    (let (tok, d) = fresh d; d = upd_exec e (claimed_at now (id_str rid) tok (pl_key p)) d
     in res_bind (insert_lease now e rid r d) (\<lambda>d. Inr (d, Claimed e tok)))"

definition schedule_execution_claim :: "timestamp \<Rightarrow> nat \<Rightarrow> runner \<Rightarrow> db \<Rightarrow> (db \<times> claim_reply) result" where
  "schedule_execution_claim now rid r d =
    (if rn_status r = RnDraining then Inr (d, Drain)
     else if rn_status r \<notin> {RnActive, RnRegistered}
       then Inl (Domain InvalidStateTransitionError ''runner_not_active'')
     else case tget (runner_pools d) (rn_pool r) of
       None \<Rightarrow> Inl (NotFound ''runner_pool'')
     | Some p \<Rightarrow>
        if pl_status p = PoolDraining then Inr (d, Drain)
        else if pl_status p \<noteq> PoolActive then Inl (Domain InvalidStateTransitionError ''pool_not_active'')
        else if \<not> within_limits rid r p d then Inr (d, Nothing)
        else res_bind (find_claimable now (rn_org r) p [] 50 d) (\<lambda>(d, found).
          case found of None \<Rightarrow> Inr (d, Nothing) | Some (e, _) \<Rightarrow> claim_row now rid r p e d))"

definition emit_claimed ::
    "timestamp \<Rightarrow> nat \<Rightarrow> execution \<Rightarrow> exec_status \<Rightarrow> string \<Rightarrow> jdict \<Rightarrow> db \<Rightarrow> db result" where
  "emit_claimed now e x previous runner_id extra d =
    audit_emit now (ex_org x) (actor_from_runner runner_id) ''execution.claimed'' ''execution'' e
      ([(''previous_status'', JStr (exec_status_str previous)), (''new_status'', JStr (exec_status_str (ex_status x)))] @ extra) d"

text \<open>
  The claim of a registered runner is committed before its event is emitted.
\<close>

definition claim_registered :: "timestamp \<Rightarrow> string \<Rightarrow> nat \<Rightarrow> runner \<Rightarrow> db \<Rightarrow> claim_reply outcome" where
  "claim_registered now runner_id rid r d =
    (case schedule_execution_claim now rid r d of
       Inl er \<Rightarrow> (d, Inl er)
     | Inr (d, Claimed e tok) \<Rightarrow>
        (case tget (executions d) e of
           None \<Rightarrow> (d, Inl (NotFound ''execution''))
         | Some x \<Rightarrow>
            then_do (commit_result d (emit_claimed now e x ExQueued runner_id [
                (''runner_id'', JStr runner_id), (''claimed_at'', iso_json (ex_claimed_at x)),
                (''reclaimed'', JBool False), (''pool_key'', JStr (ex_pool_key x))] d))
              (\<lambda>d _. (send (status_changed_event e (ex_status x)) d, Inr (Claimed e tok))))
     | Inr (d, reply) \<Rightarrow> (d, Inr reply))"

text \<open>
  Without a registered runner: any queued execution, else an execution that waits for the approval
  of a step and whose runner is gone. Such an execution, if not bound to a change, is claimed anew.
\<close>

fun find_queued :: "timestamp \<Rightarrow> nat \<Rightarrow> db \<Rightarrow> db \<times> (nat \<times> execution) option" where
  "find_queued now 0 d = (d, None)"
| "find_queued now (Suc fuel) d =
    (case oldest_queued (\<lambda>_ _. True) d of
       None \<Rightarrow> (d, None)
     | Some (e, x) \<Rightarrow>
        (case expire_unbound_if_needed now e d of (d, expired) \<Rightarrow>
           if expired then find_queued now fuel d else (d, Some (e, x))))"

definition reclaimable :: "timestamp \<Rightarrow> db \<Rightarrow> nat \<Rightarrow> execution \<Rightarrow> bool" where
  "reclaimable stale_before d e x \<longleftrightarrow> is_stuck stale_before x \<and>
     tsel (\<lambda>_ s. st_exec s = e \<and> st_status s = StWaiting) (exec_steps d) \<noteq> [] \<and>
     tsel (\<lambda>_ s. st_exec s = e \<and> st_status s = StRunning) (exec_steps d) = [] \<and>
     binding_of_exec d e = None"

definition find_reclaimable :: "timestamp \<Rightarrow> db \<Rightarrow> (nat \<times> execution) option" where
  "find_reclaimable now d =
    first_of (sort_key (\<lambda>(_, x). (case ex_heartbeat_at x of None \<Rightarrow> 0 | Some h \<Rightarrow> h))
      (sort_key (\<lambda>(_, x). ex_created_at x)
        (tsel (reclaimable (now - secs (cfg_stale_heartbeat_seconds (cfg d))) d) (executions d))))"

definition claim_any :: "timestamp \<Rightarrow> string \<Rightarrow> db \<Rightarrow> (db \<times> claim_reply) result" where
  "claim_any now runner_id d =
    (case find_queued now 50 d of (d, queued) \<Rightarrow>
     let found = (case queued of Some ex \<Rightarrow> Some ex | None \<Rightarrow> find_reclaimable now d)
     in case found of
          None \<Rightarrow> Inr (d, Nothing)
        | Some (e, x) \<Rightarrow>
           let (tok, d) = fresh d;
               x' = (claimed_at now runner_id tok [] x)\<lparr>ex_status := (if ex_status x = ExRunning then ExRunning else ExClaimed)\<rparr>;
               d = upd_exec e (\<lambda>y. (claimed_at now runner_id tok [] y)\<lparr>ex_status := ex_status x'\<rparr>) d
           in res_bind (emit_claimed now e x' (ex_status x) runner_id [
                  (''claimed_at'', JStr (isoformat now)), (''reclaimed'', JBool (queued = None))] d) (\<lambda>d.
              Inr (if ex_status x' \<noteq> ex_status x then send (status_changed_event e (ex_status x')) d else d,
                   Claimed e tok)))"

definition claim_next_execution :: "timestamp \<Rightarrow> string \<Rightarrow> (nat \<times> runner) option \<Rightarrow> db \<Rightarrow> claim_reply outcome" where
  "claim_next_execution now runner_id registered d =
    (case registered of
       Some (rid, r) \<Rightarrow> claim_registered now runner_id rid r d
     | None \<Rightarrow> (case claim_any now runner_id d of Inl er \<Rightarrow> (d, Inl er) | Inr (d, reply) \<Rightarrow> (d, Inr reply)))"

section \<open>Facts\<close>

text \<open>An expiry touches none of the tables a claim counts or reads, and nothing when the dispatch is not expired.\<close>

lemma expire_if_needed_frame:
  assumes "expire_unbound_if_needed now e d = (d', b)"
  shows "leases d' = leases d" and "runner_pools d' = runner_pools d" and "cfg d' = cfg d" and "runners d' = runners d"
    and "\<not> b \<Longrightarrow> d' = d" and "world_grows d d'"
    and "(i, x) \<in> set (executions d') \<Longrightarrow> ex_status x = ExQueued \<Longrightarrow> (i, x) \<in> set (executions d)"
proof -
  have *: "control_part (d'\<lparr>executions := []\<rparr>) = control_part (d\<lparr>executions := []\<rparr>) \<and> world_grows d d' \<and> (\<not> b \<longrightarrow> d' = d) \<and>
      (\<forall>i x. (i, x) \<in> set (executions d') \<longrightarrow> ex_status x = ExQueued \<longrightarrow> (i, x) \<in> set (executions d))"
  proof (cases "expire_unbound_dispatch_for_execution now e d")
    case (Inr q)
    with assms have q: "expire_unbound_dispatch_for_execution now e d = Inr (d', b)"
      by (simp add: expire_unbound_if_needed_def)
    moreover from q have "\<not> b \<longrightarrow> d' = d"
      by (auto simp: expire_unbound_dispatch_for_execution_def res_bind_eq_Inr split: option.splits if_splits)
    moreover have "(i, x) \<in> set (executions d)" if "(i, x) \<in> set (executions d')" "ex_status x = ExQueued" for i x
      using that expire_unbound_executions(1) [OF q] by (auto simp: set_tupd cancelled_at_def split: if_splits)
    ultimately show ?thesis using expire_unbound_executions(4) [OF q] expire_unbound_world [OF q] by blast
  qed (use assms in \<open>auto simp: expire_unbound_if_needed_def intro: world.refl\<close>)
  then show "leases d' = leases d" "runner_pools d' = runner_pools d" "cfg d' = cfg d" "runners d' = runners d"
    "\<not> b \<Longrightarrow> d' = d" "world_grows d d'"
    "(i, x) \<in> set (executions d') \<Longrightarrow> ex_status x = ExQueued \<Longrightarrow> (i, x) \<in> set (executions d)"
    by (simp_all add: control_part_def)
qed

lemma oldest_queued_Some:
  assumes "oldest_queued P d = Some (e, x)"
  shows "(e, x) \<in> set (executions d)" and "ex_status x = ExQueued" and "P e x"
  using assms by (auto simp: oldest_queued_def dest!: first_of_SomeD)

text \<open>What the search returns and leaves.\<close>

lemma find_claimable_Inr:
  assumes "find_claimable now org p ex n d = Inr (d', f)"
  shows "leases d' = leases d" and "cfg d' = cfg d" and "runner_pools d' = runner_pools d" and "runners d' = runners d"
    and "world_grows d d'"
    and "f = Some (e, x) \<Longrightarrow> (e, x) \<in> set (executions d') \<and> (e, x) \<in> set (executions d) \<and> ex_status x = ExQueued \<and> ex_org x = org \<and>
       execution_eligible_for_pool d' e x p \<and> pool_has_capabilities p x = Inr True"
proof -
  have "leases d' = leases d \<and> cfg d' = cfg d \<and> runner_pools d' = runner_pools d \<and> runners d' = runners d \<and> world_grows d d' \<and>
      (\<forall>e x. f = Some (e, x) \<longrightarrow> (e, x) \<in> set (executions d') \<and> (e, x) \<in> set (executions d) \<and> ex_status x = ExQueued \<and> ex_org x = org \<and>
       execution_eligible_for_pool d' e x p \<and> pool_has_capabilities p x = Inr True)"
    using assms
  proof (induction n arbitrary: ex d)
    case 0
    then show ?case by (auto intro: world.refl)
  next
    case (Suc n)
    show ?case
    proof (cases "oldest_queued (\<lambda>i x. ex_org x = org \<and> i \<notin> set ex) d")
      case None
      with Suc.prems show ?thesis by (auto intro: world.refl)
    next
      case (Some q)
      obtain e x where q: "oldest_queued (\<lambda>i x. ex_org x = org \<and> i \<notin> set ex) d = Some (e, x)" by (cases q) (auto simp: Some)
      note o = oldest_queued_Some [OF q]
      obtain d1 b where x: "expire_unbound_if_needed now e d = (d1, b)" by fastforce
      note f = expire_if_needed_frame [OF x]
      have step: ?thesis if "find_claimable now org p ex' n d1 = Inr (d', f)" for ex'
        using Suc.IH [OF that] f by (auto intro: world.trans)
      consider "b" | "\<not> b" "\<not> execution_eligible_for_pool d1 e x p" | "\<not> b" "execution_eligible_for_pool d1 e x p" by blast
      then show ?thesis
      proof cases
        case 3
        with Suc.prems q x obtain ok where ok: "pool_has_capabilities p x = Inr ok"
          "(if ok then Inr (d1, Some (e, x)) else find_claimable now org p (e # ex) n d1) = Inr (d', f)"
          by (auto simp: res_bind_eq_Inr)
        show ?thesis
        proof (cases ok)
          case True
          with ok 3 o f show ?thesis by auto
        qed (use ok step in auto)
      qed (use Suc.prems q x step in auto)
    qed
  qed
  then show "leases d' = leases d" "cfg d' = cfg d" "runner_pools d' = runner_pools d" "runners d' = runners d" "world_grows d d'"
    "f = Some (e, x) \<Longrightarrow> (e, x) \<in> set (executions d') \<and> (e, x) \<in> set (executions d) \<and> ex_status x = ExQueued \<and> ex_org x = org \<and>
       execution_eligible_for_pool d' e x p \<and> pool_has_capabilities p x = Inr True"
    by blast+
qed

text \<open>The stages of a claim.\<close>

lemma claim_row_Inr:
  assumes "claim_row now rid r p e d = Inr (d', reply)"
  shows "reply = Claimed e (next_id d)" and "tsel (\<lambda>_ l. ls_exec l = e) (leases d) = []"
    and "d' = d\<lparr>next_id := Suc (Suc (next_id d)), executions := tupd e (claimed_at now (id_str rid) (next_id d) (pl_key p)) (executions d),
       leases := tins (Suc (next_id d)) \<lparr>ls_exec = e, ls_org = rn_org r, ls_runner = rid, ls_pool = rn_pool r,
         ls_status = LeaseActive, ls_claimed_at = now, ls_released_at = None, ls_reason = []\<rparr> (leases d)\<rparr>"
  using assms by (auto simp: claim_row_def insert_lease_def fresh_def upd_exec_def res_bind_eq_Inr Let_def split: if_splits)

lemma schedule_claim_cases:
  assumes "schedule_execution_claim now rid r d = Inr (d', reply)"
  obtains "d' = d" "reply = Drain \<or> reply = Nothing"
  | p where "find_claimable now (rn_org r) p [] 50 d = Inr (d', None)" "reply = Nothing"
  | p d1 e x where "rn_status r \<in> {RnActive, RnRegistered}" "tget (runner_pools d) (rn_pool r) = Some p"
      "pl_status p = PoolActive" "within_limits rid r p d" "find_claimable now (rn_org r) p [] 50 d = Inr (d1, Some (e, x))"
      "claim_row now rid r p e d1 = Inr (d', reply)"
proof -
  from assms consider "d' = d \<and> (reply = Drain \<or> reply = Nothing)"
    | p d1 q where "rn_status r \<in> {RnActive, RnRegistered}" "tget (runner_pools d) (rn_pool r) = Some p"
      "pl_status p = PoolActive" "within_limits rid r p d" "find_claimable now (rn_org r) p [] 50 d = Inr (d1, q)"
      "(case q of None \<Rightarrow> Inr (d1, Nothing) | Some (e, _) \<Rightarrow> claim_row now rid r p e d1) = Inr (d', reply)"
  proof (cases "tget (runner_pools d) (rn_pool r)")
    case None
    with assms have "d' = d \<and> reply = Drain" by (auto simp: schedule_execution_claim_def split: if_splits)
    then show thesis using that(1) by blast
  next
    case (Some p)
    with assms that show thesis
      unfolding schedule_execution_claim_def
      by (fastforce simp: res_bind_eq_Inr simp del: find_claimable.simps split: if_splits)
  qed
  then show thesis
  proof cases
    case (2 p d1 q)
    then show thesis using that(2,3) by (cases q) (auto simp del: find_claimable.simps)
  qed (use that(1) in blast)
qed

lemma active_leases_tins:
  "active_leases P (d\<lparr>next_id := m, executions := t, leases := tins j l (leases d)\<rparr>) =
     (if ls_status l = LeaseActive \<and> P l then Suc (active_leases P d) else active_leases P d)"
  by (simp add: active_leases_def tsel_def tins_def)

lemma active_leases_cong: "leases d' = leases d \<Longrightarrow> active_leases P d' = active_leases P d"
  by (simp add: active_leases_def)

lemma emit_claimed_frame:
  assumes "emit_claimed now e x s rid extra d = Inr d'"
  shows "\<exists>ev. d' = d\<lparr>audit_log := audit_log d @ [ev]\<rparr>" and "world_grows d d'"
  using assms audit_emit_world [OF assms [unfolded emit_claimed_def]]
  by (auto simp: emit_claimed_def dest!: audit_emit_Inr)

lemma claim_registered_stages:
  assumes "claim_registered now runner_id rid r d = (d', Inr (Claimed e tok))"
  obtains d1 x ev where "schedule_execution_claim now rid r d = Inr (d1, Claimed e tok)" and "tget (executions d1) e = Some x"
    and "d' = send (status_changed_event e (ex_status x)) (d1\<lparr>audit_log := audit_log d1 @ [ev]\<rparr>)" and "world_grows d1 d'"
proof -
  from assms obtain d1 x d2 where s: "schedule_execution_claim now rid r d = Inr (d1, Claimed e tok)" "tget (executions d1) e = Some x"
    and e: "emit_claimed now e x ExQueued runner_id [
                (''runner_id'', JStr runner_id), (''claimed_at'', iso_json (ex_claimed_at x)),
                (''reclaimed'', JBool False), (''pool_key'', JStr (ex_pool_key x))] d1 = Inr d2"
    and d': "d' = send (status_changed_event e (ex_status x)) d2"
    unfolding claim_registered_def
    by (auto simp: then_do_eq commit_result_def split: sum.splits prod.splits claim_reply.splits option.splits)
  note f = emit_claimed_frame [OF e]
  from f(1) obtain ev where "d2 = d1\<lparr>audit_log := audit_log d1 @ [ev]\<rparr>" by blast
  with s d' f(2) show thesis by (intro that [of d1 x ev]) (auto intro: world_runtime)
qed

lemma schedule_claim_world:
  assumes "schedule_execution_claim now rid r d = Inr (d', reply)"
  shows "world_grows d d'"
proof -
  have t: "world_grows a (a\<lparr>next_id := m, executions := t, leases := l\<rparr>)" for a m t l
    by (rule world_same) (simp_all add: still_part_def approval_part_def)
  from assms show ?thesis
  proof (cases rule: schedule_claim_cases)
    case (3 p d1 e x)
    from find_claimable_Inr(5) [OF 3(5)] show ?thesis
      unfolding claim_row_Inr(3) [OF 3(6)] by (rule world.trans) (rule t)
  qed (auto intro: world.refl find_claimable_Inr(5))
qed

lemma claim_any_world:
  assumes "claim_any now runner_id d = Inr (d', reply)"
  shows "world_grows d d'"
proof -
  have q: "find_queued now n t = (t', f) \<Longrightarrow> world_grows t t'" for n t t' f
    by (induction n arbitrary: t)
      (auto intro: world.refl world.trans dest: expire_if_needed_frame(6) split: option.splits prod.splits if_splits)
  obtain d1 f where f: "find_queued now 50 d = (d1, f)" by fastforce
  have t: "world_grows a (upd_exec e h (a\<lparr>next_id := m\<rparr>))" for a e h m
    by (rule world_same) (simp_all add: still_part_def approval_part_def upd_exec_def)
  show ?thesis
    using assms f q [OF f] unfolding claim_any_def fresh_def Let_def
    by (auto simp del: find_queued.simps simp: res_bind_eq_Inr split: option.splits if_splits
        intro!: world_runtime intro: world.trans [OF _ world.trans [OF t]] dest!: emit_claimed_frame(2))
qed

lemma claim_next_execution_world [world_rules]:
  assumes "claim_next_execution now runner_id reg d = (d', res)"
  shows "world_grows d d'"
proof (cases reg)
  case None
  with assms show ?thesis
    by (auto simp: claim_next_execution_def intro: world.refl claim_any_world split: sum.splits)
next
  case (Some q)
  obtain rid r where q: "q = (rid, r)" by (cases q)
  show ?thesis
  proof (cases "schedule_execution_claim now rid r d")
    case (Inl e)
    with assms Some q show ?thesis by (auto simp: claim_next_execution_def claim_registered_def intro: world.refl)
  next
    case (Inr t)
    obtain d1 reply where s: "schedule_execution_claim now rid r d = Inr (d1, reply)" using Inr by (cases t) auto
    from assms Some q s have "world_grows d1 d'"
      by (auto simp: claim_next_execution_def claim_registered_def then_do_eq commit_result_def
          split: claim_reply.splits option.splits sum.splits intro!: world_runtime intro: world.refl dest!: emit_claimed_frame(2))
    with schedule_claim_world [OF s] show ?thesis by (rule world.trans)
  qed
qed

section \<open>Properties\<close>

text \<open>
  C36: a registered runner that claims an execution is active and idle, and its pool is active; the
  execution was queued in the organization of the runner, may run in this pool and needs no
  capability the pool lacks. It is then claimed by this runner with a new token, exactly one lease is
  added, and the limits hold: one execution per runner, the limit of the pool and that of the organization.
\<close>

theorem claim_respects_limits:
  assumes "claim_next_execution now runner_id (Some (rid, r)) d = (d', Inr (Claimed e tok))"
  shows "\<exists>p x j l x'. rn_status r \<in> {RnActive, RnRegistered} \<and> tget (runner_pools d) (rn_pool r) = Some p \<and> pl_status p = PoolActive \<and>
     (e, x) \<in> set (executions d) \<and> ex_status x = ExQueued \<and> ex_org x = rn_org r \<and> pool_has_capabilities p x = Inr True \<and>
     tget (executions d') e = Some x' \<and> ex_status x' = ExClaimed \<and> ex_runner x' = id_str rid \<and> ex_claim_token x' = Some tok \<and>
     ex_pool_key x' = pl_key p \<and> leases d' = tins j l (leases d) \<and> ls_exec l = e \<and> ls_runner l = rid \<and>
     (\<forall>i m. (i, m) \<in> set (leases d) \<longrightarrow> ls_exec m \<noteq> e) \<and>
     active_leases (\<lambda>l. ls_runner l = rid) d' = 1 \<and>
     active_leases (\<lambda>l. ls_pool l = rn_pool r) d' \<le> pl_max_concurrent p \<and>
     active_leases (\<lambda>l. ls_org l = rn_org r) d' \<le> cfg_org_max_concurrent (cfg d)"
proof -
  from assms have c: "claim_registered now runner_id rid r d = (d', Inr (Claimed e tok))"
    by (simp add: claim_next_execution_def)
  then obtain d2 y ev where s: "schedule_execution_claim now rid r d = Inr (d2, Claimed e tok)" "tget (executions d2) e = Some y"
    and d': "d' = send (status_changed_event e (ex_status y)) (d2\<lparr>audit_log := audit_log d2 @ [ev]\<rparr>)"
    by (rule claim_registered_stages)
  from s(1) show ?thesis
  proof (cases rule: schedule_claim_cases)
    case (3 p d1 e1 x)
    note row = claim_row_Inr [OF 3(6)] and f = find_claimable_Inr [OF 3(5)]
    from row(1) have e: "e1 = e" "tok = next_id d1" by simp_all
    from 3(4) have lim: "active_leases (\<lambda>l. ls_runner l = rid) d = 0" "active_leases (\<lambda>l. ls_pool l = rn_pool r) d < pl_max_concurrent p"
      "active_leases (\<lambda>l. ls_org l = rn_org r) d < cfg_org_max_concurrent (cfg d)"
      by (simp_all add: within_limits_def)
    have l: "leases d' = leases d2" and x: "tget (executions d') e = Some y" using s(2) by (simp_all add: d' send_def)
    have y: "ex_status y = ExClaimed" "ex_runner y = id_str rid" "ex_claim_token y = Some tok" "ex_pool_key y = pl_key p"
      using s(2) by (auto simp: row(3) e table_simps claimed_at_def)
    have "active_leases P d2 = (if P \<lparr>ls_exec = e, ls_org = rn_org r, ls_runner = rid, ls_pool = rn_pool r,
         ls_status = LeaseActive, ls_claimed_at = now, ls_released_at = None, ls_reason = []\<rparr>
       then Suc (active_leases P d) else active_leases P d)" for P
      unfolding row(3) active_leases_tins e using active_leases_cong [OF f(1)] by simp
    then have n: "active_leases (\<lambda>l. ls_runner l = rid) d' = 1" "active_leases (\<lambda>l. ls_pool l = rn_pool r) d' \<le> pl_max_concurrent p"
      "active_leases (\<lambda>l. ls_org l = rn_org r) d' \<le> cfg_org_max_concurrent (cfg d)"
      using lim active_leases_cong [OF l] by simp_all
    have "\<forall>i m. (i, m) \<in> set (leases d) \<longrightarrow> ls_exec m \<noteq> e"
      using row(2) f(1) by (auto simp: tsel_def filter_empty_conv e)
    moreover have "leases d' = tins (Suc (next_id d1)) \<lparr>ls_exec = e, ls_org = rn_org r, ls_runner = rid, ls_pool = rn_pool r,
         ls_status = LeaseActive, ls_claimed_at = now, ls_released_at = None, ls_reason = []\<rparr> (leases d)"
      using l f(1) by (simp add: row(3) e)
    ultimately show ?thesis
      using 3(1-3) f(6) [OF refl] x y n e by (intro exI conjI) auto
  qed simp_all
qed

definition queued_db :: db where
  "queued_db = routed_db\<lparr>executions := [(40, sample_execution ExQueued)]\<rparr>"

lemma queued_rows:
  "runner_pools queued_db = [(60, sample_pool ''a''), (61, sample_pool ''b'')]" "executions queued_db = [(40, sample_execution ExQueued)]"
  "leases queued_db = []" "bindings queued_db = []" "next_id queued_db = 100" "cfg queued_db = default_settings"
  by (simp_all add: queued_db_def routed_db_def sample_db_def empty_db_def)

lemma sample_claimed:
  "\<exists>d1. schedule_execution_claim 9 80 (sample_runner 61) queued_db = Inr (d1, Claimed 40 100) \<and>
     tget (executions d1) 40 = Some (claimed_at 9 (id_str 80) 100 ''b'' (sample_execution ExQueued))"
proof -
  have x: "ex_status (sample_execution ExQueued) = ExQueued" "ex_org (sample_execution ExQueued) = 1"
    by (simp_all add: sample_execution_def)
  have c: "pool_has_capabilities (sample_pool ''b'') (sample_execution ExQueued) = Inr True" by code_simp
  have r: "rn_status (sample_runner 61) = RnActive" "rn_pool (sample_runner 61) = 61" "rn_org (sample_runner 61) = 1"
    and p: "pl_status (sample_pool ''b'') = PoolActive" "pl_max_concurrent (sample_pool ''b'') = 2" "pl_key (sample_pool ''b'') = ''b''"
      "pl_default_non_change (sample_pool ''b'')"
    by (simp_all add: sample_runner_def sample_pool_def)
  have b: "binding_of_exec queued_db 40 = None" by (simp add: binding_of_exec_def queued_rows tsel_def)
  have "find_claimable 9 1 (sample_pool ''b'') [] (Suc n) queued_db = Inr (queued_db, Some (40, sample_execution ExQueued))" for n
    by (simp add: oldest_queued_def tsel_def queued_rows x expire_unbound_if_needed_def expire_unbound_dispatch_for_execution_def b
        execution_eligible_for_pool_def p c)
  from this [of 49] have f: "find_claimable 9 1 (sample_pool ''b'') [] 50 queued_db = Inr (queued_db, Some (40, sample_execution ExQueued))"
    by (simp del: find_claimable.simps)
  show ?thesis
    by (simp add: schedule_execution_claim_def r p tget_def queued_rows within_limits_def active_leases_def tsel_def default_settings_def
        f [unfolded One_nat_def] claim_row_def insert_lease_def fresh_def upd_exec_def tupd_def Let_def)
qed

lemma claimed_keys: "\<not> sensitive ''claimed_at''" "\<not> sensitive ''reclaimed''" "\<not> sensitive ''pool_key''"
  by (simp_all add: sensitive_def lower_def lower_char_def code_point_def REJECTED_METADATA_KEYS_def
      FORBIDDEN_METADATA_KEYS_def)

theorem claim_respects_limits_witness:
  "\<exists>d' x'. claim_next_execution 9 (id_str 80) (Some (80, sample_runner 61)) queued_db = (d', Inr (Claimed 40 100)) \<and>
     tget (executions d') 40 = Some x' \<and> ex_status x' = ExClaimed \<and> active_leases (\<lambda>l. ls_runner l = 80) d' = 1"
proof -
  obtain d1 where s: "schedule_execution_claim 9 80 (sample_runner 61) queued_db = Inr (d1, Claimed 40 100)"
    "tget (executions d1) 40 = Some (claimed_at 9 (id_str 80) 100 ''b'' (sample_execution ExQueued))"
    using sample_claimed by blast
  let ?x = "claimed_at 9 (id_str 80) 100 ''b'' (sample_execution ExQueued)"
  have x: "ex_status ?x = ExClaimed" "ex_org ?x = 1" "ex_claimed_at ?x = Some 9" "ex_pool_key ?x = ''b''"
    by (simp_all add: claimed_at_def sample_execution_def)
  have "\<exists>ev. emit_claimed 9 40 ?x ExQueued (id_str 80) [
                (''runner_id'', JStr (id_str 80)), (''claimed_at'', iso_json (Some 9)),
                (''reclaimed'', JBool False), (''pool_key'', JStr ''b'')] d1 = Inr (d1\<lparr>audit_log := audit_log d1 @ [ev]\<rparr>)"
    unfolding emit_claimed_def x using length_id_str [of 80] length_isoformat [of 9]
    by (intro audit_emit_succeeds) (simp_all add: sample_event_simps claimed_keys iso_json_def opt_json_def secs_def)
  then obtain d' where c: "claim_next_execution 9 (id_str 80) (Some (80, sample_runner 61)) queued_db = (d', Inr (Claimed 40 100))"
    by (auto simp: claim_next_execution_def claim_registered_def s x commit_result_def)
  from claim_respects_limits [OF c] c show ?thesis by blast
qed

end
