(* ===== verification/Policies.thy ===== *)
theory Policies
  imports Execution_World
begin

text \<open>
  \<open>apps/policies/services.py\<close>: policies, their rules, and the evaluation of a step. The time zone
  database (\<open>zoneinfo.ZoneInfo\<close>) is a parameter: a key is known, with its local time, not found, or
  malformed (a \<open>ValueError\<close>). The identifiers of rows are compared as numbers. The message of an error
  is left out: its code stands for it.
\<close>

datatype zone_lookup = Zone "timestamp \<Rightarrow> timestamp" | ZoneNotFound | ZoneBadKey

type_synonym zones = "string \<Rightarrow> zone_lookup"

section \<open>Validating a condition\<close>

definition CONDITION_TYPES :: "string list" where
  "CONDITION_TYPES = [''risk_level'', ''step_type'', ''time_window'', ''action_type'', ''action_version'',
     ''execution_mode'', ''idempotency_mode'', ''mutates_target'']"

definition ENUM_CONDITION_TYPES :: "string list" where
  "ENUM_CONDITION_TYPES = [''risk_level'', ''step_type'', ''action_type'', ''action_version'',
     ''execution_mode'', ''idempotency_mode'', ''mutates_target'']"

definition OUTCOMES :: "string list" where
  "OUTCOMES = [''approval_required'', ''auto_approve'', ''block'']"

definition invalid_params :: err where
  "invalid_params = Domain DomainValidationError ''invalid_condition_params''"

definition validate_enum_condition :: "json \<Rightarrow> unit result" where
  "validate_enum_condition params =
    res_bind (py_get params ''operator'' JNull) (\<lambda>operator.
    if operator = JStr ''in'' then
      res_bind (py_get params ''values'' JNull) (\<lambda>values.
        case values of
          JArr vs \<Rightarrow> if vs = [] \<or> \<not> list_all is_str vs then Inl invalid_params else Inr ()
        | _ \<Rightarrow> Inl invalid_params)
    else if operator = JStr ''equals'' then
      res_bind (py_get params ''value'' JNull) (\<lambda>v.
        if is_str v \<and> truthy v then Inr () else Inl invalid_params)
    else Inl invalid_params)"

text \<open>\<open>ZoneInfo(name)\<close>.\<close>

definition zone_info :: "zones \<Rightarrow> json \<Rightarrow> (timestamp \<Rightarrow> timestamp) result" where
  "zone_info zones name =
    (case name of
       JStr s \<Rightarrow> (case zones s of Zone f \<Rightarrow> Inr f | ZoneNotFound \<Rightarrow> Inl (PyError ''ZoneInfoNotFoundError'')
                 | ZoneBadKey \<Rightarrow> Inl (PyError ''ValueError''))
     | _ \<Rightarrow> Inl (PyError ''TypeError''))"

definition check_hhmm :: "json \<Rightarrow> string result" where
  "check_hhmm v =
    (case v of
       JStr s \<Rightarrow>
        (case split_on (CHR '':'') s of
           [a, b] \<Rightarrow>
            (case (py_int a, py_int b) of
               (Some h, Some m) \<Rightarrow> if 0 \<le> h \<and> h \<le> 23 \<and> 0 \<le> m \<and> m \<le> 59 then Inr s else Inl invalid_params
             | _ \<Rightarrow> Inl invalid_params)
         | _ \<Rightarrow> Inl invalid_params)
     | _ \<Rightarrow> Inl invalid_params)"

definition check_days :: "json \<Rightarrow> unit result" where
  "check_days days =
    (case days of
       JArr ds \<Rightarrow>
        if ds = [] then Inl invalid_params
        else res_bind (res_fold (\<lambda>ok x. res_bind (in_set x (map JStr day_names)) (\<lambda>b. Inr (ok \<and> b))) True ds)
          (\<lambda>ok. if ok then Inr () else Inl invalid_params)
     | _ \<Rightarrow> Inl invalid_params)"

definition validate_time_window_condition :: "zones \<Rightarrow> json \<Rightarrow> unit result" where
  "validate_time_window_condition zones params =
    res_bind (py_get params ''timezone'' JNull) (\<lambda>tz.
    if \<not> truthy tz then Inl invalid_params
    else res_bind (case zone_info zones tz of
             Inl (PyError t) \<Rightarrow> if t = ''ZoneInfoNotFoundError'' then Inl invalid_params else Inl (PyError t)
           | Inl er \<Rightarrow> Inl er | Inr _ \<Rightarrow> Inr ()) (\<lambda>_.
    res_bind (py_get params ''days_of_week'' JNull) (\<lambda>days.
    res_bind (check_days days) (\<lambda>_.
    res_bind (py_get params ''start_time'' JNull) (\<lambda>start.
    res_bind (py_get params ''end_time'' JNull) (\<lambda>stop.
    res_bind (check_hhmm start) (\<lambda>start.
    res_bind (check_hhmm stop) (\<lambda>stop.
    if start \<ge> stop then Inl invalid_params
    else res_bind (py_get params ''match_when'' JNull) (\<lambda>w.
      if w \<in> {JStr ''inside'', JStr ''outside''} then Inr () else Inl invalid_params)))))))))"

definition validate_condition_params :: "zones \<Rightarrow> string \<Rightarrow> json \<Rightarrow> unit result" where
  "validate_condition_params zones ctype params =
    (if ctype \<notin> set CONDITION_TYPES then Inl (Domain DomainValidationError ''unknown_condition_type'')
     else if ctype \<in> set ENUM_CONDITION_TYPES then validate_enum_condition params
     else if ctype = ''time_window'' then validate_time_window_condition zones params
     else Inr ())"

definition validate_outcome :: "string \<Rightarrow> unit result" where
  "validate_outcome outcome =
    (if outcome \<in> set OUTCOMES then Inr () else Inl (Domain DomainValidationError ''invalid_outcome''))"

section \<open>Policies and rules\<close>

definition emit_policy_audit ::
    "timestamp \<Rightarrow> nat \<Rightarrow> policy \<Rightarrow> string \<Rightarrow> audit_actor option \<Rightarrow> jdict \<Rightarrow> db \<Rightarrow> db result" where
  "emit_policy_audit now i p event actor metadata d =
    audit_emit now (po_org p) (case actor of None \<Rightarrow> system_actor ''Policy service'' | Some a \<Rightarrow> a)
      event ''policy'' i metadata d"

definition active_name_taken :: "db \<Rightarrow> nat \<Rightarrow> string \<Rightarrow> nat option \<Rightarrow> bool" where
  "active_name_taken d org name skip \<longleftrightarrow>
    tsel (\<lambda>i p. po_org p = org \<and> po_name p = name \<and> po_is_active p \<and> Some i \<noteq> skip) (policies d) \<noteq> []"

definition create_policy ::
    "timestamp \<Rightarrow> nat \<Rightarrow> string \<Rightarrow> string \<Rightarrow> bool \<Rightarrow> string \<Rightarrow> audit_actor option \<Rightarrow> db \<Rightarrow> (db \<times> nat) result" where
  "create_policy now org name description is_active created_by actor d =
    (if is_active \<and> active_name_taken d org name None
       then Inl (Domain DomainConflictError ''duplicate_active_policy_name'')
     else
       let (i, d) = fresh d;
           p = \<lparr>po_org = org, po_name = name, po_description = description, po_is_active = is_active,
             po_created_by = created_by, po_updated_by = [], po_created_at = now\<rparr>;
           d = d\<lparr>policies := tins i p (policies d)\<rparr>
       in res_bind (emit_policy_audit now i p ''policy.created'' actor [
              (''policy_id'', JStr (id_str i)), (''is_active'', JBool is_active)] d) (\<lambda>d. Inr (d, i)))"

text \<open>The fields a client may change; \<open>None\<close> stands for a field that is not given.\<close>

record policy_patch =
  pp_name :: "string option"
  pp_description :: "string option"
  pp_is_active :: "bool option"
  pp_updated_by :: "string option"

definition or_else :: "'a option \<Rightarrow> 'a \<Rightarrow> 'a" where
  "or_else new old = (case new of None \<Rightarrow> old | Some v \<Rightarrow> v)"

definition changed_fields :: "(string \<times> bool) list \<Rightarrow> json" where
  "changed_fields fs = JArr (map JStr (sort (map fst (filter snd fs))))"

definition patched_policy :: "policy_patch \<Rightarrow> policy \<Rightarrow> policy" where
  "patched_policy u p = p\<lparr>po_name := or_else (pp_name u) (po_name p),
     po_description := or_else (pp_description u) (po_description p),
     po_is_active := or_else (pp_is_active u) (po_is_active p),
     po_updated_by := or_else (pp_updated_by u) (po_updated_by p)\<rparr>"

text \<open>The name check reads the caller's copy of the row.\<close>

definition update_policy ::
    "timestamp \<Rightarrow> nat \<Rightarrow> policy \<Rightarrow> policy_patch \<Rightarrow> audit_actor option \<Rightarrow> db \<Rightarrow> db result" where
  "update_policy now i seen u actor d =
    (let new_name = or_else (pp_name u) (po_name seen); active = or_else (pp_is_active u) (po_is_active seen)
     in if active \<and> (new_name \<noteq> po_name seen \<or> \<not> po_is_active seen) \<and>
           active_name_taken d (po_org seen) new_name (Some i)
          then Inl (Domain DomainConflictError ''duplicate_active_policy_name'')
        else case tget (policies d) i of
          None \<Rightarrow> Inl (NotFound ''policy'')
        | Some p \<Rightarrow>
           let p' = patched_policy u p; d = d\<lparr>policies := tupd i (\<lambda>_. p') (policies d)\<rparr>
           in emit_policy_audit now i p'
                (if po_is_active p \<and> \<not> po_is_active p' then ''policy.deactivated'' else ''policy.updated'') actor [
                 (''policy_id'', JStr (id_str i)),
                 (''changed_fields'', changed_fields [(''name'', pp_name u \<noteq> None),
                    (''description'', pp_description u \<noteq> None), (''is_active'', pp_is_active u \<noteq> None),
                    (''updated_by_label'', pp_updated_by u \<noteq> None)]),
                 (''previous_is_active'', JBool (po_is_active p)), (''new_is_active'', JBool (po_is_active p'))] d)"

definition emit_policy_rule_audit ::
    "timestamp \<Rightarrow> nat \<Rightarrow> policy_rule \<Rightarrow> string \<Rightarrow> audit_actor option \<Rightarrow> jdict \<Rightarrow> db \<Rightarrow> db result" where
  "emit_policy_rule_audit now i r event actor metadata d =
    (case tget (policies d) (pr_policy r) of
       None \<Rightarrow> Inl (NotFound ''policy'')
     | Some p \<Rightarrow> audit_emit now (po_org p) (case actor of None \<Rightarrow> system_actor ''Policy service'' | Some a \<Rightarrow> a)
         event ''policy_rule'' i metadata d)"

definition rule_taken :: "(policy_rule \<Rightarrow> bool) \<Rightarrow> nat \<Rightarrow> nat option \<Rightarrow> db \<Rightarrow> bool" where
  "rule_taken P p skip d \<longleftrightarrow> tsel (\<lambda>i r. pr_policy r = p \<and> P r \<and> Some i \<noteq> skip) (policy_rules d) \<noteq> []"

definition create_rule ::
    "zones \<Rightarrow> timestamp \<Rightarrow> nat \<Rightarrow> string \<Rightarrow> int \<Rightarrow> string \<Rightarrow> json \<Rightarrow> string \<Rightarrow> string \<Rightarrow> string \<Rightarrow> bool
      \<Rightarrow> audit_actor option \<Rightarrow> db \<Rightarrow> (db \<times> nat) result" where
  "create_rule zones now p name priority ctype params outcome description reason is_active actor d =
    (if priority \<le> 0 then Inl (Domain DomainValidationError ''invalid_rule_priority'')
     else res_bind (validate_condition_params zones ctype params) (\<lambda>_.
     res_bind (validate_outcome outcome) (\<lambda>_.
     if rule_taken (\<lambda>r. pr_priority r = priority) p None d
       then Inl (Domain DomainConflictError ''duplicate_rule_priority'')
     else if rule_taken (\<lambda>r. pr_name r = name) p None d
       then Inl (Domain DomainConflictError ''duplicate_rule_name'')
     else
       let (i, d) = fresh d;
           r = \<lparr>pr_policy = p, pr_name = name, pr_description = description, pr_is_active = is_active,
             pr_priority = priority, pr_condition_type = ctype, pr_condition_params = params,
             pr_outcome = outcome, pr_reason = reason\<rparr>;
           d = d\<lparr>policy_rules := tins i r (policy_rules d)\<rparr>
       in res_bind (emit_policy_rule_audit now i r ''policy_rule.created'' actor [
              (''policy_id'', JStr (id_str p)), (''rule_id'', JStr (id_str i)), (''condition_type'', JStr ctype),
              (''outcome'', JStr outcome), (''priority'', JInt priority), (''is_active'', JBool is_active)] d)
            (\<lambda>d. Inr (d, i)))))"

record rule_patch =
  rp_name :: "string option"
  rp_description :: "string option"
  rp_is_active :: "bool option"
  rp_priority :: "int option"
  rp_condition_type :: "string option"
  rp_condition_params :: "json option"
  rp_outcome :: "string option"
  rp_reason :: "string option"

definition patched_policy_rule :: "rule_patch \<Rightarrow> policy_rule \<Rightarrow> policy_rule" where
  "patched_policy_rule u r = r\<lparr>pr_name := or_else (rp_name u) (pr_name r),
     pr_description := or_else (rp_description u) (pr_description r),
     pr_is_active := or_else (rp_is_active u) (pr_is_active r),
     pr_priority := or_else (rp_priority u) (pr_priority r),
     pr_condition_type := or_else (rp_condition_type u) (pr_condition_type r),
     pr_condition_params := or_else (rp_condition_params u) (pr_condition_params r),
     pr_outcome := or_else (rp_outcome u) (pr_outcome r),
     pr_reason := or_else (rp_reason u) (pr_reason r)\<rparr>"

definition rule_patch_checks :: "zones \<Rightarrow> nat \<Rightarrow> policy_rule \<Rightarrow> rule_patch \<Rightarrow> db \<Rightarrow> unit result" where
  "rule_patch_checks zones i seen u d =
    (let n = patched_policy_rule u seen in
     if pr_priority n \<noteq> pr_priority seen \<and> pr_priority n \<le> 0
       then Inl (Domain DomainValidationError ''invalid_rule_priority'')
     else if pr_priority n \<noteq> pr_priority seen \<and>
          rule_taken (\<lambda>r. pr_priority r = pr_priority n) (pr_policy seen) (Some i) d
       then Inl (Domain DomainConflictError ''duplicate_rule_priority'')
     else if pr_name n \<noteq> pr_name seen \<and> rule_taken (\<lambda>r. pr_name r = pr_name n) (pr_policy seen) (Some i) d
       then Inl (Domain DomainConflictError ''duplicate_rule_name'')
     else res_bind (if rp_condition_type u \<noteq> None \<or> rp_condition_params u \<noteq> None
         then validate_condition_params zones (pr_condition_type n) (pr_condition_params n) else Inr ()) (\<lambda>_.
       if rp_outcome u \<noteq> None then validate_outcome (pr_outcome n) else Inr ()))"

text \<open>The constraints of the table: unique priorities and names in a policy, no negative priority.\<close>

definition save_rule :: "nat \<Rightarrow> policy_rule \<Rightarrow> db \<Rightarrow> db result" where
  "save_rule i r d =
    (if rule_taken (\<lambda>q. pr_priority q = pr_priority r) (pr_policy r) (Some i) d
       then Inl (IntegrityErr ''unique_policy_rule_priority'')
     else if rule_taken (\<lambda>q. pr_name q = pr_name r) (pr_policy r) (Some i) d
       then Inl (IntegrityErr ''unique_policy_rule_name'')
     else if pr_priority r < 0 then Inl (IntegrityErr ''policy_rule_priority'')
     else Inr (d\<lparr>policy_rules := tupd i (\<lambda>_. r) (policy_rules d)\<rparr>))"

definition update_rule ::
    "zones \<Rightarrow> timestamp \<Rightarrow> nat \<Rightarrow> policy_rule \<Rightarrow> rule_patch \<Rightarrow> audit_actor option \<Rightarrow> db \<Rightarrow> db result" where
  "update_rule zones now i seen u actor d =
    res_bind (rule_patch_checks zones i seen u d) (\<lambda>_.
    case tget (policy_rules d) i of
      None \<Rightarrow> Inl (NotFound ''policy_rule'')
    | Some r \<Rightarrow>
       let r' = patched_policy_rule u r
       in res_bind (save_rule i r' d) (\<lambda>d.
          emit_policy_rule_audit now i r'
            (if pr_is_active r \<and> \<not> pr_is_active r' then ''policy_rule.deactivated'' else ''policy_rule.updated'') actor [
             (''policy_id'', JStr (id_str (pr_policy r))), (''rule_id'', JStr (id_str i)),
             (''changed_fields'', changed_fields [(''name'', rp_name u \<noteq> None), (''description'', rp_description u \<noteq> None),
                (''is_active'', rp_is_active u \<noteq> None), (''priority'', rp_priority u \<noteq> None),
                (''condition_type'', rp_condition_type u \<noteq> None), (''condition_params'', rp_condition_params u \<noteq> None),
                (''outcome'', rp_outcome u \<noteq> None), (''reason'', rp_reason u \<noteq> None)]),
             (''previous_is_active'', JBool (pr_is_active r)), (''new_is_active'', JBool (pr_is_active r'))] d))"

definition deactivate_rule ::
    "zones \<Rightarrow> timestamp \<Rightarrow> nat \<Rightarrow> policy_rule \<Rightarrow> audit_actor option \<Rightarrow> db \<Rightarrow> db result" where
  "deactivate_rule zones now i seen actor d =
    update_rule zones now i seen \<lparr>rp_name = None, rp_description = None, rp_is_active = Some False,
      rp_priority = None, rp_condition_type = None, rp_condition_params = None, rp_outcome = None, rp_reason = None\<rparr>
      actor d"

end
