(* ===== verification/Policy_Evaluation.thy ===== *)
theory Policy_Evaluation
  imports Policies "HOL-Library.Product_Lexorder"
begin

text \<open>
  The evaluation of a step against the rules of its organization (\<open>apps/policies/services.py\<close>): the
  conditions, the context, the loop over the rules and the recorded decision; then the facts on
  it, and that the stored rules stay sound.
\<close>

section \<open>Evaluating a condition\<close>

text \<open>\<open>params[k]\<close>, and \<open>x in container\<close>.\<close>

definition py_index :: "json \<Rightarrow> string \<Rightarrow> json result" where
  "py_index v k =
    (case v of
       JObj d \<Rightarrow> (case map_of d k of None \<Rightarrow> Inl (PyError ''KeyError'') | Some w \<Rightarrow> Inr w)
     | _ \<Rightarrow> Inl (PyError ''TypeError''))"

definition py_in :: "json \<Rightarrow> json \<Rightarrow> bool result" where
  "py_in x container =
    (case container of
       JArr vs \<Rightarrow> Inr (\<exists>v \<in> set vs. py_eq x v)
     | JObj d \<Rightarrow> in_set x (map (JStr \<circ> fst) d)
     | JStr s \<Rightarrow> (case x of JStr p \<Rightarrow> Inr (contains_str p s) | _ \<Rightarrow> Inl (PyError ''TypeError''))
     | _ \<Rightarrow> Inl (PyError ''TypeError''))"

text \<open>\<open>a <= b\<close> and \<open>a < b\<close> on texts.\<close>

definition str_less :: "json \<Rightarrow> json \<Rightarrow> bool result" where
  "str_less a b = (if is_str a \<and> is_str b then Inr (str_of a < str_of b) else Inl (PyError ''TypeError''))"

definition str_le :: "json \<Rightarrow> json \<Rightarrow> bool result" where
  "str_le a b = (if is_str a \<and> is_str b then Inr (str_of a \<le> str_of b) else Inl (PyError ''TypeError''))"

definition evaluate_enum_condition :: "json \<Rightarrow> json \<Rightarrow> bool result" where
  "evaluate_enum_condition params actual =
    res_bind (py_get params ''operator'' JNull) (\<lambda>operator.
    if operator = JStr ''equals'' then
      res_bind (py_get params ''value'' JNull) (\<lambda>v. Inr (py_eq actual v))
    else if operator = JStr ''in'' then
      res_bind (py_get params ''values'' (JArr [])) (py_in actual)
    else Inr False)"

definition evaluate_time_window_condition :: "zones \<Rightarrow> json \<Rightarrow> timestamp \<Rightarrow> bool result" where
  "evaluate_time_window_condition zones params evaluated_at =
    res_bind (py_index params ''timezone'') (\<lambda>name.
    res_bind (zone_info zones name) (\<lambda>local.
    let day = JStr (day_name (local evaluated_at)); clock = JStr (hhmm (local evaluated_at)) in
    res_bind (py_index params ''days_of_week'') (\<lambda>days.
    res_bind (py_in day days) (\<lambda>on_day.
    res_bind (if \<not> on_day then Inr False else
      res_bind (py_index params ''start_time'') (\<lambda>start. res_bind (str_le start clock) (\<lambda>b.
        if \<not> b then Inr False else res_bind (py_index params ''end_time'') (str_less clock)))) (\<lambda>in_window.
    res_bind (py_get params ''match_when'' (JStr ''inside'')) (\<lambda>match_when.
    Inr (if match_when = JStr ''inside'' then in_window else \<not> in_window)))))))"

definition evaluate_condition :: "zones \<Rightarrow> string \<Rightarrow> json \<Rightarrow> jdict \<Rightarrow> timestamp \<Rightarrow> bool result" where
  "evaluate_condition zones ctype params context evaluated_at =
    (if ctype = ''time_window'' then evaluate_time_window_condition zones params evaluated_at
     else if ctype \<in> set ENUM_CONDITION_TYPES
       then evaluate_enum_condition params (fget context ctype (JStr []))
     else Inr False)"

definition apply_requires_approval_floor :: "string \<Rightarrow> exec_step \<Rightarrow> string" where
  "apply_requires_approval_floor outcome s =
    (if st_requires_approval s \<and> outcome = ''auto_approve'' then ''approval_required'' else outcome)"

definition mutates_target_text :: "json \<Rightarrow> json" where
  "mutates_target_text raw =
    JStr (if raw = JBool True then ''true'' else if raw = JBool False then ''false'' else [])"

definition build_evaluation_context :: "nat \<Rightarrow> execution \<Rightarrow> nat \<Rightarrow> exec_step \<Rightarrow> timestamp \<Rightarrow> jdict result" where
  "build_evaluation_context e x i s evaluated_at =
    (let snapshot = py_or (st_snapshot s) (JObj []); empty_or = (\<lambda>v. py_or v (JObj [])) in
    res_bind (py_get snapshot ''action'' JNull) (\<lambda>v. let action = empty_or v in
    res_bind (py_get snapshot ''retry'' JNull) (\<lambda>v. let retry = empty_or v in
    res_bind (py_get snapshot ''idempotency'' JNull) (\<lambda>v. let idempotency = empty_or v in
    res_bind (py_get snapshot ''dryRun'' JNull) (\<lambda>v. let dry_run = empty_or v in
    let wf = py_or (ex_snapshot x) (JObj []) in
    res_bind (py_get snapshot ''mutatesTarget'' JNull) (\<lambda>mutates.
    res_bind (py_get wf ''schemaVersion'' (JStr [])) (\<lambda>schema_version.
    res_bind (py_get wf ''catalogVersion'' (JStr [])) (\<lambda>catalog_version.
    res_bind (py_get action ''type'' (JStr [])) (\<lambda>action_type.
    res_bind (py_get action ''version'' (JStr [])) (\<lambda>action_version.
    res_bind (py_get snapshot ''timeoutSeconds'' JNull) (\<lambda>timeout.
    res_bind (py_get retry ''maxAttempts'' JNull) (\<lambda>attempts.
    res_bind (py_get idempotency ''mode'' (JStr [])) (\<lambda>mode.
    res_bind (py_get snapshot ''secrets'' JNull) (\<lambda>v. res_bind (py_iter (py_or v (JArr []))) (\<lambda>secrets.
    res_bind (py_get snapshot ''artifacts'' JNull) (\<lambda>v. res_bind (py_iter (py_or v (JArr []))) (\<lambda>artifacts.
    res_bind (res_fold (\<lambda>ks a. res_bind (py_get a ''key'' (JStr [])) (\<lambda>k. Inr (ks @ [k]))) [] artifacts) (\<lambda>keys.
    res_bind (if truthy dry_run then py_get dry_run ''supported'' JNull else Inr JNull) (\<lambda>dry_run_supported.
    Inr [(''organization_id'', JStr (id_str (ex_org x))), (''execution_id'', JStr (id_str e)),
      (''step_id'', JStr (id_str i)), (''step_key'', JStr (st_key s)), (''step_type'', JStr (st_type s)),
      (''risk_level'', JStr (st_risk s)), (''requires_approval'', JBool (st_requires_approval s)),
      (''evaluated_at'', JStr (isoformat evaluated_at)), (''workflow_id'', JStr (id_str (ex_workflow x))),
      (''schema_version'', schema_version), (''catalog_version'', catalog_version),
      (''execution_mode'', JStr (exec_mode_str (ex_mode x))), (''action_type'', action_type),
      (''action_version'', action_version), (''timeout_seconds'', timeout), (''retry_max_attempts'', attempts),
      (''idempotency_mode'', mode), (''declared_secret_keys'', JArr secrets),
      (''declared_artifact_keys'', JArr keys), (''mutates_target'', mutates_target_text mutates),
      (''dry_run_supported'', dry_run_supported)])))))))))))))))))))"

section \<open>Evaluating a step\<close>

text \<open>\<open>dict(v)\<close>: a dictionary, or a list of pairs; only pairs with a text key are taken.\<close>

fun py_pair :: "json \<Rightarrow> (string \<times> json) result" where
  "py_pair (JArr [JStr k, v]) = Inr (k, v)"
| "py_pair (JStr [a, b]) = Inr ([a], JStr [b])"
| "py_pair _ = Inl (PyError ''TypeError'')"

definition py_dict :: "json \<Rightarrow> jdict result" where
  "py_dict v =
    (case v of
       JObj d \<Rightarrow> Inr d
     | _ \<Rightarrow> res_bind (py_iter v) (res_fold (\<lambda>d x. res_bind (py_pair x) (\<lambda>(k, w). Inr (dict_set d k w))) []))"

definition evaluation_facts :: "policy_evaluation \<Rightarrow> jdict" where
  "evaluation_facts p =
    [(''execution_id'', JStr (id_str (pe_exec p))), (''step_id'', JStr (id_str (pe_step p))),
     (''policy_id'', JStr (case pe_policy p of None \<Rightarrow> [] | Some k \<Rightarrow> id_str k)),
     (''rule_id'', JStr (case pe_rule p of None \<Rightarrow> [] | Some r \<Rightarrow> id_str r)),
     (''matched'', JBool (pe_matched p)), (''outcome'', JStr (pe_outcome p)),
     (''effective_outcome'', JStr (pe_effective p)),
     (''decision_source'', JStr (decision_source_str (pe_source p))),
     (''reason'', JStr (pe_reason p)), (''error_code'', JStr (pe_error_code p)),
     (''error_message'', JStr (pe_error_message p))]"

definition create_policy_evaluation_with_audit ::
    "timestamp \<Rightarrow> policy_evaluation \<Rightarrow> db \<Rightarrow> (db \<times> nat \<times> policy_evaluation) result" where
  "create_policy_evaluation_with_audit now p d =
    (let (j, d) = fresh d; d = d\<lparr>policy_evals := tins j p (policy_evals d)\<rparr>
     in res_bind (link_policy_evaluation now (pe_exec p) j p d) (\<lambda>d.
        res_bind (audit_emit now (pe_org p) (system_actor ''Django system'') ''policy.evaluated''
          ''policy_evaluation'' j (evaluation_facts p) d) (\<lambda>d. Inr (d, j, p))))"

definition persist_evaluation_error ::
    "timestamp \<Rightarrow> nat \<Rightarrow> execution \<Rightarrow> nat \<Rightarrow> (nat \<times> nat \<times> policy_rule) option \<Rightarrow> jdict \<Rightarrow> string \<Rightarrow> string
      \<Rightarrow> db \<Rightarrow> (db \<times> nat \<times> policy_evaluation) result" where
  "persist_evaluation_error now e x i why context code message d =
    res_bind (case why of None \<Rightarrow> Inr [] | Some (_, _, r) \<Rightarrow> py_dict (pr_condition_params r)) (\<lambda>params.
    create_policy_evaluation_with_audit now
      \<lparr>pe_org = ex_org x, pe_exec = e, pe_step = i, pe_policy = map_option fst why,
       pe_rule = map_option (\<lambda>(_, r, _). r) why, pe_matched = False, pe_outcome = ''block'',
       pe_effective = ''block'', pe_source = PolicyRuleSource,
       pe_condition_type = (case why of None \<Rightarrow> [] | Some (_, _, r) \<Rightarrow> pr_condition_type r),
       pe_condition_params = JObj params, pe_context = JObj context,
       pe_reason = ''Policy evaluation failed; step blocked for safety.'', pe_error_code = code,
       pe_error_message = message, pe_evaluated_at = now, pe_created_at = now\<rparr> d)"

definition persist_policy_evaluation_error ::
    "timestamp \<Rightarrow> nat \<Rightarrow> execution \<Rightarrow> nat \<Rightarrow> exec_step \<Rightarrow> string \<Rightarrow> string \<Rightarrow> jdict option \<Rightarrow> db
      \<Rightarrow> (db \<times> nat \<times> policy_evaluation) result" where
  "persist_policy_evaluation_error now e x i s code message context d =
    res_bind (case context of Some c \<Rightarrow> Inr c | None \<Rightarrow> build_evaluation_context e x i s now) (\<lambda>context.
    persist_evaluation_error now e x i None context code message d)"

text \<open>The active rules of the active policies of an organization, in the order they are tried.\<close>

definition active_rules :: "nat \<Rightarrow> db \<Rightarrow> (nat \<times> nat \<times> policy_rule) list" where
  "active_rules org d =
    map snd (sort_key fst (concat (map (\<lambda>(k, p).
      map (\<lambda>(j, r). ((pr_priority r, po_created_at p, k, j), (k, j, r)))
        (tsel (\<lambda>_ r. pr_policy r = k \<and> pr_is_active r) (policy_rules d)))
      (tsel (\<lambda>_ p. po_org p = org \<and> po_is_active p) (policies d)))))"

datatype verdict =
    NoMatch
  | Matched "nat \<times> nat \<times> policy_rule"
  | Broken "nat \<times> nat \<times> policy_rule" string string

fun err_text :: "err \<Rightarrow> string" where
  "err_text (Domain _ c) = c"
| "err_text (DjangoValidation c) = c"
| "err_text (IntegrityErr c) = c"
| "err_text (NotFound c) = c"
| "err_text (PyError c) = c"

text \<open>The loop over the rules: the first that cannot be evaluated or that matches ends it.\<close>

fun judge_rules :: "zones \<Rightarrow> jdict \<Rightarrow> timestamp \<Rightarrow> (nat \<times> nat \<times> policy_rule) list \<Rightarrow> verdict result" where
  "judge_rules zones context now [] = Inr NoMatch"
| "judge_rules zones context now ((k, j, r) # rs) =
    (case validate_condition_params zones (pr_condition_type r) (pr_condition_params r) of
       Inl (Domain DomainValidationError c) \<Rightarrow> Inr (Broken (k, j, r) ''invalid_condition_params'' c)
     | Inl er \<Rightarrow> Inl er
     | Inr _ \<Rightarrow>
      (case evaluate_condition zones (pr_condition_type r) (pr_condition_params r) context now of
         Inl er \<Rightarrow> Inr (Broken (k, j, r) ''condition_evaluation_error'' (err_text er))
       | Inr True \<Rightarrow> Inr (Matched (k, j, r))
       | Inr False \<Rightarrow> judge_rules zones context now rs))"

definition record_verdict ::
    "timestamp \<Rightarrow> nat \<Rightarrow> execution \<Rightarrow> nat \<Rightarrow> exec_step \<Rightarrow> jdict \<Rightarrow> verdict \<Rightarrow> db \<Rightarrow> (db \<times> nat \<times> policy_evaluation) result" where
  "record_verdict now e x i s context v d =
    (case v of
       Broken why code message \<Rightarrow> persist_evaluation_error now e x i (Some why) context code message d
     | Matched (k, j, r) \<Rightarrow>
        res_bind (py_dict (pr_condition_params r)) (\<lambda>params.
        create_policy_evaluation_with_audit now
          \<lparr>pe_org = ex_org x, pe_exec = e, pe_step = i, pe_policy = Some k, pe_rule = Some j,
           pe_matched = True, pe_outcome = pr_outcome r,
           pe_effective = apply_requires_approval_floor (pr_outcome r) s, pe_source = PolicyRuleSource,
           pe_condition_type = pr_condition_type r, pe_condition_params = JObj params,
           pe_context = JObj context, pe_reason = pr_reason r, pe_error_code = [], pe_error_message = [],
           pe_evaluated_at = now, pe_created_at = now\<rparr> d)
     | NoMatch \<Rightarrow>
        (let outcome = if st_requires_approval s then ''approval_required'' else ''auto_approve''
         in create_policy_evaluation_with_audit now
          \<lparr>pe_org = ex_org x, pe_exec = e, pe_step = i, pe_policy = None, pe_rule = None,
           pe_matched = False, pe_outcome = outcome, pe_effective = outcome, pe_source = WorkflowDefault,
           pe_condition_type = [], pe_condition_params = JObj [], pe_context = JObj context,
           pe_reason = ''No matching policy rule; using workflow default.'', pe_error_code = [],
           pe_error_message = [], pe_evaluated_at = now, pe_created_at = now\<rparr> d))"

definition evaluate_step_policy ::
    "zones \<Rightarrow> timestamp \<Rightarrow> nat \<Rightarrow> execution \<Rightarrow> nat \<Rightarrow> exec_step \<Rightarrow> db \<Rightarrow> (db \<times> nat \<times> policy_evaluation) result" where
  "evaluate_step_policy zones now e x i s d =
    (if st_exec s \<noteq> e then Inl (Domain DomainValidationError ''step_execution_mismatch'')
     else res_bind (build_evaluation_context e x i s now) (\<lambda>context.
       case res_bind (judge_rules zones context now (active_rules (ex_org x) d)) (\<lambda>v.
            record_verdict now e x i s context v d) of
         Inr r \<Rightarrow> Inr r
       | Inl er \<Rightarrow> persist_policy_evaluation_error now e x i s ''policy_evaluation_error'' (err_text er)
           (Some context) d))"

section \<open>The world under these operations\<close>

lemma link_policy_evaluation_world [world_rules]:
  assumes "link_policy_evaluation now e i p d = Inr d'"
  shows "world_grows d d'"
  using assms unfolding link_policy_evaluation_def
  by (auto simp: res_bind_eq_Inr change_row_ok_def frozen_request_def split: option.splits if_splits intro!: world.refl
      elim!: world_emit dest!: change_save_progress [THEN progress_world])


lemma policies_world:
  "world_grows d (d\<lparr>policies := t\<rparr>)" "world_grows d (d\<lparr>next_id := n, policies := t\<rparr>)"
  "world_grows d (d\<lparr>policy_rules := u\<rparr>)" "world_grows d (d\<lparr>next_id := n, policy_rules := u\<rparr>)"
  by (auto intro!: world_same simp: still_part_def approval_part_def)

lemma create_policy_world [world_rules]:
  "create_policy now org name de act by actor d = Inr (d', i) \<Longrightarrow> world_grows d d'"
  unfolding create_policy_def emit_policy_audit_def Let_def fresh_def
  by (auto simp: res_bind_eq_Inr split: if_splits intro: policies_world elim!: world_emit)

lemma update_policy_world [world_rules]:
  "update_policy now i seen u actor d = Inr d' \<Longrightarrow> world_grows d d'"
  unfolding update_policy_def emit_policy_audit_def Let_def
  by (auto simp: res_bind_eq_Inr split: if_splits option.splits intro: policies_world elim!: world_emit)

lemma emit_rule_world:
  "emit_policy_rule_audit now i r ev actor md d1 = Inr d' \<Longrightarrow> world_grows d d1 \<Longrightarrow> world_grows d d'"
  unfolding emit_policy_rule_audit_def by (auto split: option.splits elim!: world_emit)

lemma create_rule_world [world_rules]:
  "create_rule zones now p name pri ct ps out de why act actor d = Inr (d', i) \<Longrightarrow> world_grows d d'"
  unfolding create_rule_def Let_def fresh_def
  by (auto simp: res_bind_eq_Inr split: if_splits intro: policies_world elim!: emit_rule_world)

lemma save_rule_Inr:
  "save_rule i r d = Inr d' \<Longrightarrow> d' = d\<lparr>policy_rules := tupd i (\<lambda>_. r) (policy_rules d)\<rparr> \<and> 0 \<le> pr_priority r"
  by (auto simp: save_rule_def split: if_splits)

lemma update_rule_world [world_rules]:
  "update_rule zones now i seen u actor d = Inr d' \<Longrightarrow> world_grows d d'"
  unfolding update_rule_def Let_def
  by (auto simp: res_bind_eq_Inr split: if_splits option.splits intro: policies_world
      elim!: emit_rule_world dest!: save_rule_Inr)

lemma create_evaluation_Inr:
  assumes "create_policy_evaluation_with_audit now p d = Inr (d', j, q)"
  shows "world_grows d d'" and "j = next_id d" and "q = p" and "policy_evals d' = tins j p (policy_evals d)"
    and "executions d' = executions d" and "exec_steps d' = exec_steps d"
proof -
  let ?d = "d\<lparr>next_id := Suc (next_id d), policy_evals := tins (next_id d) p (policy_evals d)\<rparr>"
  from assms obtain d1 where l: "link_policy_evaluation now (pe_exec p) j p ?d = Inr d1"
    and e: "audit_emit now (pe_org p) (system_actor ''Django system'') ''policy.evaluated''
          ''policy_evaluation'' j (evaluation_facts p) d1 = Inr d'" and j: "j = next_id d" and q: "q = p"
    by (auto simp: create_policy_evaluation_with_audit_def fresh_def res_bind_eq_Inr)
  have "world_grows d ?d"
    by (auto simp: world_grows_def log_grows_def locks_exclusive_def intro!: table_within_refl table_within_tins)
  with link_policy_evaluation_world [OF l] e show "world_grows d d'"
    by (blast intro: world.trans world_emit)
  show "j = next_id d" by (rule j)
  show "q = p" by (rule q)
  from l have "policy_evals d1 = policy_evals ?d \<and> executions d1 = executions d \<and> exec_steps d1 = exec_steps d"
    by (auto simp: link_policy_evaluation_def change_save_def res_bind_eq_Inr upd_change_def
      split: option.splits if_splits dest!: audit_emit_Inr)
  with audit_emit_Inr [OF e] j show "policy_evals d' = tins j p (policy_evals d)"
    and "executions d' = executions d" and "exec_steps d' = exec_steps d"
    by auto
qed

definition row_added :: "db \<Rightarrow> db \<Rightarrow> nat \<Rightarrow> policy_evaluation \<Rightarrow> bool" where
  "row_added d d' j p \<longleftrightarrow> world_grows d d' \<and> j = next_id d \<and> policy_evals d' = tins j p (policy_evals d) \<and>
     executions d' = executions d \<and> exec_steps d' = exec_steps d"

lemma create_evaluation_added:
  "create_policy_evaluation_with_audit now p d = Inr (d', j, q) \<Longrightarrow> q = p \<and> row_added d d' j q"
  using create_evaluation_Inr [of now p d d' j q] by (simp add: row_added_def)

lemma persist_error_added:
  assumes "persist_evaluation_error now e x i why context code msg d = Inr (d', j, p)"
  shows "row_added d d' j p \<and> pe_effective p = ''block'' \<and> pe_error_code p = code \<and> pe_exec p = e \<and> pe_step p = i"
  using assms unfolding persist_evaluation_error_def
  by (auto simp: res_bind_eq_Inr dest!: create_evaluation_added)

text \<open>How a rule fares, and the first that does not simply fail to match.\<close>

definition rule_passes :: "zones \<Rightarrow> jdict \<Rightarrow> timestamp \<Rightarrow> policy_rule \<Rightarrow> bool result" where
  "rule_passes zones context now r =
    res_bind (validate_condition_params zones (pr_condition_type r) (pr_condition_params r)) (\<lambda>_.
    evaluate_condition zones (pr_condition_type r) (pr_condition_params r) context now)"

lemma judge_rules_Matched:
  "judge_rules zones ctx now rs = Inr (Matched m) \<Longrightarrow>
     \<exists>before after. rs = before @ m # after \<and> rule_passes zones ctx now (snd (snd m)) = Inr True \<and>
       (\<forall>q \<in> set before. rule_passes zones ctx now (snd (snd q)) = Inr False)"
proof (induction zones ctx now rs rule: judge_rules.induct)
  case (2 zones ctx now k j r rs)
  show ?case
  proof (cases "rule_passes zones ctx now r = Inr True")
    case True
    with 2(2) have "m = (k, j, r)" by (auto simp: rule_passes_def res_bind_eq_Inr split: sum.splits)
    with True show ?thesis by (intro exI [of _ "[]"] exI [of _ rs]) simp
  next
    case False
    with 2(2) have f: "rule_passes zones ctx now r = Inr False" and v: "judge_rules zones ctx now rs = Inr (Matched m)"
      by (auto simp: rule_passes_def res_bind_eq_Inr split: sum.splits bool.splits err.splits err_kind.splits)
    from f have "\<exists>u. validate_condition_params zones (pr_condition_type r) (pr_condition_params r) = Inr u \<and>
      evaluate_condition zones (pr_condition_type r) (pr_condition_params r) ctx now = Inr False"
      by (auto simp: rule_passes_def res_bind_eq_Inr)
    with 2(1) v obtain before after where "rs = before @ m # after" "rule_passes zones ctx now (snd (snd m)) = Inr True"
      "\<forall>q \<in> set before. rule_passes zones ctx now (snd (snd q)) = Inr False" by (metis (full_types))
    with f show ?thesis by (intro exI [of _ "(k, j, r) # before"] exI [of _ after]) simp
  qed
qed simp

lemma judge_rules_NoMatch:
  "judge_rules zones ctx now rs = Inr NoMatch \<Longrightarrow> \<forall>q \<in> set rs. rule_passes zones ctx now (snd (snd q)) = Inr False"
  by (induction zones ctx now rs rule: judge_rules.induct)
    (auto simp: rule_passes_def split: sum.splits bool.splits err.splits err_kind.splits)

text \<open>
  \<open>decided_by\<close>: the first rule that matches gave the outcome, all before it having been checked and
  found not to match; or no rule matches and the workflow's own flag gave it.
\<close>

definition decided_by ::
    "zones \<Rightarrow> jdict \<Rightarrow> timestamp \<Rightarrow> exec_step \<Rightarrow> (nat \<times> nat \<times> policy_rule) list \<Rightarrow> policy_evaluation \<Rightarrow> bool" where
  "decided_by zones context now s rs p \<longleftrightarrow>
    (\<exists>before k j r after. rs = before @ (k, j, r) # after \<and> rule_passes zones context now r = Inr True \<and>
       (\<forall>q \<in> set before. rule_passes zones context now (snd (snd q)) = Inr False) \<and>
       pe_policy p = Some k \<and> pe_rule p = Some j \<and> pe_outcome p = pr_outcome r) \<or>
    (\<forall>q \<in> set rs. rule_passes zones context now (snd (snd q)) = Inr False) \<and> pe_rule p = None \<and>
       pe_outcome p = (if st_requires_approval s then ''approval_required'' else ''auto_approve'')"

definition judged :: "zones \<Rightarrow> jdict \<Rightarrow> timestamp \<Rightarrow> exec_step \<Rightarrow> (nat \<times> nat \<times> policy_rule) list \<Rightarrow> policy_evaluation \<Rightarrow> bool" where
  "judged zones context now s rs p \<longleftrightarrow>
    (if pe_error_code p \<noteq> [] then pe_effective p = ''block''
     else decided_by zones context now s rs p \<and> pe_effective p = apply_requires_approval_floor (pe_outcome p) s)"

lemma judge_rules_Broken:
  "judge_rules zones ctx now rs = Inr (Broken why code msg) \<Longrightarrow> code \<noteq> []"
  by (induction zones ctx now rs rule: judge_rules.induct)
    (auto split: sum.splits bool.splits err.splits err_kind.splits)

lemma record_verdict_judged:
  assumes v: "judge_rules zones ctx now rs = Inr v" and r: "record_verdict now e x i s ctx v d = Inr (d', j, p)"
  shows "row_added d d' j p \<and> judged zones ctx now s rs p \<and> pe_exec p = e \<and> pe_step p = i"
proof (cases v)
  case NoMatch
  with r show ?thesis
    using judge_rules_NoMatch [of zones ctx now rs] v
    by (auto simp: record_verdict_def Let_def judged_def decided_by_def apply_requires_approval_floor_def
        dest!: create_evaluation_added)
next
  case (Matched m)
  obtain k l q where m: "m = (k, l, q)" by (cases m)
  from judge_rules_Matched [of zones ctx now rs m] v Matched m obtain before after where
    "rs = before @ (k, l, q) # after" "rule_passes zones ctx now q = Inr True"
    "\<forall>q \<in> set before. rule_passes zones ctx now (snd (snd q)) = Inr False" by auto
  then have "decided_by zones ctx now s rs p" if "pe_policy p = Some k" "pe_rule p = Some l" "pe_outcome p = pr_outcome q"
    using that unfolding decided_by_def by blast
  with r Matched m show ?thesis
    by (auto simp: record_verdict_def res_bind_eq_Inr judged_def dest!: create_evaluation_added)
next
  case (Broken why code msg)
  with r have "persist_evaluation_error now e x i (Some why) ctx code msg d = Inr (d', j, p)"
    by (simp add: record_verdict_def)
  from persist_error_added [OF this] show ?thesis
    using judge_rules_Broken [of zones ctx now rs] v Broken by (auto simp: judged_def)
qed

lemma evaluate_step_policy_Inr:
  assumes "evaluate_step_policy zones now e x i s d = Inr (d', j, p)"
  shows "row_added d d' j p \<and> pe_exec p = e \<and> pe_step p = i \<and> (\<exists>ctx. build_evaluation_context e x i s now = Inr ctx \<and>
    judged zones ctx now s (active_rules (ex_org x) d) p)"
proof -
  let ?rs = "active_rules (ex_org x) d"
  from assms obtain ctx where c: "build_evaluation_context e x i s now = Inr ctx"
    and t: "(case res_bind (judge_rules zones ctx now ?rs) (\<lambda>v. record_verdict now e x i s ctx v d) of
         Inr r \<Rightarrow> Inr r
       | Inl er \<Rightarrow> persist_policy_evaluation_error now e x i s ''policy_evaluation_error'' (err_text er) (Some ctx) d)
       = Inr (d', j, p)"
    by (auto simp: evaluate_step_policy_def res_bind_eq_Inr split: if_splits)
  show ?thesis
  proof (cases "res_bind (judge_rules zones ctx now ?rs) (\<lambda>v. record_verdict now e x i s ctx v d)")
    case (Inl er)
    with t have "persist_evaluation_error now e x i None ctx ''policy_evaluation_error'' (err_text er) d = Inr (d', j, p)"
      by (simp add: persist_policy_evaluation_error_def)
    from persist_error_added [OF this] c show ?thesis by (auto simp: judged_def)
  next
    case (Inr q)
    with t obtain v where "judge_rules zones ctx now ?rs = Inr v" "record_verdict now e x i s ctx v d = Inr (d', j, p)"
      by (auto simp: res_bind_eq_Inr)
    from record_verdict_judged [OF this] c show ?thesis by blast
  qed
qed

lemma evaluate_step_policy_world [world_rules]:
  assumes "evaluate_step_policy zones now e x i s d = Inr (d', j, p)"
  shows "world_grows d d'"
  using evaluate_step_policy_Inr [OF assms] by (simp add: row_added_def)

lemma persist_policy_error_added:
  assumes "persist_policy_evaluation_error now e x i s code msg context d = Inr (d', j, p)"
  shows "row_added d d' j p \<and> pe_effective p = ''block'' \<and> pe_error_code p = code \<and> pe_exec p = e \<and> pe_step p = i"
  using assms unfolding persist_policy_evaluation_error_def
  by (auto simp: res_bind_eq_Inr split: option.splits dest!: persist_error_added)


section \<open>Stored rules can be evaluated\<close>

lemma py_get_Inr: "py_get params k JNull = Inr v \<Longrightarrow> v \<noteq> JNull \<Longrightarrow>
    \<exists>fs. params = JObj fs \<and> map_of fs k = Some v"
  by (cases params) (auto simp: fget_def split: option.splits)

lemma enum_validated:
  assumes "validate_enum_condition params = Inr ()"
  shows "\<exists>b. evaluate_enum_condition params actual = Inr b"
proof -
  from assms obtain oper where o: "py_get params ''operator'' JNull = Inr oper" "oper \<in> {JStr ''in'', JStr ''equals''}"
    by (auto simp: validate_enum_condition_def res_bind_eq_Inr split: if_splits)
  then obtain fs where fs: "params = JObj fs" by (cases params) auto
  show ?thesis
  proof (cases "oper = JStr ''in''")
    case True
    with assms o fs obtain vs where "fget fs ''values'' JNull = JArr vs"
      by (auto simp: validate_enum_condition_def split: json.splits)
    then have "fget fs ''values'' (JArr []) = JArr vs" by (auto simp: fget_def split: option.splits)
    with True o fs show ?thesis by (simp add: evaluate_enum_condition_def py_in_def)
  qed (use o fs in \<open>auto simp: evaluate_enum_condition_def\<close>)
qed

lemma check_hhmm_Inr: "check_hhmm v = Inr s \<Longrightarrow> v = JStr s"
  by (auto simp: check_hhmm_def split: json.splits list.splits option.splits if_splits)

lemma window_validated:
  assumes "validate_time_window_condition zones params = Inr ()"
  obtains fs tz f days start stop mode where "params = JObj fs"
    and "map_of fs ''timezone'' = Some tz" and "zone_info zones tz = Inr f"
    and "map_of fs ''days_of_week'' = Some (JArr days)"
    and "map_of fs ''start_time'' = Some (JStr start)" and "map_of fs ''end_time'' = Some (JStr stop)"
    and "map_of fs ''match_when'' = Some mode" and "mode \<in> {JStr ''inside'', JStr ''outside''}"
    and "start < stop"
proof -
  from assms obtain tz days start stop mode s1 s2 where
    tz: "py_get params ''timezone'' JNull = Inr tz" "truthy tz"
    and z: "(case zone_info zones tz of
             Inl (PyError t) \<Rightarrow> if t = ''ZoneInfoNotFoundError'' then Inl invalid_params else Inl (PyError t)
           | Inl er \<Rightarrow> Inl er | Inr _ \<Rightarrow> Inr ()) = Inr ()"
    and dy: "py_get params ''days_of_week'' JNull = Inr days" "check_days days = Inr ()"
    and st: "py_get params ''start_time'' JNull = Inr start" "check_hhmm start = Inr s1"
    and en: "py_get params ''end_time'' JNull = Inr stop" "check_hhmm stop = Inr s2" and lt: "s1 < s2"
    and mw: "py_get params ''match_when'' JNull = Inr mode" "mode \<in> {JStr ''inside'', JStr ''outside''}"
    unfolding validate_time_window_condition_def by (auto simp: res_bind_eq_Inr split: if_splits)
  from tz obtain fs where fs: "params = JObj fs" by (cases params) auto
  have at: "map_of fs k = Some v" if "py_get params k JNull = Inr v" "v \<noteq> JNull" for k v
    using py_get_Inr [OF that] fs by simp
  obtain f where f: "zone_info zones tz = Inr f"
    using z by (auto split: sum.splits err.splits if_splits)
  obtain ds where ds: "days = JArr ds" using dy(2) by (auto simp: check_days_def split: json.splits)
  have t: "map_of fs ''timezone'' = Some tz" using tz by (intro at) auto
  have d: "map_of fs ''days_of_week'' = Some (JArr ds)" using dy(1) ds by (intro at) auto
  have s: "map_of fs ''start_time'' = Some (JStr s1)" using st check_hhmm_Inr [OF st(2)] by (intro at) auto
  have e: "map_of fs ''end_time'' = Some (JStr s2)" using en check_hhmm_Inr [OF en(2)] by (intro at) auto
  have m: "map_of fs ''match_when'' = Some mode" using mw by (intro at) auto
  show thesis by (rule that [OF fs t f d s e m mw(2) lt])
qed

lemma window_evaluated:
  assumes "params = JObj fs"
    and "map_of fs ''timezone'' = Some tz" and "zone_info zones tz = Inr f"
    and "map_of fs ''days_of_week'' = Some (JArr days)"
    and "map_of fs ''start_time'' = Some (JStr start)" and "map_of fs ''end_time'' = Some (JStr stop)"
    and "map_of fs ''match_when'' = Some mode"
  shows "evaluate_time_window_condition zones params t =
    Inr (((\<exists>v \<in> set days. py_eq (JStr (day_name (f t))) v) \<and> start \<le> hhmm (f t) \<and> hhmm (f t) < stop)
      = (mode = JStr ''inside''))"
  using assms
  by (simp add: evaluate_time_window_condition_def py_index_def py_in_def str_le_def str_less_def fget_def Let_def; blast)

lemma validated_evaluates:
  assumes "validate_condition_params zones ct ps = Inr ()"
  shows "\<exists>b. evaluate_condition zones ct ps ctx t = Inr b"
proof (cases "ct = ''time_window''")
  case True
  have "''time_window'' \<notin> set ENUM_CONDITION_TYPES" by (simp add: ENUM_CONDITION_TYPES_def)
  with True assms have "validate_time_window_condition zones ps = Inr ()"
    by (auto simp: validate_condition_params_def split: if_splits)
  then show ?thesis using True by (auto elim!: window_validated simp: window_evaluated evaluate_condition_def)
next
  case False
  with assms show ?thesis
    using enum_validated [of ps] by (auto simp: evaluate_condition_def validate_condition_params_def split: if_splits)
qed

definition rule_ok :: "zones \<Rightarrow> policy_rule \<Rightarrow> bool" where
  "rule_ok zones r \<longleftrightarrow> 0 < pr_priority r \<and> pr_outcome r \<in> set OUTCOMES \<and>
     validate_condition_params zones (pr_condition_type r) (pr_condition_params r) = Inr ()"

text \<open>Every rule is sound, and priorities and names are unique in a policy.\<close>

definition rules_wf :: "zones \<Rightarrow> policy_rule table \<Rightarrow> bool" where
  "rules_wf zones t \<longleftrightarrow> twf t \<and> list_all (\<lambda>(_, r). rule_ok zones r) t \<and>
     distinct (map (\<lambda>(_, r). (pr_policy r, pr_priority r)) t) \<and> distinct (map (\<lambda>(_, r). (pr_policy r, pr_name r)) t)"

lemma rule_not_taken:
  "\<not> rule_taken P p skip d \<longleftrightarrow> (\<forall>i r. (i, r) \<in> set (policy_rules d) \<longrightarrow> pr_policy r = p \<longrightarrow> P r \<longrightarrow> Some i = skip)"
  by (auto simp: rule_taken_def tsel_def filter_empty_conv)

lemma rules_wf_tins:
  assumes "rules_wf zones (policy_rules d)" and "rule_ok zones r" and "i \<notin> tkeys (policy_rules d)"
    and "\<not> rule_taken (\<lambda>q. pr_priority q = pr_priority r) (pr_policy r) None d"
    and "\<not> rule_taken (\<lambda>q. pr_name q = pr_name r) (pr_policy r) None d"
  shows "rules_wf zones (tins i r (policy_rules d))"
  using assms by (auto simp: rules_wf_def rule_not_taken twf_tins) (auto simp: tins_def, metis+)

lemma distinct_tupd:
  assumes "twf t" and "distinct (map (\<lambda>(_, r). f r) t)" and "\<And>j q. (j, q) \<in> set t \<Longrightarrow> j \<noteq> i \<Longrightarrow> f q \<noteq> f r"
  shows "distinct (map (\<lambda>(_, r). f r) (tupd i (\<lambda>_. r) t))"
  using assms
proof (induction t)
  case (Cons a t)
  obtain j q where a: "a = (j, q)" by (cases a)
  show ?case
  proof (cases "j = i")
    case True
    have "tupd i (\<lambda>_. r) t = t"
      using Cons.prems(1) a True by (auto simp: twf_def tupd_def image_iff intro!: map_idI)
    moreover have "f q' \<noteq> f r" if "(j', q') \<in> set t" for j' q'
      using Cons.prems(1,3) a True that by (force simp: twf_def)
    ultimately show ?thesis using Cons.prems(2) a True by (fastforce simp: tupd_def)
  next
    case False
    have "f q' \<noteq> f q" if "(j', q') \<in> set t" for j' q'
      using Cons.prems(2) a that by force
    moreover have "f q \<noteq> f r" using Cons.prems(3) [of j q] a False by simp
    ultimately have "f q \<notin> (\<lambda>(_, r). f r) ` set (tupd i (\<lambda>_. r) t)"
      by (auto simp: set_tupd split: if_splits) metis+
    moreover have "distinct (map (\<lambda>(_, r). f r) (tupd i (\<lambda>_. r) t))"
      using Cons by (auto simp: twf_def)
    moreover have "tupd i (\<lambda>_. r) (a # t) = (j, q) # tupd i (\<lambda>_. r) t"
      using a False by (simp add: tupd_def)
    ultimately show ?thesis by simp
  qed
qed (simp add: tupd_def)

lemma rules_wf_tupd:
  assumes "rules_wf zones (policy_rules d)" and "rule_ok zones r" and s: "save_rule i r d = Inr d'"
  shows "rules_wf zones (policy_rules d')"
proof -
  from s have n: "\<not> rule_taken (\<lambda>q. pr_priority q = pr_priority r) (pr_policy r) (Some i) d"
      "\<not> rule_taken (\<lambda>q. pr_name q = pr_name r) (pr_policy r) (Some i) d"
    and d': "policy_rules d' = tupd i (\<lambda>_. r) (policy_rules d)"
    by (auto simp: save_rule_def split: if_splits)
  have "distinct (map (\<lambda>(_, r). (pr_policy r, pr_priority r)) (tupd i (\<lambda>_. r) (policy_rules d)))"
    using assms(1) n by (intro distinct_tupd) (auto simp: rules_wf_def rule_not_taken)
  moreover have "distinct (map (\<lambda>(_, r). (pr_policy r, pr_name r)) (tupd i (\<lambda>_. r) (policy_rules d)))"
    using assms(1) n by (intro distinct_tupd) (auto simp: rules_wf_def rule_not_taken)
  ultimately show ?thesis
    using assms(1,2) by (auto simp: rules_wf_def d' list_all_iff set_tupd table_simps split: if_splits) 
qed

lemma emit_rule_rules:
  "emit_policy_rule_audit now i r ev actor md d = Inr d' \<Longrightarrow> policy_rules d' = policy_rules d"
  by (auto simp: emit_policy_rule_audit_def split: option.splits dest!: audit_emit_Inr)

lemma create_rule_wf:
  assumes "create_rule zones now p name pri ct ps out de why act actor d = Inr (d', i)"
    and "rules_wf zones (policy_rules d)" and "next_id d \<notin> tkeys (policy_rules d)"
  shows "rules_wf zones (policy_rules d')"
proof -
  let ?r = "\<lparr>pr_policy = p, pr_name = name, pr_description = de, pr_is_active = act,
             pr_priority = pri, pr_condition_type = ct, pr_condition_params = ps,
             pr_outcome = out, pr_reason = why\<rparr>"
  from assms(1) have "\<not> rule_taken (\<lambda>q. pr_priority q = pri) p None d" "\<not> rule_taken (\<lambda>q. pr_name q = name) p None d"
    and "rule_ok zones ?r" and "policy_rules d' = tins (next_id d) ?r (policy_rules d)"
    by (auto simp: create_rule_def Let_def fresh_def res_bind_eq_Inr rule_ok_def validate_outcome_def
        split: if_splits dest!: emit_rule_rules)
  with assms(2,3) show ?thesis by (simp add: rules_wf_tins)
qed

lemma patch_keeps_rule_ok:
  assumes "rule_patch_checks zones i r u d = Inr ()" and "rule_ok zones r"
  shows "rule_ok zones (patched_policy_rule u r)"
  using assms
  by (auto simp: rule_patch_checks_def Let_def res_bind_eq_Inr rule_ok_def validate_outcome_def patched_policy_rule_def
      or_else_def split: if_splits option.splits)

lemma update_rule_wf:
  assumes "update_rule zones now i r u actor d = Inr d'" and "tget (policy_rules d) i = Some r"
    and "rules_wf zones (policy_rules d)"
  shows "rules_wf zones (policy_rules d')"
proof -
  from assms(1,2) obtain d1 where c: "rule_patch_checks zones i r u d = Inr ()"
    and s: "save_rule i (patched_policy_rule u r) d = Inr d1" and d': "policy_rules d' = policy_rules d1"
    by (auto simp: update_rule_def Let_def res_bind_eq_Inr dest!: emit_rule_rules)
  have "rule_ok zones r"
    using assms(2,3) by (auto simp: rules_wf_def list_all_iff dest!: tget_SomeD)
  with rules_wf_tupd [OF assms(3) patch_keeps_rule_ok [OF c] s] d' show ?thesis by simp
qed

text \<open>The editing of policies: the row to update is the one just read.\<close>

inductive policy_edit :: "zones \<Rightarrow> db \<Rightarrow> db \<Rightarrow> bool" for zones where
  policy_new: "create_policy now org name de act by actor d = Inr (d', i) \<Longrightarrow> policy_edit zones d d'"
| policy_changed: "update_policy now i seen u actor d = Inr d' \<Longrightarrow> policy_edit zones d d'"
| rule_new: "create_rule zones now p name pri ct ps out de why act actor d = Inr (d', i) \<Longrightarrow>
    next_id d \<notin> tkeys (policy_rules d) \<Longrightarrow> policy_edit zones d d'"
| rule_changed: "tget (policy_rules d) i = Some r \<Longrightarrow> update_rule zones now i r v actor d = Inr d' \<Longrightarrow>
    policy_edit zones d d'"
| rule_off: "tget (policy_rules d) i = Some r \<Longrightarrow> deactivate_rule zones now i r actor d = Inr d' \<Longrightarrow>
    policy_edit zones d d'"

lemma policy_edit_wf:
  assumes "policy_edit zones d d'" and "rules_wf zones (policy_rules d)"
  shows "rules_wf zones (policy_rules d')"
  using assms
proof induction
  case policy_new
  then show ?case by (auto simp: create_policy_def emit_policy_audit_def fresh_def Let_def res_bind_eq_Inr
      split: if_splits dest!: audit_emit_Inr)
next
  case policy_changed
  then show ?case by (auto simp: update_policy_def emit_policy_audit_def Let_def split: if_splits option.splits
      dest!: audit_emit_Inr)
qed (auto simp: deactivate_rule_def intro: create_rule_wf update_rule_wf)

lemma judge_rules_ok:
  assumes "\<forall>(k, j, r) \<in> set rs. rule_ok zones r"
  shows "\<exists>v. judge_rules zones ctx now rs = Inr v \<and> (\<forall>why code msg. v \<noteq> Broken why code msg)"
  using assms
proof (induction rs)
  case (Cons m rs)
  obtain k j r where m: "m = (k, j, r)" by (cases m)
  with Cons.prems have v: "validate_condition_params zones (pr_condition_type r) (pr_condition_params r) = Inr ()"
    by (auto simp: rule_ok_def)
  from validated_evaluates [OF v] obtain b where
    "evaluate_condition zones (pr_condition_type r) (pr_condition_params r) ctx now = Inr b" by blast
  with v m Cons show ?case by (cases b) auto
qed simp



section \<open>A window that never opens\<close>

lemma hour_head:
  assumes "n < 24"
  shows "\<exists>c cs. replicate (2 - length (nat_str n)) (CHR ''0'') @ nat_str n = c # cs \<and>
    c \<in> {CHR ''0'', CHR ''1'', CHR ''2''}"
proof (cases "n < 10")
  case True
  then have "nat_str n = [digit_char n]" by (subst nat_str.simps) simp
  then show ?thesis by simp
next
  case False
  then have "nat_str n = [digit_char (n div 10), digit_char (n mod 10)]"
    using assms by (subst nat_str.simps, subst nat_str.simps) auto
  moreover have "n div 10 = 1 \<or> n div 10 = 2" using assms False by presburger
  moreover have "digit_char 1 = CHR ''1''" "digit_char 2 = CHR ''2''" by code_simp+
  ultimately show ?thesis by fastforce
qed

lemma hhmm_head: "\<exists>c cs. hhmm t = c # cs \<and> c \<in> {CHR ''0'', CHR ''1'', CHR ''2''}"
proof -
  have "second_of_day t < 86400" by (simp add: second_of_day_def)
  then have "second_of_day t div 3600 < 24" using zdiv_mono1 [of "second_of_day t" 86399 3600] by simp
  then have "nat (second_of_day t div 3600) < 24" by simp
  from hour_head [OF this] obtain c cs where "pad_to 2 (second_of_day t div 3600) = c # cs"
    and "c \<in> {CHR ''0'', CHR ''1'', CHR ''2''}" unfolding pad_to_def Let_def by blast
  then show ?thesis by (simp add: hhmm_def Let_def)
qed

definition unpadded_window :: json where
  "unpadded_window = JObj [(''timezone'', JStr ''UTC''), (''days_of_week'', JArr (map JStr day_names)),
     (''start_time'', JStr ''8:00''), (''end_time'', JStr ''9:30''), (''match_when'', JStr ''inside'')]"

lemma unpadded_valid:
  assumes "zones ''UTC'' = Zone f"
  shows "validate_condition_params zones ''time_window'' unpadded_window = Inr ()"
proof -
  have d: "check_days (JArr (map JStr day_names)) = Inr ()" by code_simp
  have h: "check_hhmm (JStr ''8:00'') = Inr ''8:00''" "check_hhmm (JStr ''9:30'') = Inr ''9:30''" by code_simp+
  have l: "\<not> ''9:30'' \<le> ''8:00''" by code_simp
  show ?thesis
    using assms by (simp add: validate_condition_params_def CONDITION_TYPES_def ENUM_CONDITION_TYPES_def
      validate_time_window_condition_def unpadded_window_def fget_def zone_info_def d h l)
qed

text \<open>
  A window given without leading zeros, as 8:00 to 9:30, is accepted but never contains any
  time, since times are compared as text: a rule for inside it never matches.
\<close>

theorem unpadded_window_never_opens:
  assumes "zones ''UTC'' = Zone f"
  shows "validate_condition_params zones ''time_window'' unpadded_window = Inr () \<and>
    (\<forall>context t. evaluate_condition zones ''time_window'' unpadded_window context t = Inr False)"
proof -
  have no: "\<not> ''8:00'' \<le> hhmm (f t)" for t
    using hhmm_head [of "f t"] by (auto simp: less_char_def)
  have "evaluate_time_window_condition zones unpadded_window t = Inr False" for t
    using no [of t] assms unfolding unpadded_window_def
    by (subst window_evaluated [OF refl, where f = f and tz = "JStr ''UTC''" and days = "map JStr day_names"
        and start = "''8:00''" and stop = "''9:30''" and mode = "JStr ''inside''"]) (simp_all add: zone_info_def)
  then show ?thesis using unpadded_valid [of zones f] assms by (simp add: evaluate_condition_def)
qed

theorem unpadded_window_never_opens_witness:
  "evaluate_condition (\<lambda>_. Zone (\<lambda>t. t)) ''time_window'' unpadded_window [] (secs 30600) = Inr False \<and>
   hhmm (secs 30600) = ''08:30''"
proof
  show "evaluate_condition (\<lambda>_. Zone (\<lambda>t. t)) ''time_window'' unpadded_window [] (secs 30600) = Inr False"
    using unpadded_window_never_opens [of "\<lambda>_. Zone (\<lambda>t. t)" "\<lambda>t. t"] by simp
  show "hhmm (secs 30600) = ''08:30''" by code_simp
qed

section \<open>A concrete evaluation\<close>

definition sample_policy_rule :: policy_rule where
  "sample_policy_rule = \<lparr>pr_policy = 60, pr_name = ''r'', pr_description = [], pr_is_active = True,
     pr_priority = 10, pr_condition_type = ''risk_level'',
     pr_condition_params = JObj [(''operator'', JStr ''equals''), (''value'', JStr ''high'')],
     pr_outcome = ''auto_approve'', pr_reason = []\<rparr>"

definition policy_db :: db where
  "policy_db = empty_db\<lparr>next_id := 70,
     policies := [(60, \<lparr>po_org = 1, po_name = ''p'', po_description = [], po_is_active = True,
       po_created_by = [], po_updated_by = [], po_created_at = 1\<rparr>)],
     policy_rules := [(61, sample_policy_rule)]\<rparr>"

definition risky_step :: exec_step where
  "risky_step = (sample_step StPending)\<lparr>st_risk := ''high'', st_requires_approval := True\<rparr>"

lemma evaluation_keys: "\<not> sensitive ''execution_id''" "\<not> sensitive ''step_id''" "\<not> sensitive ''policy_id''"
  "\<not> sensitive ''rule_id''" "\<not> sensitive ''matched''" "\<not> sensitive ''outcome''" "\<not> sensitive ''effective_outcome''"
  "\<not> sensitive ''decision_source''" "\<not> sensitive ''reason''" "\<not> sensitive ''error_code''" "\<not> sensitive ''error_message''"
  by (simp_all add: sensitive_def lower_def lower_char_def code_point_def REJECTED_METADATA_KEYS_def
      FORBIDDEN_METADATA_KEYS_def)

lemma judged_sample:
  "\<exists>ctx. build_evaluation_context 40 (sample_execution ExClaimed) 45 risky_step 9 = Inr ctx \<and>
     judge_rules (\<lambda>_. ZoneNotFound) ctx 9 (active_rules (ex_org (sample_execution ExClaimed)) policy_db) =
       Inr (Matched (60, 61, sample_policy_rule))"
proof -
  let ?c = "build_evaluation_context 40 (sample_execution ExClaimed) 45 risky_step 9"
  have "\<not> isl ?c" and j: "(case ?c of Inl _ \<Rightarrow> False | Inr ctx \<Rightarrow>
     judge_rules (\<lambda>_. ZoneNotFound) ctx 9 (active_rules (ex_org (sample_execution ExClaimed)) policy_db) =
       Inr (Matched (60, 61, sample_policy_rule)))" by code_simp+
  then show ?thesis by (cases ?c) auto
qed

lemma evaluation_recorded:
  assumes "binding_of_exec d (pe_exec p) = None" and "2 * weight_fields (evaluation_facts p) + 4 \<le> MAX_METADATA_BYTES"
  obtains ev where "create_policy_evaluation_with_audit now p d =
    Inr (d\<lparr>next_id := Suc (next_id d), policy_evals := tins (next_id d) p (policy_evals d),
      audit_log := audit_log d @ [ev]\<rparr>, next_id d, p)"
proof -
  let ?d = "d\<lparr>next_id := Suc (next_id d), policy_evals := tins (next_id d) p (policy_evals d)\<rparr>"
  have "\<exists>ev. audit_emit now (pe_org p) (system_actor ''Django system'') ''policy.evaluated'' ''policy_evaluation''
     (next_id d) (evaluation_facts p) ?d = Inr (?d\<lparr>audit_log := audit_log ?d @ [ev]\<rparr>)"
    by (rule audit_emit_succeeds [OF _ _ _ assms(2)])
      (simp_all add: sample_event_simps evaluation_facts_def evaluation_keys)
  moreover have "binding_of_exec ?d (pe_exec p) = None" using assms(1) by (simp add: binding_of_exec_def)
  ultimately show thesis
    by (auto simp: create_policy_evaluation_with_audit_def fresh_def link_policy_evaluation_def intro: that)
qed


end
