(* ===== verification/Runner_Views.thy ===== *)
theory Runner_Views
  imports Approvals Scheduling Policy_Evaluation
begin

text \<open>
  \<open>apps/executions/internal_views.py\<close>: what a runner may ask the control plane. A view answers
  with an action for the runner or a refusal (HTTP status and code); an error of a service is answered by
  the exception handler and is the left value here. The body of a \<open>transaction.atomic()\<close> that returns
  early commits. The fields of a request are those its serializer has accepted; the bodies of the
  answers carry more of the rows than is kept here.
\<close>

section \<open>Who is asking\<close>

record runner_request =
  rq_auth :: string
  rq_header :: string
  rq_runner :: string
  rq_token :: string

text \<open>\<open>rq_auth\<close> is the runner of the bearer token, empty for a legacy token.\<close>

datatype runner_action =
    Run
  | WaitForApproval nat
  | Blocked "nat option"
  | KeepWaiting
  | FailStep
  | Idle int
  | DrainNow
  | Execute nat nat
  | Done
  | Refused nat string

definition runner_identity_guard :: "runner_request \<Rightarrow> runner_action option" where
  "runner_identity_guard rq =
    (if rq_auth rq \<noteq> [] \<and> (rq_runner rq \<noteq> [] \<and> rq_runner rq \<noteq> rq_auth rq \<or>
         rq_header rq \<noteq> [] \<and> rq_header rq \<noteq> rq_auth rq)
     then Some (Refused 403 ''runner_identity_mismatch'') else None)"

definition effective_runner_id :: "runner_request \<Rightarrow> string" where
  "effective_runner_id rq = (if rq_auth rq \<noteq> [] then rq_auth rq else rq_runner rq)"

text \<open>\<open>identified rq d f\<close>: the guard of every view.\<close>

definition identified :: "runner_request \<Rightarrow> db \<Rightarrow> (string \<Rightarrow> runner_action outcome) \<Rightarrow> runner_action outcome" where
  "identified rq d f =
    (case runner_identity_guard rq of
       Some no \<Rightarrow> (d, Inr no)
     | None \<Rightarrow> f (effective_runner_id rq))"

section \<open>Guards on a change-bound execution\<close>

definition assert_change_bound_execution_ready ::
    "timestamp \<Rightarrow> nat \<Rightarrow> string \<Rightarrow> string \<Rightarrow> db \<Rightarrow> runner_action option outcome" where
  "assert_change_bound_execution_ready now e runner_id claim_token d =
    (case assert_execution_change_binding_ready now e runner_id (Some claim_token) d of
       (d, Inl (Domain InvalidStateTransitionError code)) \<Rightarrow> (d, Inr (Some (Refused 403 code)))
     | (d, Inl er) \<Rightarrow> (d, Inl er)
     | (d, Inr _) \<Rightarrow> (d, Inr None))"

definition get_change_for_execution :: "db \<Rightarrow> nat \<Rightarrow> nat option" where
  "get_change_for_execution d e =
    (case binding_of_exec d e of
       None \<Rightarrow> None
     | Some (_, b) \<Rightarrow> if tget (changes d) (bd_change b) = None then None else Some (bd_change b))"

definition change_has_active_breakglass :: "db \<Rightarrow> nat option \<Rightarrow> bool" where
  "change_has_active_breakglass d change =
    (case change of
       None \<Rightarrow> False
     | Some k \<Rightarrow> tsel (\<lambda>_ s. bg_change s = k \<and> bg_status s = BgActive) (breakglasses d) \<noteq> [])"

text \<open>The answer is whether the gate is open, or a refusal.\<close>

definition breakglass_execution_gate_decision ::
    "timestamp \<Rightarrow> nat \<Rightarrow> string \<Rightarrow> string \<Rightarrow> db \<Rightarrow> (bool \<times> runner_action option) outcome" where
  "breakglass_execution_gate_decision now e gate_type action d =
    (case get_change_for_execution d e of
       None \<Rightarrow> (d, Inr (False, None))
     | Some k \<Rightarrow>
      (case assert_breakglass_allows now k gate_type action (map (id_str \<circ> fst) (targets_of d k)) d of
         (d, Inl (Domain DomainValidationError code)) \<Rightarrow>
           (d, Inr (False, if code = ''no_active_breakglass_session'' then None else Some (Refused 403 code)))
       | (d, Inl er) \<Rightarrow> (d, Inl er)
       | (d, Inr _) \<Rightarrow> (d, Inr (True, None))))"

section \<open>Claims, heartbeats and reports\<close>

text \<open>The row of the authenticated runner; an unknown one, or a failure to load it, gives none.\<close>

definition resolve_runner :: "runner_request \<Rightarrow> db \<Rightarrow> (nat \<times> runner) option" where
  "resolve_runner rq d = first_of (tsel (\<lambda>i _. id_str i = rq_auth rq) (runners d))"

definition claim_next_view ::
    "wf_env \<Rightarrow> timestamp \<Rightarrow> (nat \<Rightarrow> string) \<Rightarrow> runner_request \<Rightarrow> db \<Rightarrow> runner_action outcome" where
  "claim_next_view env now nonces rq d =
    identified rq d (\<lambda>runner_id.
      let (d, _) = promote_due_scheduled_changes env now nonces d in
      case claim_next_execution now runner_id (resolve_runner rq d) d of
        (d, Inl er) \<Rightarrow> (d, Inl er)
      | (d, Inr Nothing) \<Rightarrow> (d, Inr (Idle 5))
      | (d, Inr Drain) \<Rightarrow> (d, Inr DrainNow)
      | (d, Inr (Claimed e tok)) \<Rightarrow> (d, Inr (Execute e tok)))"

definition heartbeat_view :: "timestamp \<Rightarrow> nat \<Rightarrow> runner_request \<Rightarrow> db \<Rightarrow> runner_action outcome" where
  "heartbeat_view now e rq d =
    (if tget (executions d) e = None then (d, Inr (Refused 404 ''not_found''))
     else identified rq d (\<lambda>runner_id.
       then_do (heartbeat_execution now e runner_id (rq_token rq) d) (\<lambda>d _. (d, Inr Done))))"

text \<open>\<open>bound_ready now e rq d f\<close>: the guards of the views that act on an execution.\<close>

definition bound_ready ::
    "timestamp \<Rightarrow> nat \<Rightarrow> runner_request \<Rightarrow> db \<Rightarrow> (db \<Rightarrow> execution \<Rightarrow> string \<Rightarrow> runner_action outcome)
      \<Rightarrow> runner_action outcome" where
  "bound_ready now e rq d f =
    (case tget (executions d) e of
       None \<Rightarrow> (d, Inr (Refused 404 ''not_found''))
     | Some x \<Rightarrow> identified rq d (\<lambda>runner_id.
         then_do (assert_change_bound_execution_ready now e runner_id (rq_token rq) d) (\<lambda>d no.
           case no of Some no \<Rightarrow> (d, Inr no) | None \<Rightarrow> f d x runner_id)))"

definition step_update_view ::
    "timestamp \<Rightarrow> nat \<Rightarrow> nat \<Rightarrow> runner_request \<Rightarrow> step_status \<Rightarrow> step_report \<Rightarrow> db \<Rightarrow> runner_action outcome" where
  "step_update_view now e i rq status report d =
    bound_ready now e rq d (\<lambda>d x runner_id.
      case update_execution_step now e i runner_id (rq_token rq) status report False d of
        Inl er \<Rightarrow> (d, Inl er) | Inr d \<Rightarrow> (d, Inr Done))"

definition complete_view ::
    "timestamp \<Rightarrow> nat \<Rightarrow> runner_request \<Rightarrow> exec_status \<Rightarrow> db \<Rightarrow> runner_action outcome" where
  "complete_view now e rq final_status d =
    bound_ready now e rq d (\<lambda>d x runner_id.
      then_do (complete_execution now e runner_id (rq_token rq) final_status d) (\<lambda>d _. (d, Inr Done)))"

section \<open>Starting a step\<close>

definition step_request :: "db \<Rightarrow> nat \<Rightarrow> (nat \<times> approval_request) option" where
  "step_request d i = first_of (tsel (\<lambda>_ r. ar_step r = Some i) (approval_reqs d))"

definition run_step :: "timestamp \<Rightarrow> nat \<Rightarrow> nat \<Rightarrow> string \<Rightarrow> string \<Rightarrow> db \<Rightarrow> (db \<times> runner_action) result" where
  "run_step now e i runner_id claim_token d =
    res_bind (update_execution_step now e i runner_id claim_token StRunning empty_report True d) (\<lambda>d.
    Inr (d, Run))"

definition fail_step ::
    "timestamp \<Rightarrow> nat \<Rightarrow> nat \<Rightarrow> string \<Rightarrow> string \<Rightarrow> string \<Rightarrow> string \<Rightarrow> runner_action \<Rightarrow> db \<Rightarrow> (db \<times> runner_action) result" where
  "fail_step now e i runner_id claim_token message kind reply d =
    res_bind (update_execution_step now e i runner_id claim_token StFailed
      (empty_report\<lparr>sr_error := message, sr_failure_kind := kind\<rparr>) False d) (\<lambda>d. Inr (d, reply))"

text \<open>An active breakglass session is asked first; it may refuse, or let the step run.\<close>

definition unless_breakglass ::
    "timestamp \<Rightarrow> nat \<Rightarrow> nat \<Rightarrow> string \<Rightarrow> string \<Rightarrow> (db \<Rightarrow> (db \<times> runner_action) result) \<Rightarrow> db
      \<Rightarrow> (db \<times> runner_action) result" where
  "unless_breakglass now e i runner_id claim_token otherwise d =
    (if \<not> change_has_active_breakglass d (get_change_for_execution d e) then otherwise d
     else case breakglass_execution_gate_decision now e ''policy_override'' ''continue_running'' d of
       (_, Inl er) \<Rightarrow> Inl er
     | (d, Inr (_, Some no)) \<Rightarrow> Inr (d, no)
     | (d, Inr (True, None)) \<Rightarrow> run_step now e i runner_id claim_token d
     | (d, Inr (False, None)) \<Rightarrow> otherwise d)"

definition start_step_tx ::
    "zones \<Rightarrow> timestamp \<Rightarrow> nat \<Rightarrow> execution \<Rightarrow> nat \<Rightarrow> exec_step \<Rightarrow> string \<Rightarrow> string \<Rightarrow> db
      \<Rightarrow> (db \<times> runner_action) result" where
  "start_step_tx zones now e x i s runner_id claim_token d =
    (case evaluate_step_policy zones now e x i s d of
       Inl er \<Rightarrow>
        (case persist_policy_evaluation_error now e x i s ''policy_evaluation_error'' (err_text er) None d of
           Inl _ \<Rightarrow> fail_step now e i runner_id claim_token ''policy_evaluation_error'' [] (Blocked None) d
         | Inr (d, j, _) \<Rightarrow>
             fail_step now e i runner_id claim_token ''policy_evaluation_error'' [] (Blocked (Some j)) d)
     | Inr (d, j, p) \<Rightarrow>
        if pe_error_code p \<noteq> []
          then fail_step now e i runner_id claim_token ''policy_evaluation_error'' [] (Blocked (Some j)) d
        else if pe_effective p = ''approval_required'' then
          unless_breakglass now e i runner_id claim_token (\<lambda>d.
            res_bind (request_step_approval now e i runner_id claim_token True (Some j) d) (\<lambda>(d, a, _).
            Inr (d, WaitForApproval a))) d
        else if pe_effective p = ''block'' then
          unless_breakglass now e i runner_id claim_token
            (fail_step now e i runner_id claim_token ''policy_blocked'' ''policy_blocked'' (Blocked (Some j))) d
        else run_step now e i runner_id claim_token d)"

text \<open>The row of a step of this execution.\<close>

definition step_of :: "db \<Rightarrow> nat \<Rightarrow> nat \<Rightarrow> exec_step option" where
  "step_of d e i =
    (case tget (exec_steps d) i of
       None \<Rightarrow> None
     | Some s \<Rightarrow> if st_exec s = e then Some s else None)"

definition step_start_view ::
    "wf_env \<Rightarrow> zones \<Rightarrow> timestamp \<Rightarrow> nat \<Rightarrow> nat \<Rightarrow> runner_request \<Rightarrow> db \<Rightarrow> runner_action outcome" where
  "step_start_view env zones now e i rq d =
    bound_ready now e rq d (\<lambda>d x runner_id.
      case step_of d e i of
        None \<Rightarrow> (d, Inr (Refused 404 ''not_found''))
      | Some s \<Rightarrow>
         (case (if st_status s = StWaiting then step_request d i else None) of
            Some (a, _) \<Rightarrow>
             (case get_approval_status env now a d of
                Inl er \<Rightarrow> (d, Inl er) | Inr d \<Rightarrow> (d, Inr (WaitForApproval a)))
          | None \<Rightarrow>
             (case start_step_tx zones now e x i s runner_id (rq_token rq) d of
                Inl er \<Rightarrow> (d, Inl er) | Inr (d, reply) \<Rightarrow> (d, Inr reply))))"

section \<open>Polling an approval\<close>

definition approval_poll_tx ::
    "wf_env \<Rightarrow> timestamp \<Rightarrow> nat \<Rightarrow> nat \<Rightarrow> nat \<Rightarrow> string \<Rightarrow> string \<Rightarrow> db \<Rightarrow> (db \<times> runner_action) result" where
  "approval_poll_tx env now e i a runner_id claim_token d =
    res_bind (get_approval_status env now a d) (\<lambda>d.
    case tget (approval_reqs d) a of
      None \<Rightarrow> Inl (NotFound ''approval_request'')
    | Some r \<Rightarrow>
       (case ar_status r of
          ArPending \<Rightarrow> Inr (d, KeepWaiting)
        | ArApproved \<Rightarrow>
            if \<not> change_has_active_breakglass d (get_change_for_execution d e)
              then run_step now e i runner_id claim_token d
            else (case breakglass_execution_gate_decision now e ''policy_override'' ''continue_running'' d of
                (_, Inl er) \<Rightarrow> Inl er
              | (d, Inr (_, Some no)) \<Rightarrow> Inr (d, no)
              | (d, Inr (_, None)) \<Rightarrow> run_step now e i runner_id claim_token d)
        | st \<Rightarrow> fail_step now e i runner_id claim_token
            (if st = ArRejected then ''Approval rejected.'' else ''Approval timed out.'') [] FailStep d))"

definition approval_status_view ::
    "wf_env \<Rightarrow> timestamp \<Rightarrow> nat \<Rightarrow> nat \<Rightarrow> runner_request \<Rightarrow> db \<Rightarrow> runner_action outcome" where
  "approval_status_view env now e i rq d =
    bound_ready now e rq d (\<lambda>d x runner_id.
      case validate_runner_ownership x runner_id (rq_token rq) of
        Inl er \<Rightarrow> (d, Inl er)
      | Inr _ \<Rightarrow>
       (case step_of d e i of
          None \<Rightarrow> (d, Inr (Refused 404 ''not_found''))
        | Some s \<Rightarrow>
           if st_status s = StRunning then (d, Inr Run)
           else if st_status s = StFailed then (d, Inr FailStep)
           else if st_status s \<noteq> StWaiting then (d, Inr (Refused 409 ''invalid_state_transition''))
           else (case step_request d i of
               None \<Rightarrow> (d, Inr (Refused 404 ''approval_request_not_found''))
             | Some (a, _) \<Rightarrow>
                (case approval_poll_tx env now e i a runner_id (rq_token rq) d of
                   Inl er \<Rightarrow> (d, Inl er) | Inr (d, reply) \<Rightarrow> (d, Inr reply)))))"

section \<open>What the views change\<close>

text \<open>The tables a permission to run is read from.\<close>

definition permit_part where
  "permit_part d = (policy_evals d, approval_reqs d, breakglasses d, bindings d, change_targets d, policy_rules d)"

lemma identified_cases:
  assumes "identified rq d f = (d', r)"
  obtains "d' = d" "\<exists>c. r = Inr (Refused 403 c)" | "f (effective_runner_id rq) = (d', r)"
  using assms by (auto simp: identified_def runner_identity_guard_def split: if_splits)

lemma bound_guard_progress:
  assumes "assert_change_bound_execution_ready now e rid tok d = (d', r)"
  shows "change_progress d d'"
proof -
  obtain d1 q where q: "assert_execution_change_binding_ready now e rid (Some tok) d = (d1, q)" by fastforce
  with assms have "d' = d1"
    by (auto simp: assert_change_bound_execution_ready_def split: sum.splits err.splits err_kind.splits)
  with assert_binding_ready_progress [OF q] show ?thesis by simp
qed

lemma bound_ready_cases:
  assumes "bound_ready now e rq d f = (d', r)"
  obtains "change_progress d d'"
  | d1 x where "change_progress d d1" "tget (executions d) e = Some x" "f d1 x (effective_runner_id rq) = (d', r)"
proof -
  show thesis
  proof (cases "tget (executions d) e")
    case None
    with assms show ?thesis by (auto simp: bound_ready_def intro: that progress.refl)
  next
    case (Some x)
    with assms have "identified rq d (\<lambda>runner_id.
         then_do (assert_change_bound_execution_ready now e runner_id (rq_token rq) d) (\<lambda>d no.
           case no of Some no \<Rightarrow> (d, Inr no) | None \<Rightarrow> f d x runner_id)) = (d', r)" by (simp add: bound_ready_def)
    then show ?thesis
    proof (cases rule: identified_cases)
      case 2
      then show ?thesis
        by (auto simp: then_do_eq split: option.splits intro: that Some dest: bound_guard_progress)
    qed (auto intro: that progress.refl)
  qed
qed

lemma bound_ready_world:
  assumes "bound_ready now e rq d f = (d', r)"
    and "\<And>d1 x rid. f d1 x rid = (d', r) \<Longrightarrow> world_grows d1 d'"
  shows "world_grows d d'"
  using assms(1) by (rule bound_ready_cases) (blast intro: progress_world world.trans assms(2))+

lemma gate_decision_cases:
  assumes "breakglass_execution_gate_decision now e gt ac d = (d', Inr (b, no))"
  obtains "gate_frame d d'" and "no \<noteq> Some Run" and "\<not> b \<or> (\<exists>k w s. get_change_for_execution d e = Some k \<and>
    (w, s) \<in> set (breakglasses d') \<and> bg_change s = k \<and> session_live now s \<and>
    scope_allows (bg_scope s) gt ac (map (id_str \<circ> fst) (targets_of d k)) = Inr ())"
proof (cases "get_change_for_execution d e")
  case None
  with assms show ?thesis
    by (intro that) (auto simp: breakglass_execution_gate_decision_def intro: gframe.refl)
next
  case (Some k)
  obtain d1 q where q: "assert_breakglass_allows now k gt ac (map (id_str \<circ> fst) (targets_of d k)) d = (d1, q)" by fastforce
  with assms Some have d1: "d' = d1" and r: "no \<noteq> Some Run" "b \<Longrightarrow> \<exists>w. q = Inr w"
    by (auto simp: breakglass_execution_gate_decision_def split: sum.splits err.splits err_kind.splits if_splits)
  show ?thesis
  proof (rule that)
    show "gate_frame d d'" using assert_breakglass_frame [OF q] d1 by simp
    show "no \<noteq> Some Run" by (rule r)
    show "\<not> b \<or> (\<exists>k w s. get_change_for_execution d e = Some k \<and> (w, s) \<in> set (breakglasses d') \<and>
      bg_change s = k \<and> session_live now s \<and>
      scope_allows (bg_scope s) gt ac (map (id_str \<circ> fst) (targets_of d k)) = Inr ())"
    proof (cases b)
      case True
      with r q obtain w where w: "assert_breakglass_allows now k gt ac (map (id_str \<circ> fst) (targets_of d k)) d = (d1, Inr w)" by auto
      then obtain d2 where e: "expire_breakglass_sessions now (Some k) d = (d2, Inr ())"
        and c: "(case tsel (\<lambda>_ s. bg_change s = k \<and> bg_status s = BgActive) (breakglasses d2) of
        [] \<Rightarrow> (d2, Inl (Domain DomainValidationError ''no_active_breakglass_session''))
      | [(i, s)] \<Rightarrow> (d2, res_bind (scope_allows (bg_scope s) gt ac (map (id_str \<circ> fst) (targets_of d k))) (\<lambda>_. Inr i))
      | _ \<Rightarrow> (d2, Inl (PyError ''MultipleObjectsReturned''))) = (d1, Inr w)"
        by (auto simp: assert_breakglass_allows_def then_do_eq)
      from c obtain s where one: "tsel (\<lambda>_ s. bg_change s = k \<and> bg_status s = BgActive) (breakglasses d2) = [(w, s)]"
        and sc: "scope_allows (bg_scope s) gt ac (map (id_str \<circ> fst) (targets_of d k)) = Inr ()" and d2: "d1 = d2"
        by (auto split: list.splits simp: res_bind_eq_Inr)
      have s: "(w, s) \<in> set (breakglasses d2)" "bg_change s = k" "bg_status s = BgActive"
        using one tsel_mem [of w s "\<lambda>_ s. bg_change s = k \<and> bg_status s = BgActive" "breakglasses d2"] by auto
      with expire_sweep_live [OF e] have "session_live now s" by (simp add: session_live_def)
      with s sc d2 d1 Some show ?thesis by blast
    qed simp
  qed
qed

lemma update_step_row:
  assumes "update_execution_step now e i rid tok new r allow d = Inr d'"
  shows "permit_part d' = permit_part d" and "changes d' = changes d"
    and "\<exists>s s'. tget (exec_steps d) i = Some s \<and> tget (exec_steps d') i = Some s' \<and> st_status s' = new \<and>
      new \<in> set (if allow then VALID_STEP_START_TRANSITIONS (st_status s) else VALID_STEP_TRANSITIONS (st_status s))"
proof -
  from assms show "permit_part d' = permit_part d" "changes d' = changes d"
    unfolding update_execution_step_def Let_def emit_step_transition_audit_def
    by (auto simp: res_bind_eq_Inr permit_part_def send_all_def upd_exec_def upd_step_def
      split: option.splits if_splits dest!: audit_emit_Inr)
  show "\<exists>s s'. tget (exec_steps d) i = Some s \<and> tget (exec_steps d') i = Some s' \<and> st_status s' = new \<and>
      new \<in> set (if allow then VALID_STEP_START_TRANSITIONS (st_status s) else VALID_STEP_TRANSITIONS (st_status s))"
    using assms by (rule update_execution_step_Inr) (auto simp: table_simps)
qed

definition session_permits :: "timestamp \<Rightarrow> nat \<Rightarrow> db \<Rightarrow> bool" where
  "session_permits now e d \<longleftrightarrow> (\<exists>k w s. get_change_for_execution d e = Some k \<and> (w, s) \<in> set (breakglasses d) \<and>
     bg_change s = k \<and> session_live now s \<and>
     scope_allows (bg_scope s) ''policy_override'' ''continue_running'' (map (id_str \<circ> fst) (targets_of d k)) = Inr ())"

lemma session_permits_same:
  "permit_part d' = permit_part d \<Longrightarrow> changes d' = changes d \<Longrightarrow> session_permits now e d' = session_permits now e d"
proof -
  assume e: "permit_part d' = permit_part d" "changes d' = changes d"
  then have "get_change_for_execution d' e = get_change_for_execution d e"
    by (auto simp: permit_part_def get_change_for_execution_def binding_of_exec_def split: option.split)
  with e show ?thesis by (simp add: session_permits_def permit_part_def targets_of_def)
qed

text \<open>\<open>begins_running i d d'\<close>: the step \<open>i\<close> was not running and now is.\<close>

definition begins_running :: "nat \<Rightarrow> db \<Rightarrow> db \<Rightarrow> bool" where
  "begins_running i d d' \<longleftrightarrow> map_option st_status (tget (exec_steps d) i) \<noteq> Some StRunning \<and>
     map_option st_status (tget (exec_steps d') i) = Some StRunning"

lemma starts_same: "exec_steps d1 = exec_steps d \<Longrightarrow> begins_running i d1 d' = begins_running i d d'"
  by (simp add: begins_running_def)

lemma no_start: "exec_steps d' = exec_steps d \<Longrightarrow> \<not> begins_running i d d'"
  by (auto simp: begins_running_def)

lemma gate_frame_steps:
  "gate_frame d d' \<Longrightarrow> exec_steps d' = exec_steps d \<and> policy_evals d' = policy_evals d \<and> approval_reqs d' = approval_reqs d \<and>
     policy_rules d' = policy_rules d \<and> bindings d' = bindings d \<and> change_targets d' = change_targets d \<and> changes d' = changes d"
  by (simp add: gate_frame_def gate_tables_def control_part_def)

lemma progress_steps:
  "change_progress d d' \<Longrightarrow> exec_steps d' = exec_steps d \<and> policy_evals d' = policy_evals d \<and> approval_reqs d' = approval_reqs d \<and>
     policy_rules d' = policy_rules d \<and> executions d' = executions d"
  by (simp add: change_progress_def control_part_def)

lemma run_step_Inr:
  "run_step now e i rid tok d = Inr (d', r) \<Longrightarrow> r = Run \<and> permit_part d' = permit_part d \<and> changes d' = changes d"
  by (auto simp: run_step_def res_bind_eq_Inr dest: update_step_row(1,2))

lemma fail_step_Inr:
  "fail_step now e i rid tok msg kind reply d = Inr (d', r) \<Longrightarrow> r = reply \<and> \<not> begins_running i d0 d'"
  by (auto simp: fail_step_def res_bind_eq_Inr begins_running_def dest!: update_step_row(3))

lemma unless_breakglass_cases:
  assumes "unless_breakglass now e i rid tok otherwise d = Inr (d', r)"
  obtains (otherwise) d1 where "gate_frame d d1" "otherwise d1 = Inr (d', r)"
  | (refused) "gate_frame d d'" "r \<noteq> Run"
  | (session) d1 where "gate_frame d d1" "session_permits now e d1" "run_step now e i rid tok d1 = Inr (d', r)"
proof (cases "change_has_active_breakglass d (get_change_for_execution d e)")
  case False
  with assms show ?thesis by (auto simp: unless_breakglass_def intro: otherwise gframe.refl)
next
  case True
  obtain d1 q where q: "breakglass_execution_gate_decision now e ''policy_override'' ''continue_running'' d = (d1, q)" by fastforce
  with True assms obtain b no where bn: "q = Inr (b, no)"
    and c: "(case no of Some no \<Rightarrow> Inr (d1, no) | None \<Rightarrow> if b then run_step now e i rid tok d1 else otherwise d1) = Inr (d', r)"
    by (auto simp: unless_breakglass_def split: sum.splits option.splits bool.splits if_splits)
  from q bn have "breakglass_execution_gate_decision now e ''policy_override'' ''continue_running'' d = (d1, Inr (b, no))" by simp
  then show ?thesis
  proof (rule gate_decision_cases)
    assume f: "gate_frame d d1" and n: "no \<noteq> Some Run" and s: "\<not> b \<or> (\<exists>k w s. get_change_for_execution d e = Some k \<and>
      (w, s) \<in> set (breakglasses d1) \<and> bg_change s = k \<and> session_live now s \<and>
      scope_allows (bg_scope s) ''policy_override'' ''continue_running'' (map (id_str \<circ> fst) (targets_of d k)) = Inr ())"
    show ?thesis
    proof (cases no)
      case (Some a)
      with c f n show ?thesis by (auto intro: refused)
    next
      case None
      show ?thesis
      proof (cases b)
        case True
        have "get_change_for_execution d1 e = get_change_for_execution d e"
          using gate_frame_steps [OF f]
          by (auto simp: get_change_for_execution_def binding_of_exec_def split: option.split)
        with s gate_frame_steps [OF f] True have "session_permits now e d1"
          by (auto simp: session_permits_def targets_of_def)
        with f c None True show ?thesis by (auto intro: session)
      qed (use c f None in \<open>auto intro: otherwise\<close>)
    qed
  qed
qed

lemma request_approval_starts:
  "request_step_approval now e i rid tok drv ev d = Inr (d', a, b) \<Longrightarrow> \<not> begins_running i d d'"
  by (auto simp: request_step_approval_def create_step_request_def res_bind_eq_Inr begins_running_def fresh_def upd_step_def Let_def
      send_all_def table_simps split: option.splits if_splits dest!: audit_emit_Inr emit_step_transition_audit_tables(8))

lemma approval_status_steps:
  assumes "get_approval_status env now a d = Inr d'"
  shows "exec_steps d' = exec_steps d" and "tget (approval_reqs d') a = Some r' \<Longrightarrow>
    \<exists>r. tget (approval_reqs d) a = Some r \<and> ar_step r' = ar_step r"
proof -
  have n: "control_part d2 = control_part d1"
    if "notify_change env now nonce a r TimedOut actor d1 = Inr d2" for nonce r actor d1 d2
    using that by (auto simp: notify_change_def handle_change_approval_decision_def res_bind_eq_Inr change_progress_def
      split: if_splits option.splits dest!: transition_change_progress)
  have "exec_steps d' = exec_steps d \<and> (approval_reqs d' = approval_reqs d \<or> approval_reqs d' = approval_reqs (resolve_request now a ArTimedOut d))"
    using assms
    by (auto simp: get_approval_status_def get_or_create_timeout_def insert_decision_def resolve_request_def res_bind_eq_Inr
      emit_approval_decision_audit_def fresh_def control_part_def Let_def
      split: option.splits if_splits prod.splits dest!: n audit_emit_Inr)
  then show "exec_steps d' = exec_steps d" and "tget (approval_reqs d') a = Some r' \<Longrightarrow>
      \<exists>r. tget (approval_reqs d) a = Some r \<and> ar_step r' = ar_step r"
    by (auto simp: resolve_request_def table_simps)
qed

lemma judged_outcome:
  assumes "judged zones ctx now s (active_rules org d) p" and "rules_wf zones (policy_rules d)"
    and "pe_error_code p = []" and "pe_effective p \<notin> {''approval_required'', ''block''}"
  shows "pe_effective p = ''auto_approve'' \<and> \<not> st_requires_approval s"
proof -
  from assms(1,3) have dec: "decided_by zones ctx now s (active_rules org d) p"
    and eff: "pe_effective p = apply_requires_approval_floor (pe_outcome p) s" by (simp_all add: judged_def)
  have "rule_ok zones r" if "(k, j, r) \<in> set (active_rules org d)" for k j r
    using that assms(2) by (auto simp: active_rules_def rules_wf_def list_all_iff)
  with dec have "pe_outcome p \<in> set OUTCOMES"
    unfolding decided_by_def by (fastforce simp: rule_ok_def OUTCOMES_def)
  with eff assms(4) show ?thesis
    by (auto simp: apply_requires_approval_floor_def OUTCOMES_def split: if_splits)
qed

text \<open>What lets a step run: its own evaluation, made now, or a breakglass session, or an approval.\<close>

definition evaluation_permits :: "timestamp \<Rightarrow> nat \<Rightarrow> nat \<Rightarrow> exec_step \<Rightarrow> db \<Rightarrow> db \<Rightarrow> bool" where
  "evaluation_permits now e i s d d' \<longleftrightarrow> (\<exists>j p. policy_evals d' = policy_evals d @ [(j, p)] \<and> pe_exec p = e \<and>
     pe_step p = i \<and> pe_error_code p = [] \<and>
     (pe_effective p = ''auto_approve'' \<and> \<not> st_requires_approval s \<or> session_permits now e d'))"

definition approval_permits :: "nat \<Rightarrow> db \<Rightarrow> bool" where
  "approval_permits i d \<longleftrightarrow> (\<exists>a r. tget (approval_reqs d) a = Some r \<and> ar_step r = Some i \<and> ar_status r = ArApproved)"

lemma unless_breakglass_starts:
  assumes u: "unless_breakglass now e i rid tok otherwise d1 = Inr (d', r)" and st: "begins_running i d1 d'"
    and o: "\<And>d2. otherwise d2 = Inr (d', r) \<Longrightarrow> \<not> begins_running i d2 d'"
  shows "r = Run \<and> policy_evals d' = policy_evals d1 \<and> session_permits now e d'"
  using u
proof (cases rule: unless_breakglass_cases)
  case (otherwise d2)
  with st o show ?thesis using starts_same gate_frame_steps by metis
next
  case refused
  with st no_start gate_frame_steps show ?thesis by metis
next
  case (session d2)
  from run_step_Inr [OF session(3)] gate_frame_steps [OF session(1)] session(2) session_permits_same [of d' d2]
  show ?thesis by (simp add: permit_part_def)
qed

lemma start_step_tx_starts:
  assumes "start_step_tx zones now e x i s rid tok d = Inr (d', r)" and st: "begins_running i d d'"
    and wf: "rules_wf zones (policy_rules d)"
  shows "r = Run \<and> evaluation_permits now e i s d d'"
proof (cases "evaluate_step_policy zones now e x i s d")
  case (Inl er)
  with assms(1) st show ?thesis by (auto simp: start_step_tx_def split: sum.splits dest!: fail_step_Inr)
next
  case (Inr q)
  obtain d1 j p where q: "q = (d1, j, p)" by (cases q)
  with Inr have ev: "evaluate_step_policy zones now e x i s d = Inr (d1, j, p)" by simp
  from evaluate_step_policy_Inr [OF ev] obtain ctx where
    r: "row_added d d1 j p" "pe_exec p = e" "pe_step p = i" and g: "judged zones ctx now s (active_rules (ex_org x) d) p" by blast
  from r(1) have e1: "exec_steps d1 = exec_steps d" "policy_evals d1 = policy_evals d @ [(j, p)]"
    by (simp_all add: row_added_def tins_def)
  from st have st1: "begins_running i d1 d'" using starts_same e1(1) by metis
  show ?thesis
  proof (cases "pe_error_code p = []")
    case False
    with assms(1) ev st1 show ?thesis by (auto simp: start_step_tx_def dest!: fail_step_Inr)
  next
    case noerr: True
    consider "pe_effective p = ''approval_required''" | "pe_effective p = ''block''"
      | "pe_effective p \<notin> {''approval_required'', ''block''}" by blast
    then show ?thesis
    proof cases
      case 1
      with assms(1) ev noerr have "unless_breakglass now e i rid tok (\<lambda>d.
            res_bind (request_step_approval now e i rid tok True (Some j) d) (\<lambda>(d, a, _).
            Inr (d, WaitForApproval a))) d1 = Inr (d', r)" by (simp add: start_step_tx_def)
      from unless_breakglass_starts [OF this st1] have "r = Run \<and> policy_evals d' = policy_evals d1 \<and> session_permits now e d'"
        by (auto simp: res_bind_eq_Inr dest: request_approval_starts)
      with e1 r noerr show ?thesis unfolding evaluation_permits_def by auto
    next
      case 2
      with assms(1) ev noerr have "unless_breakglass now e i rid tok
          (fail_step now e i rid tok ''policy_blocked'' ''policy_blocked'' (Blocked (Some j))) d1 = Inr (d', r)"
        by (simp add: start_step_tx_def)
      from unless_breakglass_starts [OF this st1] have "r = Run \<and> policy_evals d' = policy_evals d1 \<and> session_permits now e d'"
        by (auto dest!: fail_step_Inr)
      with e1 r noerr show ?thesis unfolding evaluation_permits_def by auto
    next
      case 3
      with assms(1) ev noerr have "run_step now e i rid tok d1 = Inr (d', r)" by (simp add: start_step_tx_def)
      from run_step_Inr [OF this] judged_outcome [OF g wf noerr 3] e1 r noerr show ?thesis
        unfolding evaluation_permits_def by (auto simp: permit_part_def)
    qed
  qed
qed

lemma approval_poll_tx_starts:
  assumes "approval_poll_tx env now e i a rid tok d = Inr (d', r)" and "begins_running i d d'"
    and "tget (approval_reqs d) a = Some q" and "ar_step q = Some i"
  shows "r = Run \<and> approval_permits i d'"
proof -
  from assms(1) obtain d1 q' where g: "get_approval_status env now a d = Inr d1" and q': "tget (approval_reqs d1) a = Some q'"
    and c: "(case ar_status q' of
          ArPending \<Rightarrow> Inr (d1, KeepWaiting)
        | ArApproved \<Rightarrow>
            if \<not> change_has_active_breakglass d1 (get_change_for_execution d1 e)
              then run_step now e i rid tok d1
            else (case breakglass_execution_gate_decision now e ''policy_override'' ''continue_running'' d1 of
                (_, Inl er) \<Rightarrow> Inl er
              | (d, Inr (_, Some no)) \<Rightarrow> Inr (d, no)
              | (d, Inr (_, None)) \<Rightarrow> run_step now e i rid tok d)
        | st \<Rightarrow> fail_step now e i rid tok
            (if st = ArRejected then ''Approval rejected.'' else ''Approval timed out.'') [] FailStep d1) = Inr (d', r)"
    by (auto simp: approval_poll_tx_def res_bind_eq_Inr split: option.splits)
  have st: "begins_running i d1 d'" using assms(2) approval_status_steps(1) [OF g] starts_same by metis
  have own: "ar_step q' = Some i" using approval_status_steps(2) [OF g q'] assms(3,4) by auto
  have runs: "r = Run \<and> approval_permits i d'" if "run_step now e i rid tok d2 = Inr (d', r)"
    "approval_reqs d2 = approval_reqs d1" "ar_status q' = ArApproved" for d2
    using run_step_Inr [OF that(1)] that(2,3) q' own by (auto simp: approval_permits_def permit_part_def)
  show ?thesis
  proof (cases "ar_status q'")
    case ArApproved
    show ?thesis
    proof (cases "change_has_active_breakglass d1 (get_change_for_execution d1 e)")
      case False
      with c ArApproved runs show ?thesis by simp
    next
      case True
      obtain d2 w where w: "breakglass_execution_gate_decision now e ''policy_override'' ''continue_running'' d1 = (d2, w)" by fastforce
      with c ArApproved True obtain b no where bn: "w = Inr (b, no)"
        and c2: "(case no of Some no \<Rightarrow> Inr (d2, no) | None \<Rightarrow> run_step now e i rid tok d2) = Inr (d', r)"
        by (auto split: sum.splits option.splits)
      from w bn have f: "gate_frame d1 d2" by (auto elim: gate_decision_cases)
      show ?thesis
      proof (cases no)
        case (Some a)
        with c2 st f show ?thesis using no_start gate_frame_steps by auto
      qed (use c2 f runs [of d2] ArApproved gate_frame_steps in auto)
    qed
  qed (use c st no_start in \<open>auto dest!: fail_step_Inr\<close>)
qed

lemma step_request_own:
  assumes "step_request d i = Some (a, q)" and "twf (approval_reqs d)"
  shows "tget (approval_reqs d) a = Some q \<and> ar_step q = Some i"
  using assms by (auto simp: step_request_def intro: tget_unique dest!: first_of_SomeD)

lemma step_start_starts:
  assumes v: "step_start_view env zones now e i rq d = (d', r)" and st: "begins_running i d d'"
    and wf: "rules_wf zones (policy_rules d)"
  shows "r = Inr Run \<and> (\<exists>s. tget (exec_steps d) i = Some s \<and> evaluation_permits now e i s d d')"
  using v unfolding step_start_view_def
proof (rule bound_ready_cases)
  assume "change_progress d d'"
  with st no_start progress_steps show ?thesis by metis
next
  let ?rid = "effective_runner_id rq"
  fix d1 x
  assume p: "change_progress d d1" and c: "(case step_of d1 e i of
        None \<Rightarrow> (d1, Inr (Refused 404 ''not_found''))
      | Some s \<Rightarrow>
         (case (if st_status s = StWaiting then step_request d1 i else None) of
            Some (a, _) \<Rightarrow>
             (case get_approval_status env now a d1 of
                Inl er \<Rightarrow> (d1, Inl er) | Inr d \<Rightarrow> (d, Inr (WaitForApproval a)))
          | None \<Rightarrow>
             (case start_step_tx zones now e x i s ?rid (rq_token rq) d1 of
                Inl er \<Rightarrow> (d1, Inl er) | Inr (d, reply) \<Rightarrow> (d, Inr reply)))) = (d', r)"
  note same = progress_steps [OF p]
  have st1: "begins_running i d1 d'" using st same starts_same by metis
  from c st1 no_start [of d' d1 i] obtain s y where s: "step_of d1 e i = Some s"
    and t: "start_step_tx zones now e x i s ?rid (rq_token rq) d1 = Inr (d', y)" and r: "r = Inr y"
    by (auto split: option.splits sum.splits prod.splits if_splits dest: approval_status_steps(1))
  have "rules_wf zones (policy_rules d1)" using wf same by simp
  from start_step_tx_starts [OF t st1 this] have "y = Run \<and> evaluation_permits now e i s d1 d'" .
  moreover have "tget (exec_steps d) i = Some s" using s same by (auto simp: step_of_def split: option.splits if_splits)
  ultimately show ?thesis using r same by (auto simp: evaluation_permits_def)
qed

lemma approval_status_starts:
  assumes v: "approval_status_view env now e i rq d = (d', r)" and st: "begins_running i d d'" and wf: "twf (approval_reqs d)"
  shows "r = Inr Run \<and> approval_permits i d'"
  using v unfolding approval_status_view_def
proof (rule bound_ready_cases)
  assume "change_progress d d'"
  with st no_start progress_steps show ?thesis by metis
next
  fix d1 x
  let ?rid = "effective_runner_id rq"
  assume p: "change_progress d d1" and c: "(case validate_runner_ownership x ?rid (rq_token rq) of
        Inl er \<Rightarrow> (d1, Inl er)
      | Inr _ \<Rightarrow>
       (case step_of d1 e i of
          None \<Rightarrow> (d1, Inr (Refused 404 ''not_found''))
        | Some s \<Rightarrow>
           if st_status s = StRunning then (d1, Inr Run)
           else if st_status s = StFailed then (d1, Inr FailStep)
           else if st_status s \<noteq> StWaiting then (d1, Inr (Refused 409 ''invalid_state_transition''))
           else (case step_request d1 i of
               None \<Rightarrow> (d1, Inr (Refused 404 ''approval_request_not_found''))
             | Some (a, _) \<Rightarrow>
                (case approval_poll_tx env now e i a ?rid (rq_token rq) d1 of
                   Inl er \<Rightarrow> (d1, Inl er) | Inr (d, reply) \<Rightarrow> (d, Inr reply))))) = (d', r)"
  note same = progress_steps [OF p]
  have st1: "begins_running i d1 d'" using st same starts_same by metis
  from c st1 no_start [of d' d1 i] obtain a q y where q: "step_request d1 i = Some (a, q)"
    and t: "approval_poll_tx env now e i a ?rid (rq_token rq) d1 = Inr (d', y)" and r: "r = Inr y"
    by (auto split: option.splits sum.splits prod.splits if_splits)
  have "twf (approval_reqs d1)" using wf same by simp
  from step_request_own [OF q this] approval_poll_tx_starts [OF t st1] r show ?thesis by blast
qed

lemma step_update_starts:
  assumes v: "step_update_view now e i rq status report d = (d', r)"
  shows "\<not> begins_running i d d'"
  using v unfolding step_update_view_def
proof (rule bound_ready_cases)
  assume "change_progress d d'"
  then show ?thesis using no_start progress_steps by metis
next
  fix d1 x
  assume p: "change_progress d d1" and c: "(case update_execution_step now e i (effective_runner_id rq) (rq_token rq) status report False d1 of
        Inl er \<Rightarrow> (d1, Inl er) | Inr d \<Rightarrow> (d, Inr Done)) = (d', r)"
  have "\<not> begins_running i d1 d'"
  proof (cases "update_execution_step now e i (effective_runner_id rq) (rq_token rq) status report False d1")
    case (Inr d2)
    from update_step_row(3) [OF this] obtain s s' where "tget (exec_steps d1) i = Some s" "tget (exec_steps d2) i = Some s'"
      "st_status s' = status" "status \<in> set (VALID_STEP_TRANSITIONS (st_status s))" by auto
    with c Inr show ?thesis by (cases "st_status s") (auto simp: begins_running_def)
  qed (use c no_start in auto)
  then show ?thesis using starts_same progress_steps [OF p] by metis
qed

text \<open>
  C2: no call of a runner makes a step run unless the answer is to run it and it may: at the start of
  the step, the evaluation just recorded approves it and the step needs no approval, or a live breakglass
  session of the bound change covers it; at a poll, its own approval request was approved. A
  report never starts a step.
\<close>

theorem steps_run_only_when_permitted:
  assumes "begins_running i d d'" and "rules_wf zones (policy_rules d)" and "twf (approval_reqs d)"
  shows "(step_start_view env zones now e i rq d = (d', r) \<longrightarrow>
      r = Inr Run \<and> (\<exists>s. tget (exec_steps d) i = Some s \<and> evaluation_permits now e i s d d')) \<and>
    (approval_status_view env now e i rq d = (d', r) \<longrightarrow> r = Inr Run \<and> approval_permits i d') \<and>
    step_update_view now e i rq status report d \<noteq> (d', r)"
  using step_start_starts [OF _ assms(1,2)] approval_status_starts [OF _ assms(1,3)]
    step_update_starts [of now e i rq status report d d' r] assms(1) by blast

section \<open>A concrete start\<close>

lemma audit_emit_any:
  "audit_emit now org a et ot oid md d = Inr d1 \<Longrightarrow> \<exists>d2'. audit_emit now org a et ot oid md d2 = Inr d2'"
  by (auto simp: audit_emit_def res_bind_eq_Inr split: if_splits)

lemma emit_step_transition_any:
  assumes "emit_step_transition_audit now e x i s rid p n err d = Inr d1"
  shows "\<exists>d2'. emit_step_transition_audit now e x i s rid p n err d2 = Inr d2'"
proof (cases "step_event_type n")
  case (Some ev)
  with assms show ?thesis
    unfolding emit_step_transition_audit_def Some option.case res_bind_eq_Inr using audit_emit_any by blast
qed (simp add: emit_step_transition_audit_def)

lemma update_step_any:
  assumes "update_execution_step now e i rid tok new r allow d = Inr d'"
    and same: "executions d2 = executions d" "exec_steps d2 = exec_steps d"
  shows "\<exists>d2'. update_execution_step now e i rid tok new r allow d2 = Inr d2'"
proof -
  from assms(1) obtain x s d1 where rows: "tget (executions d) e = Some x" "tget (exec_steps d) i = Some s"
    "st_exec s = e" "validate_runner_ownership x rid tok = Inr ()"
    "new \<in> set (if allow then VALID_STEP_START_TRANSITIONS (st_status s) else VALID_STEP_TRANSITIONS (st_status s))"
    and em: "emit_step_transition_audit now e (start_if_claimed new (apply_report now new r s) x) i
        (apply_report now new r s) rid (st_status s) new (sr_error r)
        (upd_exec e (\<lambda>_. start_if_claimed new (apply_report now new r s) x)
          (upd_step i (\<lambda>_. apply_report now new r s) d)) = Inr d1"
    unfolding update_execution_step_def Let_def
    by (auto simp del: send_tables simp: res_bind_eq_Inr split: option.splits if_splits)
  from emit_step_transition_any [OF em] obtain d3 where "emit_step_transition_audit now e
      (start_if_claimed new (apply_report now new r s) x) i
        (apply_report now new r s) rid (st_status s) new (sr_error r)
        (upd_exec e (\<lambda>_. start_if_claimed new (apply_report now new r s) x)
          (upd_step i (\<lambda>_. apply_report now new r s) d2)) = Inr d3" by blast
  with rows same show ?thesis by (simp add: update_execution_step_def Let_def)
qed

definition sample_call :: runner_request where
  "sample_call = \<lparr>rq_auth = ''r1'', rq_header = [], rq_runner = ''r1'', rq_token = id_str 7\<rparr>"

lemma sample_evaluates:
  "\<exists>d1 p. evaluate_step_policy zones 9 40 (sample_execution ExClaimed) 45 (sample_step StPending) (running_db ExClaimed StPending)
     = Inr (d1, 1, p) \<and> pe_error_code p = [] \<and> pe_effective p = ''auto_approve'' \<and>
     executions d1 = executions (running_db ExClaimed StPending) \<and> exec_steps d1 = exec_steps (running_db ExClaimed StPending)"
proof -
  let ?d = "running_db ExClaimed StPending"
  let ?c = "build_evaluation_context 40 (sample_execution ExClaimed) 45 (sample_step StPending) 9"
  have "\<not> isl ?c" by code_simp
  then obtain ctx where c: "?c = Inr ctx" by (cases ?c) auto
  have n: "next_id ?d = 1" "policies ?d = []" "binding_of_exec ?d 40 = None"
    by (simp_all add: running_db_def empty_db_def binding_of_exec_def tsel_def)
  then have j: "judge_rules zones ctx 9 (active_rules (ex_org (sample_execution ExClaimed)) ?d) = Inr NoMatch"
    by (simp add: active_rules_def tsel_def)
  let ?p = "\<lparr>pe_org = ex_org (sample_execution ExClaimed), pe_exec = 40, pe_step = 45, pe_policy = None, pe_rule = None,
           pe_matched = False, pe_outcome = ''auto_approve'', pe_effective = ''auto_approve'', pe_source = WorkflowDefault,
           pe_condition_type = [], pe_condition_params = JObj [], pe_context = JObj ctx,
           pe_reason = ''No matching policy rule; using workflow default.'', pe_error_code = [],
           pe_error_message = [], pe_evaluated_at = 9, pe_created_at = 9\<rparr>"
  have w: "2 * weight_fields (evaluation_facts ?p) + 4 \<le> MAX_METADATA_BYTES"
    using length_id_str [of 40] length_id_str [of 45] by (simp add: evaluation_facts_def MAX_METADATA_BYTES_def)
  have nb: "binding_of_exec ?d (pe_exec ?p) = None" using n(3) by simp
  obtain ev where r: "create_policy_evaluation_with_audit 9 ?p ?d =
    Inr (?d\<lparr>next_id := Suc (next_id ?d), policy_evals := tins (next_id ?d) ?p (policy_evals ?d),
      audit_log := audit_log ?d @ [ev]\<rparr>, next_id ?d, ?p)"
    using evaluation_recorded [OF nb w, of 9] by blast
  have "record_verdict 9 40 (sample_execution ExClaimed) 45 (sample_step StPending) ctx NoMatch ?d =
    create_policy_evaluation_with_audit 9 ?p ?d" by (simp add: record_verdict_def sample_step_def Let_def)
  with c j r have "evaluate_step_policy zones 9 40 (sample_execution ExClaimed) 45 (sample_step StPending) ?d =
      Inr (?d\<lparr>next_id := Suc (next_id ?d), policy_evals := tins (next_id ?d) ?p (policy_evals ?d),
      audit_log := audit_log ?d @ [ev]\<rparr>, 1, ?p)"
    using n(1) by (simp add: evaluate_step_policy_def sample_step_def)
  then show ?thesis by (intro exI conjI) (assumption, simp_all)
qed

theorem steps_run_only_when_permitted_witness:
  "\<exists>d' s. step_start_view sample_env (\<lambda>_. ZoneNotFound) 9 40 45 sample_call (running_db ExClaimed StPending) = (d', Inr Run) \<and>
     evaluation_permits 9 40 45 s (running_db ExClaimed StPending) d'"
proof -
  let ?d = "running_db ExClaimed StPending"
  from sample_evaluates [of "\<lambda>_. ZoneNotFound"] obtain d1 p where ev: "evaluate_step_policy (\<lambda>_. ZoneNotFound) 9 40 (sample_execution ExClaimed) 45
      (sample_step StPending) ?d = Inr (d1, 1, p)" "pe_error_code p = []" "pe_effective p = ''auto_approve''"
    and same: "executions d1 = executions ?d" "exec_steps d1 = exec_steps ?d" by blast
  obtain d0 where "update_execution_step 9 40 45 ''r1'' (id_str 7) StRunning empty_report True ?d = Inr d0"
    using sample_start_updates by blast
  from update_step_any [OF this same] obtain d' where
    u: "update_execution_step 9 40 45 ''r1'' (id_str 7) StRunning empty_report True d1 = Inr d'" by blast
  have t: "start_step_tx (\<lambda>_. ZoneNotFound) 9 40 (sample_execution ExClaimed) 45 (sample_step StPending) ''r1'' (id_str 7) ?d
      = Inr (d', Run)" using ev u by (simp add: start_step_tx_def run_step_def)
  have rows: "tget (executions ?d) 40 = Some (sample_execution ExClaimed)" "tget (exec_steps ?d) 45 = Some (sample_step StPending)"
    "binding_of_exec ?d 40 = None" "policy_rules ?d = []" "approval_reqs ?d = []"
    by (simp_all add: running_db_def tget_def empty_db_def binding_of_exec_def tsel_def)
  have v: "step_start_view sample_env (\<lambda>_. ZoneNotFound) 9 40 45 sample_call ?d = (d', Inr Run)"
    using t rows
    by (simp add: step_start_view_def bound_ready_def identified_def runner_identity_guard_def effective_runner_id_def
      sample_call_def assert_change_bound_execution_ready_def assert_execution_change_binding_ready_def step_of_def
      then_do_def sample_step_def)
  have "begins_running 45 ?d d'"
    using update_step_row(3) [OF u] rows(2) by (auto simp: begins_running_def sample_step_def)
  moreover have "rules_wf (\<lambda>_. ZoneNotFound) (policy_rules ?d)" "twf (approval_reqs ?d)"
    using rows by (simp_all add: rules_wf_def twf_def)
  ultimately obtain s where "evaluation_permits 9 40 45 s ?d d'"
    using steps_run_only_when_permitted [of 45 ?d d' "\<lambda>_. ZoneNotFound"] v by blast
  with v show ?thesis by blast
qed

section \<open>The views in the system\<close>

lemma identified_world:
  assumes "identified rq d f = (d', r)" and "\<And>rid. f rid = (d', r) \<Longrightarrow> world_grows d d'"
  shows "world_grows d d'"
  using assms(1) by (rule identified_cases) (auto intro: world.refl assms(2))

lemma gate_frame_world: "gate_frame d d' \<Longrightarrow> world_grows d d'"
  by (simp add: gate_frame_def progress_world)

lemma run_step_world: "run_step now e i rid tok d = Inr (d', r) \<Longrightarrow> world_grows d d'"
  by (auto simp: run_step_def res_bind_eq_Inr dest: update_execution_step_world)

lemma fail_step_world: "fail_step now e i rid tok m k reply d = Inr (d', r) \<Longrightarrow> world_grows d d'"
  by (auto simp: fail_step_def res_bind_eq_Inr dest: update_execution_step_world)

lemma unless_breakglass_world:
  assumes "unless_breakglass now e i rid tok otherwise d = Inr (d', r)"
    and "\<And>d1. otherwise d1 = Inr (d', r) \<Longrightarrow> world_grows d1 d'"
  shows "world_grows d d'"
  using assms(1) by (rule unless_breakglass_cases) (blast intro: gate_frame_world world.trans run_step_world assms(2))+

lemma start_step_tx_world:
  assumes "start_step_tx zones now e x i s rid tok d = Inr (d', r)"
  shows "world_grows d d'"
proof (cases "evaluate_step_policy zones now e x i s d")
  case (Inl er)
  with assms show ?thesis
    by (auto simp: start_step_tx_def row_added_def split: sum.splits
      dest!: fail_step_world persist_policy_error_added intro: world.trans)
next
  case (Inr q)
  obtain d1 j p where q: "q = (d1, j, p)" by (cases q)
  with Inr have w: "world_grows d d1" using evaluate_step_policy_world by blast
  have "world_grows d1 d'" if "unless_breakglass now e i rid tok (\<lambda>d.
            res_bind (request_step_approval now e i rid tok True (Some j) d) (\<lambda>(d, a, _).
            Inr (d, WaitForApproval a))) d1 = Inr (d', r)"
    using that by (rule unless_breakglass_world) (auto simp: res_bind_eq_Inr dest: world_rules)
  with assms Inr q have "world_grows d1 d'"
    by (auto simp: start_step_tx_def split: if_splits dest: fail_step_world run_step_world unless_breakglass_world)
  with w show ?thesis by (rule world.trans)
qed

lemma step_start_view_world [world_rules]:
  assumes "step_start_view env zones now e i rq d = (d', r)"
  shows "world_grows d d'"
  using assms unfolding step_start_view_def
  by (rule bound_ready_world)
    (auto split: option.splits sum.splits if_splits intro: world.refl dest: start_step_tx_world world_rules)

lemma approval_poll_tx_world:
  assumes "approval_poll_tx env now e i a rid tok d = Inr (d', r)"
  shows "world_grows d d'"
proof -
  from assms obtain d1 where g: "get_approval_status env now a d = Inr d1"
    and c: "(case tget (approval_reqs d1) a of None \<Rightarrow> Inl (NotFound ''approval_request'')
    | Some r \<Rightarrow>
       (case ar_status r of
          ArPending \<Rightarrow> Inr (d1, KeepWaiting)
        | ArApproved \<Rightarrow>
            if \<not> change_has_active_breakglass d1 (get_change_for_execution d1 e)
              then run_step now e i rid tok d1
            else (case breakglass_execution_gate_decision now e ''policy_override'' ''continue_running'' d1 of
                (_, Inl er) \<Rightarrow> Inl er
              | (d, Inr (_, Some no)) \<Rightarrow> Inr (d, no)
              | (d, Inr (_, None)) \<Rightarrow> run_step now e i rid tok d)
        | st \<Rightarrow> fail_step now e i rid tok
            (if st = ArRejected then ''Approval rejected.'' else ''Approval timed out.'') [] FailStep d1)) = Inr (d', r)"
    by (auto simp: approval_poll_tx_def res_bind_eq_Inr)
  have gate: "world_grows d1 d2" if "breakglass_execution_gate_decision now e gt ac d1 = (d2, Inr (b, no))" for gt ac d2 b no
    using that by (rule gate_decision_cases) (rule gate_frame_world)
  have "world_grows d1 d'"
    using c by (auto split: option.splits approval_status.splits if_splits prod.splits sum.splits
      intro: world.refl world.trans dest: fail_step_world run_step_world gate)
  moreover have "world_grows d d1" using g by (rule world_rules)
  ultimately show ?thesis by (blast intro: world.trans)
qed

lemma approval_status_view_world [world_rules]:
  assumes "approval_status_view env now e i rq d = (d', r)"
  shows "world_grows d d'"
  using assms unfolding approval_status_view_def
  by (rule bound_ready_world)
    (auto split: option.splits sum.splits if_splits intro: world.refl dest: approval_poll_tx_world)

lemma step_update_view_world [world_rules]:
  "step_update_view now e i rq status report d = (d', r) \<Longrightarrow> world_grows d d'"
  unfolding step_update_view_def
  by (erule bound_ready_world) (auto split: sum.splits intro: world.refl dest: update_execution_step_world)

lemma complete_view_world [world_rules]:
  "complete_view now e rq fs d = (d', r) \<Longrightarrow> world_grows d d'"
  unfolding complete_view_def
  by (erule bound_ready_world) (auto simp: then_do_eq dest: complete_execution_world)

lemma heartbeat_view_world [world_rules]:
  "heartbeat_view now e rq d = (d', r) \<Longrightarrow> world_grows d d'"
  unfolding heartbeat_view_def
  by (auto simp: then_do_eq split: if_splits intro: world.refl elim!: identified_world dest: heartbeat_execution_world)

lemma claim_next_view_world [world_rules]:
  assumes "claim_next_view env now nonces rq d = (d', r)"
  shows "world_grows d d'"
  using assms unfolding claim_next_view_def
proof (rule identified_world)
  fix rid
  obtain d1 ps where p: "promote_due_scheduled_changes env now nonces d = (d1, ps)" by fastforce
  obtain d2 q where q: "claim_next_execution now rid (resolve_runner rq d1) d1 = (d2, q)" by fastforce
  assume "(let (d, _) = promote_due_scheduled_changes env now nonces d in
      case claim_next_execution now rid (resolve_runner rq d) d of
        (d, Inl er) \<Rightarrow> (d, Inl er)
      | (d, Inr Nothing) \<Rightarrow> (d, Inr (Idle 5))
      | (d, Inr Drain) \<Rightarrow> (d, Inr DrainNow)
      | (d, Inr (Claimed e tok)) \<Rightarrow> (d, Inr (Execute e tok))) = (d', r)"
  with p q have "d' = d2" by (auto split: sum.splits claim_reply.splits)
  with promote_due_world [OF p] claim_next_execution_world [OF q] show "world_grows d d'"
    by (blast intro: world.trans)
qed

end
