(* ===== verification/Runner_Registry.thy ===== *)
theory Runner_Registry
  imports Execution_World
begin

text \<open>
  The runner registry (\<open>apps/runners/services.py\<close>), the views that register a runner and take its
  heartbeat (\<open>apps/runners/internal_views.py\<close>), and the authentication of runners
  (\<open>apps/common/authentication.py\<close>). The services that act on a pool, a runner, a token or a route check the
  copy of the row the caller has read (\<open>seen\<close>) and save only the columns they name. Fresh secrets are
  arguments; only their hashes are stored. The models' \<open>clean\<close> is not called by these services.
\<close>

section \<open>Registration tokens\<close>

definition hash_token :: "string \<Rightarrow> string" where
  "hash_token token = sha256_hex (utf8 token)"

text \<open>\<open>save(update_fields=...)\<close>: the row must exist.\<close>

definition save_row :: "nat \<Rightarrow> 'r table \<Rightarrow> ('r \<Rightarrow> 'r) \<Rightarrow> 'r table result" where
  "save_row i t f = (if tget t i = None then Inl (PyError ''DatabaseError'') else Inr (tupd i f t))"

definition create_registration_token ::
    "nat \<Rightarrow> nat \<Rightarrow> runner_pool \<Rightarrow> string \<Rightarrow> timestamp \<Rightarrow> nat \<Rightarrow> string list \<Rightarrow> string list \<Rightarrow> db \<Rightarrow> (db \<times> nat) result" where
  "create_registration_token org pool seen clear expires_at max_registrations labels caps d =
    (if pl_org seen \<noteq> org then Inl (Domain DomainValidationError ''registration_scope_mismatch'')
     else if tsel (\<lambda>_ t. rt_token_hash t = hash_token clear) (reg_tokens d) \<noteq> []
       then Inl (IntegrityErr ''runner_reg_token_hash_unique'')
     else if max_registrations < 1 then Inl (IntegrityErr ''runner_reg_max_registrations_gte_1_chk'')
     else
       let (i, d) = fresh d
       in Inr (d\<lparr>reg_tokens := tins i \<lparr>rt_org = org, rt_pool = pool, rt_token_hash = hash_token clear,
            rt_label_policy = labels, rt_capability_policy = caps, rt_expires_at = expires_at,
            rt_max_registrations = max_registrations, rt_used_count = 0, rt_revoked_at = None\<rparr> (reg_tokens d)\<rparr>, i))"

definition validate_registration_token ::
    "timestamp \<Rightarrow> string \<Rightarrow> string \<Rightarrow> string \<Rightarrow> db \<Rightarrow> (nat \<times> reg_token \<times> runner_pool) result" where
  "validate_registration_token now token organization_id pool_key d =
    (case first_of (tsel (\<lambda>_ t. rt_token_hash t = hash_token token) (reg_tokens d)) of
       None \<Rightarrow> Inl (Domain DomainValidationError ''invalid_registration_token'')
     | Some (i, t) \<Rightarrow>
        (case tget (runner_pools d) (rt_pool t) of
           None \<Rightarrow> Inl (NotFound ''runner_pool'')
         | Some p \<Rightarrow>
            if rt_revoked_at t \<noteq> None then Inl (Domain DomainValidationError ''registration_token_revoked'')
            else if rt_expires_at t < now then Inl (Domain DomainValidationError ''registration_token_expired'')
            else if rt_used_count t \<ge> rt_max_registrations t
              then Inl (Domain DomainValidationError ''registration_token_exhausted'')
            else if organization_id \<noteq> [] \<and> id_str (rt_org t) \<noteq> organization_id
              then Inl (Domain DomainValidationError ''registration_scope_mismatch'')
            else if pool_key \<noteq> [] \<and> pl_key p \<noteq> pool_key
              then Inl (Domain DomainValidationError ''registration_scope_mismatch'')
            else if pl_org p \<noteq> rt_org t then Inl (Domain DomainValidationError ''registration_scope_mismatch'')
            else if pl_status p \<noteq> PoolActive then Inl (Domain DomainValidationError ''pool_not_active'')
            else Inr (i, t, p)))"

section \<open>Registering\<close>

record registration =
  rg_display_name :: string
  rg_version :: string
  rg_fingerprint :: string
  rg_hostname :: string
  rg_labels :: "(string \<times> string) list"
  rg_capabilities :: "string list"

text \<open>An empty policy allows everything.\<close>

definition accepted_labels :: "string list \<Rightarrow> (string \<times> string) list \<Rightarrow> (string \<times> string) list" where
  "accepted_labels pol labels = (if pol \<noteq> [] then filter (\<lambda>(k, _). k \<in> set pol) labels else labels)"

definition accepted_capabilities :: "string list \<Rightarrow> string list \<Rightarrow> string list" where
  "accepted_capabilities pol caps = (if pol \<noteq> [] then filter (\<lambda>c. c \<in> set pol) caps else caps)"

definition registered_metadata :: "reg_token \<Rightarrow> registration \<Rightarrow> json" where
  "registered_metadata t g = JObj [
     (''accepted_labels'', JObj (map (\<lambda>(k, v). (k, JStr v)) (accepted_labels (rt_label_policy t) (rg_labels g)))),
     (''accepted_capabilities'', JArr (map JStr (accepted_capabilities (rt_capability_policy t) (rg_capabilities g))))]"

definition existing_runner :: "nat \<Rightarrow> string \<Rightarrow> db \<Rightarrow> (nat \<times> runner) option" where
  "existing_runner pool fingerprint d =
    (if fingerprint = [] then None
     else first_of (tsel (\<lambda>_ r. rn_pool r = pool \<and> rn_fingerprint r = fingerprint \<and> rn_status r \<noteq> RnRevoked) (runners d)))"

definition renewed_runner :: "timestamp \<Rightarrow> reg_token \<Rightarrow> registration \<Rightarrow> string \<Rightarrow> runner \<Rightarrow> runner" where
  "renewed_runner now t g hash r = r\<lparr>rn_status := RnActive, rn_token_hash := hash, rn_version := rg_version g,
     rn_hostname := rg_hostname g, rn_display_name := rg_display_name g, rn_last_seen_at := Some now,
     rn_heartbeat_at := Some now, rn_metadata := registered_metadata t g\<rparr>"

definition new_runner :: "timestamp \<Rightarrow> reg_token \<Rightarrow> registration \<Rightarrow> string \<Rightarrow> runner" where
  "new_runner now t g hash =
    \<lparr>rn_org = rt_org t, rn_pool = rt_pool t, rn_display_name = rg_display_name g, rn_status = RnActive,
     rn_version = rg_version g, rn_hostname = rg_hostname g, rn_fingerprint = rg_fingerprint g,
     rn_token_hash = hash, rn_registered_at = Some now, rn_last_seen_at = Some now, rn_heartbeat_at = Some now,
     rn_drain_requested_at = None, rn_disabled_at = None, rn_revoked_at = None, rn_metadata = registered_metadata t g\<rparr>"

definition token_hash_taken :: "string \<Rightarrow> nat option \<Rightarrow> db \<Rightarrow> bool" where
  "token_hash_taken hash skip d \<longleftrightarrow> tsel (\<lambda>i r. rn_token_hash r = hash \<and> Some i \<noteq> skip) (runners d) \<noteq> []"

definition put_runner :: "timestamp \<Rightarrow> reg_token \<Rightarrow> registration \<Rightarrow> string \<Rightarrow> db \<Rightarrow> (db \<times> nat) result" where
  "put_runner now t g hash d =
    (case existing_runner (rt_pool t) (rg_fingerprint g) d of
       Some (j, _) \<Rightarrow>
         if token_hash_taken hash (Some j) d then Inl (IntegrityErr ''runner_token_hash_unique'')
         else Inr (d\<lparr>runners := tupd j (renewed_runner now t g hash) (runners d)\<rparr>, j)
     | None \<Rightarrow>
         if token_hash_taken hash None d then Inl (IntegrityErr ''runner_token_hash_unique'')
         else let (j, d) = fresh d in Inr (d\<lparr>runners := tins j (new_runner now t g hash) (runners d)\<rparr>, j))"

definition register_runner ::
    "timestamp \<Rightarrow> string \<Rightarrow> string \<Rightarrow> registration \<Rightarrow> string \<Rightarrow> string \<Rightarrow> db \<Rightarrow> (db \<times> nat) result" where
  "register_runner now clear token g organization_id pool_key d =
    res_bind (validate_registration_token now token organization_id pool_key d) (\<lambda>(i, t, p).
    res_bind (put_runner now t g (hash_token clear) d) (\<lambda>(d, j).
    let d = d\<lparr>reg_tokens := tupd i (\<lambda>t. t\<lparr>rt_used_count := Suc (rt_used_count t)\<rparr>) (reg_tokens d)\<rparr>
    in res_bind (audit_emit now (rt_org t)
         \<lparr>actor_type = ActorRunner, actor_id = id_str j, actor_label = rg_display_name g\<rparr>
         ''runner.registered'' ''runner'' j [
           (''pool_key'', JStr (pl_key p)), (''pool_id'', JStr (id_str (rt_pool t))),
           (''runner_version'', JStr (rg_version g)), (''hostname'', JStr (rg_hostname g))] d) (\<lambda>d. Inr (d, j))))"

section \<open>Pools\<close>

definition save_pool :: "nat \<Rightarrow> (runner_pool \<Rightarrow> runner_pool) \<Rightarrow> db \<Rightarrow> db result" where
  "save_pool i f d = res_bind (save_row i (runner_pools d) f) (\<lambda>t. Inr (d\<lparr>runner_pools := t\<rparr>))"

definition drain_pool :: "timestamp \<Rightarrow> nat \<Rightarrow> runner_pool \<Rightarrow> db \<Rightarrow> db result" where
  "drain_pool now i seen d =
    (if pl_status seen = PoolDisabled then Inl (Domain InvalidStateTransitionError ''pool_disabled'')
     else if pl_status seen = PoolDraining then Inl (Domain InvalidStateTransitionError ''pool_already_draining'')
     else save_pool i (\<lambda>p. p\<lparr>pl_status := PoolDraining, pl_drain_requested_at := Some now\<rparr>) d)"

definition disable_pool :: "timestamp \<Rightarrow> nat \<Rightarrow> runner_pool \<Rightarrow> db \<Rightarrow> db result" where
  "disable_pool now i seen d =
    (if pl_status seen = PoolDisabled then Inl (Domain InvalidStateTransitionError ''pool_already_disabled'')
     else save_pool i (\<lambda>p. p\<lparr>pl_status := PoolDisabled, pl_disabled_at := Some now\<rparr>) d)"

definition reactivate_pool :: "nat \<Rightarrow> runner_pool \<Rightarrow> db \<Rightarrow> db result" where
  "reactivate_pool i seen d =
    (if pl_status seen = PoolActive then Inl (Domain InvalidStateTransitionError ''pool_already_active'')
     else save_pool i (\<lambda>p. p\<lparr>pl_status := PoolActive, pl_drain_requested_at := None, pl_disabled_at := None\<rparr>) d)"

section \<open>Runners\<close>

definition save_runner :: "nat \<Rightarrow> (runner \<Rightarrow> runner) \<Rightarrow> db \<Rightarrow> db result" where
  "save_runner i f d = res_bind (save_row i (runners d) f) (\<lambda>t. Inr (d\<lparr>runners := t\<rparr>))"

definition drain_runner :: "timestamp \<Rightarrow> nat \<Rightarrow> runner \<Rightarrow> db \<Rightarrow> db result" where
  "drain_runner now i seen d =
    (if rn_status seen \<in> {RnDisabled, RnRevoked} then Inl (Domain InvalidStateTransitionError ''runner_not_drainable'')
     else if rn_status seen = RnDraining then Inl (Domain InvalidStateTransitionError ''runner_already_draining'')
     else save_runner i (\<lambda>r. r\<lparr>rn_status := RnDraining, rn_drain_requested_at := Some now\<rparr>) d)"

definition disable_runner :: "timestamp \<Rightarrow> nat \<Rightarrow> runner \<Rightarrow> db \<Rightarrow> db result" where
  "disable_runner now i seen d =
    (if rn_status seen = RnRevoked then Inl (Domain InvalidStateTransitionError ''runner_revoked'')
     else if rn_status seen = RnDisabled then Inl (Domain InvalidStateTransitionError ''runner_already_disabled'')
     else save_runner i (\<lambda>r. r\<lparr>rn_status := RnDisabled, rn_disabled_at := Some now\<rparr>) d)"

definition revoke_runner :: "timestamp \<Rightarrow> nat \<Rightarrow> runner \<Rightarrow> db \<Rightarrow> db result" where
  "revoke_runner now i seen d =
    (if rn_status seen = RnRevoked then Inl (Domain InvalidStateTransitionError ''runner_already_revoked'')
     else save_runner i (\<lambda>r. r\<lparr>rn_status := RnRevoked, rn_revoked_at := Some now\<rparr>) d)"

definition revoke_registration_token :: "timestamp \<Rightarrow> nat \<Rightarrow> reg_token \<Rightarrow> db \<Rightarrow> db result" where
  "revoke_registration_token now i seen d =
    (if rt_revoked_at seen \<noteq> None then Inl (Domain InvalidStateTransitionError ''token_already_revoked'')
     else res_bind (save_row i (reg_tokens d) (\<lambda>t. t\<lparr>rt_revoked_at := Some now\<rparr>)) (\<lambda>t. Inr (d\<lparr>reg_tokens := t\<rparr>)))"

section \<open>Routes\<close>

definition deactivate_route :: "nat \<Rightarrow> route \<Rightarrow> db \<Rightarrow> db result" where
  "deactivate_route i seen d =
    (if \<not> ro_is_active seen then Inl (Domain InvalidStateTransitionError ''route_already_inactive'')
     else res_bind (save_row i (routes d) (\<lambda>r. r\<lparr>ro_is_active := False\<rparr>)) (\<lambda>t. Inr (d\<lparr>routes := t\<rparr>)))"

definition reactivate_route :: "nat \<Rightarrow> route \<Rightarrow> db \<Rightarrow> db result" where
  "reactivate_route i seen d =
    (if ro_is_active seen then Inl (Domain InvalidStateTransitionError ''route_already_active'')
     else case tget (runner_pools d) (ro_pool seen) of
       None \<Rightarrow> Inl (NotFound ''runner_pool'')
     | Some p \<Rightarrow>
        if pl_status p \<noteq> PoolActive then Inl (Domain InvalidStateTransitionError ''pool_not_active'')
        else res_bind (save_row i (routes d) (\<lambda>r. r\<lparr>ro_is_active := True\<rparr>)) (\<lambda>t. Inr (d\<lparr>routes := t\<rparr>)))"

section \<open>Liveness\<close>

text \<open>Version, host name and status are saved only if the copy differs, a status only from registered.\<close>

definition beat_row :: "timestamp \<Rightarrow> runner \<Rightarrow> string \<Rightarrow> string \<Rightarrow> runner \<Rightarrow> runner" where
  "beat_row now seen version hostname r =
    (let r = r\<lparr>rn_heartbeat_at := Some now, rn_last_seen_at := Some now\<rparr>;
         r = (if version \<noteq> [] \<and> version \<noteq> rn_version seen then r\<lparr>rn_version := version\<rparr> else r);
         r = (if hostname \<noteq> [] \<and> hostname \<noteq> rn_hostname seen then r\<lparr>rn_hostname := hostname\<rparr> else r)
     in if rn_status seen = RnRegistered then r\<lparr>rn_status := RnActive\<rparr> else r)"

definition update_runner_heartbeat :: "timestamp \<Rightarrow> nat \<Rightarrow> runner \<Rightarrow> string \<Rightarrow> string \<Rightarrow> db \<Rightarrow> db result" where
  "update_runner_heartbeat now i seen version hostname d =
    (if rn_status seen = RnOffline then Inl (Domain InvalidStateTransitionError ''runner_lease_expired'')
     else save_runner i (beat_row now seen version hostname) d)"

definition stale_runner :: "timestamp \<Rightarrow> runner \<Rightarrow> bool" where
  "stale_runner stale_before r \<longleftrightarrow> rn_status r \<in> {RnActive, RnDraining} \<and>
     (case rn_heartbeat_at r of None \<Rightarrow> False | Some h \<Rightarrow> h < stale_before)"

definition offline_one :: "timestamp \<Rightarrow> int \<Rightarrow> timestamp \<Rightarrow> nat \<Rightarrow> db \<Rightarrow> (db \<times> bool) result" where
  "offline_one now threshold stale_before i d =
    (case tget (runners d) i of
       None \<Rightarrow> Inr (d, False)
     | Some r \<Rightarrow>
        if \<not> stale_runner stale_before r then Inr (d, False)
        else res_bind (audit_emit now (rn_org r) (system_actor ''Django system'') ''runner.went_offline'' ''runner'' i [
               (''previous_status'', JStr (runner_status_str (rn_status r))),
               (''new_status'', JStr (runner_status_str RnOffline)), (''reason'', JStr ''watchdog_heartbeat_timeout''),
               (''offline_threshold_seconds'', JInt threshold), (''last_heartbeat_at'', iso_json (rn_heartbeat_at r))]
               (d\<lparr>runners := tupd i (\<lambda>r. r\<lparr>rn_status := RnOffline\<rparr>) (runners d)\<rparr>)) (\<lambda>d. Inr (d, True)))"

text \<open>One transaction per runner: an error ends the sweep, and what it has done stays.\<close>

fun offline_all :: "timestamp \<Rightarrow> int \<Rightarrow> timestamp \<Rightarrow> nat list \<Rightarrow> nat list \<Rightarrow> db \<Rightarrow> nat list outcome" where
  "offline_all now threshold stale_before [] marked d = (d, Inr marked)"
| "offline_all now threshold stale_before (i # is) marked d =
    (case offline_one now threshold stale_before i d of
       Inl er \<Rightarrow> (d, Inl er)
     | Inr (d, b) \<Rightarrow> offline_all now threshold stale_before is (if b then marked @ [i] else marked) d)"

definition mark_stale_runners_offline :: "timestamp \<Rightarrow> int option \<Rightarrow> db \<Rightarrow> nat list outcome" where
  "mark_stale_runners_offline now offline_seconds d =
    (let threshold = (case offline_seconds of Some s \<Rightarrow> if s = 0 then cfg_offline_seconds (cfg d) else s
                      | None \<Rightarrow> cfg_offline_seconds (cfg d));
         stale_before = now - secs threshold
     in offline_all now threshold stale_before (map fst (tsel (\<lambda>_ r. stale_runner stale_before r) (runners d))) [] d)"

section \<open>Authentication and the registry views\<close>

text \<open>The bearer token of a request: no header, or not of the form the scheme expects, is no answer.\<close>

datatype auth_result = Anonymous | AuthRunner nat nat nat | AuthLegacy | AuthFailed | AuthDenied

definition authenticate_runner_token :: "string \<Rightarrow> db \<Rightarrow> auth_result option" where
  "authenticate_runner_token token d =
    (case first_of (tsel (\<lambda>_ r. rn_token_hash r = hash_token token) (runners d)) of
       None \<Rightarrow> None
     | Some (i, r) \<Rightarrow>
        Some (if rn_status r \<in> {RnRevoked, RnDisabled} then AuthFailed else AuthRunner i (rn_pool r) (rn_org r)))"

text \<open>Whether a token is a valid user session is a parameter (the JWT library).\<close>

definition authenticate_legacy_token :: "(string \<Rightarrow> bool) \<Rightarrow> string list \<Rightarrow> string \<Rightarrow> auth_result" where
  "authenticate_legacy_token user_jwt configured token =
    (if configured = [] then AuthFailed
     else if token \<notin> set configured then (if user_jwt token then AuthDenied else AuthFailed)
     else AuthLegacy)"

definition authenticate :: "(string \<Rightarrow> bool) \<Rightarrow> bool \<Rightarrow> string list \<Rightarrow> string list \<Rightarrow> db \<Rightarrow> auth_result" where
  "authenticate user_jwt legacy_mode configured header_parts d =
    (case header_parts of
       [scheme, token] \<Rightarrow>
         if scheme \<noteq> ''Bearer'' then Anonymous
         else (case authenticate_runner_token token d of
             Some r \<Rightarrow> r
           | None \<Rightarrow>
              if legacy_mode then authenticate_legacy_token user_jwt configured token
              else if user_jwt token then AuthDenied else AuthFailed)
     | _ \<Rightarrow> Anonymous)"

datatype registry_answer = Registered nat | Continue | DrainRunner | Rejected nat string

definition runner_register_view ::
    "timestamp \<Rightarrow> string \<Rightarrow> string \<Rightarrow> registration \<Rightarrow> string \<Rightarrow> string \<Rightarrow> db \<Rightarrow> registry_answer outcome" where
  "runner_register_view now clear token g organization_id pool_key d =
    (case register_runner now clear token g organization_id pool_key d of
       Inl (Domain DomainValidationError code) \<Rightarrow> (d, Inr (Rejected 400 code))
     | Inl er \<Rightarrow> (d, Inl er)
     | Inr (d, j) \<Rightarrow> (d, Inr (Registered j)))"

text \<open>\<open>auth\<close> is the authenticated runner, if the token was its own.\<close>

definition runner_heartbeat_view ::
    "timestamp \<Rightarrow> nat option \<Rightarrow> string \<Rightarrow> string \<Rightarrow> string \<Rightarrow> string \<Rightarrow> db \<Rightarrow> registry_answer outcome" where
  "runner_heartbeat_view now auth supplied header version hostname d =
    (case auth of
       None \<Rightarrow> (d, Inr (Rejected 400 ''runner_id_not_resolved''))
     | Some i \<Rightarrow>
        if supplied \<noteq> [] \<and> supplied \<noteq> id_str i \<or> header \<noteq> [] \<and> header \<noteq> id_str i
          then (d, Inr (Rejected 403 ''runner_id_mismatch''))
        else (case tget (runners d) i of
            None \<Rightarrow> (d, Inr (Rejected 404 ''runner_not_found''))
          | Some r \<Rightarrow>
             if rn_status r \<in> {RnRevoked, RnDisabled, RnOffline}
               then (d, Inr (Rejected 403 (runner_status_str (rn_status r))))
             else (case update_runner_heartbeat now i r version hostname d of
                 Inl er \<Rightarrow> (d, Inl er)
               | Inr d' \<Rightarrow>
                  (d', Inr (if rn_status (beat_row now r version hostname r) = RnDraining \<or>
                       map_option pl_status (tget (runner_pools d) (rn_pool r)) = Some PoolDraining
                     then DrainRunner else Continue)))))"

section \<open>Facts\<close>

lemma world_registry [intro]:
  assumes "world_grows d d1"
  shows "world_grows d (d1\<lparr>runners := rs\<rparr>)" and "world_grows d (d1\<lparr>runner_pools := ps\<rparr>)"
    and "world_grows d (d1\<lparr>reg_tokens := ts\<rparr>)" and "world_grows d (d1\<lparr>routes := ros\<rparr>)"
    and "world_grows d (d1\<lparr>next_id := n\<rparr>)"
  by (rule world.trans [OF assms], rule world_same; simp add: still_part_def approval_part_def)+

lemma save_row_Inr: "save_row i t f = Inr t' \<longleftrightarrow> t' = tupd i f t \<and> tget t i \<noteq> None"
  by (auto simp: save_row_def)

lemma save_runner_Inr: "save_runner i f d = Inr d' \<longleftrightarrow> d' = d\<lparr>runners := tupd i f (runners d)\<rparr> \<and> tget (runners d) i \<noteq> None"
  by (auto simp: save_runner_def save_row_Inr res_bind_eq_Inr)

lemma save_pool_Inr: "save_pool i f d = Inr d' \<longleftrightarrow> d' = d\<lparr>runner_pools := tupd i f (runner_pools d)\<rparr> \<and> tget (runner_pools d) i \<noteq> None"
  by (auto simp: save_pool_def save_row_Inr res_bind_eq_Inr)

lemmas registry_defs = drain_pool_def disable_pool_def reactivate_pool_def drain_runner_def disable_runner_def
  revoke_runner_def revoke_registration_token_def deactivate_route_def reactivate_route_def
  update_runner_heartbeat_def save_runner_Inr save_pool_Inr save_row_Inr

lemma registry_worlds [world_rules]:
  "drain_pool now i pl d = Inr d' \<Longrightarrow> world_grows d d'"
  "disable_pool now i pl d = Inr d' \<Longrightarrow> world_grows d d'"
  "reactivate_pool i pl d = Inr d' \<Longrightarrow> world_grows d d'"
  "drain_runner now i rn d = Inr d' \<Longrightarrow> world_grows d d'"
  "disable_runner now i rn d = Inr d' \<Longrightarrow> world_grows d d'"
  "revoke_runner now i rn d = Inr d' \<Longrightarrow> world_grows d d'"
  "revoke_registration_token now i rt d = Inr d' \<Longrightarrow> world_grows d d'"
  "deactivate_route i ro d = Inr d' \<Longrightarrow> world_grows d d'"
  "reactivate_route i ro d = Inr d' \<Longrightarrow> world_grows d d'"
  "update_runner_heartbeat now i rn ve ho d = Inr d' \<Longrightarrow> world_grows d d'"
  by (auto simp: registry_defs res_bind_eq_Inr intro: world.refl split: if_splits option.splits)

text \<open>The token, the pool and the row of a registration.\<close>

lemma valid_tokenE:
  assumes "validate_registration_token now token oid key d = Inr (i, t, p)"
  shows "(i, t) \<in> set (reg_tokens d)" and "rt_token_hash t = hash_token token" and "rt_revoked_at t = None"
    and "now \<le> rt_expires_at t" and "rt_used_count t < rt_max_registrations t"
    and "tget (runner_pools d) (rt_pool t) = Some p" and "pl_org p = rt_org t" and "pl_status p = PoolActive"
    and "oid \<noteq> [] \<longrightarrow> id_str (rt_org t) = oid" and "key \<noteq> [] \<longrightarrow> pl_key p = key"
  using assms unfolding validate_registration_token_def
  by (auto split: option.splits if_splits dest!: first_of_SomeD simp: not_le)

lemma existing_runnerE:
  assumes "existing_runner pool fp d = Some (j, r)"
  shows "(j, r) \<in> set (runners d)" and "rn_pool r = pool" and "rn_fingerprint r = fp" and "rn_status r \<noteq> RnRevoked"
    and "fp \<noteq> []"
  using assms unfolding existing_runner_def by (auto split: if_splits dest!: first_of_SomeD)

lemma put_runner_cases:
  assumes "put_runner now t g hash d = Inr (d', j)"
  obtains (renewed) r where "existing_runner (rt_pool t) (rg_fingerprint g) d = Some (j, r)"
      and "d' = d\<lparr>runners := tupd j (renewed_runner now t g hash) (runners d)\<rparr>"
      and "\<not> token_hash_taken hash (Some j) d"
    | (new) "existing_runner (rt_pool t) (rg_fingerprint g) d = None" and "j = next_id d"
      and "d' = d\<lparr>next_id := Suc (next_id d), runners := tins j (new_runner now t g hash) (runners d)\<rparr>"
      and "\<not> token_hash_taken hash None d"
  using assms unfolding put_runner_def fresh_def by (auto split: option.splits if_splits)

lemma register_stages:
  assumes "register_runner now clear token g oid key d = Inr (d', j)"
  obtains i t p d1 ev where "validate_registration_token now token oid key d = Inr (i, t, p)"
    and "put_runner now t g (hash_token clear) d = Inr (d1, j)"
    and "d' = d1\<lparr>reg_tokens := tupd i (\<lambda>t. t\<lparr>rt_used_count := Suc (rt_used_count t)\<rparr>) (reg_tokens d1),
           audit_log := audit_log d1 @ [ev]\<rparr>"
proof -
  from assms obtain i t p d1 where s: "validate_registration_token now token oid key d = Inr (i, t, p)"
      "put_runner now t g (hash_token clear) d = Inr (d1, j)"
    and a: "audit_emit now (rt_org t) \<lparr>actor_type = ActorRunner, actor_id = id_str j, actor_label = rg_display_name g\<rparr>
         ''runner.registered'' ''runner'' j [
           (''pool_key'', JStr (pl_key p)), (''pool_id'', JStr (id_str (rt_pool t))),
           (''runner_version'', JStr (rg_version g)), (''hostname'', JStr (rg_hostname g))]
         (d1\<lparr>reg_tokens := tupd i (\<lambda>t. t\<lparr>rt_used_count := Suc (rt_used_count t)\<rparr>) (reg_tokens d1)\<rparr>) = Inr d'"
    unfolding register_runner_def Let_def by (auto simp: res_bind_eq_Inr)
  from audit_emit_Inr [OF a] obtain ev where "d' = d1\<lparr>reg_tokens := tupd i (\<lambda>t. t\<lparr>rt_used_count := Suc (rt_used_count t)\<rparr>) (reg_tokens d1),
           audit_log := audit_log d1 @ [ev]\<rparr>"
    by auto
  with s that show ?thesis by blast
qed

lemma put_runner_world: "put_runner now t g hash d = Inr (d', j) \<Longrightarrow> world_grows d d'"
proof (erule put_runner_cases)
  assume "d' = d\<lparr>next_id := Suc (next_id d), runners := tins j (new_runner now t g hash) (runners d)\<rparr>"
  then show "world_grows d d'" by (simp only:) (intro world_registry world.refl)
qed (simp only:, intro world_registry world.refl)

lemma register_runner_world [world_rules]:
  assumes "register_runner now clear token g oid key d = Inr (d', j)"
  shows "world_grows d d'"
  using assms unfolding register_runner_def Let_def
  by (auto simp: res_bind_eq_Inr intro: world_emit world_registry dest: put_runner_world)

lemma create_registration_token_world [world_rules]:
  "create_registration_token org pool pl clear ex mx ls cs d = Inr (d', i) \<Longrightarrow> world_grows d d'"
  unfolding create_registration_token_def fresh_def
  by (auto split: if_splits intro!: world_registry intro: world.refl)

lemma offline_one_world: "offline_one now th sb i d = Inr (d', b) \<Longrightarrow> world_grows d d'"
  unfolding offline_one_def
  by (auto simp: res_bind_eq_Inr intro: world.refl world_emit world_registry split: option.splits if_splits)

lemma offline_all_world: "offline_all now th sb is m d = (d', r) \<Longrightarrow> world_grows d d'"
proof (induction "is" arbitrary: m d)
  case (Cons i "is")
  then show ?case
    by (auto split: sum.splits prod.splits intro: world.refl world.trans dest!: offline_one_world)
qed (auto intro: world.refl)

lemma mark_stale_world [world_rules]: "mark_stale_runners_offline now s d = (d', r) \<Longrightarrow> world_grows d d'"
  unfolding mark_stale_runners_offline_def Let_def by (rule offline_all_world)

lemma runner_register_view_world [world_rules]:
  "runner_register_view now clear token g oid key d = (d', a) \<Longrightarrow> world_grows d d'"
  unfolding runner_register_view_def
  by (auto split: sum.splits prod.splits err.splits err_kind.splits intro: world.refl register_runner_world)

lemma runner_heartbeat_view_world [world_rules]:
  "runner_heartbeat_view now au su he ve ho d = (d', a) \<Longrightarrow> world_grows d d'"
  unfolding runner_heartbeat_view_def
  by (auto split: sum.splits option.splits if_splits intro: world.refl registry_worlds(10))

section \<open>The registry as a transition system\<close>

text \<open>A service that is given a copy of a row is given the current one.\<close>

inductive registry_step :: "db \<Rightarrow> db \<Rightarrow> bool" where
  token: "create_registration_token org pool pl clear ex mx ls cs d = Inr (d', i) \<Longrightarrow> registry_step d d'"
| registered: "register_runner now clear token g oid key d = Inr (d', j) \<Longrightarrow> registry_step d d'"
| drained: "tget (runners d) i = Some r \<Longrightarrow> drain_runner now i r d = Inr d' \<Longrightarrow> registry_step d d'"
| disabled: "tget (runners d) i = Some r \<Longrightarrow> disable_runner now i r d = Inr d' \<Longrightarrow> registry_step d d'"
| revoked: "tget (runners d) i = Some r \<Longrightarrow> revoke_runner now i r d = Inr d' \<Longrightarrow> registry_step d d'"
| token_revoked: "tget (reg_tokens d) i = Some t \<Longrightarrow> revoke_registration_token now i t d = Inr d' \<Longrightarrow> registry_step d d'"
| heartbeat: "tget (runners d) i = Some r \<Longrightarrow> update_runner_heartbeat now i r ve ho d = Inr d' \<Longrightarrow> registry_step d d'"
| watchdog: "mark_stale_runners_offline now s d = (d', res) \<Longrightarrow> registry_step d d'"

definition registry_ok :: "db \<Rightarrow> bool" where
  "registry_ok d \<longleftrightarrow> twf (runners d) \<and> twf (reg_tokens d) \<and>
     (\<forall>k \<in> tkeys (runners d) \<union> tkeys (reg_tokens d). k < next_id d) \<and>
     (\<forall>(i, t) \<in> set (reg_tokens d). rt_used_count t \<le> rt_max_registrations t)"

text \<open>What a step may do to the rows: a revoked runner keeps its row, and tokens stay within bounds.\<close>

definition stays_revoked :: "db \<Rightarrow> db \<Rightarrow> bool" where
  "stays_revoked d d' \<longleftrightarrow> (\<forall>i r. tget (runners d) i = Some r \<and> rn_status r = RnRevoked \<longrightarrow>
     (\<exists>r'. tget (runners d') i = Some r' \<and> rn_status r' = RnRevoked \<and> rn_token_hash r' = rn_token_hash r))"

definition registry_kept :: "db \<Rightarrow> db \<Rightarrow> bool" where
  "registry_kept d d' \<longleftrightarrow> (registry_ok d \<longrightarrow> registry_ok d' \<and> stays_revoked d d')"

lemma registry_kept_refl [intro]: "registry_kept d d"
  by (simp add: registry_kept_def stays_revoked_def)

lemma stays_revoked_trans: "stays_revoked d d1 \<Longrightarrow> stays_revoked d1 d' \<Longrightarrow> stays_revoked d d'"
  unfolding stays_revoked_def by (metis (no_types, lifting))

lemma registry_kept_trans: "registry_kept d d1 \<Longrightarrow> registry_kept d1 d' \<Longrightarrow> registry_kept d d'"
  unfolding registry_kept_def by (blast intro: stays_revoked_trans)

lemma kept_runner:
  assumes "runners d' = tupd i f (runners d)" and "reg_tokens d' = reg_tokens d" and "next_id d' = next_id d"
    and "\<And>r. tget (runners d) i = Some r \<Longrightarrow> rn_status r = RnRevoked \<Longrightarrow> rn_status (f r) = RnRevoked \<and> rn_token_hash (f r) = rn_token_hash r"
  shows "registry_kept d d'"
  using assms by (auto simp: registry_kept_def registry_ok_def stays_revoked_def table_simps)

lemma kept_token:
  assumes "reg_tokens d' = tupd i f (reg_tokens d)" and "runners d' = runners d" and "next_id d' = next_id d"
    and "\<And>t. (i, t) \<in> set (reg_tokens d) \<Longrightarrow> rt_used_count t \<le> rt_max_registrations t \<Longrightarrow>
           rt_used_count (f t) \<le> rt_max_registrations (f t)"
  shows "registry_kept d d'"
  using assms by (fastforce simp: registry_kept_def registry_ok_def stays_revoked_def table_simps set_tupd)

lemma kept_new_runner:
  assumes "runners d' = tins (next_id d) r (runners d)" and "reg_tokens d' = reg_tokens d" and "next_id d' = Suc (next_id d)"
  shows "registry_kept d d'"
  using assms by (auto simp: registry_kept_def registry_ok_def stays_revoked_def table_simps intro!: twf_tins less_SucI)

lemma kept_new_token:
  assumes "reg_tokens d' = tins (next_id d) t (reg_tokens d)" and "runners d' = runners d" and "next_id d' = Suc (next_id d)"
    and "rt_used_count t \<le> rt_max_registrations t"
  shows "registry_kept d d'"
proof -
  have "(i, t') \<in> set (reg_tokens d') \<longleftrightarrow> (i, t') \<in> set (reg_tokens d) \<or> (i, t') = (next_id d, t)" for i t'
    by (auto simp: assms(1) tins_def)
  with assms show ?thesis
    by (auto simp: registry_kept_def registry_ok_def stays_revoked_def table_simps intro!: twf_tins less_SucI)
qed

lemma kept_register:
  assumes "register_runner now clear token g oid key d = Inr (d', j)"
  shows "registry_kept d d'"
proof (rule register_stages [OF assms])
  fix i t p d1 ev
  assume v: "validate_registration_token now token oid key d = Inr (i, t, p)"
    and pt: "put_runner now t g (hash_token clear) d = Inr (d1, j)"
    and d': "d' = d1\<lparr>reg_tokens := tupd i (\<lambda>t. t\<lparr>rt_used_count := Suc (rt_used_count t)\<rparr>) (reg_tokens d1),
           audit_log := audit_log d1 @ [ev]\<rparr>"
  show ?thesis
  proof (cases "registry_ok d")
    case True
    have d1: "registry_kept d d1 \<and> reg_tokens d1 = reg_tokens d"
      using pt
    proof (cases rule: put_runner_cases)
      case (renewed r)
      from True existing_runnerE [OF renewed(1)] have "tget (runners d) j = Some r" "rn_status r \<noteq> RnRevoked"
        by (auto simp: registry_ok_def intro: tget_unique)
      with renewed show ?thesis
        by (auto intro!: kept_runner [where i = j and f = "renewed_runner now t g (hash_token clear)"])
    next
      case new
      then show ?thesis by (auto intro!: kept_new_runner [where r = "new_runner now t g (hash_token clear)"])
    qed
    have "registry_kept d1 d'"
    proof (rule kept_token [where i = i and f = "\<lambda>t. t\<lparr>rt_used_count := Suc (rt_used_count t)\<rparr>"])
      fix t' assume "(i, t') \<in> set (reg_tokens d1)"
      with d1 have "(i, t') \<in> set (reg_tokens d)" by simp
      with True valid_tokenE(1) [OF v] have "t' = t"
        unfolding registry_ok_def by (metis option.inject tget_unique)
      with valid_tokenE(5) [OF v] show "rt_used_count (t'\<lparr>rt_used_count := Suc (rt_used_count t')\<rparr>)
          \<le> rt_max_registrations (t'\<lparr>rt_used_count := Suc (rt_used_count t')\<rparr>)" by simp
    qed (simp_all add: d')
    with d1 show ?thesis by (blast intro: registry_kept_trans)
  qed (simp add: registry_kept_def)
qed

lemma offline_one_kept:
  assumes "offline_one now th sb i d = Inr (d', b)"
  shows "registry_kept d d'"
proof (cases "d' = d")
  case False
  with assms obtain r md where r: "tget (runners d) i = Some r" "stale_runner sb r"
    and a: "audit_emit now (rn_org r) (system_actor ''Django system'') ''runner.went_offline'' ''runner'' i md
      (d\<lparr>runners := tupd i (\<lambda>r. r\<lparr>rn_status := RnOffline\<rparr>) (runners d)\<rparr>) = Inr d'"
    unfolding offline_one_def by (auto simp: res_bind_eq_Inr split: option.splits if_splits)
  from r(2) have "rn_status r \<noteq> RnRevoked" by (auto simp: stale_runner_def)
  with audit_emit_Inr [OF a] r(1) show ?thesis
    by (auto intro!: kept_runner [where i = i and f = "\<lambda>r. r\<lparr>rn_status := RnOffline\<rparr>"])
qed auto

lemma offline_all_kept: "offline_all now th sb is m d = (d', r) \<Longrightarrow> registry_kept d d'"
proof (induction "is" arbitrary: m d)
  case (Cons i "is")
  then show ?case
    by (auto split: sum.splits prod.splits intro: registry_kept_trans dest!: offline_one_kept)
qed auto

lemma registry_step_kept: "registry_step d d' \<Longrightarrow> registry_kept d d'"
proof (induction rule: registry_step.induct)
  case (token org pool pl clear ex mx ls cs d d' i)
  then show ?case
    unfolding create_registration_token_def fresh_def by (auto split: if_splits intro!: kept_new_token)
next
  case (drained d i r now d')
  then show ?case by (auto simp: registry_defs split: if_splits intro!: kept_runner)
next
  case (disabled d i r now d')
  then show ?case by (auto simp: registry_defs split: if_splits intro!: kept_runner)
next
  case (revoked d i r now d')
  then show ?case by (auto simp: registry_defs split: if_splits intro!: kept_runner)
next
  case (token_revoked d i t now d')
  then show ?case by (auto simp: registry_defs res_bind_eq_Inr split: if_splits intro!: kept_token)
next
  case (heartbeat d i r now ve ho d')
  then show ?case by (auto simp: registry_defs beat_row_def Let_def split: if_splits intro!: kept_runner)
next
  case (watchdog now s d d' res)
  then show ?case unfolding mark_stale_runners_offline_def Let_def by (rule offline_all_kept)
qed (rule kept_register)

lemma registry_run_kept: "registry_step\<^sup>*\<^sup>* d d' \<Longrightarrow> registry_kept d d'"
  by (induction rule: rtranclp_induct) (auto intro: registry_kept_trans registry_step_kept)

section \<open>Properties\<close>


text \<open>
  C11: a revoked runner stays out: whatever the registry does, its row stays revoked, its bearer token
  is refused, no heartbeat revives it, and no registration token is ever used more often than it allows.
\<close>

theorem revoked_runner_stays_out:
  assumes "registry_step\<^sup>*\<^sup>* d d'" and "registry_ok d"
    and "tget (runners d) i = Some r" and "rn_status r = RnRevoked"
  shows "(\<exists>r'. tget (runners d') i = Some r' \<and> rn_status r' = RnRevoked \<and> rn_token_hash r' = rn_token_hash r) \<and>
    authenticate_runner_token secret d' \<noteq> Some (AuthRunner i p org) \<and>
    snd (runner_heartbeat_view now (Some i) [] [] ve ho d') = Inr (Rejected 403 (runner_status_str RnRevoked)) \<and>
    (\<forall>(k, t) \<in> set (reg_tokens d'). rt_used_count t \<le> rt_max_registrations t)"
proof (intro conjI)
  from registry_run_kept [OF assms(1)] assms(2) have ok: "registry_ok d'" and st: "stays_revoked d d'"
    by (auto simp: registry_kept_def)
  from st assms(3,4) show r': "\<exists>r'. tget (runners d') i = Some r' \<and> rn_status r' = RnRevoked \<and> rn_token_hash r' = rn_token_hash r"
    by (simp add: stays_revoked_def)
  show "authenticate_runner_token secret d' \<noteq> Some (AuthRunner i p org)"
  proof
    assume "authenticate_runner_token secret d' = Some (AuthRunner i p org)"
    then obtain r1 where "(i, r1) \<in> set (runners d')" "rn_status r1 \<noteq> RnRevoked"
      unfolding authenticate_runner_token_def by (auto split: option.splits if_splits dest!: first_of_SomeD)
    with ok r' show False by (auto simp: registry_ok_def dest: tget_unique)
  qed
  from r' show "snd (runner_heartbeat_view now (Some i) [] [] ve ho d') = Inr (Rejected 403 (runner_status_str RnRevoked))"
    unfolding runner_heartbeat_view_def by auto
  from ok show "\<forall>(k, t) \<in> set (reg_tokens d'). rt_used_count t \<le> rt_max_registrations t"
    by (simp add: registry_ok_def)
qed

section \<open>Witnesses\<close>

definition sample_registration :: registration where
  "sample_registration = \<lparr>rg_display_name = ''r'', rg_version = ''1'', rg_fingerprint = ''fp'', rg_hostname = ''h'',
     rg_labels = [(''zone'', ''a'')], rg_capabilities = [''shell'']\<rparr>"

definition registry_db :: db where
  "registry_db = empty_db\<lparr>next_id := 10,
     runner_pools := [(2, \<lparr>pl_org = 1, pl_key = ''p'', pl_status = PoolActive, pl_max_concurrent = 1,
       pl_default_non_change = False, pl_capabilities = JObj [], pl_drain_requested_at = None, pl_disabled_at = None\<rparr>)],
     reg_tokens := [(3, \<lparr>rt_org = 1, rt_pool = 2, rt_token_hash = hash_token ''t'', rt_label_policy = [''zone''],
       rt_capability_policy = [], rt_expires_at = 100, rt_max_registrations = 1, rt_used_count = 0, rt_revoked_at = None\<rparr>)],
     runners := [(4, (new_runner 0 \<lparr>rt_org = 1, rt_pool = 2, rt_token_hash = [], rt_label_policy = [],
       rt_capability_policy = [], rt_expires_at = 0, rt_max_registrations = 1, rt_used_count = 0, rt_revoked_at = None\<rparr>
       sample_registration [])\<lparr>rn_status := RnRevoked\<rparr>)]\<rparr>"

lemma registry_db_ok: "registry_ok registry_db"
  by (simp add: registry_ok_def registry_db_def empty_db_def twf_def tkeys_def)

lemma registry_keys: "\<not> sensitive ''pool_key''" "\<not> sensitive ''pool_id''" "\<not> sensitive ''runner_version''"
    "\<not> sensitive ''hostname''"
  by (simp_all add: sensitive_def lower_def lower_char_def code_point_def REJECTED_METADATA_KEYS_def FORBIDDEN_METADATA_KEYS_def)

lemma hash_not_empty: "[] \<noteq> hash_token s"
  using length_sha256_hex [of "utf8 s"] by (metis hash_token_def list.size(3) zero_neq_numeral)


theorem revoked_runner_stays_out_witness:
  "\<exists>d'. revoke_registration_token 50 3 (the (tget (reg_tokens registry_db) 3)) registry_db = Inr d' \<and>
     authenticate_runner_token ''x'' d' \<noteq> Some (AuthRunner 4 2 1)"
proof -
  let ?t = "the (tget (reg_tokens registry_db) 3)"
  let ?d = "registry_db\<lparr>reg_tokens := tupd 3 (\<lambda>t. t\<lparr>rt_revoked_at := Some 50\<rparr>) (reg_tokens registry_db)\<rparr>"
  have r: "revoke_registration_token 50 3 ?t registry_db = Inr ?d" "tget (reg_tokens registry_db) 3 = Some ?t"
    by (simp_all add: revoke_registration_token_def save_row_def registry_db_def tget_def)
  have "registry_step\<^sup>*\<^sup>* registry_db ?d"
    using registry_step.token_revoked [OF r(2,1)] by blast
  moreover have "tget (runners registry_db) 4 = Some (the (tget (runners registry_db) 4))"
      "rn_status (the (tget (runners registry_db) 4)) = RnRevoked"
    by (simp_all add: registry_db_def tget_def)
  ultimately have "authenticate_runner_token ''x'' ?d \<noteq> Some (AuthRunner 4 2 1)"
    using revoked_runner_stays_out [OF _ registry_db_ok, of ?d 4] by blast
  with r(1) show ?thesis by blast
qed

end
