(* ===== verification/Ai_Client.thy ===== *)
theory Ai_Client
  imports Workflow_Validation
begin

text \<open>
  The boundary to the AI service: the HTTP client of \<open>apps/runbooks/ai_client.py\<close>, which checks the
  shape of every answer before it becomes a typed value, and the transform clients of
  \<open>apps/workflows/internal_clients.py\<close>: the one that merges a parse with its enrichment, and the local
  deterministic one. The transport is a parameter: it maps a path and a payload to an answer.
  Values the client does not check the type of are JSON values.
\<close>

section \<open>The answers\<close>

record candidate_step =
  cs_key :: json
  cs_name :: json
  cs_type :: json
  cs_risk :: json
  cs_requires_approval :: bool
  cs_command :: "string option"

record candidate =
  ca_request :: json
  ca_title :: json
  ca_steps :: "candidate_step list"
  ca_warnings :: "json list"

record enrichment_step =
  es_key :: json
  es_risk :: string
  es_requires_approval :: bool

record enrichment =
  en_request :: json
  en_steps :: "enrichment_step list"
  en_warnings :: "json list"

record execution_summary =
  sm_request :: json
  sm_summary :: string
  sm_outcomes :: "json list"

abbreviation contract_error :: "'a result" where
  "contract_error \<equiv> Inl (PyError ''AiServiceContractError'')"

definition list_or_empty :: "json \<Rightarrow> json list" where
  "list_or_empty v = (case v of JArr xs \<Rightarrow> xs | _ \<Rightarrow> [])"

definition validate_and_map_summary :: "json \<Rightarrow> execution_summary result" where
  "validate_and_map_summary data =
    (case data of
       JObj f \<Rightarrow>
        (case fget f ''summary'' (JStr []) of
           JStr s \<Rightarrow> Inr \<lparr>sm_request = fget f ''request_id'' (JStr []), sm_summary = s,
             sm_outcomes = list_or_empty (fget f ''key_outcomes'' (JArr []))\<rparr>
         | _ \<Rightarrow> contract_error)
     | _ \<Rightarrow> contract_error)"

text \<open>One step; the state is the keys met and the steps mapped so far.\<close>

definition map_candidate_step :: "json list \<times> candidate_step list \<Rightarrow> json \<Rightarrow> (json list \<times> candidate_step list) result" where
  "map_candidate_step acc raw =
    (case (acc, raw) of
       ((seen, steps), JObj f) \<Rightarrow>
        (let key = fget f ''step_key'' JNull; name = fget f ''name'' JNull;
             type = fget f ''step_type'' JNull; risk = fget f ''risk_level'' JNull
         in if \<not> (truthy key \<and> truthy name \<and> truthy type \<and> truthy risk) then contract_error
            else (case fget f ''requires_approval'' (JBool False) of
                JBool ra \<Rightarrow> res_bind (in_set key seen) (\<lambda>dup.
                  if dup then contract_error
                  else Inr (key # seen, steps @ [\<lparr>cs_key = key, cs_name = name, cs_type = type, cs_risk = risk,
                    cs_requires_approval = ra,
                    cs_command = (case fget f ''command'' JNull of JStr c \<Rightarrow> Some c | _ \<Rightarrow> None)\<rparr>]))
              | _ \<Rightarrow> contract_error))
     | _ \<Rightarrow> contract_error)"

definition validate_and_map_candidate :: "json \<Rightarrow> candidate result" where
  "validate_and_map_candidate data =
    (case data of
       JObj f \<Rightarrow>
        (if \<not> truthy (fget f ''workflow_title'' (JStr [])) then contract_error
         else (case fget f ''steps'' JNull of
             JArr (s # ss) \<Rightarrow> res_bind (res_fold map_candidate_step ([], []) (s # ss)) (\<lambda>(_, steps).
               Inr \<lparr>ca_request = fget f ''request_id'' (JStr []), ca_title = fget f ''workflow_title'' (JStr []),
                 ca_steps = steps, ca_warnings = list_or_empty (fget f ''warnings'' (JArr []))\<rparr>)
           | _ \<Rightarrow> contract_error))
     | _ \<Rightarrow> contract_error)"

definition map_enrichment_step :: "json list \<times> enrichment_step list \<Rightarrow> json \<Rightarrow> (json list \<times> enrichment_step list) result" where
  "map_enrichment_step acc raw =
    (case (acc, raw) of
       ((seen, steps), JObj f) \<Rightarrow>
        (let key = fget f ''step_key'' JNull
         in if \<not> truthy key then contract_error
            else res_bind (in_set key seen) (\<lambda>dup.
              if dup then contract_error
              else (case (fget f ''risk_level'' JNull, fget f ''requires_approval'' JNull) of
                  (JStr (c # cs), JBool ra) \<Rightarrow>
                    Inr (key # seen, steps @ [\<lparr>es_key = key, es_risk = c # cs, es_requires_approval = ra\<rparr>])
                | _ \<Rightarrow> contract_error)))
     | _ \<Rightarrow> contract_error)"

definition validate_and_map_enrichment :: "json \<Rightarrow> enrichment result" where
  "validate_and_map_enrichment data =
    (case data of
       JObj f \<Rightarrow>
        (case fget f ''steps'' JNull of
           JArr (s # ss) \<Rightarrow> res_bind (res_fold map_enrichment_step ([], []) (s # ss)) (\<lambda>(_, steps).
             Inr \<lparr>en_request = fget f ''request_id'' (JStr []), en_steps = steps,
               en_warnings = list_or_empty (fget f ''warnings'' (JArr []))\<rparr>)
         | _ \<Rightarrow> contract_error)
     | _ \<Rightarrow> contract_error)"

section \<open>The HTTP client\<close>

text \<open>What the transport does with a request: \<open>Reply status body\<close>, the body \<open>None\<close> if it is not JSON.\<close>

datatype http_reply = ConnectError | TimeoutException | RequestError | Reply nat "json option"

type_synonym transport = "string \<Rightarrow> json \<Rightarrow> http_reply"

definition answer_of :: "http_reply \<Rightarrow> json result" where
  "answer_of r =
    (case r of
       ConnectError \<Rightarrow> Inl (PyError ''AiServiceUnavailableError'')
     | TimeoutException \<Rightarrow> Inl (PyError ''AiServiceTimeoutError'')
     | RequestError \<Rightarrow> Inl (PyError ''AiServiceUnavailableError'')
     | Reply status body \<Rightarrow>
        if status \<noteq> 200 then Inl (PyError ''AiServiceBadResponseError'')
        else (case body of None \<Rightarrow> Inl (PyError ''AiServiceBadResponseError'') | Some v \<Rightarrow> Inr v))"

definition parse_runbook_to_workflow_candidate ::
    "transport \<Rightarrow> string \<Rightarrow> string \<Rightarrow> string \<Rightarrow> string \<Rightarrow> candidate result" where
  "parse_runbook_to_workflow_candidate post request_id runbook_id title raw_content =
    res_bind (answer_of (post ''/parse/runbook'' (JObj [(''request_id'', JStr request_id),
      (''runbook'', JObj [(''id'', JStr runbook_id), (''title'', JStr title), (''raw_content'', JStr raw_content)])])))
      validate_and_map_candidate"

definition step_payload :: "candidate_step \<Rightarrow> json" where
  "step_payload s = JObj ([(''step_key'', cs_key s), (''name'', cs_name s), (''step_type'', cs_type s),
     (''risk_level'', cs_risk s), (''requires_approval'', JBool (cs_requires_approval s))]
     @ (case cs_command s of None \<Rightarrow> [] | Some c \<Rightarrow> [(''command'', JStr c)]))"

definition enrich_workflow_candidate ::
    "transport \<Rightarrow> string \<Rightarrow> json \<Rightarrow> candidate_step list \<Rightarrow> string option \<Rightarrow> enrichment result" where
  "enrich_workflow_candidate post request_id title steps raw_content =
    res_bind (answer_of (post ''/enrich/workflow'' (JObj ([(''request_id'', JStr request_id),
      (''workflow_title'', title), (''steps'', JArr (map step_payload steps))]
      @ (case raw_content of None \<Rightarrow> [] | Some r \<Rightarrow> [(''raw_content'', JStr r)])))))
      validate_and_map_enrichment"

definition summarize_execution ::
    "transport \<Rightarrow> string \<Rightarrow> string \<Rightarrow> string \<Rightarrow> string \<Rightarrow> json list \<Rightarrow> execution_summary result" where
  "summarize_execution post request_id execution_id title status steps =
    res_bind (answer_of (post ''/summarize/execution'' (JObj [(''request_id'', JStr request_id),
      (''execution_id'', JStr execution_id), (''workflow_title'', JStr title), (''status'', JStr status),
      (''steps'', JArr steps)])))
      validate_and_map_summary"

section \<open>Merging a parse with its enrichment\<close>

definition py_mem :: "json \<Rightarrow> json list \<Rightarrow> bool" where
  "py_mem v vs \<longleftrightarrow> (\<exists>w \<in> set vs. py_eq v w)"

fun no_repeats :: "json list \<Rightarrow> bool" where
  "no_repeats [] = True"
| "no_repeats (v # vs) = (\<not> py_mem v vs \<and> no_repeats vs)"

text \<open>
  \<open>sorted\<close> does not compare a string with a number, and the error message joins the keys: one that is not
  a string is a \<open>TypeError\<close>.
\<close>

definition sortable :: "json list \<Rightarrow> bool" where
  "sortable vs \<longleftrightarrow> list_all is_str vs \<or> list_all (\<lambda>v. \<not> is_str v) vs"

definition key_mismatch :: "json list \<Rightarrow> 'a result" where
  "key_mismatch vs = (if list_all is_str vs then contract_error else Inl (PyError ''TypeError''))"

definition enriched_step :: "enrichment_step list \<Rightarrow> candidate_step \<Rightarrow> candidate_step result" where
  "enriched_step es s =
    (case first_of (rev (filter (\<lambda>e. py_eq (cs_key s) (es_key e)) es)) of
       None \<Rightarrow> Inl (PyError ''KeyError'')
     | Some e \<Rightarrow> Inr (s\<lparr>cs_risk := JStr (es_risk e), cs_requires_approval := es_requires_approval e\<rparr>))"

definition merge_enrichment :: "candidate \<Rightarrow> enrichment \<Rightarrow> candidate result" where
  "merge_enrichment parsed en =
    (let parsed_keys = map cs_key (ca_steps parsed); enrich_keys = map es_key (en_steps en);
         missing = filter (\<lambda>k. \<not> py_mem k enrich_keys) parsed_keys;
         extra = filter (\<lambda>k. \<not> py_mem k parsed_keys) enrich_keys
     in if \<not> no_repeats enrich_keys then contract_error
        else if \<not> sortable missing \<or> \<not> sortable extra then Inl (PyError ''TypeError'')
        else if missing \<noteq> [] then key_mismatch missing
        else if extra \<noteq> [] then key_mismatch extra
        else res_bind (res_fold (\<lambda>acc s. res_bind (enriched_step (en_steps en) s) (\<lambda>s. Inr (acc @ [s]))) [] (ca_steps parsed)) (\<lambda>steps.
          Inr (parsed\<lparr>ca_steps := steps, ca_warnings := ca_warnings parsed @ en_warnings en\<rparr>)))"

text \<open>\<open>request_id or str(uuid.uuid4())\<close>: the fresh id is an argument.\<close>

definition http_transform_runbook ::
    "transport \<Rightarrow> string \<Rightarrow> string \<Rightarrow> string \<Rightarrow> string \<Rightarrow> string option \<Rightarrow> candidate result" where
  "http_transform_runbook post new_id title slug raw_content request_id =
    (let request_id = (case request_id of None \<Rightarrow> new_id | Some r \<Rightarrow> if r = [] then new_id else r)
     in res_bind (parse_runbook_to_workflow_candidate post request_id slug title raw_content) (\<lambda>parsed.
        res_bind (enrich_workflow_candidate post request_id (ca_title parsed) (ca_steps parsed) (Some raw_content)) (\<lambda>en.
        merge_enrichment parsed en)))"

section \<open>The local transform\<close>

text \<open>\<open>raw.replace("\r\n", "\n").replace("\r", "\n")\<close>\<close>

fun join_crlf :: "string \<Rightarrow> string" where
  "join_crlf (c # d # cs) =
    (if c = CHR 0x0D \<and> d = CHR 0x0A then CHR 0x0A # join_crlf cs else c # join_crlf (d # cs))"
| "join_crlf s = s"

definition unix_lines :: "string \<Rightarrow> string" where
  "unix_lines s = map (\<lambda>c. if c = CHR 0x0D then CHR 0x0A else c) (join_crlf s)"

text \<open>The text after a marker and its white space: \<open>- \<close>, \<open>* \<close>, \<open>12. \<close> or \<open>12) \<close> at the start.\<close>

definition after_marker :: "string \<Rightarrow> string option" where
  "after_marker s =
    (let rest = (case s of
        [] \<Rightarrow> None
      | c # cs \<Rightarrow>
          if c = CHR ''-'' \<or> c = CHR ''*'' then Some cs
          else if is_digit c then
            (case dropWhile is_digit cs of
               d # ds \<Rightarrow> if d = CHR ''.'' \<or> d = CHR '')'' then Some ds else None
             | [] \<Rightarrow> None)
          else None)
     in case rest of
          Some (d # ds) \<Rightarrow> if is_space d then Some (lstrip ds) else None
        | _ \<Rightarrow> None)"

definition drop_marker :: "string \<Rightarrow> string" where
  "drop_marker s = (case after_marker s of None \<Rightarrow> s | Some r \<Rightarrow> r)"

definition line_candidate :: "string \<Rightarrow> (string \<times> string option) list" where
  "line_candidate line =
    (let s = strip line
     in if s = [] \<or> starts_with ''#'' s then []
        else let s = strip (drop_marker s)
          in if s = [] then []
             else if lower (take 4 s) = ''run:''
               then let command = strip (lstrip (drop 4 s))
                 in [(if command \<noteq> [] then ''run: '' @ command else s, if command \<noteq> [] then Some command else None)]
             else [(s, None)])"

definition extract_candidates :: "string \<Rightarrow> (string \<times> string option) list" where
  "extract_candidates raw_content = concat (map line_candidate (split_on (CHR 0x0A) (unix_lines raw_content)))"

text \<open>\<open>f"step-{idx:03d}"\<close>\<close>

definition stub_key :: "nat \<Rightarrow> string" where
  "stub_key n = ''step-'' @ replicate (3 - length (nat_str n)) (CHR ''0'') @ nat_str n"

definition stub_step :: "nat \<times> string \<times> string option \<Rightarrow> candidate_step" where
  "stub_step p = (case p of (n, text, command) \<Rightarrow>
     \<lparr>cs_key = JStr (stub_key n), cs_name = JStr (take 255 text),
      cs_type = JStr (if command \<noteq> None then ''shell_command'' else ''manual_task''),
      cs_risk = JStr ''medium'', cs_requires_approval = False, cs_command = command\<rparr>)"

definition stub_transform_runbook :: "string \<Rightarrow> string \<Rightarrow> string \<Rightarrow> string option \<Rightarrow> candidate result" where
  "stub_transform_runbook title slug raw_content request_id =
    (let found = extract_candidates raw_content;
         found = (if found = [] then [(if strip title = [] then ''Run procedure'' else strip title, None)] else found)
     in Inr \<lparr>ca_request = JStr (case request_id of None \<Rightarrow> ''stub'' | Some r \<Rightarrow> if r = [] then ''stub'' else r),
         ca_title = JStr title, ca_steps = map stub_step (enumerate 1 found), ca_warnings = []\<rparr>)"

section \<open>Facts\<close>

text \<open>What a checked parse guarantees: truthy keys, names, types and risks, and keys that do not repeat.\<close>

definition step_shape_ok :: "candidate_step \<Rightarrow> bool" where
  "step_shape_ok s \<longleftrightarrow> truthy (cs_key s) \<and> py_hashable (cs_key s) \<and> truthy (cs_name s) \<and> truthy (cs_type s) \<and> truthy (cs_risk s)"

lemma map_candidate_step_Inr:
  assumes "map_candidate_step (seen, steps) raw = Inr acc"
  obtains s where "acc = (cs_key s # seen, steps @ [s])" and "step_shape_ok s" and "\<not> py_mem (cs_key s) seen"
proof -
  from assms obtain key name ty risk ra cmd where
    "acc = (key # seen, steps @ [\<lparr>cs_key = key, cs_name = name, cs_type = ty, cs_risk = risk,
       cs_requires_approval = ra, cs_command = cmd\<rparr>])"
    and "truthy key" "truthy name" "truthy ty" "truthy risk" "in_set key seen = Inr False"
    unfolding map_candidate_step_def by (auto simp: res_bind_eq_Inr Let_def split: json.splits if_splits)
  then show ?thesis
    by (intro that [of "\<lparr>cs_key = key, cs_name = name, cs_type = ty, cs_risk = risk, cs_requires_approval = ra, cs_command = cmd\<rparr>"])
      (auto simp: step_shape_ok_def py_mem_def in_set_def split: if_splits)
qed

lemma candidate_fold:
  assumes "res_fold map_candidate_step (seen, steps) raws = Inr (seen', steps')"
    and "\<forall>s \<in> set steps. step_shape_ok s" and "seen = rev (map cs_key steps)" and "no_repeats seen"
  shows "(\<forall>s \<in> set steps'. step_shape_ok s) \<and> seen' = rev (map cs_key steps') \<and> no_repeats seen' \<and>
    length steps' = length steps + length raws"
  using assms
proof (induction raws arbitrary: seen steps)
  case (Cons raw raws)
  then obtain acc where m: "map_candidate_step (seen, steps) raw = Inr acc"
    and f: "res_fold map_candidate_step acc raws = Inr (seen', steps')"
    by (auto simp: res_bind_eq_Inr)
  from m obtain s where s: "acc = (cs_key s # seen, steps @ [s])" "step_shape_ok s" "\<not> py_mem (cs_key s) seen"
    by (rule map_candidate_step_Inr)
  from Cons.IH [of "cs_key s # seen" "steps @ [s]"] f s Cons.prems show ?case by auto
qed simp

lemma parsed_candidate:
  assumes "validate_and_map_candidate data = Inr c"
  shows "truthy (ca_title c)" and "ca_steps c \<noteq> []" and "\<forall>s \<in> set (ca_steps c). step_shape_ok s"
    and "no_repeats (rev (map cs_key (ca_steps c)))"
proof -
  from assms obtain f s ss seen steps where t: "truthy (fget f ''workflow_title'' (JStr []))"
    and r: "res_fold map_candidate_step ([], []) (s # ss) = Inr (seen, steps)"
    and c: "ca_title c = fget f ''workflow_title'' (JStr [])" "ca_steps c = steps"
    unfolding validate_and_map_candidate_def
    by (auto split: json.splits if_splits list.splits simp: res_bind_eq_Inr simp del: res_fold.simps)
  have f: "(\<forall>s \<in> set steps. step_shape_ok s) \<and> seen = rev (map cs_key steps) \<and> no_repeats seen \<and>
      length steps = length ([] :: candidate_step list) + length (s # ss)"
    by (rule candidate_fold [OF r]) simp_all
  from f [THEN conjunct1] f [THEN conjunct2, THEN conjunct2, THEN conjunct2] t c
  show "truthy (ca_title c)" "ca_steps c \<noteq> []" "\<forall>s \<in> set (ca_steps c). step_shape_ok s" by auto
  from f c(2) show "no_repeats (rev (map cs_key (ca_steps c)))" by metis
qed

definition step_structure :: "candidate_step \<Rightarrow> json \<times> json \<times> json \<times> string option" where
  "step_structure s = (cs_key s, cs_name s, cs_type s, cs_command s)"

lemma enriched_step_Inr:
  assumes "enriched_step es s = Inr s'"
  shows "step_structure s' = step_structure s"
    and "\<exists>e \<in> set es. py_eq (cs_key s) (es_key e) \<and> cs_risk s' = JStr (es_risk e) \<and> cs_requires_approval s' = es_requires_approval e"
  using assms unfolding enriched_step_def
  by (force split: option.splits simp: step_structure_def dest!: first_of_SomeD)+

lemma enriched_fold:
  assumes "res_fold (\<lambda>acc s. res_bind (enriched_step es s) (\<lambda>s. Inr (acc @ [s]))) acc ss = Inr out"
  shows "\<exists>new. out = acc @ new \<and> list_all2 (\<lambda>s s'. step_structure s' = step_structure s \<and>
      (\<exists>e \<in> set es. py_eq (cs_key s) (es_key e) \<and> cs_risk s' = JStr (es_risk e) \<and> cs_requires_approval s' = es_requires_approval e)) ss new"
  using assms
proof (induction ss arbitrary: acc)
  case (Cons s ss)
  then obtain s' where e: "enriched_step es s = Inr s'"
    and r: "res_fold (\<lambda>acc s. res_bind (enriched_step es s) (\<lambda>s. Inr (acc @ [s]))) (acc @ [s']) ss = Inr out"
    by (auto simp: res_bind_eq_Inr)
  from Cons.IH [OF r] enriched_step_Inr [OF e] show ?case by (force simp: list_all2_Cons1)
qed simp

text \<open>Padded numbers do not repeat.\<close>

lemma nat_str_hd: "0 < n \<Longrightarrow> hd (nat_str n) \<noteq> CHR ''0''"
proof (induction n rule: nat_str.induct)
  case (1 n)
  show ?case
  proof (cases "n < 10")
    case True
    have "CHR ''0'' = digit_char 0" unfolding digit_char_def by code_simp
    with True "1.prems" digit_char_inj [of n 0] show ?thesis by (auto simp: nat_str.simps [of n])
  next
    case False
    with "1.IH" show ?thesis by (simp add: nat_str.simps [of n] hd_append)
  qed
qed

lemma drop_padding: "0 < n \<Longrightarrow> dropWhile (\<lambda>c. c = CHR ''0'') (replicate k (CHR ''0'') @ nat_str n) = nat_str n"
  using nat_str_hd [of n] by (cases "nat_str n") (induction k, auto)+

lemma stub_key_inj: "0 < m \<Longrightarrow> 0 < n \<Longrightarrow> stub_key m = stub_key n \<Longrightarrow> m = n"
  unfolding stub_key_def by (metis drop_padding nat_str_inj same_append_eq)

lemma extract_nonempty:
  assumes "(text, command) \<in> set (extract_candidates raw)"
  shows "text \<noteq> []"
  using assms unfolding extract_candidates_def line_candidate_def Let_def
  by (auto split: if_splits)

section \<open>Properties\<close>

text \<open>
  C38: whatever the AI service answers, a transform that succeeds has the title and exactly the steps of a parse
  answer that was checked, each with its key, name, type and command unchanged and in order; the
  enrichment answer only decides a step's risk and whether it needs approval. The keys do not repeat.
\<close>

theorem enrichment_changes_only_risk:
  assumes "http_transform_runbook post new_id title slug raw rq = Inr c"
  shows "\<exists>request p en. parse_runbook_to_workflow_candidate post request slug title raw = Inr p \<and>
      enrich_workflow_candidate post request (ca_title p) (ca_steps p) (Some raw) = Inr en \<and>
      ca_title c = ca_title p \<and> map step_structure (ca_steps c) = map step_structure (ca_steps p) \<and>
      (\<forall>s \<in> set (ca_steps c). \<exists>e \<in> set (en_steps en). py_eq (cs_key s) (es_key e) \<and>
         cs_risk s = JStr (es_risk e) \<and> cs_requires_approval s = es_requires_approval e) \<and>
      ca_steps c \<noteq> [] \<and> no_repeats (rev (map cs_key (ca_steps c)))"
proof -
  from assms obtain request p en where p: "parse_runbook_to_workflow_candidate post request slug title raw = Inr p"
    and e: "enrich_workflow_candidate post request (ca_title p) (ca_steps p) (Some raw) = Inr en"
    and m: "merge_enrichment p en = Inr c"
    unfolding http_transform_runbook_def Let_def by (auto simp: res_bind_eq_Inr)
  from p obtain data where "validate_and_map_candidate data = Inr p"
    unfolding parse_runbook_to_workflow_candidate_def by (auto simp: res_bind_eq_Inr)
  note shape = parsed_candidate [OF this]
  from m obtain steps where f: "res_fold (\<lambda>acc s. res_bind (enriched_step (en_steps en) s) (\<lambda>s. Inr (acc @ [s]))) [] (ca_steps p) = Inr steps"
    and c: "ca_title c = ca_title p" "ca_steps c = steps"
    unfolding merge_enrichment_def Let_def by (auto simp: res_bind_eq_Inr key_mismatch_def split: if_splits)
  from enriched_fold [OF f] have l: "list_all2 (\<lambda>s s'. step_structure s' = step_structure s \<and>
      (\<exists>e \<in> set (en_steps en). py_eq (cs_key s) (es_key e) \<and> cs_risk s' = JStr (es_risk e) \<and>
         cs_requires_approval s' = es_requires_approval e)) (ca_steps p) steps" by auto
  then have same: "map step_structure steps = map step_structure (ca_steps p)"
    by (induction rule: list_all2_induct) auto
  from l have keys: "map cs_key steps = map cs_key (ca_steps p)"
    by (induction rule: list_all2_induct) (auto simp: step_structure_def)
  from l have "\<forall>s \<in> set steps. \<exists>e \<in> set (en_steps en). py_eq (cs_key s) (es_key e) \<and>
         cs_risk s = JStr (es_risk e) \<and> cs_requires_approval s = es_requires_approval e"
    by (induction rule: list_all2_induct) (auto simp: step_structure_def)
  moreover from shape(2) same have "steps \<noteq> []" by auto
  ultimately show ?thesis using p e c same shape(4) by (auto simp: keys)
qed

text \<open>A service that parses two steps and rates them.\<close>

definition sample_post :: transport where
  "sample_post path payload = Reply 200 (Some (if path = ''/parse/runbook''
     then JObj [(''workflow_title'', JStr ''W''), (''steps'', JArr [
       JObj [(''step_key'', JStr ''a''), (''name'', JStr ''A''), (''step_type'', JStr ''manual_task''), (''risk_level'', JStr ''low'')],
       JObj [(''step_key'', JStr ''b''), (''name'', JStr ''B''), (''step_type'', JStr ''shell_command''), (''risk_level'', JStr ''low''),
         (''command'', JStr ''ls'')]])]
     else JObj [(''steps'', JArr [
       JObj [(''step_key'', JStr ''b''), (''risk_level'', JStr ''high''), (''requires_approval'', JBool True)],
       JObj [(''step_key'', JStr ''a''), (''risk_level'', JStr ''low''), (''requires_approval'', JBool False)]])]))"

theorem enrichment_changes_only_risk_witness:
  "\<exists>c. http_transform_runbook sample_post ''q'' ''T'' ''s'' ''raw'' None = Inr c \<and>
     map cs_risk (ca_steps c) = [JStr ''low'', JStr ''high''] \<and> no_repeats (rev (map cs_key (ca_steps c)))"
proof -
  obtain c where "http_transform_runbook sample_post ''q'' ''T'' ''s'' ''raw'' None = Inr c"
     "map cs_risk (ca_steps c) = [JStr ''low'', JStr ''high'']"
    by (simp add: http_transform_runbook_def parse_runbook_to_workflow_candidate_def enrich_workflow_candidate_def
        answer_of_def sample_post_def validate_and_map_candidate_def validate_and_map_enrichment_def
        map_candidate_step_def map_enrichment_step_def fget_def in_set_def Let_def list_or_empty_def
        merge_enrichment_def enriched_step_def py_mem_def sortable_def)
  moreover from enrichment_changes_only_risk [OF this(1)] have "no_repeats (rev (map cs_key (ca_steps c)))"
    by (elim exE conjE)
  ultimately show ?thesis by (intro exI [of _ c] conjI)
qed

end
