(* ===== verification/Workflow_Authoring.thy ===== *)
theory Workflow_Authoring
  imports Ai_Client Execution_World
begin

text \<open>
  Runbooks (\<open>apps/runbooks/services.py\<close>) and the authoring of workflows from them
  (\<open>apps/workflows/services.py\<close>): drafts transformed from a runbook or written directly, their review,
  publication and archiving, and the lifting of v1 definitions to v2. What the operations need from
  outside is the record \<open>authoring_env\<close>: the validators of \<open>wf_env\<close>, whether the v1 JSON schema
  accepts a definition, and the text of the validation error of a definition. An \<open>IntegrityError\<close>
  inside a creation is reported as a conflict of versions.
\<close>

record authoring_env =
  ae_validation :: wf_env
  ae_schema_v1 :: "json \<Rightarrow> bool"
  ae_error_text :: "json \<Rightarrow> string"

section \<open>Runbooks\<close>

definition create_runbook :: "nat \<Rightarrow> string \<Rightarrow> string \<Rightarrow> string \<Rightarrow> db \<Rightarrow> (db \<times> nat) result" where
  "create_runbook org title slug content d =
    (if tsel (\<lambda>_ r. rb_org r = org \<and> rb_slug r = slug) (runbooks d) \<noteq> []
       then Inl (Domain DomainConflictError ''runbook_slug_conflict'')
     else let (i, d) = fresh d
       in Inr (d\<lparr>runbooks := tins i \<lparr>rb_org = org, rb_title = title, rb_slug = slug, rb_content = content,
            rb_status = RbDraft\<rparr> (runbooks d)\<rparr>, i))"

text \<open>The caller's copy of the runbook is checked; only the status is saved.\<close>

definition set_runbook_status :: "nat \<Rightarrow> runbook_status \<Rightarrow> db \<Rightarrow> db result" where
  "set_runbook_status i s d =
    (if tget (runbooks d) i = None then Inl (PyError ''DatabaseError'')
     else Inr (d\<lparr>runbooks := tupd i (\<lambda>r. r\<lparr>rb_status := s\<rparr>) (runbooks d)\<rparr>))"

definition mark_runbook_ready :: "nat \<Rightarrow> runbook \<Rightarrow> db \<Rightarrow> db result" where
  "mark_runbook_ready i seen d =
    (if rb_status seen \<noteq> RbDraft then Inl (Domain InvalidStateTransitionError ''invalid_state_transition'')
     else set_runbook_status i RbReady d)"

definition archive_runbook :: "nat \<Rightarrow> runbook \<Rightarrow> db \<Rightarrow> db result" where
  "archive_runbook i seen d =
    (if rb_status seen \<notin> {RbDraft, RbReady} then Inl (Domain InvalidStateTransitionError ''invalid_state_transition'')
     else set_runbook_status i RbArchived d)"

section \<open>The v1 definition of a candidate\<close>

definition invalid_workflow :: "'a result" where
  "invalid_workflow = Inl (bad_workflow ''invalid_workflow_definition'')"

fun candidate_steps_ok :: "json list \<Rightarrow> candidate_step list \<Rightarrow> unit result" where
  "candidate_steps_ok seen [] = Inr ()"
| "candidate_steps_ok seen (s # ss) =
    (if \<not> truthy (cs_key s) then invalid_workflow
     else res_bind (in_set (cs_key s) seen) (\<lambda>dup.
       if dup \<or> \<not> truthy (cs_name s) then invalid_workflow
       else candidate_steps_ok (cs_key s # seen) ss))"

definition validate_candidate :: "candidate \<Rightarrow> unit result" where
  "validate_candidate c = (if ca_steps c = [] then invalid_workflow else candidate_steps_ok [] (ca_steps c))"

definition definition_step :: "candidate_step \<Rightarrow> json" where
  "definition_step s = JObj ([(''id'', cs_key s), (''name'', cs_name s), (''type'', cs_type s), (''risk'', cs_risk s),
     (''requiresApproval'', JBool (cs_requires_approval s))]
     @ (case cs_command s of None \<Rightarrow> [] | Some c \<Rightarrow> [(''command'', JStr c)]))"

definition map_candidate_to_definition :: "candidate \<Rightarrow> json" where
  "map_candidate_to_definition c = JObj [(''name'', ca_title c), (''steps'', JArr (map definition_step (ca_steps c)))]"

definition SUPPORTED_STEP_TYPES :: "string list" where
  "SUPPORTED_STEP_TYPES = [''manual_task'', ''shell_command'', ''approval'']"

definition SUPPORTED_RISK_LEVELS :: "string list" where
  "SUPPORTED_RISK_LEVELS = [''low'', ''medium'', ''high'', ''critical'']"

text \<open>\<open>"k" in step\<close>, with a value the check refuses.\<close>

definition field_bad :: "jdict \<Rightarrow> string \<Rightarrow> (json \<Rightarrow> bool) \<Rightarrow> bool" where
  "field_bad f k ok = (case map_of f k of None \<Rightarrow> False | Some v \<Rightarrow> \<not> ok v)"

fun is_py_bool :: "json \<Rightarrow> bool" where
  "is_py_bool (JBool _) = True"
| "is_py_bool _ = False"

fun semantic_steps_ok :: "string list \<Rightarrow> json list \<Rightarrow> unit result" where
  "semantic_steps_ok seen [] = Inr ()"
| "semantic_steps_ok seen (s # ss) =
    (case s of
       JObj f \<Rightarrow>
        (case fget f ''id'' JNull of
           JStr i \<Rightarrow>
             if i = [] \<or> i \<in> set seen then invalid_workflow
             else res_bind (in_set (fget f ''type'' JNull) (map JStr SUPPORTED_STEP_TYPES)) (\<lambda>known.
               if \<not> known then invalid_workflow
               else res_bind (in_set (fget f ''risk'' JNull) (map JStr SUPPORTED_RISK_LEVELS)) (\<lambda>known.
                 if \<not> known \<or> field_bad f ''requiresApproval'' is_py_bool \<or> field_bad f ''command'' is_str
                 then invalid_workflow else semantic_steps_ok (i # seen) ss))
         | _ \<Rightarrow> invalid_workflow)
     | _ \<Rightarrow> Inl (PyError ''AttributeError''))"

definition validate_definition_semantics :: "json \<Rightarrow> unit result" where
  "validate_definition_semantics definition =
    res_bind (py_get definition ''steps'' JNull) (\<lambda>v.
    case v of JArr (s # ss) \<Rightarrow> semantic_steps_ok [] (s # ss) | _ \<Rightarrow> invalid_workflow)"

definition validate_workflow_v1 :: "authoring_env \<Rightarrow> json \<Rightarrow> unit result" where
  "validate_workflow_v1 env definition =
    (if \<not> ae_schema_v1 env definition then Inl (bad_workflow ''workflow_schema_violation'')
     else validate_definition_semantics definition)"

definition validate_workflow_definition :: "authoring_env \<Rightarrow> json \<Rightarrow> string \<Rightarrow> unit result" where
  "validate_workflow_definition env definition schema_version =
    (if schema_version = ''workflow.schema.v1'' then validate_workflow_v1 env definition
     else if schema_version = ''workflow.schema.v2'' then validate_v2 (ae_validation env) definition
     else Inl (bad_workflow ''unsupported_schema_version''))"

definition compute_definition_hash :: "json \<Rightarrow> string" where
  "compute_definition_hash definition = sha256_hex (utf8 (dumps (compact_opts False) definition))"

text \<open>Only an invalid definition is reported: any other error is raised.\<close>

definition build_validation_report :: "authoring_env \<Rightarrow> json \<Rightarrow> string \<Rightarrow> json result" where
  "build_validation_report env definition schema_version =
    (case validate_workflow_definition env definition schema_version of
       Inr _ \<Rightarrow> Inr (JObj [(''valid'', JBool True), (''errors'', JArr []), (''warnings'', JArr [])])
     | Inl (Domain InvalidWorkflowDefinitionError code) \<Rightarrow>
        Inr (JObj [(''valid'', JBool False), (''errors'', JArr [JObj [(''code'', JStr code),
          (''detail'', JStr (ae_error_text env definition))]]), (''warnings'', JArr [])])
     | Inl er \<Rightarrow> Inl er)"

definition report_status :: "json \<Rightarrow> wf_validation" where
  "report_status report = (if truthy (fget (fields_of report) ''valid'' JNull) then WvValid else WvInvalid)"

section \<open>Creating drafts\<close>

definition emit_workflow_audit ::
    "timestamp \<Rightarrow> nat \<Rightarrow> workflow \<Rightarrow> string \<Rightarrow> audit_actor option \<Rightarrow> jdict \<Rightarrow> db \<Rightarrow> db result" where
  "emit_workflow_audit now i w event actor md d =
    audit_emit now (wf_org w) (case actor of None \<Rightarrow> system_actor ''Workflow service'' | Some a \<Rightarrow> a)
      event ''workflow'' i md d"

definition max_version :: "nat \<Rightarrow> db \<Rightarrow> nat" where
  "max_version rb d = fold max (map (wf_version \<circ> snd) (tsel (\<lambda>_ w. wf_runbook w = rb) (workflows d))) 0"

text \<open>A text column: \<open>None\<close> violates the column, any other value is stored as its \<open>str\<close>.\<close>

definition text_column :: "json \<Rightarrow> string result" where
  "text_column v = (if v = JNull then Inl (IntegrityErr ''not_null'') else Inr (py_str v))"

definition version_conflict :: "'a result \<Rightarrow> 'a result" where
  "version_conflict r =
    (case r of Inl (IntegrityErr c) \<Rightarrow> Inl (Domain ConcurrencyConflictError ''workflow_version_conflict'') | _ \<Rightarrow> r)"

text \<open>The row is given by the runbook and the version; \<open>md\<close> is the metadata of the event.\<close>

definition insert_workflow ::
    "timestamp \<Rightarrow> nat \<Rightarrow> audit_actor option \<Rightarrow> (runbook \<Rightarrow> nat \<Rightarrow> workflow result) \<Rightarrow> (workflow \<Rightarrow> jdict) \<Rightarrow> db \<Rightarrow> (db \<times> nat) result" where
  "insert_workflow now rb actor row md d =
    version_conflict (case tget (runbooks d) rb of
       None \<Rightarrow> Inl (NotFound ''runbook'')
     | Some r \<Rightarrow> res_bind (row r (Suc (max_version rb d))) (\<lambda>w.
         let (i, d) = fresh d
         in res_bind (emit_workflow_audit now i w ''workflow.created'' actor (md w)
              (d\<lparr>workflows := tins i w (workflows d)\<rparr>)) (\<lambda>d. Inr (d, i))))"

type_synonym transform_client = "string \<Rightarrow> string \<Rightarrow> string \<Rightarrow> string option \<Rightarrow> candidate result"

definition v1_row :: "json \<Rightarrow> string \<Rightarrow> bool \<Rightarrow> parse_source \<Rightarrow> nat \<Rightarrow> runbook \<Rightarrow> nat \<Rightarrow> workflow" where
  "v1_row definition name review source rb r v =
    \<lparr>wf_org = rb_org r, wf_runbook = rb, wf_name = name, wf_version = v, wf_status = WfDraft,
     wf_schema_version = ''workflow.schema.v1'', wf_definition = definition,
     wf_definition_hash = compute_definition_hash definition, wf_catalog_version = [],
     wf_validation = WvNotApplicable, wf_validation_report = JObj [],
     wf_requires_review = review, wf_parse_source = source\<rparr>"

text \<open>\<open>seen\<close> is the copy of the runbook the caller has read; the transform gets its text.\<close>

definition create_workflow ::
    "authoring_env \<Rightarrow> timestamp \<Rightarrow> transform_client \<Rightarrow> nat \<Rightarrow> runbook \<Rightarrow> bool \<Rightarrow> parse_source \<Rightarrow> audit_actor option \<Rightarrow> string option
      \<Rightarrow> db \<Rightarrow> (db \<times> nat) result" where
  "create_workflow env now transform rb seen requires_review source actor request_id d =
    res_bind (transform (rb_title seen) (rb_slug seen) (rb_content seen) request_id) (\<lambda>c.
    res_bind (validate_candidate c) (\<lambda>_.
    let definition = map_candidate_to_definition c
    in res_bind (validate_workflow_v1 env definition) (\<lambda>_.
       insert_workflow now rb actor (\<lambda>r v. res_bind (text_column (ca_title c)) (\<lambda>name.
         Inr (v1_row definition name requires_review source rb r v)))
         (\<lambda>w. [(''runbook_id'', JStr (id_str rb)), (''version'', JInt (int (wf_version w))),
           (''status'', JStr (workflow_status_str (wf_status w))),
           (''requires_review'', JBool (wf_requires_review w)),
           (''parse_source'', JStr (parse_source_str (wf_parse_source w)))]) d)))"

text \<open>\<open>max_chars\<close> is the setting \<open>AI_MAX_INPUT_CHARS\<close>.\<close>

definition create_workflow_from_runbook ::
    "authoring_env \<Rightarrow> timestamp \<Rightarrow> transport \<Rightarrow> string \<Rightarrow> nat \<Rightarrow> nat \<Rightarrow> runbook \<Rightarrow> audit_actor option \<Rightarrow> string option \<Rightarrow> db \<Rightarrow> (db \<times> nat) result" where
  "create_workflow_from_runbook env now post new_id max_chars rb seen actor request_id d =
    (if length (rb_content seen) > max_chars then Inl (Domain DomainValidationError ''ai_input_too_large'')
     else create_workflow env now (http_transform_runbook post new_id) rb seen True ParseAi actor request_id d)"

definition v2_row :: "json \<Rightarrow> json \<Rightarrow> string \<Rightarrow> string \<Rightarrow> bool \<Rightarrow> parse_source \<Rightarrow> nat \<Rightarrow> runbook \<Rightarrow> nat \<Rightarrow> workflow" where
  "v2_row definition report name catalog review source rb r v =
    \<lparr>wf_org = rb_org r, wf_runbook = rb, wf_name = name, wf_version = v, wf_status = WfDraft,
     wf_schema_version = ''workflow.schema.v2'', wf_definition = definition,
     wf_definition_hash = compute_definition_hash definition, wf_catalog_version = catalog,
     wf_validation = report_status report, wf_validation_report = report,
     wf_requires_review = review, wf_parse_source = source\<rparr>"

definition create_workflow_v2_draft ::
    "authoring_env \<Rightarrow> timestamp \<Rightarrow> nat \<Rightarrow> json \<Rightarrow> audit_actor option \<Rightarrow> db \<Rightarrow> (db \<times> nat) result" where
  "create_workflow_v2_draft env now rb definition actor d =
    res_bind (build_validation_report env definition ''workflow.schema.v2'') (\<lambda>report.
    res_bind (py_get definition ''catalogVersion'' (JStr ''pilot.v1'')) (\<lambda>catalog.
    insert_workflow now rb actor (\<lambda>r v.
        res_bind (py_get definition ''name'' (JStr (rb_title r))) (\<lambda>name.
        res_bind (text_column name) (\<lambda>name. res_bind (text_column catalog) (\<lambda>catalog.
        Inr (v2_row definition report name catalog False ParseManual rb r v)))))
      (\<lambda>w. [(''runbook_id'', JStr (id_str rb)), (''version'', JInt (int (wf_version w))),
        (''status'', JStr (workflow_status_str (wf_status w))),
        (''definition_schema_version'', JStr (wf_schema_version w)),
        (''validation_status'', JStr (wf_validation_str (wf_validation w)))]) d))"

section \<open>Lifting a v1 definition\<close>

definition copied :: "jdict \<Rightarrow> string \<Rightarrow> jdict" where
  "copied f k = (case map_of f k of None \<Rightarrow> [] | Some v \<Rightarrow> [(k, v)])"

definition lifted_action :: "jdict \<Rightarrow> json \<Rightarrow> jdict" where
  "lifted_action f ty =
    (if ty = JStr ''manual_task'' then [(''type'', JStr ''manual_task''), (''action'', JObj [(''type'', JStr ''manual_task'')])]
     else if ty = JStr ''approval'' then
       [(''type'', JStr ''approval_gate''),
        (''action'', JObj ((''type'', JStr ''approval_gate'') #
           (case map_of f ''approvalTimeoutSeconds'' of None \<Rightarrow> []
            | Some v \<Rightarrow> [(''params'', JObj [(''timeout_seconds'', v)])])))]
     else if ty = JStr ''shell_command'' then
       [(''type'', JStr ''shell_command''),
        (''action'', JObj [(''type'', JStr ''shell_command''),
           (''params'', JObj [(''command'', fget f ''command'' (JStr []))])])]
     else [(''type'', ty), (''action'', JObj [(''type'', ty)])])"

definition lifted_step :: "jdict \<Rightarrow> json" where
  "lifted_step f = JObj ([(''id'', fget f ''id'' (JStr [])), (''name'', fget f ''name'' (JStr [])),
     (''risk'', fget f ''risk'' (JStr ''low'')), (''retry'', JObj [(''maxAttempts'', JInt 1)]),
     (''idempotency'', JObj [(''mode'', JStr ''none'')]), (''artifacts'', JArr []), (''secrets'', JArr [])]
     @ copied f ''requiresApproval'' @ copied f ''approvalTimeoutSeconds'' @ lifted_action f (fget f ''type'' (JStr [])))"

definition lift_v1_step :: "json \<Rightarrow> (json \<times> bool) result" where
  "lift_v1_step step =
    (case step of
       JObj f \<Rightarrow> Inr (lifted_step f, fget f ''type'' (JStr []) = JStr ''shell_command'')
     | _ \<Rightarrow> Inl (PyError ''AttributeError''))"

definition lift_v1_steps :: "json list \<Rightarrow> (json list \<times> bool) result" where
  "lift_v1_steps steps =
    res_fold (\<lambda>(acc, shell) s. res_bind (lift_v1_step s) (\<lambda>(s, sh). Inr (acc @ [s], shell \<or> sh))) ([], False) steps"

text \<open>\<open>seen\<close> is the copy of the source workflow the caller has read.\<close>

definition lifted_definition :: "workflow \<Rightarrow> (json \<times> bool) result" where
  "lifted_definition seen =
    res_bind (py_get (wf_definition seen) ''steps'' (JArr [])) (\<lambda>v.
    res_bind (py_iter v) (\<lambda>steps.
    res_bind (lift_v1_steps steps) (\<lambda>(steps, shell).
    res_bind (py_get (wf_definition seen) ''name'' (JStr (wf_name seen))) (\<lambda>name.
    Inr (JObj [(''schemaVersion'', JStr ''2''), (''name'', name), (''catalogVersion'', JStr ''pilot.v1''),
      (''steps'', JArr steps), (''secrets'', JArr [])], shell)))))"

definition create_v2_draft_from_v1 ::
    "authoring_env \<Rightarrow> timestamp \<Rightarrow> workflow \<Rightarrow> audit_actor option \<Rightarrow> db \<Rightarrow> (db \<times> nat) result" where
  "create_v2_draft_from_v1 env now seen actor d =
    (if wf_schema_version seen \<noteq> ''workflow.schema.v1''
       then Inl (Domain DomainValidationError ''unsupported_source_schema'')
     else res_bind (lifted_definition seen) (\<lambda>(definition, shell).
       res_bind (build_validation_report env definition ''workflow.schema.v2'') (\<lambda>report.
       insert_workflow now (wf_runbook seen) actor (\<lambda>r v.
           res_bind (py_get definition ''name'' JNull) (\<lambda>name. res_bind (text_column name) (\<lambda>name.
           Inr (v2_row definition report name ''pilot.v1'' (wf_parse_source seen = ParseAi \<or> shell)
             (wf_parse_source seen) (wf_runbook seen) r v))))
         (\<lambda>w. [(''runbook_id'', JStr (id_str (wf_runbook seen))), (''version'', JInt (int (wf_version w))),
           (''status'', JStr (workflow_status_str (wf_status w))),
           (''definition_schema_version'', JStr (wf_schema_version w)),
           (''migrated_from_version'', JInt (int (wf_version seen))),
           (''migrated_from_schema'', JStr (wf_schema_version seen)),
           (''validation_status'', JStr (wf_validation_str (wf_validation w)))]) d)))"

section \<open>Review, publication, archiving\<close>

definition upd_workflow :: "nat \<Rightarrow> (workflow \<Rightarrow> workflow) \<Rightarrow> db \<Rightarrow> db" where
  "upd_workflow i f d = d\<lparr>workflows := tupd i f (workflows d)\<rparr>"

definition review_check :: "workflow \<Rightarrow> unit result" where
  "review_check w =
    (if \<not> wf_requires_review w then Inl (Domain InvalidStateTransitionError ''workflow_not_pending_review'')
     else if wf_status w \<noteq> WfDraft then Inl (Domain InvalidStateTransitionError ''invalid_state_transition'')
     else Inr ())"

definition accept_review :: "timestamp \<Rightarrow> nat \<Rightarrow> audit_actor option \<Rightarrow> db \<Rightarrow> db result" where
  "accept_review now i actor d =
    (case tget (workflows d) i of
       None \<Rightarrow> Inl (NotFound ''workflow'')
     | Some w \<Rightarrow> res_bind (review_check w) (\<lambda>_.
         emit_workflow_audit now i w ''workflow.review_accepted'' actor
           [(''runbook_id'', JStr (id_str (wf_runbook w)))]
           (upd_workflow i (\<lambda>w. w\<lparr>wf_requires_review := False\<rparr>) d)))"

definition reject_review :: "timestamp \<Rightarrow> nat \<Rightarrow> audit_actor option \<Rightarrow> db \<Rightarrow> db result" where
  "reject_review now i actor d =
    (case tget (workflows d) i of
       None \<Rightarrow> Inl (NotFound ''workflow'')
     | Some w \<Rightarrow> res_bind (review_check w) (\<lambda>_.
         emit_workflow_audit now i w ''workflow.review_rejected'' actor
           [(''runbook_id'', JStr (id_str (wf_runbook w))),
            (''new_status'', JStr (workflow_status_str WfArchived))]
           (upd_workflow i (\<lambda>w. w\<lparr>wf_status := WfArchived, wf_requires_review := False\<rparr>) d)))"

definition supersede_published :: "nat \<Rightarrow> nat \<Rightarrow> db \<Rightarrow> db" where
  "supersede_published rb i d = d\<lparr>workflows := tupd_where
     (\<lambda>j w. wf_runbook w = rb \<and> wf_status w = WfPublished \<and> j \<noteq> i) (\<lambda>w. w\<lparr>wf_status := WfSuperseded\<rparr>) (workflows d)\<rparr>"

definition status_metadata :: "workflow \<Rightarrow> workflow_status \<Rightarrow> jdict" where
  "status_metadata w new =
    [(''runbook_id'', JStr (id_str (wf_runbook w))), (''previous_status'', JStr (workflow_status_str (wf_status w))),
     (''new_status'', JStr (workflow_status_str new))]"

definition publish_workflow :: "timestamp \<Rightarrow> nat \<Rightarrow> audit_actor option \<Rightarrow> db \<Rightarrow> db result" where
  "publish_workflow now i actor d =
    (case tget (workflows d) i of
       None \<Rightarrow> Inl (NotFound ''workflow'')
     | Some w \<Rightarrow>
        if wf_requires_review w then Inl (Domain DomainConflictError ''workflow_requires_review'')
        else if wf_status w \<noteq> WfDraft then Inl (Domain InvalidStateTransitionError ''invalid_state_transition'')
        else if wf_schema_version w = ''workflow.schema.v2'' \<and> wf_validation w \<noteq> WvValid
          then Inl (Domain DomainConflictError ''workflow_invalid_definition'')
        else emit_workflow_audit now i w ''workflow.published'' actor
          (status_metadata w WfPublished @ [(''version'', JInt (int (wf_version w)))])
          (upd_workflow i (\<lambda>w. w\<lparr>wf_status := WfPublished\<rparr>) (supersede_published (wf_runbook w) i d)))"

definition archive_workflow :: "timestamp \<Rightarrow> nat \<Rightarrow> audit_actor option \<Rightarrow> db \<Rightarrow> db result" where
  "archive_workflow now i actor d =
    (case tget (workflows d) i of
       None \<Rightarrow> Inl (NotFound ''workflow'')
     | Some w \<Rightarrow>
        if wf_status w \<notin> {WfDraft, WfSuperseded} then Inl (Domain InvalidStateTransitionError ''invalid_state_transition'')
        else emit_workflow_audit now i w ''workflow.archived'' actor (status_metadata w WfArchived)
          (upd_workflow i (\<lambda>w. w\<lparr>wf_status := WfArchived\<rparr>) d))"

section \<open>Facts\<close>

lemma version_conflict_Inr [simp]: "version_conflict r = Inr x \<longleftrightarrow> r = Inr x"
  by (auto simp: version_conflict_def split: sum.splits err.splits)

lemma insert_workflowE:
  assumes "insert_workflow now rb actor row md d = Inr (d', i)"
  obtains r w ev where "tget (runbooks d) rb = Some r" and "row r (Suc (max_version rb d)) = Inr w" and "i = next_id d"
    and "d' = d\<lparr>next_id := Suc (next_id d), workflows := tins (next_id d) w (workflows d), audit_log := audit_log d @ [ev]\<rparr>"
proof -
  from assms obtain r w where r: "tget (runbooks d) rb = Some r" "row r (Suc (max_version rb d)) = Inr w" "i = next_id d"
    and e: "emit_workflow_audit now i w ''workflow.created'' actor (md w)
      (d\<lparr>next_id := Suc (next_id d), workflows := tins i w (workflows d)\<rparr>) = Inr d'"
    unfolding insert_workflow_def fresh_def by (auto simp: res_bind_eq_Inr split: option.splits)
  from e [unfolded emit_workflow_audit_def, THEN audit_emit_Inr] obtain ev where
    "d' = d\<lparr>next_id := Suc (next_id d), workflows := tins i w (workflows d), audit_log := audit_log d @ [ev]\<rparr>" by auto
  with r that show ?thesis by simp
qed

lemma emit_workflowE:
  assumes "emit_workflow_audit now i w et actor md d = Inr d'"
  obtains ev where "d' = d\<lparr>audit_log := audit_log d @ [ev]\<rparr>"
  using assms [unfolded emit_workflow_audit_def, THEN audit_emit_Inr] by blast

lemma fold_max_ge: "a \<le> fold max xs (a :: nat) \<and> (\<forall>x \<in> set xs. x \<le> fold max xs a)"
proof (induction xs arbitrary: a)
  case (Cons x xs)
  from Cons.IH [of "max x a"] show ?case by auto
qed simp

lemma max_version_ge: "(j, w) \<in> set (workflows d) \<Longrightarrow> wf_version w \<le> max_version (wf_runbook w) d"
  unfolding max_version_def
  by (rule fold_max_ge [THEN conjunct2, THEN bspec]) (use image_eqI [of "wf_version w" "wf_version \<circ> snd" "(j, w)"] in simp)

section \<open>Authoring as a transition system\<close>

inductive authoring_step :: "authoring_env \<Rightarrow> db \<Rightarrow> db \<Rightarrow> bool" for env where
  drafted: "create_workflow env now tr rb seen rv src actor rq d = Inr (d', i) \<Longrightarrow> authoring_step env d d'"
| parsed: "create_workflow_from_runbook env now post new_id mx rb seen actor rq d = Inr (d', i) \<Longrightarrow> authoring_step env d d'"
| written: "create_workflow_v2_draft env now rb df actor d = Inr (d', i) \<Longrightarrow> authoring_step env d d'"
| lifted: "create_v2_draft_from_v1 env now wseen actor d = Inr (d', i) \<Longrightarrow> authoring_step env d d'"
| accepted: "accept_review now i actor d = Inr d' \<Longrightarrow> authoring_step env d d'"
| rejected: "reject_review now i actor d = Inr d' \<Longrightarrow> authoring_step env d d'"
| published: "publish_workflow now i actor d = Inr d' \<Longrightarrow> authoring_step env d d'"
| archived: "archive_workflow now i actor d = Inr d' \<Longrightarrow> authoring_step env d d'"

text \<open>
  A row is sound if its hash is that of its definition, a v1 definition or a v2 definition marked valid is
  accepted by its validator, and nothing published or superseded awaits review or is not valid.
\<close>

definition workflow_sound :: "authoring_env \<Rightarrow> workflow \<Rightarrow> bool" where
  "workflow_sound env w \<longleftrightarrow>
     wf_definition_hash w = compute_definition_hash (wf_definition w) \<and>
     (wf_schema_version w = ''workflow.schema.v1'' \<or> wf_schema_version w = ''workflow.schema.v2'') \<and>
     (wf_schema_version w = ''workflow.schema.v1'' \<or> wf_validation w = WvValid \<longrightarrow>
        validate_workflow_definition env (wf_definition w) (wf_schema_version w) = Inr ()) \<and>
     (wf_status w \<in> {WfPublished, WfSuperseded} \<longrightarrow>
        \<not> wf_requires_review w \<and> (wf_schema_version w = ''workflow.schema.v2'' \<longrightarrow> wf_validation w = WvValid))"

text \<open>Per runbook, versions do not repeat and at most one row is published.\<close>

definition no_clash :: "workflow table \<Rightarrow> bool" where
  "no_clash t \<longleftrightarrow> (\<forall>(i, w) \<in> set t. \<forall>(j, v) \<in> set t. wf_runbook w = wf_runbook v \<and>
     (wf_version w = wf_version v \<or> wf_status w = WfPublished \<and> wf_status v = WfPublished) \<longrightarrow> i = j)"

definition authoring_ok :: "authoring_env \<Rightarrow> db \<Rightarrow> bool" where
  "authoring_ok env d \<longleftrightarrow> twf (workflows d) \<and> (\<forall>k \<in> tkeys (workflows d). k < next_id d) \<and>
     (\<forall>(i, w) \<in> set (workflows d). workflow_sound env w) \<and> no_clash (workflows d)"

lemma no_clashD:
  "no_clash t \<Longrightarrow> (i, w) \<in> set t \<Longrightarrow> (j, v) \<in> set t \<Longrightarrow> wf_runbook w = wf_runbook v \<Longrightarrow>
     wf_version w = wf_version v \<or> wf_status w = WfPublished \<and> wf_status v = WfPublished \<Longrightarrow> i = j"
  unfolding no_clash_def by blast

lemma no_clashI:
  "(\<And>i w j v. (i, w) \<in> set t \<Longrightarrow> (j, v) \<in> set t \<Longrightarrow> wf_runbook w = wf_runbook v \<Longrightarrow>
     wf_version w = wf_version v \<or> wf_status w = WfPublished \<and> wf_status v = WfPublished \<Longrightarrow> i = j) \<Longrightarrow> no_clash t"
  unfolding no_clash_def by blast

lemma no_clash_insert:
  assumes "no_clash t" and "wf_status w = WfDraft"
    and "\<And>i v. (i, v) \<in> set t \<Longrightarrow> wf_runbook v = wf_runbook w \<Longrightarrow> wf_version v \<noteq> wf_version w"
  shows "no_clash (tins k w t)"
proof (rule no_clashI)
  fix i v j u
  assume "(i, v) \<in> set (tins k w t)" "(j, u) \<in> set (tins k w t)" and rest: "wf_runbook v = wf_runbook u"
    "wf_version v = wf_version u \<or> wf_status v = WfPublished \<and> wf_status u = WfPublished"
  then have "(i, v) \<in> set t \<or> i = k \<and> v = w" "(j, u) \<in> set t \<or> j = k \<and> u = w" by (auto simp: tins_def)
  with rest \<open>wf_version v = wf_version u \<or> _\<close> show "i = j"
    using no_clashD [OF assms(1), of i v j u] assms(3) [of i v] assms(3) [of j u] assms(2) by auto
qed

lemma authoring_insert:
  assumes "authoring_ok env d" and "workflows d' = tins (next_id d) w (workflows d)" and "next_id d' = Suc (next_id d)"
    and "workflow_sound env w" and "wf_status w = WfDraft" and "wf_version w = Suc (max_version (wf_runbook w) d)"
  shows "authoring_ok env d'"
proof -
  have "wf_version v \<noteq> wf_version w" if "(i, v) \<in> set (workflows d)" "wf_runbook v = wf_runbook w" for i v
    using max_version_ge [OF that(1)] that(2) assms(6) by simp
  with assms(1,5) have "no_clash (tins (next_id d) w (workflows d))"
    by (intro no_clash_insert) (auto simp: authoring_ok_def)
  moreover have "twf (tins (next_id d) w (workflows d))"
    using assms(1) by (intro twf_tins) (auto simp: authoring_ok_def)
  moreover have "\<forall>(i, v) \<in> set (tins (next_id d) w (workflows d)). workflow_sound env v"
    using assms(1,4) by (auto simp: authoring_ok_def tins_def)
  ultimately show ?thesis
    using assms(1-3) by (auto simp: authoring_ok_def table_simps intro: less_SucI)
qed

text \<open>A change of rows that keeps versions, and publishes only where nothing else is published.\<close>

lemma authoring_update:
  assumes ok: "authoring_ok env d" and "next_id d' = next_id d" and "twf (workflows d')" and "tkeys (workflows d') = tkeys (workflows d)"
    and sound: "\<And>i w. (i, w) \<in> set (workflows d') \<Longrightarrow> workflow_sound env w"
    and old: "\<And>i w. (i, w) \<in> set (workflows d') \<Longrightarrow> \<exists>w0. (i, w0) \<in> set (workflows d) \<and>
          wf_runbook w = wf_runbook w0 \<and> wf_version w = wf_version w0"
    and one: "\<And>i w j v. (i, w) \<in> set (workflows d') \<Longrightarrow> (j, v) \<in> set (workflows d') \<Longrightarrow> wf_runbook w = wf_runbook v \<Longrightarrow>
          wf_status w = WfPublished \<Longrightarrow> wf_status v = WfPublished \<Longrightarrow> i = j"
  shows "authoring_ok env d'"
proof -
  have "i = j" if a: "(i, w) \<in> set (workflows d')" "(j, v) \<in> set (workflows d')" "wf_runbook w = wf_runbook v"
      "wf_version w = wf_version v \<or> wf_status w = WfPublished \<and> wf_status v = WfPublished" for i w j v
  proof (cases "wf_version w = wf_version v")
    case True
    obtain w0 where w0: "(i, w0) \<in> set (workflows d)" "wf_runbook w = wf_runbook w0" "wf_version w = wf_version w0"
      using old [OF a(1)] by blast
    obtain v0 where v0: "(j, v0) \<in> set (workflows d)" "wf_runbook v = wf_runbook v0" "wf_version v = wf_version v0"
      using old [OF a(2)] by blast
    show ?thesis
      using no_clashD [OF _ w0(1) v0(1)] ok True w0 v0 a(3) by (simp add: authoring_ok_def)
  qed (use one [OF a(1-3)] a(4) in blast)
  then have "no_clash (workflows d')" by (rule no_clashI)
  with assms(1-4) sound show ?thesis by (auto simp: authoring_ok_def)
qed

lemma report_valid:
  assumes "build_validation_report env df ver = Inr report"
  shows "report_status report = WvValid \<longleftrightarrow> validate_workflow_definition env df ver = Inr ()"
  using assms unfolding build_validation_report_def
  by (auto simp: report_status_def fget_def split: sum.splits err.splits err_kind.splits)

lemma v2_row_sound:
  assumes "build_validation_report env df ''workflow.schema.v2'' = Inr report"
  shows "workflow_sound env (v2_row df report name cat rv src rb r v)"
  using report_valid [OF assms] by (simp add: workflow_sound_def v2_row_def)

text \<open>A saved row: the rest of the table stays.\<close>

lemma authoring_save:
  assumes ok: "authoring_ok env d" and w: "tget (workflows d) i = Some w" and "next_id d' = next_id d"
    and rows: "workflows d' = tupd i f (workflows d)"
    and sound: "workflow_sound env w \<Longrightarrow> workflow_sound env (f w)"
    and keep: "wf_runbook (f w) = wf_runbook w" "wf_version (f w) = wf_version w" "wf_status (f w) = WfPublished \<Longrightarrow> wf_status w = WfPublished"
  shows "authoring_ok env d'"
proof -
  have row: "\<exists>v0. (j, v0) \<in> set (workflows d) \<and> workflow_sound env v \<and> wf_runbook v = wf_runbook v0 \<and> wf_version v = wf_version v0 \<and>
      (wf_status v = WfPublished \<longrightarrow> wf_status v0 = WfPublished)" if "(j, v) \<in> set (workflows d')" for j v
  proof -
    from that obtain v0 where v0: "(j, v0) \<in> set (workflows d)" "v = (if j = i then f v0 else v0)"
      by (auto simp: rows set_tupd)
    from ok v0(1) have "workflow_sound env v0" "tget (workflows d) j = Some v0"
      by (auto simp: authoring_ok_def intro: tget_unique)
    with v0 w sound keep show ?thesis by auto
  qed
  show ?thesis
  proof (rule authoring_update [OF ok])
    fix j v k u assume "(j, v) \<in> set (workflows d')" "(k, u) \<in> set (workflows d')" "wf_runbook v = wf_runbook u"
      "wf_status v = WfPublished" "wf_status u = WfPublished"
    with row [of j v] row [of k u] ok show "j = k"
      unfolding authoring_ok_def by (metis no_clashD)
  next
    fix j v assume "(j, v) \<in> set (workflows d')"
    from row [OF this] show "workflow_sound env v"
      "\<exists>w0. (j, w0) \<in> set (workflows d) \<and> wf_runbook v = wf_runbook w0 \<and> wf_version v = wf_version w0" by blast+
  qed (use assms(3) ok in \<open>simp_all add: rows table_simps authoring_ok_def\<close>)
qed

lemma publish_cases:
  assumes "publish_workflow now i actor d = Inr d'"
  obtains w ev where "tget (workflows d) i = Some w" and "\<not> wf_requires_review w" and "wf_status w = WfDraft"
    and "wf_schema_version w = ''workflow.schema.v2'' \<longrightarrow> wf_validation w = WvValid"
    and "d' = d\<lparr>workflows := tupd i (\<lambda>w. w\<lparr>wf_status := WfPublished\<rparr>) (tupd_where
       (\<lambda>j v. wf_runbook v = wf_runbook w \<and> wf_status v = WfPublished \<and> j \<noteq> i) (\<lambda>w. w\<lparr>wf_status := WfSuperseded\<rparr>) (workflows d)),
       audit_log := audit_log d @ [ev]\<rparr>"
  using assms unfolding publish_workflow_def
  by (auto split: option.splits if_splits simp: upd_workflow_def supersede_published_def elim!: emit_workflowE)

lemma publish_ok:
  assumes ok: "authoring_ok env d" and "publish_workflow now i actor d = Inr d'"
  shows "authoring_ok env d'"
  using assms(2)
proof (cases rule: publish_cases)
  case (1 w ev)
  have row: "\<exists>v0. (j, v0) \<in> set (workflows d) \<and> v = (if j = i then v0\<lparr>wf_status := WfPublished\<rparr>
      else if wf_runbook v0 = wf_runbook w \<and> wf_status v0 = WfPublished then v0\<lparr>wf_status := WfSuperseded\<rparr> else v0)"
    if "(j, v) \<in> set (workflows d')" for j v
    using that by (auto simp: 1(5) set_tupd set_tupd_where split: if_splits)
  have old: "v0 = w" if "(i, v0) \<in> set (workflows d)" for v0
    using tget_unique [OF _ that] ok 1(1) by (simp add: authoring_ok_def)
  have sound: "workflow_sound env v" if "(j, v) \<in> set (workflows d)" for j v
    using ok that by (auto simp: authoring_ok_def)
  show ?thesis
  proof (rule authoring_update [OF ok])
    fix j v assume "(j, v) \<in> set (workflows d')"
    from row [OF this] obtain v0 where v0: "(j, v0) \<in> set (workflows d)" "v = (if j = i then v0\<lparr>wf_status := WfPublished\<rparr>
      else if wf_runbook v0 = wf_runbook w \<and> wf_status v0 = WfPublished then v0\<lparr>wf_status := WfSuperseded\<rparr> else v0)" by blast
    show "workflow_sound env v"
      using sound [OF v0(1)] v0(2) old v0(1) 1(2,4) by (auto simp: workflow_sound_def)
    show "\<exists>w0. (j, w0) \<in> set (workflows d) \<and> wf_runbook v = wf_runbook w0 \<and> wf_version v = wf_version w0"
      using v0 by auto
  next
    fix j v k u
    assume a: "(j, v) \<in> set (workflows d')" "(k, u) \<in> set (workflows d')" "wf_runbook v = wf_runbook u"
      "wf_status v = WfPublished" "wf_status u = WfPublished"
    have from_old: "\<exists>v0. (j, v0) \<in> set (workflows d) \<and> wf_runbook v0 = wf_runbook v \<and>
      (j = i \<or> wf_status v0 = WfPublished \<and> wf_runbook v0 \<noteq> wf_runbook w)"
      if "(j, v) \<in> set (workflows d')" "wf_status v = WfPublished" for j v
    proof -
      from row [OF that(1)] obtain v0 where "(j, v0) \<in> set (workflows d)" "v = (if j = i then v0\<lparr>wf_status := WfPublished\<rparr>
        else if wf_runbook v0 = wf_runbook w \<and> wf_status v0 = WfPublished then v0\<lparr>wf_status := WfSuperseded\<rparr> else v0)" by blast
      with that(2) show ?thesis by (intro exI [of _ v0]) (auto split: if_splits)
    qed
    from from_old [OF a(1,4)] obtain v0 where v0: "(j, v0) \<in> set (workflows d)" "wf_runbook v0 = wf_runbook v"
      "j = i \<or> wf_status v0 = WfPublished \<and> wf_runbook v0 \<noteq> wf_runbook w" by blast
    from from_old [OF a(2,5)] obtain u0 where u0: "(k, u0) \<in> set (workflows d)" "wf_runbook u0 = wf_runbook u"
      "k = i \<or> wf_status u0 = WfPublished \<and> wf_runbook u0 \<noteq> wf_runbook w" by blast
    from ok have nc: "no_clash (workflows d)" by (simp add: authoring_ok_def)
    show "j = k"
      using no_clashD [OF nc v0(1) u0(1)] v0 u0 a(3) old by metis
  qed (use ok in \<open>auto simp: 1(5) table_simps authoring_ok_def\<close>)
qed

lemma review_Inr: "review_check w = Inr u \<longleftrightarrow> wf_requires_review w \<and> wf_status w = WfDraft"
  by (auto simp: review_check_def)

lemma insert_ok:
  assumes ok: "authoring_ok env d" and ins: "insert_workflow now rb actor row md d = Inr (d', i)"
    and row: "\<And>r v w. row r v = Inr w \<Longrightarrow> workflow_sound env w \<and> wf_status w = WfDraft \<and> wf_version w = v \<and> wf_runbook w = rb"
  shows "authoring_ok env d'"
proof (rule insert_workflowE [OF ins])
  fix r w ev
  assume "row r (Suc (max_version rb d)) = Inr w" and "d' = d\<lparr>next_id := Suc (next_id d),
      workflows := tins (next_id d) w (workflows d), audit_log := audit_log d @ [ev]\<rparr>"
  with row [of r "Suc (max_version rb d)" w] show ?thesis
    by (intro authoring_insert [OF ok, of d' w]) simp_all
qed

lemma create_workflowE:
  assumes "create_workflow env now tr rb seen rv src actor rq d = Inr (d', i)"
  obtains c r name ev where "tr (rb_title seen) (rb_slug seen) (rb_content seen) rq = Inr c" and "validate_candidate c = Inr ()"
    and "validate_workflow_v1 env (map_candidate_to_definition c) = Inr ()" and "tget (runbooks d) rb = Some r"
    and "i = next_id d"
    and "d' = d\<lparr>next_id := Suc (next_id d), workflows := tins (next_id d)
       (v1_row (map_candidate_to_definition c) name rv src rb r (Suc (max_version rb d))) (workflows d), audit_log := audit_log d @ [ev]\<rparr>"
  using assms unfolding create_workflow_def Let_def
  by (auto simp: res_bind_eq_Inr elim!: insert_workflowE)

lemma create_workflow_ok:
  assumes ok: "authoring_ok env d" and c: "create_workflow env now tr rb seen rv src actor rq d = Inr (d', i)"
  shows "authoring_ok env d'"
  using c
proof (rule create_workflowE)
  fix c r name ev
  assume v: "validate_workflow_v1 env (map_candidate_to_definition c) = Inr ()"
    and d': "d' = d\<lparr>next_id := Suc (next_id d), workflows := tins (next_id d)
       (v1_row (map_candidate_to_definition c) name rv src rb r (Suc (max_version rb d))) (workflows d), audit_log := audit_log d @ [ev]\<rparr>"
  show ?thesis
    by (rule authoring_insert [OF ok, of d' "v1_row (map_candidate_to_definition c) name rv src rb r (Suc (max_version rb d))"])
      (simp_all add: d' workflow_sound_def validate_workflow_definition_def v v1_row_def)
qed

lemma authoring_step_ok: "authoring_step env d d' \<Longrightarrow> authoring_ok env d \<Longrightarrow> authoring_ok env d'"
proof (induction rule: authoring_step.induct)
  case (drafted now tr rb seen rv src actor rq d d' i)
  then show ?case by (blast intro: create_workflow_ok)
next
  case (parsed now post new_id mx rb seen actor rq d d' i)
  then show ?case
    unfolding create_workflow_from_runbook_def by (auto split: if_splits intro: create_workflow_ok)
next
  case (written now rb df actor d d' i)
  from written.hyps obtain report catalog where r: "build_validation_report env df ''workflow.schema.v2'' = Inr report"
    and ins: "\<exists>md. insert_workflow now rb actor (\<lambda>r v. res_bind (py_get df ''name'' (JStr (rb_title r))) (\<lambda>name.
        res_bind (text_column name) (\<lambda>name. res_bind (text_column catalog) (\<lambda>catalog.
        Inr (v2_row df report name catalog False ParseManual rb r v))))) md d = Inr (d', i)"
    unfolding create_workflow_v2_draft_def by (auto simp: res_bind_eq_Inr)
  from ins obtain md where ins: "insert_workflow now rb actor (\<lambda>r v. res_bind (py_get df ''name'' (JStr (rb_title r))) (\<lambda>name.
        res_bind (text_column name) (\<lambda>name. res_bind (text_column catalog) (\<lambda>catalog.
        Inr (v2_row df report name catalog False ParseManual rb r v))))) md d = Inr (d', i)" ..
  show ?case
    by (rule insert_ok [OF written.prems ins]) (auto simp: res_bind_eq_Inr v2_row_sound [OF r], simp_all add: v2_row_def)
next
  case (lifted now w actor d d' i)
  from lifted.hyps obtain df sh report where r: "build_validation_report env df ''workflow.schema.v2'' = Inr report"
    and ins: "\<exists>md. insert_workflow now (wf_runbook w) actor (\<lambda>r v. res_bind (py_get df ''name'' JNull) (\<lambda>name.
        res_bind (text_column name) (\<lambda>name.
        Inr (v2_row df report name ''pilot.v1'' (wf_parse_source w = ParseAi \<or> sh) (wf_parse_source w) (wf_runbook w) r v)))) md d = Inr (d', i)"
    unfolding create_v2_draft_from_v1_def by (auto simp: res_bind_eq_Inr split: if_splits)
  from ins obtain md where ins: "insert_workflow now (wf_runbook w) actor (\<lambda>r v. res_bind (py_get df ''name'' JNull) (\<lambda>name.
        res_bind (text_column name) (\<lambda>name.
        Inr (v2_row df report name ''pilot.v1'' (wf_parse_source w = ParseAi \<or> sh) (wf_parse_source w) (wf_runbook w) r v)))) md d = Inr (d', i)" ..
  show ?case
    by (rule insert_ok [OF lifted.prems ins]) (auto simp: res_bind_eq_Inr v2_row_sound [OF r], simp_all add: v2_row_def)
next
  case (accepted now i actor d d')
  from accepted.hyps obtain w ev where "tget (workflows d) i = Some w" "wf_status w = WfDraft"
      "d' = d\<lparr>workflows := tupd i (\<lambda>w. w\<lparr>wf_requires_review := False\<rparr>) (workflows d), audit_log := audit_log d @ [ev]\<rparr>"
    unfolding accept_review_def
    by (auto simp: res_bind_eq_Inr review_Inr upd_workflow_def split: option.splits elim!: emit_workflowE)
  with accepted.prems show ?case
    by (intro authoring_save [of env d i w d' "\<lambda>w. w\<lparr>wf_requires_review := False\<rparr>"]) (auto simp: workflow_sound_def)
next
  case (rejected now i actor d d')
  from rejected.hyps obtain w ev where "tget (workflows d) i = Some w"
      "d' = d\<lparr>workflows := tupd i (\<lambda>w. w\<lparr>wf_status := WfArchived, wf_requires_review := False\<rparr>) (workflows d), audit_log := audit_log d @ [ev]\<rparr>"
    unfolding reject_review_def
    by (auto simp: res_bind_eq_Inr review_Inr upd_workflow_def split: option.splits elim!: emit_workflowE)
  with rejected.prems show ?case
    by (intro authoring_save [of env d i w d' "\<lambda>w. w\<lparr>wf_status := WfArchived, wf_requires_review := False\<rparr>"])
      (auto simp: workflow_sound_def)
next
  case (published now i actor d d')
  then show ?case by (blast intro: publish_ok)
next
  case (archived now i actor d d')
  from archived.hyps obtain w ev where "tget (workflows d) i = Some w"
      "d' = d\<lparr>workflows := tupd i (\<lambda>w. w\<lparr>wf_status := WfArchived\<rparr>) (workflows d), audit_log := audit_log d @ [ev]\<rparr>"
    unfolding archive_workflow_def
    by (auto simp: upd_workflow_def split: option.splits if_splits elim!: emit_workflowE)
  with archived.prems show ?case
    by (intro authoring_save [of env d i w d' "\<lambda>w. w\<lparr>wf_status := WfArchived\<rparr>"]) (auto simp: workflow_sound_def)
qed

lemma authoring_run_ok: "(authoring_step env)\<^sup>*\<^sup>* d d' \<Longrightarrow> authoring_ok env d \<Longrightarrow> authoring_ok env d'"
  by (induction rule: rtranclp_induct) (auto intro: authoring_step_ok)

section \<open>Authoring in the world\<close>

lemma world_workflows [intro]:
  assumes "world_grows d d1"
  shows "world_grows d (d1\<lparr>workflows := ws\<rparr>)" and "world_grows d (d1\<lparr>runbooks := rbs\<rparr>)"
    and "world_grows d (d1\<lparr>next_id := n\<rparr>)"
  by (rule world.trans [OF assms], rule world_same; simp add: still_part_def approval_part_def)+

lemma world_emit_workflow:
  "emit_workflow_audit now i w et actor md d1 = Inr d' \<Longrightarrow> world_grows d d1 \<Longrightarrow> world_grows d d'"
  unfolding emit_workflow_audit_def by (rule world_emit)

lemma insert_workflow_world: "insert_workflow now rb actor row md d = Inr (d', i) \<Longrightarrow> world_grows d d'"
  unfolding insert_workflow_def fresh_def
  by (auto simp: res_bind_eq_Inr split: option.splits intro!: world_workflows world.refl elim!: world_emit_workflow)

lemma authoring_worlds [world_rules]:
  "create_runbook org ti sl co d = Inr (d', i) \<Longrightarrow> world_grows d d'"
  "mark_runbook_ready i rbk d = Inr d' \<Longrightarrow> world_grows d d'"
  "archive_runbook i rbk d = Inr d' \<Longrightarrow> world_grows d d'"
  unfolding create_runbook_def mark_runbook_ready_def archive_runbook_def set_runbook_status_def fresh_def
  by (auto split: if_splits intro!: world_workflows world.refl)

lemma authoring_step_world: "authoring_step env d d' \<Longrightarrow> world_grows d d'"
proof (induction rule: authoring_step.induct)
  case (drafted now tr rb seen rv src actor rq d d' i)
  then show ?case unfolding create_workflow_def Let_def by (auto simp: res_bind_eq_Inr intro: insert_workflow_world)
next
  case (parsed now post new_id mx rb seen actor rq d d' i)
  then show ?case unfolding create_workflow_from_runbook_def create_workflow_def Let_def
    by (auto simp: res_bind_eq_Inr split: if_splits intro: insert_workflow_world)
next
  case (written now rb df actor d d' i)
  then show ?case unfolding create_workflow_v2_draft_def by (auto simp: res_bind_eq_Inr intro: insert_workflow_world)
next
  case (lifted now w actor d d' i)
  then show ?case unfolding create_v2_draft_from_v1_def
    by (auto simp: res_bind_eq_Inr split: if_splits intro: insert_workflow_world)
qed (auto simp: accept_review_def reject_review_def publish_workflow_def archive_workflow_def res_bind_eq_Inr upd_workflow_def
      supersede_published_def split: option.splits if_splits intro!: world_workflows world.refl elim!: world_emit_workflow)

section \<open>The local transform\<close>

text \<open>A step with a name, a type the platform supports and a command that is a string, if any.\<close>

definition plain_step :: "candidate_step \<Rightarrow> bool" where
  "plain_step s \<longleftrightarrow> (\<exists>k n ty risk. cs_key s = JStr k \<and> k \<noteq> [] \<and> cs_name s = JStr n \<and> n \<noteq> [] \<and>
     cs_type s = JStr ty \<and> ty \<in> set SUPPORTED_STEP_TYPES \<and> cs_risk s = JStr risk \<and> risk \<in> set SUPPORTED_RISK_LEVELS)"

lemma in_set_str: "in_set (JStr k) seen = Inr (JStr k \<in> set seen)"
  by (auto simp: in_set_def)

lemma plain_candidate_ok:
  "\<forall>s \<in> set ss. plain_step s \<Longrightarrow> distinct (map cs_key ss) \<Longrightarrow> set (map cs_key ss) \<inter> set seen = {} \<Longrightarrow>
     candidate_steps_ok seen ss = Inr ()"
  by (induction ss arbitrary: seen) (auto simp: plain_step_def in_set_str)

lemma in_set_map_str: "in_set (JStr k) (map JStr ks) = Inr (k \<in> set ks)"
  by (auto simp: in_set_def)

lemma plain_semantics_ok:
  "\<forall>s \<in> set ss. plain_step s \<Longrightarrow> distinct (map cs_key ss) \<Longrightarrow> set (map cs_key ss) \<inter> JStr ` set seen = {} \<Longrightarrow>
     semantic_steps_ok seen (map definition_step ss) = Inr ()"
proof (induction ss arbitrary: seen)
  case (Cons s ss)
  from Cons.prems(1) obtain k n ty risk where s: "cs_key s = JStr k" "k \<noteq> []" "cs_type s = JStr ty"
      "ty \<in> set SUPPORTED_STEP_TYPES" "cs_risk s = JStr risk" "risk \<in> set SUPPORTED_RISK_LEVELS"
    by (auto simp: plain_step_def)
  with Cons.prems have "k \<notin> set seen" by auto
  have IH: "semantic_steps_ok (k # seen) (map definition_step ss) = Inr ()"
    using Cons.prems s(1) by (intro Cons.IH) auto
  with s \<open>k \<notin> set seen\<close> show ?case
    by (auto simp: definition_step_def [of s] fget_def in_set_map_str field_bad_def split: option.splits)
qed simp

lemma stub_steps_plain: "\<forall>(text, command) \<in> set found. text \<noteq> [] \<Longrightarrow> \<forall>s \<in> set (map stub_step (enumerate n found)). plain_step s"
  by (fastforce simp: plain_step_def stub_step_def stub_key_def SUPPORTED_STEP_TYPES_def SUPPORTED_RISK_LEVELS_def
      in_set_enumerate_eq split: prod.splits dest: nth_mem)

lemma stub_keys_distinct: "0 < n \<Longrightarrow> distinct (map cs_key (map stub_step (enumerate n found)))"
proof -
  assume "0 < n"
  then have "inj_on (\<lambda>k. JStr (stub_key k)) {n..<n + length found}"
    by (auto simp: inj_on_def intro: stub_key_inj [rotated 2])
  then have "distinct (map (\<lambda>k. JStr (stub_key k)) (map fst (enumerate n found)))"
    by (subst distinct_map) (simp add: map_fst_enumerate)
  moreover have "map cs_key (map stub_step (enumerate n found)) = map (\<lambda>k. JStr (stub_key k)) (map fst (enumerate n found))"
    unfolding map_map by (rule map_cong) (auto simp: stub_step_def split: prod.splits)
  ultimately show ?thesis by simp
qed

section \<open>Lifting keeps a definition valid\<close>

lemma fget_copied [simp]: "k \<noteq> j \<Longrightarrow> map_of (copied f j) k = None"
  by (auto simp: copied_def split: option.splits)

lemma map_of_app: "map_of (xs @ ys) k = (case map_of xs k of None \<Rightarrow> map_of ys k | Some v \<Rightarrow> Some v)"
  by (simp add: map_add_def split: option.splits)

text \<open>The fields of a lifted step the v2 checks read.\<close>

lemma lifted_action_cases:
  assumes "ty \<in> set SUPPORTED_STEP_TYPES"
  obtains action lt where "lifted_action f (JStr ty) = [(''type'', JStr lt), (''action'', JObj action)]"
    and "lt \<in> {''manual_task'', ''approval_gate'', ''shell_command''}" and "fget action ''type'' (JStr []) = JStr lt"
    and "map_of action ''version'' = None" and "map_of action ''inputs'' = None"
    and "fget action ''params'' JNull = JNull \<or> (\<exists>v. fget action ''params'' JNull = JObj [(''command'', v)]) \<or>
      (\<exists>v. fget action ''params'' JNull = JObj [(''timeout_seconds'', v)])"
proof (cases "map_of f ''approvalTimeoutSeconds''")
  case None
  with that assms show ?thesis unfolding SUPPORTED_STEP_TYPES_def by (auto simp: lifted_action_def fget_def)
next
  case (Some v)
  with that assms show ?thesis unfolding SUPPORTED_STEP_TYPES_def by (auto simp: lifted_action_def fget_def)
qed

definition lifted_inputs_ok :: "wf_env \<Rightarrow> json \<Rightarrow> bool" where
  "lifted_inputs_ok env step \<longleftrightarrow>
     (case step of JObj f \<Rightarrow> check_action_inputs env (fget f ''action'' (JObj [])) (JStr ''pilot.v1'') = Inr () | _ \<Rightarrow> False)"

lemma plain_params_ok:
  "check_shell_command_restrictions (JObj []) = Inr ()"
  "check_shell_command_restrictions (JObj [(''command'', v)]) = Inr ()"
  "check_shell_command_restrictions (JObj [(''timeout_seconds'', v)]) = Inr ()"
  by (simp_all add: check_shell_command_restrictions_def fget_def all_ok_def)

lemma lifted_step_ok:
  assumes id: "fget f ''id'' JNull = JStr i" and ty: "fget f ''type'' JNull = JStr ty" "ty \<in> set SUPPORTED_STEP_TYPES"
    and cat: "we_catalog env ''pilot.v1'' = Some types" "{''manual_task'', ''approval_gate'', ''shell_command''} \<subseteq> set types"
    and inp: "lifted_inputs_ok env (lifted_step f)" and new: "JStr i \<notin> set seen"
    and df: "df = JObj fs" "map_of fs ''secrets'' = Some (JArr [])"
  shows "check_step env df (JStr ''pilot.v1'') (seen, arts) (k, lifted_step f) = Inr (JStr i # seen, arts)"
proof -
  from ty have t: "fget f ''type'' (JStr []) = JStr ty" by (auto simp: fget_def split: option.splits)
  from id have i: "fget f ''id'' (JStr d) = JStr i" for d by (auto simp: fget_def split: option.splits)
  obtain action lt where a: "lifted_action f (JStr ty) = [(''type'', JStr lt), (''action'', JObj action)]"
    "lt \<in> {''manual_task'', ''approval_gate'', ''shell_command''}" "fget action ''type'' (JStr []) = JStr lt"
    "map_of action ''version'' = None" "map_of action ''inputs'' = None"
    and params: "fget action ''params'' JNull = JNull \<or> (\<exists>v. fget action ''params'' JNull = JObj [(''command'', v)]) \<or>
      (\<exists>v. fget action ''params'' JNull = JObj [(''timeout_seconds'', v)])"
    using ty(2) by (rule lifted_action_cases)
  obtain g where g: "lifted_step f = JObj g" and g_eq: "g = [(''id'', JStr i), (''name'', fget f ''name'' (JStr [])),
     (''risk'', fget f ''risk'' (JStr ''low'')), (''retry'', JObj [(''maxAttempts'', JInt 1)]),
     (''idempotency'', JObj [(''mode'', JStr ''none'')]), (''artifacts'', JArr []), (''secrets'', JArr [])]
     @ copied f ''requiresApproval'' @ copied f ''approvalTimeoutSeconds'' @ [(''type'', JStr lt), (''action'', JObj action)]"
    by (simp add: lifted_step_def t a(1) i)
  have fields: "fget g ''id'' d = JStr i" "fget g ''type'' d = JStr lt" "fget g ''action'' d = JObj action"
      "fget g ''retry'' d = JObj [(''maxAttempts'', JInt 1)]" "fget g ''idempotency'' d = JObj [(''mode'', JStr ''none'')]"
      "fget g ''artifacts'' d = JArr []" "fget g ''secrets'' d = JArr []" "fget g ''dryRun'' d = d" for d
    unfolding fget_def g_eq map_of_app by simp_all
  have inputs: "check_action_inputs env (JObj action) (JStr ''pilot.v1'') = Inr ()"
    using inp by (simp add: lifted_inputs_ok_def g fields)
  have catalog: "check_action_catalog env (JObj action) (JStr ''pilot.v1'') = Inr ()"
    using a cat by (auto simp: check_action_catalog_def fget_def [of action "''version''"])
  have no_inputs: "fget action ''inputs'' JNull = JNull" using a(5) by (simp add: fget_def)
  have "\<exists>p. action_params (JObj action) = Inr p \<and> check_shell_command_restrictions p = Inr ()"
    using params by (elim disjE exE) (simp_all add: action_params_def no_inputs py_or_def plain_params_ok)
  then have pilot: "check_pilot_restrictions (JObj g) (JObj action) = Inr ()"
    using a(2) by (auto simp: check_pilot_restrictions_def fields)
  have "check_action_type_match (JObj g) (JObj action) = Inr ()"
    by (simp add: check_action_type_match_def fields a(3))
  moreover have "check_step_secrets (JObj g) df = Inr ()"
    by (simp add: check_step_secrets_def fields df fget_def [of fs] all_ok_def)
  moreover have "check_step_artifacts arts (JObj g) = Inr arts"
    by (simp add: check_step_artifacts_def fields)
  moreover have "check_retry_idempotency (JObj g) = Inr ()"
    by (simp add: check_retry_idempotency_def fields) (simp add: fget_def)
  moreover have "check_dry_run (JObj g) = Inr ()"
    by (simp add: check_dry_run_def fields)
  moreover have "in_set (JStr i) seen = Inr False" using new by (auto simp: in_set_def)
  ultimately show ?thesis
    by (simp add: check_step_def g fields inputs catalog pilot)
qed

lemma lift_fold:
  "semantic_steps_ok seen ss = Inr () \<Longrightarrow>
     res_fold (\<lambda>(acc, shell) s. res_bind (lift_v1_step s) (\<lambda>(s, sh). Inr (acc @ [s], shell \<or> sh))) (acc, sh) ss =
       Inr (acc @ map (lifted_step \<circ> fields_of) ss, sh \<or> (\<exists>s \<in> set ss. fget (fields_of s) ''type'' (JStr []) = JStr ''shell_command''))"
  by (induction seen ss arbitrary: acc sh rule: semantic_steps_ok.induct)
    (auto simp: lift_v1_step_def res_bind_eq_Inr invalid_workflow_def split: json.splits if_splits)

lemma lifted_steps_checked:
  assumes "semantic_steps_ok seen ss = Inr ()"
    and cat: "we_catalog env ''pilot.v1'' = Some types" "{''manual_task'', ''approval_gate'', ''shell_command''} \<subseteq> set types"
    and "\<forall>s \<in> set ss. lifted_inputs_ok env (lifted_step (fields_of s))"
    and df: "df = JObj fs" "map_of fs ''secrets'' = Some (JArr [])"
  shows "\<exists>ids. res_fold (check_step env df (JStr ''pilot.v1'')) (map JStr seen, arts)
      (enumerate k (map (lifted_step \<circ> fields_of) ss)) = Inr (ids, arts)"
  using assms(1,4)
proof (induction ss arbitrary: seen k)
  case (Cons s ss)
  from Cons.prems(1) obtain f i where f: "s = JObj f" "fget f ''id'' JNull = JStr i" "i \<notin> set seen"
    and ty: "in_set (fget f ''type'' JNull) (map JStr SUPPORTED_STEP_TYPES) = Inr True"
    and rest: "semantic_steps_ok (i # seen) ss = Inr ()"
    by (auto simp: res_bind_eq_Inr invalid_workflow_def split: json.splits if_splits)
  from ty obtain t where t: "fget f ''type'' JNull = JStr t" "t \<in> set SUPPORTED_STEP_TYPES"
    by (auto simp: in_set_def py_eq_JStr split: if_splits)
  have new: "JStr i \<notin> set (map JStr seen)" using f(3) by auto
  have inp: "lifted_inputs_ok env (lifted_step f)" using Cons.prems(2) f(1) by simp
  from lifted_step_ok [OF f(2) t cat inp new df, of arts k] Cons.IH [OF rest, of "Suc k"] Cons.prems(2) show ?case
    by (simp add: f(1))
qed simp

section \<open>Properties\<close>

text \<open>
  C9: whatever is drafted, reviewed, published and archived, in any order: a published workflow is the only
  published one of its runbook, does not await review, carries the hash of its definition, and its
  definition is accepted by the validator of its schema version; versions of a runbook never repeat.
\<close>

theorem published_workflows_are_sound:
  assumes "(authoring_step env)\<^sup>*\<^sup>* d d'" and "authoring_ok env d"
    and "tget (workflows d') i = Some w" and "wf_status w = WfPublished"
  shows "\<not> wf_requires_review w \<and> wf_definition_hash w = compute_definition_hash (wf_definition w) \<and>
    validate_workflow_definition env (wf_definition w) (wf_schema_version w) = Inr () \<and>
    (\<forall>j v. tget (workflows d') j = Some v \<and> wf_runbook v = wf_runbook w \<and> j \<noteq> i \<longrightarrow>
       wf_status v \<noteq> WfPublished \<and> wf_version v \<noteq> wf_version w)"
proof -
  from authoring_run_ok [OF assms(1,2)] have ok: "authoring_ok env d'" .
  from assms(3) have mem: "(i, w) \<in> set (workflows d')" by (rule tget_SomeD)
  with ok have "workflow_sound env w" by (auto simp: authoring_ok_def)
  moreover have "wf_status v \<noteq> WfPublished \<and> wf_version v \<noteq> wf_version w"
    if "tget (workflows d') j = Some v" "wf_runbook v = wf_runbook w" "j \<noteq> i" for j v
    using ok no_clashD [OF _ tget_SomeD [OF that(1)] mem that(2)] that(3) assms(4)
    by (auto simp: authoring_ok_def)
  ultimately show ?thesis using assms(4) unfolding workflow_sound_def by blast
qed


text \<open>
  C39: the local transform always produces a workflow: on every runbook text its candidate passes the
  candidate check, and the definition it maps to passes the semantic check.
\<close>

theorem local_transform_is_accepted:
  "\<exists>c. stub_transform_runbook title slug raw rq = Inr c \<and> validate_candidate c = Inr () \<and>
     validate_definition_semantics (map_candidate_to_definition c) = Inr ()"
proof -
  define found where "found = (if extract_candidates raw = [] then [(if strip title = [] then ''Run procedure'' else strip title, None)]
    else extract_candidates raw)"
  have ne: "found \<noteq> []" and texts: "\<forall>(text, command) \<in> set found. text \<noteq> []"
    by (auto simp: found_def dest: extract_nonempty)
  define ss where "ss = map stub_step (enumerate 1 found)"
  have plain: "\<forall>s \<in> set ss. plain_step s" unfolding ss_def by (rule stub_steps_plain [OF texts])
  have dist: "distinct (map cs_key ss)" unfolding ss_def by (rule stub_keys_distinct) simp
  from ne obtain x xs where x: "map definition_step ss = x # xs" and "ss \<noteq> []"
    by (cases found) (simp_all add: ss_def)
  from plain_candidate_ok [OF plain dist, of "[]"] plain_semantics_ok [OF plain dist, of "[]"]
  have "candidate_steps_ok [] ss = Inr ()" "semantic_steps_ok [] (x # xs) = Inr ()" by (simp_all only: x) simp_all
  with x \<open>ss \<noteq> []\<close> show ?thesis
    unfolding stub_transform_runbook_def Let_def found_def [symmetric] ss_def [symmetric]
    by (simp add: validate_candidate_def validate_definition_semantics_def map_candidate_to_definition_def fget_def
        del: candidate_steps_ok.simps semantic_steps_ok.simps)
qed

text \<open>
  C40: lifting keeps a workflow valid: if a v1 definition passes the semantic check, its lifted v2 definition
  exists, and it passes the whole v2 validation as soon as the v2 JSON schema accepts it, the catalog
  lists the three actions and their schemas accept the lifted parameters. A lift that introduces a shell
  command is one that has a shell step.
\<close>

theorem lifted_definition_is_valid:
  assumes "validate_definition_semantics (wf_definition w) = Inr ()"
    and "we_catalog env ''pilot.v1'' = Some types" and "{''manual_task'', ''approval_gate'', ''shell_command''} \<subseteq> set types"
  shows "\<exists>df sh. lifted_definition w = Inr (df, sh) \<and>
      (we_schema_v2 env df \<and> (\<forall>s \<in> set (items_of (fget (fields_of df) ''steps'' JNull)). lifted_inputs_ok env s)
         \<longrightarrow> validate_v2 env df = Inr ()) \<and>
      (sh \<longleftrightarrow> (\<exists>s \<in> set (items_of (fget (fields_of (wf_definition w)) ''steps'' JNull)).
         fget (fields_of s) ''type'' (JStr []) = JStr ''shell_command''))"
proof -
  from assms(1) obtain f s ss where d: "wf_definition w = JObj f" and steps: "fget f ''steps'' JNull = JArr (s # ss)"
    and sem: "semantic_steps_ok [] (s # ss) = Inr ()"
    unfolding validate_definition_semantics_def
    by (cases "wf_definition w") (auto simp: invalid_workflow_def split: json.splits list.splits simp del: semantic_steps_ok.simps)
  from steps have steps': "fget f ''steps'' (JArr []) = JArr (s # ss)" by (auto simp: fget_def split: option.splits)
  define ls where "ls = map (lifted_step \<circ> fields_of) (s # ss)"
  define sh where "sh \<longleftrightarrow> (\<exists>s \<in> set (s # ss). fget (fields_of s) ''type'' (JStr []) = JStr ''shell_command'')"
  define fs where "fs = [(''schemaVersion'', JStr ''2''), (''name'', fget f ''name'' (JStr (wf_name w))),
    (''catalogVersion'', JStr ''pilot.v1''), (''steps'', JArr ls), (''secrets'', JArr [])]"
  have lift: "lifted_definition w = Inr (JObj fs, sh)"
    using lift_fold [OF sem, of "[]" False]
    by (simp add: lifted_definition_def d steps' lift_v1_steps_def fs_def ls_def sh_def del: res_fold.simps)
  have "validate_v2 env (JObj fs) = Inr ()" if "we_schema_v2 env (JObj fs)" "\<forall>s \<in> set ls. lifted_inputs_ok env s"
  proof -
    have "\<exists>ids. res_fold (check_step env (JObj fs) (JStr ''pilot.v1'')) (map JStr [], []) (enumerate 1 ls) = Inr (ids, [])"
      using that(2) unfolding ls_def by (intro lifted_steps_checked [OF sem assms(2,3) _ refl]) (simp_all add: fs_def)
    with that(1) show ?thesis
      by (auto simp: validate_v2_def check_catalog_version_def catalog_version_of_def in_set_def
          check_steps_def check_secret_declarations_def fs_def fget_def)
  qed
  moreover have "items_of (fget (fields_of (JObj fs)) ''steps'' JNull) = ls" by (simp add: fs_def fget_def)
  ultimately show ?thesis using lift by (auto simp: sh_def d steps)
qed

section \<open>Witnesses\<close>

definition sample_authoring :: authoring_env where
  "sample_authoring = \<lparr>ae_validation = \<lparr>we_schema_v2 = (\<lambda>_. True),
     we_catalog = (\<lambda>_. Some [''manual_task'', ''approval_gate'', ''shell_command'']),
     we_action_schema = (\<lambda>_ _. Some (JObj [])), we_validates = (\<lambda>_ _. True)\<rparr>,
     ae_schema_v1 = (\<lambda>_. True), ae_error_text = (\<lambda>_. [])\<rparr>"

definition sample_runbook :: runbook where
  "sample_runbook = \<lparr>rb_org = 1, rb_title = ''T'', rb_slug = ''s'', rb_content = ''raw'', rb_status = RbReady\<rparr>"

definition sample_v1 :: json where
  "sample_v1 = JObj [(''name'', JStr ''W''), (''steps'', JArr [
     JObj [(''id'', JStr ''a''), (''type'', JStr ''approval''), (''risk'', JStr ''low''), (''approvalTimeoutSeconds'', JInt 60)],
     JObj [(''id'', JStr ''b''), (''type'', JStr ''shell_command''), (''risk'', JStr ''high''), (''command'', JStr ''ls'')]])]"

definition authoring_db :: "(nat \<times> workflow) list \<Rightarrow> db" where
  "authoring_db ws = empty_db\<lparr>next_id := 10, runbooks := [(5, sample_runbook)], workflows := ws\<rparr>"

abbreviation sample_draft :: workflow where
  "sample_draft \<equiv> v1_row sample_v1 ''W'' False ParseManual 5 sample_runbook 1"

lemma sample_v1_valid: "validate_definition_semantics sample_v1 = Inr ()"
  by (simp add: validate_definition_semantics_def sample_v1_def fget_def in_set_def field_bad_def
      SUPPORTED_STEP_TYPES_def SUPPORTED_RISK_LEVELS_def)

lemma authoring_db_ok: "authoring_ok sample_authoring (authoring_db [])" "authoring_ok sample_authoring (authoring_db [(7, sample_draft)])"
  by (simp_all add: authoring_ok_def authoring_db_def empty_db_def twf_def tkeys_def no_clash_def workflow_sound_def v1_row_def
      validate_workflow_definition_def validate_workflow_v1_def sample_v1_valid) (simp add: sample_authoring_def)

lemma authoring_keys: "\<not> sensitive ''runbook_id''" "\<not> sensitive ''version''" "\<not> sensitive ''requires_review''" "\<not> sensitive ''parse_source''"
  by (simp_all add: sensitive_def lower_def lower_char_def code_point_def REJECTED_METADATA_KEYS_def FORBIDDEN_METADATA_KEYS_def)

theorem published_workflows_are_sound_witness:
  "\<exists>d' w. publish_workflow 9 7 None (authoring_db [(7, sample_draft)]) = Inr d' \<and> tget (workflows d') 7 = Some w \<and>
     wf_status w = WfPublished \<and> validate_workflow_definition sample_authoring (wf_definition w) (wf_schema_version w) = Inr ()"
proof -
  let ?d = "authoring_db [(7, sample_draft)]"
  let ?d1 = "upd_workflow 7 (\<lambda>w. w\<lparr>wf_status := WfPublished\<rparr>) (supersede_published 5 7 ?d)"
  have "\<exists>ev. emit_workflow_audit 9 7 sample_draft ''workflow.published'' None
      (status_metadata sample_draft WfPublished @ [(''version'', JInt 1)]) ?d1 = Inr (?d1\<lparr>audit_log := audit_log ?d1 @ [ev]\<rparr>)"
    unfolding emit_workflow_audit_def
    using length_id_str [of 5]
    by (intro audit_emit_succeeds)
      (simp_all add: sample_event_simps authoring_keys status_metadata_def v1_row_def int_str_def nat_str.simps)
  then obtain ev where ev: "emit_workflow_audit 9 7 sample_draft ''workflow.published'' None
      (status_metadata sample_draft WfPublished @ [(''version'', JInt 1)]) ?d1 = Inr (?d1\<lparr>audit_log := audit_log ?d1 @ [ev]\<rparr>)" ..
  have row: "tget (workflows ?d) 7 = Some sample_draft" by (simp add: authoring_db_def tget_def)
  have f: "\<not> wf_requires_review sample_draft" "wf_status sample_draft = WfDraft" "wf_schema_version sample_draft = ''workflow.schema.v1''"
      "wf_runbook sample_draft = 5" "int (wf_version sample_draft) = 1"
    by (simp_all add: v1_row_def)
  have p: "publish_workflow 9 7 None ?d = Inr (?d1\<lparr>audit_log := audit_log ?d1 @ [ev]\<rparr>)"
    by (simp only: publish_workflow_def row option.case f ev if_False not_True_eq_False) (simp add: ev [simplified])
  then have run: "(authoring_step sample_authoring)\<^sup>*\<^sup>* ?d (?d1\<lparr>audit_log := audit_log ?d1 @ [ev]\<rparr>)"
    by (blast intro: authoring_step.published)
  have w: "tget (workflows (?d1\<lparr>audit_log := audit_log ?d1 @ [ev]\<rparr>)) 7 = Some (sample_draft\<lparr>wf_status := WfPublished\<rparr>)"
    using row by (simp add: upd_workflow_def supersede_published_def table_simps)
  from published_workflows_are_sound [OF run authoring_db_ok(2) w] p w show ?thesis by auto
qed


theorem lifted_definition_is_valid_witness:
  "\<exists>df. lifted_definition sample_draft = Inr (df, True) \<and> validate_v2 (ae_validation sample_authoring) df = Inr ()"
proof -
  have cat: "we_catalog (ae_validation sample_authoring) ''pilot.v1'' = Some [''manual_task'', ''approval_gate'', ''shell_command'']"
    and sch: "we_schema_v2 (ae_validation sample_authoring) df" for df
    by (simp_all add: sample_authoring_def)
  have sem: "validate_definition_semantics (wf_definition sample_draft) = Inr ()" by (simp add: v1_row_def sample_v1_valid)
  have lift: "lifted_definition sample_draft = Inr (JObj [(''schemaVersion'', JStr ''2''), (''name'', JStr ''W''),
      (''catalogVersion'', JStr ''pilot.v1''), (''steps'', JArr (map (lifted_step \<circ> fields_of) (items_of (fget (fields_of sample_v1) ''steps'' JNull)))),
      (''secrets'', JArr [])], True)"
    by (simp add: lifted_definition_def v1_row_def sample_v1_def fget_def lift_v1_steps_def lift_v1_step_def)
  have inputs: "\<forall>s \<in> set (map (lifted_step \<circ> fields_of) (items_of (fget (fields_of sample_v1) ''steps'' JNull))).
      lifted_inputs_ok (ae_validation sample_authoring) s"
    by (simp add: sample_v1_def fget_def lifted_step_def copied_def lifted_action_def lifted_inputs_ok_def check_action_inputs_def
        sample_authoring_def py_or_def Let_def)
  have "set [''manual_task'', ''approval_gate'', ''shell_command''] = {''manual_task'', ''approval_gate'', ''shell_command''}" by simp
  from lifted_definition_is_valid [OF sem cat equalityD2 [OF this]] lift sch inputs show ?thesis
    by (auto simp: fget_def [of "_ # _" "''steps''"])
qed

end
