(* ===== verification/System.thy ===== *)
theory System
  imports Change_Requests Change_Closing Runner_Views Runner_Registry Workflow_Authoring
begin

text \<open>
  The control plane as one system: a step is one call of a public service, at any time and with
  any arguments. Services are the units of interleaving: each runs in a transaction, or commits what
  it returns when it fails. A new change gets an identifier that no change has.
\<close>

section \<open>The services\<close>

inductive service_step :: "db \<Rightarrow> db \<Rightarrow> bool" where
  create: "create_change_record now org rq actor d = Inr (d', k) \<Longrightarrow> tget (changes d) (next_id d) = None \<Longrightarrow> service_step d d'"
| submit: "submit_change_record env now nonce k actor d = Inr d' \<Longrightarrow> service_step d d'"
| window: "create_or_update_change_window now k seen starts ends tz why actor d = Inr (d', i) \<Longrightarrow> service_step d d'"
| freeze_new: "create_freeze_rule now org name b s e sc de tt ti rr actor d = (d', res) \<Longrightarrow> service_step d d'"
| freeze_edit: "update_freeze_rule now i fp actor d = (d', res) \<Longrightarrow> service_step d d'"
| freeze_off: "deactivate_freeze_rule now i actor d = (d', res) \<Longrightarrow> service_step d d'"
| profile_new: "create_operation_profile now org key name de ri ap ve ttl dttl tt is ts wfs actor d = (d', r) \<Longrightarrow> service_step d d'"
| profile_edit: "update_operation_profile now i u wfs actor d = (d', r) \<Longrightarrow> service_step d d'"
| profile_off: "deactivate_operation_profile now i actor d = (d', r) \<Longrightarrow> service_step d d'"
| step_approval: "request_step_approval now e i rid tok driven evi d = Inr (d', a, created) \<Longrightarrow> service_step d d'"
| approval_poll: "get_approval_status env now a d = Inr d' \<Longrightarrow> service_step d d'"
| approval_sweep: "recover_expired_approvals env now batch d = (d', r) \<Longrightarrow> service_step d d'"
| decide: "decide_approval env now nonce a dec notes actor label user d = (d', res) \<Longrightarrow> service_step d d'"
| preflight: "run_dispatch_preflight now k actor d = (d', Inr (i, ec)) \<Longrightarrow> service_step d d'"
| dispatch: "make_dispatchable env now nonce actor k d = Inr d' \<Longrightarrow> service_step d d'"
| promote: "promote_due_scheduled_changes env now nonces d = (d', ps) \<Longrightarrow> service_step d d'"
| unbound: "expire_unbound_dispatch_for_execution now e d = Inr (d', skip) \<Longrightarrow> service_step d d'"
| bind: "bind_execution now k rid tok e dtok sha key d = (d', reply) \<Longrightarrow> service_step d d'"
| accepted: "record_execution_accepted now k rid e t d = Inr d' \<Longrightarrow> service_step d d'"
| started: "record_execution_started now k rid e t d = Inr d' \<Longrightarrow> service_step d d'"
| finished: "record_execution_finished now k rid e t d = Inr (d', n, s) \<Longrightarrow> service_step d d'"
| policy_link: "link_policy_evaluation now e i pe d = Inr d' \<Longrightarrow> service_step d d'"
| execute: "create_execution env now w actor mode fc d = Inr (d', e) \<Longrightarrow> service_step d d'"
| cancel: "cancel_execution now e actor d = Inr d' \<Longrightarrow> service_step d d'"
| heartbeat: "heartbeat_execution now e rid tok d = (d', r) \<Longrightarrow> service_step d d'"
| step: "update_execution_step now e i rid tok new rep allow d = Inr d' \<Longrightarrow> service_step d d'"
| complete: "complete_execution now e rid tok out d = (d', r) \<Longrightarrow> service_step d d'"
| stuck: "recover_stuck_executions now th d = (d', r) \<Longrightarrow> service_step d d'"
| approval_timeout: "fail_execution_for_approval_timeout now e i a req d = Inr (d', b) \<Longrightarrow> service_step d d'"
| exception_new: "request_exception P now k actor et why scope expires user d = (d', r) \<Longrightarrow> service_step d d'"
| exception_yes: "approve_exception in_tx now i actor user d = (d', r) \<Longrightarrow> service_step d d'"
| exception_no: "reject_exception now i actor user d = (d', r) \<Longrightarrow> service_step d d'"
| exception_end: "resolve_exception now i x actor note d = (d', r) \<Longrightarrow> service_step d d'"
| breakglass: "activate_breakglass now k actor scope why expires user d = Inr (d', i) \<Longrightarrow> service_step d d'"
| breakglass_end: "end_breakglass now is actor why user d = (d', r) \<Longrightarrow> service_step d d'"
| breakglass_sweep: "expire_breakglass_sessions now ko d = (d', r) \<Longrightarrow> service_step d d'"
| breakglass_beat: "record_breakglass_heartbeat now k rid tok obs d = (d', beat) \<Longrightarrow> service_step d d'"
| breakglass_late: "mark_breakglass_review_overdue now d = (d', r) \<Longrightarrow> service_step d d'"
| review: "submit_retro_review now j actor user disp sm evs rem d = (d', res) \<Longrightarrow> service_step d d'"
| review_sweep: "mark_overdue_retro_reviews now d = (d', r) \<Longrightarrow> service_step d d'"
| evidence: "submit_verification_result fm now k key source outc actor uo rid eo evd d = Inr (d', i) \<Longrightarrow> service_step d d'"
| runner_evidence: "record_runner_verification_result fm now k rid tok e key outc vk sk arts sums ob me at d = Inr (d', i) \<Longrightarrow> service_step d d'"
| claim: "claim_next_execution now runner_id reg d = (d', reply') \<Longrightarrow> service_step d d'"
| policy_new: "create_policy now org pname de act by actor d = Inr (d', i) \<Longrightarrow> service_step d d'"
| policy_changed: "update_policy now i polseen pu actor d = Inr d' \<Longrightarrow> service_step d d'"
| rule_new: "create_rule zones now p rname pri ct ps out de why act actor d = Inr (d', i) \<Longrightarrow> service_step d d'"
| rule_changed: "update_rule zones now i ruleseen ru actor d = Inr d' \<Longrightarrow> service_step d d'"
| evaluation: "evaluate_step_policy zones now e x i s d = Inr (d', j, ev) \<Longrightarrow> service_step d d'"
| view_claim: "claim_next_view env now nonces rq d = (d', answer) \<Longrightarrow> service_step d d'"
| view_beat: "heartbeat_view now e rq d = (d', answer) \<Longrightarrow> service_step d d'"
| view_start: "step_start_view env zones now e i rq d = (d', answer) \<Longrightarrow> service_step d d'"
| view_poll: "approval_status_view env now e i rq d = (d', answer) \<Longrightarrow> service_step d d'"
| view_report: "step_update_view now e i rq st rep d = (d', answer) \<Longrightarrow> service_step d d'"
| view_complete: "complete_view now e rq out d = (d', answer) \<Longrightarrow> service_step d d'"
| authoring: "authoring_step aenv d d' \<Longrightarrow> service_step d d'"
| runbook_new: "create_runbook org ti sl co d = Inr (d', i) \<Longrightarrow> service_step d d'"
| runbook_ready: "mark_runbook_ready i rbk d = Inr d' \<Longrightarrow> service_step d d'"
| runbook_off: "archive_runbook i rbk d = Inr d' \<Longrightarrow> service_step d d'"
| reg_token_new: "create_registration_token org pool pl clear ex mx ls cs d = Inr (d', i) \<Longrightarrow> service_step d d'"
| reg_token_off: "revoke_registration_token now i rt d = Inr d' \<Longrightarrow> service_step d d'"
| runner_new: "runner_register_view now clear token g oid key d = (d', answer') \<Longrightarrow> service_step d d'"
| runner_beat: "runner_heartbeat_view now au su he ve ho d = (d', answer') \<Longrightarrow> service_step d d'"
| runner_drain: "drain_runner now i rn d = Inr d' \<Longrightarrow> service_step d d'"
| runner_disable: "disable_runner now i rn d = Inr d' \<Longrightarrow> service_step d d'"
| runner_revoke: "revoke_runner now i rn d = Inr d' \<Longrightarrow> service_step d d'"
| runners_stale: "mark_stale_runners_offline now so d = (d', r) \<Longrightarrow> service_step d d'"
| pool_drain: "drain_pool now i pl d = Inr d' \<Longrightarrow> service_step d d'"
| pool_disable: "disable_pool now i pl d = Inr d' \<Longrightarrow> service_step d d'"
| pool_back: "reactivate_pool i pl d = Inr d' \<Longrightarrow> service_step d d'"
| route_off: "deactivate_route i ro d = Inr d' \<Longrightarrow> service_step d d'"
| route_back: "reactivate_route i ro d = Inr d' \<Longrightarrow> service_step d d'"
| close: "close_change now k outc summary actor cb rv d = Inr (d', j) \<Longrightarrow> service_step d d'"

abbreviation runs_to :: "db \<Rightarrow> db \<Rightarrow> bool" where
  "runs_to \<equiv> service_step\<^sup>*\<^sup>*"

section \<open>Facts\<close>

lemma run_preflight_world:
  "run_dispatch_preflight now k actor d = (d', Inr (i, ec)) \<Longrightarrow> world_grows d d'"
  by (rule run_preflight_Inr)

lemmas service_worlds = world_rules authoring_step_world make_dispatchable_world run_preflight_world
  bind_execution_progress [THEN progress_world] end_breakglass_progress [THEN progress_world]
  expire_breakglass_sessions_progress [THEN progress_world] progress_rules [THEN progress_world]

lemma service_world: "service_step d d' \<Longrightarrow> world_grows d d'"
  by (induction rule: service_step.induct) (erule service_worlds; assumption?)+

lemma run_world: "runs_to d d' \<Longrightarrow> world_grows d d'"
  by (induction rule: rtranclp_induct) (auto intro: world.refl world.trans service_world)

section \<open>The abstract lifecycle\<close>

text \<open>
  What an approver or auditor may rely on, per change: it does not exist; it is a draft whose
  request may still be edited; or it was submitted, and then its request is fixed for good and its
  status only moves along the table, or back from approved to pending when its window is changed.
\<close>

datatype 'r change_view = Absent | Draft | Submitted change_status 'r

inductive lifecycle :: "'r change_view \<Rightarrow> 'r change_view \<Rightarrow> bool" where
  created: "lifecycle Absent Draft"
| submitted: "s \<in> set (ALLOWED_STATUS_TRANSITIONS ChDraft) \<Longrightarrow> lifecycle Draft (Submitted s r)"
| moved: "t \<in> set (ALLOWED_STATUS_TRANSITIONS s) \<Longrightarrow> lifecycle (Submitted s r) (Submitted t r)"
| approval_void: "s \<in> {ChApproved, ChScheduled} \<Longrightarrow> lifecycle (Submitted s r) (Submitted ChPendingApproval r)"

definition view_of where
  "view_of d k = (case tget (changes d) k of
     None \<Rightarrow> Absent
   | Some c \<Rightarrow> if ch_status c = ChDraft then Draft else Submitted (ch_status c) (frozen_request c))"

lemma lifecycle_moves:
  assumes "change_step\<^sup>*\<^sup>* s t" and "s \<noteq> ChDraft"
  shows "lifecycle\<^sup>*\<^sup>* (Submitted s r) (Submitted t r)"
  using assms(1)
proof (induction rule: rtranclp_induct)
  case (step t u)
  show ?case
  proof (cases "u = t")
    case False
    with step(2) have "lifecycle (Submitted t r) (Submitted u r)"
      by (auto simp: change_step_def change_lc.moves_def intro: lifecycle.intros)
    with step(3) show ?thesis by simp
  qed (use step(3) in simp)
qed simp

lemma lifecycle_submits:
  assumes "change_step\<^sup>*\<^sup>* ChDraft t" and "t \<noteq> ChDraft"
  shows "lifecycle\<^sup>*\<^sup>* Draft (Submitted t r)"
  using assms
proof (induction rule: rtranclp_induct)
  case (step t u)
  show ?case
  proof (cases "t = ChDraft")
    case True
    with step(2) step.prems have "u \<in> set (ALLOWED_STATUS_TRANSITIONS ChDraft)"
      by (auto simp: change_step_def change_lc.moves_def)
    then show ?thesis by (blast intro: lifecycle.submitted)
  next
    case False
    show ?thesis
      by (rule rtranclp_trans [OF step(3) [OF False] lifecycle_moves [OF r_into_rtranclp [of change_step, OF step(2)] False]])
  qed
qed simp

lemma draft_reaches: "change_step\<^sup>*\<^sup>* ChDraft s"
proof -
  have step: "change_step\<^sup>*\<^sup>* ChDraft t" if "change_step\<^sup>*\<^sup>* ChDraft s" "t \<in> set (ALLOWED_STATUS_TRANSITIONS s)" for s t
    using that(2) by (intro rtranclp.rtrancl_into_rtrancl [OF that(1)]) (simp add: change_step_def change_lc.moves_def)
  have a: "change_step\<^sup>*\<^sup>* ChDraft ChPendingApproval" "change_step\<^sup>*\<^sup>* ChDraft ChApproved" "change_step\<^sup>*\<^sup>* ChDraft ChCanceled"
    by (rule step [OF rtranclp.rtrancl_refl]; simp)+
  have b: "change_step\<^sup>*\<^sup>* ChDraft ChRejected" "change_step\<^sup>*\<^sup>* ChDraft ChExpired" by (rule step [OF a(1)]; simp)+
  have c: "change_step\<^sup>*\<^sup>* ChDraft ChScheduled" "change_step\<^sup>*\<^sup>* ChDraft ChDispatchable" by (rule step [OF a(2)]; simp)+
  have r: "change_step\<^sup>*\<^sup>* ChDraft ChRunning" by (rule step [OF c(2)]) simp
  have v: "change_step\<^sup>*\<^sup>* ChDraft ChVerificationPending" "change_step\<^sup>*\<^sup>* ChDraft ChClosed" by (rule step [OF r]; simp)+
  have w: "change_step\<^sup>*\<^sup>* ChDraft ChVerified" "change_step\<^sup>*\<^sup>* ChDraft ChVerificationFailed" by (rule step [OF v(1)]; simp)+
  show ?thesis using a b c r v w by (cases s) auto
qed

lemma lifecycle_of_world:
  assumes "world_grows d d'"
  shows "lifecycle\<^sup>*\<^sup>* (view_of d k) (view_of d' k)"
proof (cases "tget (changes d) k")
  case None
  show ?thesis
  proof (cases "tget (changes d') k")
    case (Some c)
    show ?thesis
      using lifecycle_submits [OF draft_reaches [of "ch_status c"], of "frozen_request c"] lifecycle.created
      by (auto simp: view_of_def None Some intro: converse_rtranclp_into_rtranclp)
  qed (simp add: view_of_def None)
next
  case (Some c)
  with assms obtain c' where c': "tget (changes d') k = Some c'" "change_row_ok c c'"
    by (simp add: world_grows_def table_within_def) blast
  show ?thesis
  proof (cases "ch_status c = ChDraft")
    case True
    with c' lifecycle_submits [of "ch_status c'" "frozen_request c'"] show ?thesis
      by (auto simp: view_of_def Some change_row_ok_def)
  next
    case False
    with c' lifecycle_moves [of "ch_status c" "ch_status c'" "frozen_request c"] change_steps_draft [of "ch_status c" "ch_status c'"]
    show ?thesis by (auto simp: view_of_def Some change_row_ok_def)
  qed
qed

section \<open>Properties\<close>


text \<open>
  C8: no service rewrites history: the log is extended by clean events only; target locks stay
  exclusive; closures, verification results, dispatch checks, approval decisions and decided
  requests stay as they are; a change in a terminal status keeps that status and its request.
\<close>

theorem history_is_kept:
  assumes "runs_to d d'"
  shows "(\<exists>evs. audit_log d' = audit_log d @ evs \<and> list_all (clean_metadata \<circ> ae_metadata) evs) \<and>
     (locks_exclusive d \<longrightarrow> locks_exclusive d') \<and>
     (\<forall>j x. tget (closures d) j = Some x \<longrightarrow> tget (closures d') j = Some x) \<and>
     (\<forall>j x. tget (ver_results d) j = Some x \<longrightarrow> tget (ver_results d') j = Some x) \<and>
     (\<forall>j x. tget (elig_checks d) j = Some x \<longrightarrow> tget (elig_checks d') j = Some x) \<and>
     (\<forall>j x. tget (approval_decs d) j = Some x \<longrightarrow> tget (approval_decs d') j = Some x) \<and>
     (\<forall>j x. tget (approval_reqs d) j = Some x \<longrightarrow> ar_status x \<noteq> ArPending \<longrightarrow> tget (approval_reqs d') j = Some x) \<and>
     (\<forall>k c. tget (changes d) k = Some c \<longrightarrow> change_terminal (ch_status c) \<longrightarrow>
        (\<exists>c'. tget (changes d') k = Some c' \<and> ch_status c' = ch_status c \<and> frozen_request c' = frozen_request c))"
proof -
  note w = run_world [OF assms, unfolded world_grows_def table_within_def log_grows_def]
  have "\<exists>c'. tget (changes d') k = Some c' \<and> ch_status c' = ch_status c \<and> frozen_request c' = frozen_request c"
    if "tget (changes d) k = Some c" "change_terminal (ch_status c)" for k c
  proof -
    from w that(1) obtain c' where "tget (changes d') k = Some c'" "change_row_ok c c'" by blast
    moreover from that(2) have "ch_status c \<noteq> ChDraft" by (auto simp: change_terminal_def)
    ultimately show ?thesis
      using change_steps_final [OF _ that(2)] by (auto simp: change_row_ok_def)
  qed
  moreover have "tget (approval_reqs d') j = Some x" if "tget (approval_reqs d) j = Some x" "ar_status x \<noteq> ArPending" for j x
  proof -
    from w that(1) obtain x' where "tget (approval_reqs d') j = Some x'" "request_row_ok x x'" by blast
    with that(2) show ?thesis by (simp add: request_row_ok_def)
  qed
  ultimately show ?thesis using w by blast
qed

text \<open>A run that closes the verified change of the sample.\<close>

lemma closing_run:
  "\<exists>d' c'. runs_to closing_db d' \<and> tget (changes d') 30 = Some c' \<and> ch_status c' = ChClosed"
proof -
  obtain d' where r: "close_change 9 30 ''success'' ''ok'' None None None closing_db = Inr (d', 100)"
    using closing_sample by blast
  from r obtain c d1 i p actor vsum where c: "tget (changes closing_db) 30 = Some c" "gate_frame closing_db d1"
      "write_closure 9 30 c ''success'' ''ok'' actor None None i vsum d1 = Inr (d', 100)"
    by (rule close_change_stages)
  then have "tget (changes d1) 30 = Some c" by (simp add: gate_frame_def gate_tables_def)
  with c(3) obtain c' where "tget (changes d') 30 = Some c'" "ch_status c' = ChClosed"
    by (rule write_closure_effect)
  moreover from service_step.close [OF r] have "runs_to closing_db d'" by blast
  ultimately show ?thesis by blast
qed


theorem history_is_kept_witness:
  "\<exists>(d' :: db) evs. tget (changes d') 30 \<noteq> tget (changes closing_db) 30 \<and> audit_log d' = audit_log closing_db @ evs"
proof -
  obtain d' c' where r: "runs_to closing_db d'" "tget (changes d') 30 = Some c'" "ch_status c' = ChClosed"
    using closing_run by blast
  have s: "tget (changes closing_db) 30 = Some (sample_change ChVerified)" "ch_status (sample_change ChVerified) = ChVerified"
    by (simp_all add: closing_rows tget_def sample_change_def)
  then have "tget (changes d') 30 \<noteq> tget (changes closing_db) 30" using r by auto
  with history_is_kept [OF r(1)] show ?thesis by blast
qed

end
