(* ===== verification/Spec2Isabelle.thy ===== *)
theory Spec2Isabelle
  imports System Workflow_Validation
begin

text \<open>A model of the change-control plane; each theory says what it holds.\<close>

end
